(* ===== verification/Prelude.thy ===== *)
theory Prelude
  imports Complex_Main "HOL-Library.Char_ord"
begin

text \<open>
  What every component shares: the exceptions of the program as values, results that are either
  an exception or a value, the string normalisation \<open>str.strip().upper()\<close>, and the collection
  \<open>guards\<close> of facts that split the guards of an operation.
\<close>

named_theorems guards

section \<open>Exceptions and results\<close>

text \<open>\<open>ValidationError\<close> is pydantic's, \<open>BrokerError\<close> the broker's; \<open>OtherError\<close> carries
  the class name of an exception raised by code outside the repository.\<close>

datatype py_exc =
    ValidationError
  | ValueError
  | TypeError
  | AttributeError
  | BrokerError
  | OtherError string

type_synonym 'a result = "py_exc + 'a"

text \<open>Exceptions several components raise.\<close>

definition KeyError :: py_exc where "KeyError = OtherError ''KeyError''"
definition OverflowError :: py_exc where "OverflowError = OtherError ''OverflowError''"
definition RuntimeError :: py_exc where "RuntimeError = OtherError ''RuntimeError''"
definition SystemExit :: py_exc where "SystemExit = OtherError ''SystemExit''"

definition exc_name :: "py_exc \<Rightarrow> string" where
  "exc_name e = (case e of
      ValidationError \<Rightarrow> ''ValidationError''
    | ValueError \<Rightarrow> ''ValueError''
    | TypeError \<Rightarrow> ''TypeError''
    | AttributeError \<Rightarrow> ''AttributeError''
    | BrokerError \<Rightarrow> ''BrokerError''
    | OtherError n \<Rightarrow> n)"

definition bindR :: "'a result \<Rightarrow> ('a \<Rightarrow> 'b result) \<Rightarrow> 'b result" where
  "bindR m f = (case m of Inl e \<Rightarrow> Inl e | Inr x \<Rightarrow> f x)"

lemma bindR_simps [simp]: "bindR (Inl e) f = Inl e" "bindR (Inr x) f = f x"
  by (simp_all add: bindR_def)

lemma bindR_Inr_iff: "bindR m f = Inr y \<longleftrightarrow> (\<exists>x. m = Inr x \<and> f x = Inr y)"
  by (cases m) auto

lemma if_Inl_Inr [guards]:
  "(if c then Inl e else x) = Inr y \<longleftrightarrow> \<not> c \<and> x = Inr y"
  by simp

text \<open>A computation on a state that may raise.\<close>

definition bindW ::
  "('w \<Rightarrow> 'a result \<times> 'w) \<Rightarrow> ('a \<Rightarrow> 'w \<Rightarrow> 'b result \<times> 'w) \<Rightarrow> 'w \<Rightarrow> 'b result \<times> 'w" where
  "bindW m f w = (case m w of (Inl e, w') \<Rightarrow> (Inl e, w') | (Inr x, w') \<Rightarrow> f x w')"

definition raiseW :: "py_exc \<Rightarrow> 'w \<Rightarrow> 'a result \<times> 'w" where
  "raiseW e w = (Inl e, w)"

definition liftW :: "'a result \<Rightarrow> 'w \<Rightarrow> 'a result \<times> 'w" where
  "liftW r w = (r, w)"

lemma bindW_Inr:
  "bindW m f w = (Inr y, w2) \<longleftrightarrow> (\<exists>x w1. m w = (Inr x, w1) \<and> f x w1 = (Inr y, w2))"
  by (auto simp: bindW_def split: prod.splits sum.splits)

lemma bindW_cases:
  assumes "bindW m f w = (r, w2)"
  obtains e where "m w = (Inl e, w2)" "r = Inl e"
  | x w1 where "m w = (Inr x, w1)" "f x w1 = (r, w2)"
  using assms by (auto simp: bindW_def split: prod.splits sum.splits)

lemma bindW_simps [simp]:
  "m w = (Inl e, w1) \<Longrightarrow> bindW m f w = (Inl e, w1)"
  "m w = (Inr x, w1) \<Longrightarrow> bindW m f w = f x w1"
  by (simp_all add: bindW_def)

lemma raiseW_simp [simp]: "raiseW e w = (Inl e, w)"
  by (simp add: raiseW_def)

lemma liftW_simp [simp]: "liftW r w = (r, w)"
  by (simp add: liftW_def)

text \<open>A relation between the state before and after that every part of a computation keeps.\<close>

definition keepsW :: "('w \<Rightarrow> 'w \<Rightarrow> bool) \<Rightarrow> ('w \<Rightarrow> 'a result \<times> 'w) \<Rightarrow> bool" where
  "keepsW R m \<longleftrightarrow> (\<forall>w. R w (snd (m w)))"

lemma keepsWD: "keepsW R m \<Longrightarrow> m w = (r, w') \<Longrightarrow> R w w'"
  by (metis keepsW_def snd_conv)

lemma keepsW_pure [intro]: "reflp R \<Longrightarrow> keepsW R (raiseW e)" "reflp R \<Longrightarrow> keepsW R (liftW x)"
  by (simp_all add: keepsW_def reflp_def)

lemma keepsW_bind:
  assumes "transp R" "keepsW R m" "\<And>x. keepsW R (f x)"
  shows "keepsW R (bindW m f)"
  unfolding keepsW_def
proof
  fix w
  obtain r w1 where m: "m w = (r, w1)" by fastforce
  have 1: "R w w1" by (rule keepsWD [OF assms(2) m])
  show "R w (snd (bindW m f w))"
  proof (cases r)
    case (Inr x)
    have "R w1 (snd (f x w1))" using assms(3) by (simp add: keepsW_def)
    with 1 m Inr show ?thesis by (auto intro: transpD [OF assms(1)])
  qed (use 1 m in simp)
qed

text \<open>A list comprehension whose element constructor may raise: the first error wins.\<close>

fun map_result :: "('a \<Rightarrow> 'b result) \<Rightarrow> 'a list \<Rightarrow> 'b list result" where
  "map_result f [] = Inr []"
| "map_result f (x # xs) = bindR (f x) (\<lambda>y. bindR (map_result f xs) (\<lambda>ys. Inr (y # ys)))"

lemma map_result_Inr: "map_result f xs = Inr ys \<Longrightarrow> list_all2 (\<lambda>x y. f x = Inr y) xs ys"
  by (induction xs arbitrary: ys) (auto simp: bindR_Inr_iff)

lemma map_result_all:
  "map_result f xs = Inr ys \<Longrightarrow> (\<And>x y. f x = Inr y \<Longrightarrow> P y) \<Longrightarrow> \<forall>y \<in> set ys. P y"
  by (induction xs arbitrary: ys) (auto simp: bindR_Inr_iff)

lemma map_result_mem:
  "map_result f xs = Inr ys \<Longrightarrow> x \<in> set xs \<Longrightarrow> \<exists>y \<in> set ys. f x = Inr y"
  by (induction xs arbitrary: ys) (auto simp: bindR_Inr_iff)

text \<open>A loop that appends what is not \<open>None\<close>.\<close>

definition collect :: "('a \<Rightarrow> 'b option result) \<Rightarrow> 'a list \<Rightarrow> 'b list result" where
  "collect f xs = bindR (map_result f xs) (\<lambda>ys. Inr (List.map_filter id ys))"

lemma collect_Inr_mem:
  "collect f xs = Inr ys \<Longrightarrow> y \<in> set ys \<longleftrightarrow> (\<exists>x \<in> set xs. f x = Inr (Some y))"
proof (induction xs arbitrary: ys)
  case (Cons x xs)
  then show ?case
    by (fastforce simp: collect_def bindR_Inr_iff List.map_filter_def split: option.splits if_splits)
qed (simp add: collect_def List.map_filter_def)

section \<open>Strings\<close>

text \<open>Tickers, sides and tokens are ASCII text; a \<open>char\<close> is its code.\<close>

definition is_space :: "char \<Rightarrow> bool" where
  "is_space c = (let n = of_char c :: nat in 9 \<le> n \<and> n \<le> 13 \<or> 28 \<le> n \<and> n \<le> 32)"

definition upper_char :: "char \<Rightarrow> char" where
  "upper_char c = (let n = of_char c :: nat in if 97 \<le> n \<and> n \<le> 122 then char_of (n - 32) else c)"

definition lower_char :: "char \<Rightarrow> char" where
  "lower_char c = (let n = of_char c :: nat in if 65 \<le> n \<and> n \<le> 90 then char_of (n + 32) else c)"

definition py_upper :: "string \<Rightarrow> string" where
  "py_upper s = map upper_char s"

definition py_lower :: "string \<Rightarrow> string" where
  "py_lower s = map lower_char s"

definition py_strip :: "string \<Rightarrow> string" where
  "py_strip s = rev (dropWhile is_space (rev (dropWhile is_space s)))"

lemma of_upper_char: "(of_char (upper_char c) :: nat) = (let n = of_char c in if 97 \<le> n \<and> n \<le> 122 then n - 32 else n)"
  by (auto simp: upper_char_def Let_def)

lemma upper_char_idem [simp]: "upper_char (upper_char c) = upper_char c"
  unfolding upper_char_def [of "upper_char c"] by (auto simp: of_upper_char Let_def)

lemma is_space_upper [simp]: "is_space (upper_char c) = is_space c"
  by (auto simp: is_space_def of_upper_char Let_def)

lemma py_upper_idem [simp]: "py_upper (py_upper s) = py_upper s"
  by (simp add: py_upper_def comp_def)

lemma dropWhile_upper: "dropWhile is_space (map upper_char s) = map upper_char (dropWhile is_space s)"
  by (simp add: dropWhile_map comp_def)

lemma strip_upper: "py_strip (py_upper s) = py_upper (py_strip s)"
  by (simp add: py_strip_def py_upper_def dropWhile_upper rev_map)

lemma dropWhile_rev_dropWhile:
  "dropWhile P (rev (dropWhile P (rev (dropWhile P s)))) = rev (dropWhile P (rev (dropWhile P s)))"
proof (cases "dropWhile P s")
  case Nil
  show ?thesis unfolding Nil by simp
next
  case (Cons x xs)
  then have "\<not> P x" using hd_dropWhile [of P s] by auto
  then have "dropWhile P (rev (x # xs)) = dropWhile P (rev xs) @ [x] \<or>
      (\<exists>ys. dropWhile P (rev (x # xs)) = ys @ [x])"
    by (cases "\<forall>y \<in> set (rev xs). P y") (auto simp: dropWhile_append)
  then obtain ys where "dropWhile P (rev (x # xs)) = ys @ [x]" by blast
  with Cons \<open>\<not> P x\<close> show ?thesis by simp
qed

lemma py_strip_idem [simp]: "py_strip (py_strip s) = py_strip s"
  by (simp add: py_strip_def dropWhile_rev_dropWhile)

text \<open>The normal form of a ticker: \<open>v.strip().upper()\<close>.\<close>

definition norm_ticker :: "string \<Rightarrow> string" where
  "norm_ticker s = py_upper (py_strip s)"

lemma norm_ticker_idem [simp]: "norm_ticker (norm_ticker s) = norm_ticker s"
  by (simp add: norm_ticker_def strip_upper)

lemma norm_ticker_upper [simp]: "norm_ticker (py_upper s) = norm_ticker s"
  by (simp add: norm_ticker_def strip_upper)

end
