(* ===== verification/Rounding.thy ===== *)
theory Rounding
  imports Complex_Main "HOL-Library.Log_Nat"
begin

text \<open>
  Rounded arithmetic. Python's \<open>decimal.Decimal\<close> (28 significant decimal digits) and its
  \<open>float\<close> (53 significant bits) both return the exact result rounded half-to-even to a fixed
  number of digits of a base. The value of such a number is a rational, so one executable
  rounding function \<open>rnd\<close>, with the base, the precision and the least exponent as parameters,
  models both.
\<close>

section \<open>Rounding half-to-even to an integer\<close>

definition rhe :: "rat \<Rightarrow> int" where
  "rhe x = (let f = \<lfloor>x\<rfloor>; d = x - of_int f in
     if d < 1 / 2 then f else if 1 / 2 < d then f + 1 else if even f then f else f + 1)"

lemma rhe_of_int [simp]: "rhe (of_int n) = n"
  by (simp add: rhe_def)

lemma rhe_numeral [simp]: "rhe (numeral n) = numeral n" "rhe 0 = 0" "rhe 1 = 1"
  using rhe_of_int [of "numeral n"] rhe_of_int [of 0] rhe_of_int [of 1] by simp_all

lemma rhe_floor_cases: "rhe x = \<lfloor>x\<rfloor> \<or> rhe x = \<lfloor>x\<rfloor> + 1"
  by (simp add: rhe_def Let_def)

lemma rhe_error: "\<bar>of_int (rhe x) - x\<bar> \<le> 1 / 2"
proof -
  have "of_int \<lfloor>x\<rfloor> \<le> x" "x < of_int \<lfloor>x\<rfloor> + 1" by linarith+
  then show ?thesis by (auto simp: rhe_def Let_def)
qed

lemma rhe_unique:
  assumes "\<bar>x - of_int n\<bar> < 1 / 2" shows "rhe x = n"
proof -
  have "\<bar>of_int (rhe x) - (of_int n :: rat)\<bar> < 1"
    using rhe_error [of x] assms unfolding abs_le_iff abs_less_iff by linarith
  then have "\<bar>rhe x - n\<bar> < 1" by (metis of_int_1 of_int_abs of_int_diff of_int_less_iff)
  then show ?thesis by simp
qed

lemma rhe_mono:
  assumes "x \<le> y" shows "rhe x \<le> rhe y"
proof (cases "\<lfloor>x\<rfloor> = \<lfloor>y\<rfloor>")
  case True
  with assms show ?thesis by (auto simp: rhe_def Let_def)
next
  case False
  with floor_mono [OF assms] have "\<lfloor>x\<rfloor> + 1 \<le> \<lfloor>y\<rfloor>" by linarith
  with rhe_floor_cases [of x] rhe_floor_cases [of y] show ?thesis by linarith
qed

lemma rhe_le_int: "x \<le> of_int n \<Longrightarrow> rhe x \<le> n"
  using rhe_mono [of x "of_int n"] by simp

lemma rhe_ge_int: "of_int n \<le> x \<Longrightarrow> n \<le> rhe x"
  using rhe_mono [of "of_int n" x] by simp

lemma rhe_minus [simp]: "rhe (- x) = - rhe x"
proof (cases "x = of_int \<lfloor>x\<rfloor>")
  case True
  then obtain n where "x = of_int n" by blast
  then show ?thesis using rhe_of_int [of "- n"] by simp
next
  case False
  then have "\<lceil>x\<rceil> = \<lfloor>x\<rfloor> + 1" by (metis ceiling_altdef)
  then have f: "\<lfloor>- x\<rfloor> = - \<lfloor>x\<rfloor> - 1" by (simp add: ceiling_def)
  show ?thesis by (auto simp: rhe_def Let_def f)
qed

section \<open>Powers with an integer exponent\<close>

lemma powi_mono: "1 < b \<Longrightarrow> m \<le> n \<Longrightarrow> of_nat b powi m \<le> (of_nat b :: rat) powi n"
  by (rule power_int_increasing) auto

lemma powi_strict_mono: "1 < b \<Longrightarrow> m < n \<Longrightarrow> of_nat b powi m < (of_nat b :: rat) powi n"
  by (rule power_int_strict_increasing) auto

lemma powi_le_imp: "1 < b \<Longrightarrow> of_nat b powi m \<le> (of_nat b :: rat) powi n \<Longrightarrow> m \<le> n"
  by (meson linorder_not_le powi_strict_mono)

lemma powi_less_imp: "1 < b \<Longrightarrow> of_nat b powi m < (of_nat b :: rat) powi n \<Longrightarrow> m < n"
  by (meson linorder_not_le powi_mono)

lemma powi_pos [simp]: "0 < b \<Longrightarrow> 0 < (of_nat b :: rat) powi n"
  by (simp add: zero_less_power_int)

lemma powi_add: "0 < b \<Longrightarrow> (of_nat b :: rat) powi (m + n) = of_nat b powi m * of_nat b powi n"
  by (simp add: power_int_add)

lemma powi_diff: "0 < b \<Longrightarrow> (of_nat b :: rat) powi (m - n) = of_nat b powi m / of_nat b powi n"
  by (simp add: power_int_diff)

lemma powi_Int: "0 \<le> n \<Longrightarrow> \<exists>k. (of_nat b :: rat) powi n = of_int k"
  by (intro exI [of _ "int b ^ nat n"]) (simp add: power_int_def)

lemma powi_div_Int:
  assumes "0 < b" "n \<le> m" shows "\<exists>k. (of_nat b :: rat) powi m / of_nat b powi n = of_int k"
  using powi_Int [of "m - n" b] assms by (simp add: power_int_diff)

section \<open>The position of the leading digit\<close>

definition expo :: "nat \<Rightarrow> rat \<Rightarrow> int" where
  "expo b x = (case quotient_of x of (n, d) \<Rightarrow>
     let k = int (floorlog b (nat n)) - int (floorlog b (nat d))
     in if of_nat b powi k \<le> x then k else k - 1)"

lemma floorlog_powi:
  assumes "1 < b" "0 < n"
  shows "(of_nat b :: rat) powi (int (floorlog b (nat n)) - 1) \<le> of_int n"
    and "of_int n < (of_nat b :: rat) powi int (floorlog b (nat n))"
proof -
  let ?l = "floorlog b (nat n)"
  have l: "b ^ (?l - 1) \<le> nat n" "nat n < b ^ ?l"
    using floorlog_bounds [of "nat n" b] assms by auto
  have "0 < ?l" using assms l(2) by (cases ?l) auto
  then have "(of_nat b :: rat) powi (int ?l - 1) = of_nat (b ^ (?l - 1))"
    by (simp add: power_int_def nat_diff_distrib)
  also have "\<dots> \<le> of_nat (nat n)" using l(1) of_nat_le_iff by blast
  finally show "(of_nat b :: rat) powi (int ?l - 1) \<le> of_int n" using assms by simp
  have "of_nat (nat n) < (of_nat (b ^ ?l) :: rat)" using l(2) of_nat_less_iff by blast
  then show "of_int n < (of_nat b :: rat) powi int ?l" using assms by simp
qed

lemma expo_bounds:
  assumes b: "1 < b" and x: "0 < x"
  shows "of_nat b powi expo b x \<le> x" and "x < of_nat b powi (expo b x + 1)"
proof -
  obtain n d where q: "quotient_of x = (n, d)" by (cases "quotient_of x")
  let ?N = "int (floorlog b (nat n))" and ?D = "int (floorlog b (nat d))" and ?k = "int (floorlog b (nat n)) - int (floorlog b (nat d))"
  let ?B = "of_nat b :: rat"
  have d: "0 < d" using quotient_of_denom_pos [OF q] .
  have xq: "x = of_int n / of_int d" using quotient_of_div [OF q] .
  then have n: "0 < n" using x d by (simp add: zero_less_divide_iff)
  have "x < ?B powi ?N / ?B powi (?D - 1)"
    unfolding xq using floorlog_powi [OF b n] floorlog_powi [OF b d] n d b
    by (intro frac_less) auto
  also have "\<dots> = ?B powi (?N - (?D - 1))" using b by (intro powi_diff [symmetric]) simp
  also have "?N - (?D - 1) = ?k + 1" by simp
  finally have hi: "x < ?B powi (?k + 1)" .
  have "?B powi (?N - 1) / ?B powi ?D \<le> x"
    unfolding xq using floorlog_powi [OF b n] floorlog_powi [OF b d] n d b
    by (intro frac_le) auto
  then have "?B powi (?N - 1 - ?D) \<le> x"
    using powi_diff [of b "?N - 1" ?D] b by simp
  moreover have "?N - 1 - ?D = ?k - 1" by simp
  ultimately have lo: "?B powi (?k - 1) \<le> x" by metis
  have e: "expo b x = (if ?B powi ?k \<le> x then ?k else ?k - 1)"
    by (simp add: expo_def q Let_def)
  show "?B powi expo b x \<le> x" "x < ?B powi (expo b x + 1)"
    using hi lo by (auto simp: e)
qed

lemma expo_eqI:
  assumes b: "1 < b" and lo: "of_nat b powi e \<le> x" and hi: "x < of_nat b powi (e + 1)"
  shows "expo b x = e"
proof -
  have x: "0 < x" using lo powi_pos [of b e] b by linarith
  have "expo b x < e + 1"
    using expo_bounds(1) [OF b x] hi by (intro powi_less_imp [OF b]) linarith
  moreover have "e < expo b x + 1"
    using expo_bounds(2) [OF b x] lo by (intro powi_less_imp [OF b]) linarith
  ultimately show ?thesis by simp
qed

lemma expo_mono:
  assumes b: "1 < b" and x: "0 < x" "x \<le> y" shows "expo b x \<le> expo b y"
proof -
  have "expo b x < expo b y + 1"
    using expo_bounds [OF b x(1)] expo_bounds [OF b, of y] x
    by (intro powi_less_imp [OF b]) linarith
  then show ?thesis by simp
qed

lemma expo_powi: "1 < b \<Longrightarrow> expo b (of_nat b powi e) = e"
  by (rule expo_eqI) (simp_all add: powi_strict_mono)

section \<open>Rounding to \<open>p\<close> digits of base \<open>b\<close>\<close>

text \<open>\<open>qexp\<close> is the exponent of the unit in the last place; \<open>emin\<close> bounds it from below
  where the format has a subnormal range.\<close>

definition qexp :: "nat \<Rightarrow> nat \<Rightarrow> int option \<Rightarrow> rat \<Rightarrow> int" where
  "qexp b p emin x =
     (let e = expo b \<bar>x\<bar> - (int p - 1) in case emin of None \<Rightarrow> e | Some m \<Rightarrow> max e m)"

definition in_range :: "int option \<Rightarrow> int \<Rightarrow> bool" where
  "in_range emin e = (case emin of None \<Rightarrow> True | Some m \<Rightarrow> m \<le> e)"

lemma qexp_ge: "expo b \<bar>x\<bar> - (int p - 1) \<le> qexp b p emin x"
  by (simp add: qexp_def Let_def split: option.split)

lemma qexp_in_range: "in_range emin (qexp b p emin x)"
  by (simp add: qexp_def in_range_def Let_def split: option.split)

lemma qexp_above:
  "in_range emin e \<Longrightarrow> e < qexp b p emin x \<Longrightarrow> qexp b p emin x = expo b \<bar>x\<bar> - (int p - 1)"
  by (auto simp: qexp_def in_range_def Let_def max_def split: option.splits if_splits)

lemma qexp_mono:
  assumes "1 < b" "0 < x" "x \<le> y" shows "qexp b p emin x \<le> qexp b p emin y"
  using expo_mono [OF assms] assms by (auto simp: qexp_def Let_def le_max_iff_disj split: option.split)

definition rnd :: "nat \<Rightarrow> nat \<Rightarrow> int option \<Rightarrow> rat \<Rightarrow> rat" where
  "rnd b p emin x =
     (if x = 0 then 0
      else let q = of_nat b powi qexp b p emin x in of_int (rhe (x / q)) * q)"

lemma rnd_zero [simp]: "rnd b p emin 0 = 0"
  by (simp add: rnd_def)

lemma rnd_minus [simp]: "rnd b p emin (- x) = - rnd b p emin x"
  by (simp add: rnd_def qexp_def Let_def)

lemma rnd_error:
  assumes "1 < b"
  shows "\<bar>rnd b p emin x - x\<bar> \<le> of_nat b powi qexp b p emin x / 2"
proof (cases "x = 0")
  case True
  then show ?thesis using assms by (simp add: less_imp_le)
next
  case False
  let ?q = "of_nat b powi qexp b p emin x :: rat"
  have q: "0 < ?q" using assms by simp
  have "rnd b p emin x - x = (of_int (rhe (x / ?q)) - x / ?q) * ?q"
    using False q assms by (simp add: rnd_def Let_def field_simps)
  then have "\<bar>rnd b p emin x - x\<bar> = \<bar>of_int (rhe (x / ?q)) - x / ?q\<bar> * ?q"
    using q by (simp add: abs_mult)
  also have "\<dots> \<le> 1 / 2 * ?q" using rhe_error q by (intro mult_right_mono) auto
  finally show ?thesis by simp
qed

lemma rnd_nonneg: "1 < b \<Longrightarrow> 0 \<le> x \<Longrightarrow> 0 \<le> rnd b p emin x"
  using rhe_ge_int [of 0] by (auto simp: rnd_def Let_def)

lemma rnd_mono_pos:
  assumes b: "1 < b" and p: "0 < p" and xy: "0 < x" "x \<le> y"
  shows "rnd b p emin x \<le> rnd b p emin y"
proof -
  let ?B = "of_nat b :: rat" and ?ex = "qexp b p emin x" and ?ey = "qexp b p emin y"
  have le: "?ex \<le> ?ey" using qexp_mono [OF b xy] .
  have qx: "0 < ?B powi ?ex" and qy: "0 < ?B powi ?ey" using b by simp_all
  show ?thesis
  proof (cases "?ex = ?ey")
    case True
    have "x / ?B powi ?ex \<le> y / ?B powi ?ex" using xy qx by (simp add: divide_right_mono)
    from rhe_mono [OF this] show ?thesis
      using True xy qx by (simp add: rnd_def Let_def mult_right_mono)
  next
    case False
    with le have lt: "?ex < ?ey" by simp
    then have ey: "?ey = expo b y - (int p - 1)"
      using qexp_above [OF qexp_in_range lt] xy by simp
    then have elt: "expo b x < expo b y"
      using lt qexp_ge [of b x p emin] xy by simp
    let ?t = "?B powi expo b y"
    have t: "x \<le> ?t" "?t \<le> y"
      using expo_bounds(2) [OF b xy(1)] powi_mono [OF b, of "expo b x + 1" "expo b y"] elt
        expo_bounds(1) [OF b, of y] xy by linarith+
    obtain k where k: "?t / ?B powi ?ex = of_int k"
      using powi_div_Int [of b ?ex "expo b y"] b lt ey p by auto
    obtain l where l: "?t / ?B powi ?ey = of_int l"
      using powi_div_Int [of b ?ey "expo b y"] b ey p by auto
    have "rhe (x / ?B powi ?ex) \<le> k"
      using t(1) qx by (intro rhe_le_int) (simp flip: k add: divide_right_mono)
    then have "of_int (rhe (x / ?B powi ?ex)) * ?B powi ?ex \<le> of_int k * ?B powi ?ex"
      using qx by (simp add: mult_right_mono)
    also have "\<dots> = ?t" using b by (simp flip: k)
    also have "\<dots> = of_int l * ?B powi ?ey" using b by (simp flip: l)
    also have "l \<le> rhe (y / ?B powi ?ey)"
      using t(2) qy by (intro rhe_ge_int) (simp flip: l add: divide_right_mono)
    finally show ?thesis using xy qy by (simp add: rnd_def Let_def mult_right_mono)
  qed
qed

lemma rnd_mono:
  assumes b: "1 < b" and p: "0 < p" and xy: "x \<le> y"
  shows "rnd b p emin x \<le> rnd b p emin y"
proof -
  consider "0 < x" | "x \<le> 0" "0 \<le> y" | "y < 0" using xy by linarith
  then show ?thesis
  proof cases
    case 1
    then show ?thesis using rnd_mono_pos [OF b p _ xy] by simp
  next
    case 2
    then show ?thesis using rnd_nonneg [OF b, of "- x" p emin] rnd_nonneg [OF b, of y p emin] by simp
  next
    case 3
    then show ?thesis using rnd_mono_pos [OF b p, of "- y" "- x" emin] xy by simp
  qed
qed


subsection \<open>Representable numbers are not rounded\<close>

definition rep :: "nat \<Rightarrow> nat \<Rightarrow> int option \<Rightarrow> rat \<Rightarrow> bool" where
  "rep b p emin y \<longleftrightarrow>
     (\<exists>m e. y = of_int m * of_nat b powi e \<and> \<bar>m\<bar> \<le> int b ^ p \<and> in_range emin e)"

lemma repI: "y = of_int m * of_nat b powi e \<Longrightarrow> \<bar>m\<bar> \<le> int b ^ p \<Longrightarrow> in_range emin e \<Longrightarrow> rep b p emin y"
  by (auto simp: rep_def)

lemma rnd_IntI:
  assumes "0 < b" "x / of_nat b powi qexp b p emin x = of_int k"
  shows "rnd b p emin x = x"
proof (cases "x = 0")
  case False
  then have "rnd b p emin x = of_int k * of_nat b powi qexp b p emin x"
    by (simp add: rnd_def Let_def assms(2))
  also have "\<dots> = x" using assms(1) by (simp flip: assms(2))
  finally show ?thesis .
qed simp

lemma rep_rnd_eq:
  assumes b: "1 < b" and p: "0 < p" and y: "rep b p emin y"
  shows "rnd b p emin y = y"
proof (cases "y = 0")
  case False
  let ?B = "of_nat b :: rat" and ?Q = "qexp b p emin y"
  from y obtain m e where m: "y = of_int m * ?B powi e" "\<bar>m\<bar> \<le> int b ^ p" "in_range emin e"
    by (auto simp: rep_def)
  have e0: "0 < ?B powi e" using b by simp
  have ay: "\<bar>y\<bar> = of_int \<bar>m\<bar> * ?B powi e" using m(1) e0 by (simp add: abs_mult)
  show ?thesis
  proof (cases "?Q \<le> e")
    case True
    then obtain k where "?B powi e / ?B powi ?Q = of_int k" using powi_div_Int [of b ?Q e] b by auto
    then have "y / ?B powi ?Q = of_int (m * k)"
      by (subst m(1)) (simp flip: times_divide_eq_right)
    then show ?thesis using b by (intro rnd_IntI [of _ _ _ _ "m * k"]) simp_all
  next
    case Q: False
    then have Qe: "?Q = expo b \<bar>y\<bar> - (int p - 1)" "e + int p \<le> expo b \<bar>y\<bar>"
      using qexp_above [OF m(3), of b p y] by auto
    have "?B powi (e + int p) \<le> ?B powi expo b \<bar>y\<bar>" using powi_mono [OF b Qe(2)] .
    also have "\<dots> \<le> \<bar>y\<bar>" using expo_bounds(1) [OF b] False by simp
    finally have "?B ^ p \<le> of_int \<bar>m\<bar>"
      using e0 b by (simp add: ay powi_add)
    then have "int b ^ p \<le> \<bar>m\<bar>" by (metis of_int_le_iff of_int_of_nat_eq of_int_power)
    with m(2) have "\<bar>m\<bar> = int b ^ p" by simp
    then have ay': "\<bar>y\<bar> = ?B powi (e + int p)" using b by (simp add: ay powi_add)
    then have "?Q \<le> e + int p" using Qe p b by (simp add: expo_powi)
    then obtain k where "\<bar>y\<bar> / ?B powi ?Q = of_int k"
      using powi_div_Int [of b ?Q "e + int p"] b ay' by auto
    then have "y / ?B powi ?Q = of_int (if 0 \<le> y then k else - k)" by (auto simp: abs_if split: if_splits)
    then show ?thesis using b by (intro rnd_IntI) auto
  qed
qed simp

lemma rep_rnd:
  assumes b: "1 < b" and p: "0 < p" shows "rep b p emin (rnd b p emin x)"
proof (cases "x = 0")
  case True
  then show ?thesis by (intro repI [of _ 0 b "case emin of None \<Rightarrow> 0 | Some m \<Rightarrow> m"])
    (auto simp: in_range_def split: option.split)
next
  case False
  let ?B = "of_nat b :: rat" and ?Q = "qexp b p emin x"
  let ?m = "rhe (x / ?B powi ?Q)"
  have q: "0 < ?B powi ?Q" using b by simp
  have "expo b \<bar>x\<bar> + 1 \<le> int p + ?Q" using qexp_ge [of b x p emin] by simp
  then have "\<bar>x\<bar> \<le> ?B powi (int p + ?Q)"
    using expo_bounds(2) [OF b, of "\<bar>x\<bar>"] powi_mono [OF b] False by fastforce
  also have "\<dots> = ?B ^ p * ?B powi ?Q" using b by (simp add: powi_add)
  finally have "\<bar>x / ?B powi ?Q\<bar> \<le> of_int (int b ^ p)" using q by (simp add: field_simps abs_mult)
  then have "x / ?B powi ?Q \<le> of_int (int b ^ p)" "of_int (- (int b ^ p)) \<le> x / ?B powi ?Q"
    unfolding abs_le_iff by simp_all
  then have "\<bar>?m\<bar> \<le> int b ^ p"
    using rhe_le_int [of "x / ?B powi ?Q" "int b ^ p"] rhe_ge_int [of "- (int b ^ p)" "x / ?B powi ?Q"]
    by (auto simp: abs_le_iff)
  then show ?thesis using False by (intro repI [of _ ?m b ?Q]) (auto simp: rnd_def Let_def qexp_in_range)
qed

lemma rnd_idem: "1 < b \<Longrightarrow> 0 < p \<Longrightarrow> rnd b p emin (rnd b p emin x) = rnd b p emin x"
  by (simp add: rep_rnd rep_rnd_eq)

lemma rnd_rel_error:
  assumes b: "1 < b" and p: "0 < p"
  shows "\<bar>rnd b p None x - x\<bar> \<le> \<bar>x\<bar> / (2 * of_nat b ^ (p - 1))"
proof (cases "x = 0")
  case False
  let ?B = "of_nat b :: rat"
  have "qexp b p None x = expo b \<bar>x\<bar> - (int p - 1)" by (simp add: qexp_def)
  then have "?B powi qexp b p None x = ?B powi expo b \<bar>x\<bar> / ?B powi (int p - 1)"
    using powi_diff [of b] b by simp
  also have "?B powi (int p - 1) = ?B ^ (p - 1)" using p by (simp add: power_int_def nat_diff_distrib)
  also have "?B powi expo b \<bar>x\<bar> / ?B ^ (p - 1) \<le> \<bar>x\<bar> / ?B ^ (p - 1)"
    using expo_bounds(1) [OF b, of "\<bar>x\<bar>"] False b by (intro divide_right_mono) auto
  finally show ?thesis using rnd_error [OF b, of p None x] by (simp add: field_simps)
qed simp

section \<open>The interface of a rounding\<close>

text \<open>What the clients of rounded arithmetic rely on: the rounding is monotone, odd and leaves
  its own results alone. Comparisons with a value that needs no rounding then survive it.\<close>

locale rounding =
  fixes r :: "rat \<Rightarrow> rat"
  assumes mono: "x \<le> y \<Longrightarrow> r x \<le> r y"
    and odd: "r (- x) = - r x"
    and idem: "r (r x) = r x"
begin

lemma zero: "r 0 = 0"
  using odd [of 0] by simp

lemma nonneg: "0 \<le> x \<Longrightarrow> 0 \<le> r x"
  using mono [of 0 x] by (simp add: zero)

lemma nonpos: "x \<le> 0 \<Longrightarrow> r x \<le> 0"
  using mono [of x 0] by (simp add: zero)

lemma pos_imp: "0 < r x \<Longrightarrow> 0 < x"
  using nonpos [of x] by linarith

lemma le_fixed: "r L = L \<Longrightarrow> x \<le> L \<Longrightarrow> r x \<le> L"
  using mono [of x L] by simp

lemma ge_fixed: "r L = L \<Longrightarrow> L \<le> x \<Longrightarrow> L \<le> r x"
  using mono [of L x] by simp

lemma greater_fixed: "r L = L \<Longrightarrow> L < r x \<Longrightarrow> L < x"
  using le_fixed [of L x] by linarith

lemma less_fixed: "r L = L \<Longrightarrow> r x < L \<Longrightarrow> x < L"
  using ge_fixed [of L x] by linarith

lemma abs_round: "\<bar>r x\<bar> = r \<bar>x\<bar>"
  using nonneg [of x] nonpos [of x] odd [of x] by (cases "0 \<le> x") (auto simp: abs_if)

end

locale accurate_rounding = rounding +
  fixes u :: rat
  assumes u: "0 \<le> u" and error: "\<bar>r x - x\<bar> \<le> u * \<bar>x\<bar>"
begin

lemma upper: "0 \<le> x \<Longrightarrow> r x \<le> (1 + u) * x"
  using error [of x] by (simp add: algebra_simps abs_if split: if_splits)

lemma lower: "0 \<le> x \<Longrightarrow> (1 - u) * x \<le> r x"
  using error [of x] by (simp add: algebra_simps abs_if split: if_splits)

lemma pos: "u < 1 \<Longrightarrow> 0 < x \<Longrightarrow> 0 < r x"
  using lower [of x] mult_pos_pos [of "1 - u" x] by linarith

text \<open>A chain of \<open>n + 1\<close> roundings loses at most the factor \<open>(1 - u) ^ (n + 1)\<close>.\<close>

lemma lower_chain:
  assumes "0 \<le> y" "(1 - u) ^ n * y \<le> x" "u \<le> 1"
  shows "(1 - u) ^ Suc n * y \<le> r x"
proof -
  have "0 \<le> (1 - u) ^ n * y" using assms by simp
  with assms(2) have "0 \<le> x" by linarith
  have "(1 - u) ^ Suc n * y \<le> (1 - u) * x"
    using assms(2,3) by (simp add: mult.assoc mult_left_mono)
  also have "\<dots> \<le> r x" using lower [OF \<open>0 \<le> x\<close>] .
  finally show ?thesis .
qed

end

end
