(* ===== verification/PyDecimal.thy ===== *)
theory PyDecimal
  imports Rounding
begin

text \<open>
  Python's \<open>decimal.Decimal\<close> under the default context: precision 28, \<open>ROUND_HALF_EVEN\<close>.
  The literals and
  strings given to the constructor are kept exactly; every arithmetic operation, unary minus
  included, rounds its exact result; comparisons, \<open>min\<close>, \<open>max\<close> and \<open>int()\<close> are exact. The
  value of a \<open>Decimal\<close> is the rational it denotes. Overflow and underflow (magnitudes beyond
  \<open>10^999999\<close> and below \<open>10^-999999\<close>) are outside the model; a division is only modelled
  where the code has made the divisor non-zero.
\<close>

definition drnd :: "rat \<Rightarrow> rat" where
  "drnd x = rnd 10 28 None x"

definition dadd :: "rat \<Rightarrow> rat \<Rightarrow> rat" where
  "dadd x y = drnd (x + y)"

definition dsub :: "rat \<Rightarrow> rat \<Rightarrow> rat" where
  "dsub x y = drnd (x - y)"

definition dmul :: "rat \<Rightarrow> rat \<Rightarrow> rat" where
  "dmul x y = drnd (x * y)"

definition ddiv :: "rat \<Rightarrow> rat \<Rightarrow> rat" where
  "ddiv x y = drnd (x / y)"

definition dneg :: "rat \<Rightarrow> rat" where
  "dneg x = drnd (- x)"

definition dabs :: "rat \<Rightarrow> rat" where
  "dabs x = drnd \<bar>x\<bar>"

text \<open>\<open>sum(xs, Decimal("0"))\<close>: one rounded addition per element, from the left.\<close>

definition dsum :: "rat list \<Rightarrow> rat" where
  "dsum xs = foldl dadd 0 xs"

text \<open>\<open>int(d)\<close> truncates towards zero; \<open>d.to_integral_value()\<close> rounds half to even.\<close>

definition dint :: "rat \<Rightarrow> int" where
  "dint x = (if 0 \<le> x then \<lfloor>x\<rfloor> else \<lceil>x\<rceil>)"

definition dintegral :: "rat \<Rightarrow> int" where
  "dintegral x = rhe x"

text \<open>A number with at most 28 digits is exact.\<close>

definition dec_exact :: "rat \<Rightarrow> bool" where
  "dec_exact x \<longleftrightarrow> drnd x = x"

definition dec_u :: rat where "dec_u = 1 / (2 * 10 ^ 27)"

interpretation dec: accurate_rounding drnd dec_u
proof unfold_locales
  fix x y :: rat
  show "x \<le> y \<Longrightarrow> drnd x \<le> drnd y" unfolding drnd_def by (rule rnd_mono) auto
  show "drnd (- x) = - drnd x" by (simp add: drnd_def)
  show "drnd (drnd x) = drnd x" unfolding drnd_def by (rule rnd_idem) auto
  show "0 \<le> dec_u" by (simp add: dec_u_def)
  have "\<bar>drnd x - x\<bar> \<le> \<bar>x\<bar> / (2 * of_nat 10 ^ (28 - 1))"
    unfolding drnd_def by (rule rnd_rel_error) auto
  then show "\<bar>drnd x - x\<bar> \<le> dec_u * \<bar>x\<bar>" by (simp add: dec_u_def)
qed

lemma dec_u_le_one: "dec_u \<le> 1"
  by (simp add: dec_u_def)

lemma drnd_pos: "0 < x \<Longrightarrow> 0 < drnd x"
  by (rule dec.pos) (simp_all add: dec_u_def)

lemma drnd_zero [simp]: "drnd 0 = 0"
  by (rule dec.zero)

lemma drnd_exactI:
  assumes "y * 10 ^ k = of_int m" "\<bar>m\<bar> \<le> 10 ^ 28"
  shows "drnd y = y"
  unfolding drnd_def
proof (rule rep_rnd_eq)
  have "(of_nat 10 :: rat) powi (- int k) = 1 / 10 ^ k"
    by (simp add: power_int_minus divide_inverse)
  then have "y = of_int m * of_nat 10 powi (- int k)"
    by (simp flip: assms(1))
  then show "rep 10 28 None y"
    using assms(2) by (intro repI [of _ m 10 "- int k"]) (auto simp: in_range_def)
qed auto

lemma drnd_of_int: "\<bar>m\<bar> \<le> 10 ^ 28 \<Longrightarrow> drnd (of_int m) = of_int m"
  by (rule drnd_exactI [of _ 0 m]) auto

lemma drnd_one [simp]: "drnd 1 = 1"
  using drnd_of_int [of 1] by simp

lemma drnd_numeral [simp]: "(numeral n :: int) \<le> 10 ^ 28 \<Longrightarrow> drnd (numeral n) = numeral n"
  using drnd_of_int [of "numeral n"] by simp

lemma drnd_hundred [simp]: "drnd 100 = 100"
  by (rule drnd_numeral) simp

lemma dsum_Nil [simp]: "dsum [] = 0"
  by (simp add: dsum_def)

lemma foldl_dadd_nonneg: "0 \<le> a \<Longrightarrow> \<forall>x \<in> set xs. 0 \<le> x \<Longrightarrow> 0 \<le> foldl dadd a xs"
  by (induction xs arbitrary: a) (auto simp: dadd_def dec.nonneg)

lemma dsum_nonneg: "\<forall>x \<in> set xs. 0 \<le> x \<Longrightarrow> 0 \<le> dsum xs"
  by (simp add: dsum_def foldl_dadd_nonneg)

lemma foldl_dadd_replicate:
  "0 \<le> m \<Longrightarrow> 0 \<le> k \<Longrightarrow> m + int n * k \<le> 10 ^ 28 \<Longrightarrow>
   foldl dadd (of_int m) (replicate n (of_int k)) = of_int (m + int n * k)"
proof (induction n arbitrary: m)
  case (Suc n)
  have "dadd (of_int m) (of_int k) = of_int (m + k)"
    unfolding dadd_def using Suc.prems drnd_of_int [of "m + k"]
    by (simp add: algebra_simps) (smt (verit) mult_nonneg_nonneg of_nat_0_le_iff)
  moreover have "m + k + int n * k \<le> 10 ^ 28" using Suc.prems by (simp add: algebra_simps)
  ultimately show ?case using Suc.IH [of "m + k"] Suc.prems by (simp add: algebra_simps)
qed simp

lemma dsum_replicate:
  "0 \<le> k \<Longrightarrow> int n * k \<le> 10 ^ 28 \<Longrightarrow> dsum (replicate n (of_int k)) = of_int (int n * k)"
  using foldl_dadd_replicate [of 0 k n] by (simp add: dsum_def)

lemma dmul_nonneg: "0 \<le> x \<Longrightarrow> 0 \<le> y \<Longrightarrow> 0 \<le> dmul x y"
  by (simp add: dmul_def dec.nonneg)

lemma ddiv_nonneg: "0 \<le> x \<Longrightarrow> 0 \<le> y \<Longrightarrow> 0 \<le> ddiv x y"
  by (simp add: ddiv_def dec.nonneg)

lemma dadd_nonneg: "0 \<le> x \<Longrightarrow> 0 \<le> y \<Longrightarrow> 0 \<le> dadd x y"
  by (simp add: dadd_def dec.nonneg)

lemma dmul_mono: "0 \<le> z \<Longrightarrow> x \<le> y \<Longrightarrow> dmul x z \<le> dmul y z"
  by (simp add: dmul_def dec.mono mult_right_mono)

lemma ddiv_mono: "0 \<le> z \<Longrightarrow> x \<le> y \<Longrightarrow> ddiv x z \<le> ddiv y z"
  by (simp add: ddiv_def dec.mono divide_right_mono)

lemma dadd_mono: "x \<le> x' \<Longrightarrow> y \<le> y' \<Longrightarrow> dadd x y \<le> dadd x' y'"
  by (simp add: dadd_def dec.mono)

lemma dsub_mono: "x \<le> x' \<Longrightarrow> y' \<le> y \<Longrightarrow> dsub x y \<le> dsub x' y'"
  by (simp add: dsub_def dec.mono)

lemma dmul_zero [simp]: "dmul x 0 = 0" "dmul 0 x = 0"
  by (simp_all add: dmul_def)

lemma dint_nonneg: "0 \<le> x \<Longrightarrow> 0 \<le> dint x"
  by (simp add: dint_def)

lemma dint_le: "0 \<le> x \<Longrightarrow> of_int (dint x) \<le> x"
  by (simp add: dint_def)

lemma dint_of_int [simp]: "dint (of_int n) = n"
  by (simp add: dint_def)

end
