(* ===== verification/PyFloat.thy ===== *)
theory PyFloat
  imports Rounding
begin

text \<open>
  Python's \<open>float\<close>: an IEEE 754 double with round-half-even. A finite value is the rational it
  denotes; \<open>frnd\<close> rounds an exact result to 53 bits (with the subnormal range), and a result of
  magnitude \<open>2^1024\<close> or more is an infinity. Signed zeros are not distinguished: no code modelled
  here can observe them.
\<close>

definition frnd :: "rat \<Rightarrow> rat" where
  "frnd x = rnd 2 53 (Some (-1074)) x"

interpretation flt: rounding frnd
proof unfold_locales
  fix x y :: rat
  show "x \<le> y \<Longrightarrow> frnd x \<le> frnd y" unfolding frnd_def by (rule rnd_mono) auto
  show "frnd (- x) = - frnd x" by (simp add: frnd_def)
  show "frnd (frnd x) = frnd x" unfolding frnd_def by (rule rnd_idem) auto
qed

lemma frnd_zero [simp]: "frnd 0 = 0"
  by (rule flt.zero)

text \<open>A value with at most 53 bits is exact; in particular every integer up to \<open>2^53\<close>.\<close>

lemma frnd_exactI:
  assumes "x = of_int m * 2 powi e" "\<bar>m\<bar> \<le> 2 ^ 53" "-1074 \<le> e"
  shows "frnd x = x"
  unfolding frnd_def using assms by (intro rep_rnd_eq repI [of _ m 2 e]) (auto simp: in_range_def)

lemma frnd_of_int: "\<bar>m\<bar> \<le> 2 ^ 53 \<Longrightarrow> frnd (of_int m) = of_int m"
  by (rule frnd_exactI [of _ m 0]) auto

lemma frnd_numeral [simp]: "(numeral n :: int) \<le> 2 ^ 53 \<Longrightarrow> frnd (numeral n) = numeral n"
  using frnd_of_int [of "numeral n"] by simp

lemma frnd_one [simp]: "frnd 1 = 1"
  using frnd_of_int [of 1] by simp

datatype pyfloat = Fin rat | Inf bool | NaN \<comment> \<open>\<open>Inf True\<close> is negative\<close>

definition float_of :: "rat \<Rightarrow> pyfloat" where
  "float_of x = (let y = frnd x in if 2 ^ 1024 \<le> \<bar>y\<bar> then Inf (x < 0) else Fin y)"

fun f_less :: "pyfloat \<Rightarrow> pyfloat \<Rightarrow> bool" where
  "f_less (Fin x) (Fin y) = (x < y)"
| "f_less (Inf n) (Fin y) = n"
| "f_less (Fin x) (Inf n) = (\<not> n)"
| "f_less (Inf m) (Inf n) = (m \<and> \<not> n)"
| "f_less _ _ = False"

fun is_finite :: "pyfloat \<Rightarrow> bool" where
  "is_finite (Fin x) = True"
| "is_finite _ = False"

fun fin :: "pyfloat \<Rightarrow> rat" where
  "fin (Fin x) = x"
| "fin _ = 0"

lemma is_finite_iff: "is_finite x \<longleftrightarrow> x = Fin (fin x)"
  by (cases x) auto

lemma float_of_pos: "f_less (Fin 0) (float_of x) \<Longrightarrow> 0 < x"
  using flt.nonpos [of x] by (cases "0 < x") (auto simp: float_of_def Let_def split: if_splits)

text \<open>Below \<open>2^21\<close> a rounding moves a value by at most \<open>2^-32\<close>.\<close>

lemma frnd_error_small:
  assumes "0 \<le> x" "x \<le> 2 ^ 21"
  shows "\<bar>frnd x - x\<bar> \<le> 1 / 2 ^ 32"
proof (cases "x = 0")
  case False
  then have "0 < x" using assms by simp
  have "expo 2 x \<le> expo 2 (of_nat 2 powi 21)"
    using assms \<open>0 < x\<close> by (intro expo_mono) (simp_all add: power_int_def)
  also have "\<dots> = 21" by (rule expo_powi) simp
  finally have "qexp 2 53 (Some (-1074)) x \<le> - 31"
    using \<open>0 < x\<close> by (simp add: qexp_def)
  then have "(of_nat 2 :: rat) powi qexp 2 53 (Some (-1074)) x \<le> of_nat 2 powi (- 31)"
    by (intro powi_mono) simp_all
  also have "(of_nat 2 :: rat) powi (- 31) / 2 = 1 / 2 ^ 32" by (simp add: power_int_def power_one_over)
  finally show ?thesis using rnd_error [of 2 53 "Some (-1074)" x] by (simp add: frnd_def)
qed simp

lemma float_of_small: "0 \<le> x \<Longrightarrow> x \<le> 2 ^ 21 \<Longrightarrow> float_of x = Fin (frnd x)"
proof -
  assume x: "0 \<le> x" "x \<le> 2 ^ 21"
  have "frnd (2 ^ 21) = 2 ^ 21" by simp
  then have "0 \<le> frnd x" "frnd x \<le> 2 ^ 21"
    using flt.nonneg [OF x(1)] flt.le_fixed [OF _ x(2)] by blast+
  then have "\<bar>frnd x\<bar> < 2 ^ 22" by simp
  also have "(2 :: rat) ^ 22 \<le> 2 ^ 1024" by (rule power_increasing) simp_all
  finally show ?thesis by (simp add: float_of_def Let_def)
qed

section \<open>Two error bounds of the doubles\<close>

definition flt_u :: rat where "flt_u = 1 / 2 ^ 53"

definition flt_eta :: rat where "flt_eta = 1 / 2 ^ 1074"

lemma half_step: "(a :: rat) \<le> b + e \<Longrightarrow> z \<le> a / 2 \<Longrightarrow> 0 \<le> e \<Longrightarrow> z \<le> b / 2 + e"
  by linarith

lemma frnd_error: "0 \<le> x \<Longrightarrow> \<bar>frnd x - x\<bar> \<le> flt_u * x + flt_eta"
proof (cases "x = 0")
  case False
  assume "0 \<le> x"
  then have x: "0 < x" using False by simp
  let ?q = "qexp 2 53 (Some (-1074)) x"
  have p52: "(of_nat 2 :: rat) powi 52 = 2 ^ 52" by (simp add: power_int_def)
  have eta: "(of_nat 2 :: rat) powi (- 1074) = flt_eta"
    by (simp add: power_int_def flt_eta_def power_one_over)
  have u: "flt_u * x = x / 2 ^ 52 / 2" by (simp add: flt_u_def)
  have "(of_nat 2 :: rat) powi ?q \<le> x / 2 ^ 52 + flt_eta"
  proof (cases "expo 2 x - 52 \<le> - 1074")
    case True
    then have "?q = - 1074" using x by (simp add: qexp_def)
    then show ?thesis using x eta by simp
  next
    case f: False
    then have "?q = expo 2 x - 52" using x by (simp add: qexp_def)
    then have "(of_nat 2 :: rat) powi ?q = of_nat 2 powi expo 2 x / 2 ^ 52"
      by (simp only: powi_diff [of 2] p52)
    also have "\<dots> \<le> x / 2 ^ 52"
      using expo_bounds [of 2 x] x by (intro divide_right_mono) auto
    also have "\<dots> \<le> x / 2 ^ 52 + flt_eta" by (simp add: flt_eta_def)
    finally show ?thesis .
  qed
  moreover have "\<bar>frnd x - x\<bar> \<le> of_nat 2 powi ?q / 2"
    using rnd_error [of 2 53 "Some (-1074)" x] by (simp add: frnd_def)
  moreover have "0 \<le> flt_eta" by (simp add: flt_eta_def)
  ultimately show ?thesis unfolding u by (rule half_step)
qed (simp add: flt_eta_def)

lemma frnd_upper: "0 \<le> x \<Longrightarrow> frnd x \<le> (1 + flt_u) * x + flt_eta"
  using frnd_error [of x] by (simp add: distrib_right)

end
