(* ===== verification/RiskGate.thy ===== *)
theory RiskGate
  imports Prelude PyDecimal PyFloat
begin

text \<open>
  \<open>src/risk/gate.py\<close>: the hard-limit risk gate. The frozen pydantic models are records with a
  validating constructor \<open>mk_...\<close>; the gate's checks thread the list of violations and the
  audit metadata the way the methods of \<open>RiskGate\<close> append to \<open>violations\<close> and \<open>meta\<close>.
\<close>

section \<open>The data models\<close>

record trade_intent =
  ti_symbol :: string
  ti_side :: string
  ti_quantity :: rat
  ti_price :: rat
  ti_sector :: "string option"

definition mk_trade_intent ::
  "string \<Rightarrow> string \<Rightarrow> rat \<Rightarrow> rat \<Rightarrow> string option \<Rightarrow> trade_intent result" where
  "mk_trade_intent symbol side quantity price sector =
     (if symbol = [] \<or> norm_ticker symbol = [] then Inl ValidationError
      else if py_lower (py_strip side) \<notin> {''buy'', ''sell''} then Inl ValidationError
      else if quantity < 0 then Inl ValidationError
      else if price \<le> 0 then Inl ValidationError
      else Inr \<lparr>ti_symbol = norm_ticker symbol, ti_side = py_lower (py_strip side),
                ti_quantity = quantity, ti_price = price, ti_sector = sector\<rparr>)"

definition notional :: "trade_intent \<Rightarrow> rat" where
  "notional i = dmul (ti_quantity i) (ti_price i)"

record position =
  p_symbol :: string
  p_quantity :: rat
  p_avg_price :: rat
  p_sector :: "string option"

definition mk_position :: "string \<Rightarrow> rat \<Rightarrow> rat \<Rightarrow> string option \<Rightarrow> position result" where
  "mk_position symbol quantity avg_price sector =
     (if symbol = [] \<or> norm_ticker symbol = [] then Inl ValidationError
      else if quantity < 0 then Inl ValidationError
      else if avg_price \<le> 0 then Inl ValidationError
      else Inr \<lparr>p_symbol = norm_ticker symbol, p_quantity = quantity,
                p_avg_price = avg_price, p_sector = sector\<rparr>)"

record portfolio_state =
  total_equity :: rat
  ps_cash :: rat
  positions :: "position list"
  daily_pnl :: rat
  peak_equity :: rat

definition mk_portfolio_state ::
  "rat \<Rightarrow> rat \<Rightarrow> position list \<Rightarrow> rat \<Rightarrow> rat \<Rightarrow> portfolio_state result" where
  "mk_portfolio_state equity cash pos pnl peak =
     (if equity \<le> 0 \<or> cash < 0 \<or> peak \<le> 0 then Inl ValidationError
      else if peak < equity then Inl ValidationError
      else Inr \<lparr>total_equity = equity, ps_cash = cash, positions = pos,
                daily_pnl = pnl, peak_equity = peak\<rparr>)"

record risk_limits =
  max_dd_pct :: rat
  max_position_pct :: rat
  max_sector_pct :: rat
  max_daily_loss_pct :: rat
  leverage_max :: rat
  allow_short :: bool

definition pct_ok :: "rat \<Rightarrow> bool" where
  "pct_ok x \<longleftrightarrow> 0 < x \<and> x \<le> 100"

definition mk_risk_limits ::
  "rat \<Rightarrow> rat \<Rightarrow> rat \<Rightarrow> rat \<Rightarrow> rat \<Rightarrow> bool \<Rightarrow> risk_limits result" where
  "mk_risk_limits dd pos sec loss lev short =
     (if pct_ok dd \<and> pct_ok pos \<and> pct_ok sec \<and> pct_ok loss \<and> 1 \<le> lev \<and> lev \<le> 2
      then Inr \<lparr>max_dd_pct = dd, max_position_pct = pos, max_sector_pct = sec,
                max_daily_loss_pct = loss, leverage_max = lev, allow_short = short\<rparr>
      else Inl ValidationError)"

text \<open>A violation is the message of the code with the values it prints.\<close>

datatype violation =
    RISK_MARKET_ORDER_NO_QUOTE
  | RISK_POSITION_INVALID_STATE
  | RISK_POSITION rat rat rat
  | RISK_SECTOR string rat rat rat
  | RISK_DAILY_LOSS rat rat rat
  | RISK_DD_INVALID_STATE
  | RISK_DD rat rat

datatype meta_val = MFloat rat | MStr string

type_synonym gate_meta = "string \<rightharpoonup> meta_val"
type_synonym gate_acc = "violation list \<times> gate_meta"

record risk_decision =
  allowed :: bool
  violations :: "violation list"
  meta :: gate_meta

definition mk_risk_decision :: "bool \<Rightarrow> violation list \<Rightarrow> gate_meta \<Rightarrow> risk_decision result" where
  "mk_risk_decision a vs m =
     (if a \<and> vs \<noteq> [] then Inl ValidationError
      else Inr \<lparr>allowed = a, violations = vs, meta = m\<rparr>)"

section \<open>The gate\<close>

text \<open>\<open>float(d)\<close> of a \<open>Decimal\<close> is the nearest double.\<close>

definition to_float :: "rat \<Rightarrow> rat" where
  "to_float x = frnd x"

definition add_violation :: "violation \<Rightarrow> gate_acc \<Rightarrow> gate_acc" where
  "add_violation v acc = (fst acc @ [v], snd acc)"

definition put_meta :: "string \<Rightarrow> meta_val \<Rightarrow> gate_acc \<Rightarrow> gate_acc" where
  "put_meta k x acc = (fst acc, (snd acc)(k \<mapsto> x))"

abbreviation put_float :: "string \<Rightarrow> rat \<Rightarrow> gate_acc \<Rightarrow> gate_acc" where
  "put_float k x \<equiv> put_meta k (MFloat (to_float x))"

lemma fst_add_violation [simp]: "fst (add_violation v acc) = fst acc @ [v]"
  by (simp add: add_violation_def)

lemma fst_put_meta [simp]: "fst (put_meta k x acc) = fst acc"
  by (simp add: put_meta_def)

definition held_qty :: "trade_intent \<Rightarrow> portfolio_state \<Rightarrow> rat" where
  "held_qty i s = dsum (map p_quantity (filter (\<lambda>p. p_symbol p = ti_symbol i) (positions s)))"

text \<open>Lines 326-344 of \<open>gate.py\<close>: the notional the trade adds to one name.\<close>

definition effective_notional :: "trade_intent \<Rightarrow> rat \<Rightarrow> rat" where
  "effective_notional i held =
     (if ti_side i = ''sell''
      then dmul (dsub (ti_quantity i) (min (ti_quantity i) held)) (ti_price i)
      else dmul (dadd held (ti_quantity i)) (ti_price i))"

definition position_meta :: "trade_intent \<Rightarrow> rat \<Rightarrow> gate_acc \<Rightarrow> gate_acc" where
  "position_meta i held acc =
     (if ti_side i = ''sell''
      then put_float ''short_qty'' (dsub (ti_quantity i) (min (ti_quantity i) held))
             (put_float ''trim_qty'' (min (ti_quantity i) held) acc)
      else put_float ''projected_qty'' (dadd held (ti_quantity i)) acc)"

definition check_position_size ::
  "risk_limits \<Rightarrow> trade_intent \<Rightarrow> portfolio_state \<Rightarrow> gate_acc \<Rightarrow> gate_acc" where
  "check_position_size lims i s acc =
     (if total_equity s \<le> 0 then add_violation RISK_POSITION_INVALID_STATE acc
      else
        let held = held_qty i s;
            acc = position_meta i held (put_float ''existing_qty'' held acc);
            eff = effective_notional i held
        in if eff \<le> 0 then put_float ''position_pct'' 0 acc
           else
             let pct = dmul (ddiv eff (total_equity s)) 100;
                 acc = put_float ''position_pct'' pct acc
             in if max_position_pct lims < pct
                then add_violation (RISK_POSITION eff pct (max_position_pct lims)) acc
                else acc)"

definition held_in_sector :: "string \<Rightarrow> trade_intent \<Rightarrow> portfolio_state \<Rightarrow> rat" where
  "held_in_sector sec i s =
     dsum (map p_quantity
       (filter (\<lambda>p. p_symbol p = ti_symbol i \<and> p_sector p = Some sec) (positions s)))"

definition sector_value :: "string \<Rightarrow> trade_intent \<Rightarrow> portfolio_state \<Rightarrow> rat" where
  "sector_value sec i s =
     dsum (map (\<lambda>p. dmul (p_quantity p) (ti_price i))
       (filter (\<lambda>p. p_sector p = Some sec) (positions s)))"

definition projected_sector_value :: "string \<Rightarrow> trade_intent \<Rightarrow> portfolio_state \<Rightarrow> rat" where
  "projected_sector_value sec i s =
     (let v = sector_value sec i s in
      if ti_side i = ''sell''
      then let trim = min (ti_quantity i) (held_in_sector sec i s);
               short = dsub (ti_quantity i) trim
           in dadd (dsub v (dmul trim (ti_price i))) (dmul short (ti_price i))
      else dadd v (notional i))"

definition sector_meta :: "string \<Rightarrow> trade_intent \<Rightarrow> portfolio_state \<Rightarrow> gate_acc \<Rightarrow> gate_acc" where
  "sector_meta sec i s acc =
     (if ti_side i = ''sell''
      then let trim = min (ti_quantity i) (held_in_sector sec i s)
           in put_float ''sector_short_qty'' (dsub (ti_quantity i) trim)
                (put_float ''sector_trim_qty'' trim acc)
      else acc)"

definition check_sector_exposure ::
  "risk_limits \<Rightarrow> trade_intent \<Rightarrow> portfolio_state \<Rightarrow> gate_acc \<Rightarrow> gate_acc" where
  "check_sector_exposure lims i s acc =
     (case ti_sector i of
        None \<Rightarrow> put_meta ''sector_check'' (MStr ''skipped: intent.sector is None'') acc
      | Some sec \<Rightarrow>
          let acc = sector_meta sec i s (put_meta ''sector_mark_basis'' (MStr ''intent.price'') acc);
              v = projected_sector_value sec i s;
              pct = dmul (ddiv v (total_equity s)) 100;
              acc = put_meta ''sector'' (MStr sec) (put_float ''sector_pct'' pct acc)
          in if max_sector_pct lims < pct
             then add_violation (RISK_SECTOR sec v pct (max_sector_pct lims)) acc
             else acc)"

definition check_daily_loss :: "risk_limits \<Rightarrow> portfolio_state \<Rightarrow> gate_acc \<Rightarrow> gate_acc" where
  "check_daily_loss lims s acc =
     (if 0 \<le> daily_pnl s then put_float ''daily_loss_pct'' 0 acc
      else
        let pct = dmul (ddiv (dneg (daily_pnl s)) (total_equity s)) 100;
            acc = put_float ''daily_loss_pct'' pct acc
        in if max_daily_loss_pct lims < pct
           then add_violation (RISK_DAILY_LOSS (daily_pnl s) pct (max_daily_loss_pct lims)) acc
           else acc)"

definition check_drawdown :: "risk_limits \<Rightarrow> portfolio_state \<Rightarrow> gate_acc \<Rightarrow> gate_acc" where
  "check_drawdown lims s acc =
     (if peak_equity s \<le> 0 then add_violation RISK_DD_INVALID_STATE acc
      else
        let pct = dmul (ddiv (dsub (peak_equity s) (total_equity s)) (peak_equity s)) 100;
            acc = put_float ''dd_pct'' pct acc
        in if max_dd_pct lims < pct
           then add_violation (RISK_DD pct (max_dd_pct lims)) acc
           else acc)"

definition placeholder_check :: "trade_intent \<Rightarrow> gate_acc \<Rightarrow> gate_acc" where
  "placeholder_check i acc =
     (if ti_price i = 1 \<and> 1 < ti_quantity i
      then add_violation RISK_MARKET_ORDER_NO_QUOTE acc else acc)"

definition evaluate ::
  "risk_limits \<Rightarrow> trade_intent \<Rightarrow> portfolio_state \<Rightarrow> risk_decision result" where
  "evaluate lims i s =
     (let acc = placeholder_check i ([], Map.empty);
          acc = check_position_size lims i s acc;
          acc = check_sector_exposure lims i s acc;
          acc = check_daily_loss lims s acc;
          acc = check_drawdown lims s acc
      in mk_risk_decision (fst acc = []) (fst acc) (snd acc))"

section \<open>Well-formed inputs\<close>

text \<open>What the validators guarantee of every object that exists.\<close>

definition wf_intent :: "trade_intent \<Rightarrow> bool" where
  "wf_intent i \<longleftrightarrow> ti_symbol i \<noteq> [] \<and> norm_ticker (ti_symbol i) = ti_symbol i \<and>
     ti_side i \<in> {''buy'', ''sell''} \<and> 0 \<le> ti_quantity i \<and> 0 < ti_price i"

definition wf_position :: "position \<Rightarrow> bool" where
  "wf_position p \<longleftrightarrow> p_symbol p \<noteq> [] \<and> norm_ticker (p_symbol p) = p_symbol p \<and>
     0 \<le> p_quantity p \<and> 0 < p_avg_price p"

definition wf_state :: "portfolio_state \<Rightarrow> bool" where
  "wf_state s \<longleftrightarrow> 0 < total_equity s \<and> 0 \<le> ps_cash s \<and> total_equity s \<le> peak_equity s \<and>
     (\<forall>p \<in> set (positions s). wf_position p)"

definition wf_limits :: "risk_limits \<Rightarrow> bool" where
  "wf_limits l \<longleftrightarrow> pct_ok (max_dd_pct l) \<and> pct_ok (max_position_pct l) \<and>
     pct_ok (max_sector_pct l) \<and> pct_ok (max_daily_loss_pct l) \<and>
     1 \<le> leverage_max l \<and> leverage_max l \<le> 2"

lemma mk_trade_intent_wf: "mk_trade_intent a b c d e = Inr i \<Longrightarrow> wf_intent i"
  by (auto simp: mk_trade_intent_def wf_intent_def split: if_splits)

lemma mk_position_wf: "mk_position a b c d = Inr p \<Longrightarrow> wf_position p"
  by (auto simp: mk_position_def wf_position_def split: if_splits)

lemma mk_portfolio_state_wf:
  "mk_portfolio_state a b ps d e = Inr s \<Longrightarrow> \<forall>p \<in> set ps. wf_position p \<Longrightarrow> wf_state s"
  by (auto simp: mk_portfolio_state_def wf_state_def split: if_splits)

lemma mk_risk_limits_wf: "mk_risk_limits a b c d e f = Inr l \<Longrightarrow> wf_limits l"
  by (auto simp: mk_risk_limits_def wf_limits_def split: if_splits)

section \<open>The violations as a function of the inputs\<close>

definition placeholder_violations :: "trade_intent \<Rightarrow> violation list" where
  "placeholder_violations i =
     (if ti_price i = 1 \<and> 1 < ti_quantity i then [RISK_MARKET_ORDER_NO_QUOTE] else [])"

definition share_of_equity :: "rat \<Rightarrow> portfolio_state \<Rightarrow> rat" where
  "share_of_equity x s = dmul (ddiv x (total_equity s)) 100"

definition position_violations :: "risk_limits \<Rightarrow> trade_intent \<Rightarrow> portfolio_state \<Rightarrow> violation list" where
  "position_violations lims i s =
     (let eff = effective_notional i (held_qty i s) in
      if total_equity s \<le> 0 then [RISK_POSITION_INVALID_STATE]
      else if 0 < eff \<and> max_position_pct lims < share_of_equity eff s
      then [RISK_POSITION eff (share_of_equity eff s) (max_position_pct lims)] else [])"

definition sector_violations :: "risk_limits \<Rightarrow> trade_intent \<Rightarrow> portfolio_state \<Rightarrow> violation list" where
  "sector_violations lims i s =
     (case ti_sector i of None \<Rightarrow> []
      | Some sec \<Rightarrow>
          (let v = projected_sector_value sec i s in
           if max_sector_pct lims < share_of_equity v s
           then [RISK_SECTOR sec v (share_of_equity v s) (max_sector_pct lims)] else []))"

definition daily_loss_violations :: "risk_limits \<Rightarrow> portfolio_state \<Rightarrow> violation list" where
  "daily_loss_violations lims s =
     (let pct = share_of_equity (dneg (daily_pnl s)) s in
      if daily_pnl s < 0 \<and> max_daily_loss_pct lims < pct
      then [RISK_DAILY_LOSS (daily_pnl s) pct (max_daily_loss_pct lims)] else [])"

definition drawdown_pct :: "portfolio_state \<Rightarrow> rat" where
  "drawdown_pct s = dmul (ddiv (dsub (peak_equity s) (total_equity s)) (peak_equity s)) 100"

definition drawdown_violations :: "risk_limits \<Rightarrow> portfolio_state \<Rightarrow> violation list" where
  "drawdown_violations lims s =
     (if peak_equity s \<le> 0 then [RISK_DD_INVALID_STATE]
      else if max_dd_pct lims < drawdown_pct s
      then [RISK_DD (drawdown_pct s) (max_dd_pct lims)] else [])"

definition gate_violations :: "risk_limits \<Rightarrow> trade_intent \<Rightarrow> portfolio_state \<Rightarrow> violation list" where
  "gate_violations lims i s =
     placeholder_violations i @ position_violations lims i s @ sector_violations lims i s @
     daily_loss_violations lims s @ drawdown_violations lims s"

lemma fst_meta_steps [simp]:
  "fst (position_meta i h acc) = fst acc" "fst (sector_meta sec i s acc) = fst acc"
  by (simp_all add: position_meta_def sector_meta_def Let_def)

lemma fst_checks:
  "fst (placeholder_check i acc) = fst acc @ placeholder_violations i"
  "fst (check_position_size lims i s acc) = fst acc @ position_violations lims i s"
  "fst (check_sector_exposure lims i s acc) = fst acc @ sector_violations lims i s"
  "fst (check_daily_loss lims s acc) = fst acc @ daily_loss_violations lims s"
  "fst (check_drawdown lims s acc) = fst acc @ drawdown_violations lims s"
  by (simp_all add: placeholder_check_def placeholder_violations_def check_position_size_def
      position_violations_def check_sector_exposure_def sector_violations_def check_daily_loss_def
      daily_loss_violations_def check_drawdown_def drawdown_violations_def drawdown_pct_def
      share_of_equity_def Let_def split: option.split)

definition evaluate_acc :: "risk_limits \<Rightarrow> trade_intent \<Rightarrow> portfolio_state \<Rightarrow> gate_acc" where
  "evaluate_acc lims i s =
     check_drawdown lims s (check_daily_loss lims s (check_sector_exposure lims i s
       (check_position_size lims i s (placeholder_check i ([], Map.empty)))))"

lemma fst_evaluate_acc: "fst (evaluate_acc lims i s) = gate_violations lims i s"
  by (simp add: evaluate_acc_def gate_violations_def fst_checks)

lemma evaluate_eq:
  "evaluate lims i s =
     Inr \<lparr>allowed = (gate_violations lims i s = []), violations = gate_violations lims i s,
          meta = snd (evaluate_acc lims i s)\<rparr>"
  unfolding evaluate_def Let_def evaluate_acc_def [symmetric] fst_evaluate_acc mk_risk_decision_def
  by simp

lemma evaluate_allowed:
  "evaluate lims i s = Inr d \<Longrightarrow> allowed d \<longleftrightarrow> gate_violations lims i s = []"
  by (auto simp: evaluate_eq)

lemma gate_violations_Nil:
  "gate_violations lims i s = [] \<longleftrightarrow>
     placeholder_violations i = [] \<and> position_violations lims i s = [] \<and>
     sector_violations lims i s = [] \<and> daily_loss_violations lims s = [] \<and>
     drawdown_violations lims s = []"
  by (auto simp: gate_violations_def)

section \<open>What an approval means in exact arithmetic\<close>

lemma one_minus_u: "0 \<le> 1 - dec_u" "0 \<le> (1 - dec_u) ^ n"
  using dec_u_le_one by simp_all

lemmas chain = dec.lower_chain [OF _ _ dec_u_le_one]

lemma foldl_dadd_lower:
  assumes "0 \<le> a" "0 \<le> c" "(1 - dec_u) ^ k * c \<le> a" "\<forall>x \<in> set xs. 0 \<le> x"
  shows "(1 - dec_u) ^ (k + length xs) * (c + sum_list xs) \<le> foldl dadd a xs"
  using assms
proof (induction xs arbitrary: a c k)
  case (Cons x xs)
  have x: "0 \<le> x" using Cons.prems by simp
  have "(1 - dec_u) ^ k * x \<le> x"
    using x one_minus_u dec.u by (intro mult_left_le_one_le) (auto intro: power_le_one)
  then have "(1 - dec_u) ^ k * (c + x) \<le> a + x" using Cons.prems(3) by (simp add: distrib_left)
  then have "(1 - dec_u) ^ Suc k * (c + x) \<le> dadd a x"
    unfolding dadd_def using Cons.prems x by (intro chain) auto
  then have "(1 - dec_u) ^ (Suc k + length xs) * ((c + x) + sum_list xs) \<le> foldl dadd (dadd a x) xs"
    using Cons.prems x by (intro Cons.IH) (auto intro: dadd_nonneg)
  then show ?case by (simp add: add.assoc)
qed simp

lemma dsum_lower:
  "\<forall>x \<in> set xs. 0 \<le> x \<Longrightarrow> (1 - dec_u) ^ length xs * sum_list xs \<le> dsum xs"
  using foldl_dadd_lower [of 0 0 0 xs] by (simp add: dsum_def)

lemma share_of_equity_lower:
  assumes "0 < total_equity s" "0 \<le> y" "(1 - dec_u) ^ n * y \<le> x"
  shows "(1 - dec_u) ^ (n + 2) * (y / total_equity s * 100) \<le> share_of_equity x s"
proof -
  have "(1 - dec_u) ^ n * (y / total_equity s) \<le> x / total_equity s"
    using assms by (simp add: divide_right_mono)
  then have h: "(1 - dec_u) ^ Suc n * (y / total_equity s) \<le> ddiv x (total_equity s)"
    unfolding ddiv_def using assms by (intro chain) auto
  have "(1 - dec_u) ^ Suc n * (y / total_equity s * 100) \<le> ddiv x (total_equity s) * 100"
    using mult_right_mono [OF h, of 100] by simp
  then have "(1 - dec_u) ^ Suc (Suc n) * (y / total_equity s * 100) \<le> dmul (ddiv x (total_equity s)) 100"
    unfolding dmul_def using assms by (intro chain) auto
  then show ?thesis by (simp add: share_of_equity_def)
qed


section \<open>A concrete account and order\<close>

text \<open>A concrete account and order, for the instances of the properties.\<close>

definition ex_limits :: risk_limits where
  "ex_limits = \<lparr>max_dd_pct = 25, max_position_pct = 5, max_sector_pct = 25,
     max_daily_loss_pct = 3, leverage_max = 1, allow_short = False\<rparr>"

definition ex_state :: portfolio_state where
  "ex_state = \<lparr>total_equity = 100000, ps_cash = 98200,
     positions = [\<lparr>p_symbol = ''SBER'', p_quantity = 20, p_avg_price = 90, p_sector = None\<rparr>],
     daily_pnl = -1000, peak_equity = 125000\<rparr>"

definition ex_buy :: trade_intent where
  "ex_buy = \<lparr>ti_symbol = ''SBER'', ti_side = ''buy'', ti_quantity = 10, ti_price = 100,
     ti_sector = None\<rparr>"

lemma ex_drnd [simp]: "drnd (3 / 100) = 3 / 100" "drnd (1 / 5) = 1 / 5" "drnd (1 / 100) = 1 / 100"
  by (rule drnd_exactI [of _ 2 3], simp, simp, rule drnd_exactI [of _ 1 2], simp, simp,
      rule drnd_exactI [of _ 2 1], simp, simp)

lemmas ex_defs = ex_limits_def ex_state_def ex_buy_def

lemma ex_wf: "wf_limits ex_limits" "wf_state ex_state" "wf_intent ex_buy"
  by (simp_all add: ex_defs wf_limits_def pct_ok_def wf_state_def wf_position_def wf_intent_def norm_ticker_def
     py_strip_def py_upper_def is_space_def upper_char_def)

lemma ex_approved: "gate_violations ex_limits ex_buy ex_state = []"
  by (simp add: gate_violations_Nil placeholder_violations_def position_violations_def
      sector_violations_def daily_loss_violations_def drawdown_violations_def drawdown_pct_def
      share_of_equity_def effective_notional_def held_qty_def dsum_def dadd_def dmul_def ddiv_def
      dsub_def dneg_def ex_defs)

section \<open>Properties of the gate\<close>

text \<open>The exact quantities the limits are about.\<close>

definition exact_held :: "trade_intent \<Rightarrow> portfolio_state \<Rightarrow> rat" where
  "exact_held i s = sum_list (map p_quantity (filter (\<lambda>p. p_symbol p = ti_symbol i) (positions s)))"

definition n_held :: "trade_intent \<Rightarrow> portfolio_state \<Rightarrow> nat" where
  "n_held i s = length (filter (\<lambda>p. p_symbol p = ti_symbol i) (positions s))"

lemma held_lower:
  assumes "wf_state s"
  shows "(1 - dec_u) ^ n_held i s * exact_held i s \<le> held_qty i s" "0 \<le> exact_held i s"
  using assms dsum_lower [of "map p_quantity (filter (\<lambda>p. p_symbol p = ti_symbol i) (positions s))"]
  by (auto simp: held_qty_def exact_held_def n_held_def wf_state_def wf_position_def
      intro!: sum_list_nonneg)

lemma held_nonneg: "wf_state s \<Longrightarrow> 0 \<le> held_qty i s"
  unfolding held_qty_def by (rule dsum_nonneg) (auto simp: wf_state_def wf_position_def)

text \<open>
  C5. The gate never raises, and it is fail-safe in both directions: it returns a decision that
  is allowed exactly when its list of violations is empty, and that list is the concatenation of
  the violations of the placeholder-price check and of all four limits (nothing is
  short-circuited, every limit that fires is reported).
\<close>

theorem gate_total_and_fail_safe:
  "\<exists>d. evaluate lims i s = Inr d \<and> (allowed d \<longleftrightarrow> violations d = []) \<and>
       violations d = placeholder_violations i @ position_violations lims i s @
         sector_violations lims i s @ daily_loss_violations lims s @ drawdown_violations lims s"
  by (simp add: evaluate_eq gate_violations_def)

text \<open>
  C1. An approved BUY respects the single-name limit in exact arithmetic: the true share of
  equity of the position after the trade (everything held in that symbol plus the order, at the
  order's price) is at most \<open>max_position_pct\<close>, up to the relative error \<open>dec_u = 5e-28\<close> of the
  \<open>n + 4\<close> rounded operations.
\<close>

theorem allowed_buy_within_position_limit:
  assumes "evaluate lims i s = Inr d" "allowed d" "ti_side i = ''buy''"
    and "wf_intent i" "wf_state s" "wf_limits lims"
  shows "(1 - dec_u) ^ (n_held i s + 4) *
           ((exact_held i s + ti_quantity i) * ti_price i / total_equity s * 100)
         \<le> max_position_pct lims"
proof -
  let ?n = "n_held i s" and ?Q = "exact_held i s + ti_quantity i" and ?q = "ti_quantity i"
  let ?proj = "dadd (held_qty i s) ?q" and ?eff = "effective_notional i (held_qty i s)"
  have pv: "position_violations lims i s = []"
    using assms(1,2) evaluate_allowed gate_violations_Nil by blast
  have q: "0 \<le> ?q" and price: "0 < ti_price i" and eq: "0 < total_equity s"
    using assms(4,5) by (auto simp: wf_intent_def wf_state_def)
  have Q: "0 \<le> ?Q" using held_lower(2) [OF assms(5)] q by simp
  have "(1 - dec_u) ^ ?n * ?q \<le> ?q"
    using q one_minus_u dec.u by (intro mult_left_le_one_le) (auto intro: power_le_one)
  then have "(1 - dec_u) ^ ?n * ?Q \<le> held_qty i s + ?q"
    using held_lower(1) [OF assms(5), of i] by (simp add: distrib_left)
  then have "(1 - dec_u) ^ Suc ?n * ?Q \<le> ?proj"
    unfolding dadd_def using Q by (intro chain)
  then have "(1 - dec_u) ^ Suc ?n * (?Q * ti_price i) \<le> ?proj * ti_price i"
    using price mult_right_mono [of _ ?proj "ti_price i"] by (simp add: mult.assoc [symmetric])
  then have eff: "(1 - dec_u) ^ Suc (Suc ?n) * (?Q * ti_price i) \<le> ?eff"
    using assms(3) Q price by (simp add: effective_notional_def dmul_def del: power_Suc) (intro chain, auto)
  have "0 \<le> ?Q * ti_price i" using Q price by simp
  note share_of_equity_lower [OF eq this eff]
  moreover have "Suc (Suc ?n) + 2 = ?n + 4" by simp
  ultimately have share:
    "(1 - dec_u) ^ (?n + 4) * (?Q * ti_price i / total_equity s * 100) \<le> share_of_equity ?eff s"
    by metis
  show ?thesis
  proof (cases "?Q = 0")
    case False
    with Q price have "0 < ?Q * ti_price i" by simp
    moreover have "0 < (1 - dec_u) ^ Suc (Suc ?n)" by (simp add: dec_u_def)
    ultimately have "0 < ?eff" using eff by (meson less_le_trans mult_pos_pos)
    with pv eq have "share_of_equity ?eff s \<le> max_position_pct lims"
      by (auto simp: position_violations_def Let_def split: if_splits)
    with share show ?thesis by linarith
  qed (use assms(6) in \<open>simp add: wf_limits_def pct_ok_def\<close>)
qed

theorem allowed_buy_within_position_limit_witness:
  "(1 - dec_u) ^ (n_held ex_buy ex_state + 4) *
     ((exact_held ex_buy ex_state + ti_quantity ex_buy) * ti_price ex_buy / total_equity ex_state * 100)
   \<le> max_position_pct ex_limits"
  by (rule allowed_buy_within_position_limit [OF evaluate_eq]) (simp_all add: ex_approved ex_wf, simp add: ex_defs)

text \<open>
  C2. The two kill-switches. After an approval the true drawdown from the peak is at most
  \<open>max_dd_pct\<close> and the true loss of the day is at most \<open>max_daily_loss_pct\<close> of equity, up to the
  relative error of the three rounded operations of each check.
\<close>

theorem allowed_within_kill_switches:
  assumes "evaluate lims i s = Inr d" "allowed d" "wf_state s" "wf_limits lims"
  shows "(1 - dec_u) ^ 3 * ((peak_equity s - total_equity s) / peak_equity s * 100) \<le> max_dd_pct lims
       \<and> (1 - dec_u) ^ 3 * (- daily_pnl s / total_equity s * 100) \<le> max_daily_loss_pct lims"
proof
  have v: "daily_loss_violations lims s = []" "drawdown_violations lims s = []"
    using assms(1,2) evaluate_allowed gate_violations_Nil by blast+
  have wf: "0 < total_equity s" "total_equity s \<le> peak_equity s"
    using assms(3) by (simp_all add: wf_state_def)
  let ?d = "peak_equity s - total_equity s"
  have d: "(1 - dec_u) ^ 1 * ?d \<le> dsub (peak_equity s) (total_equity s)"
    using dec.lower [of ?d] wf by (simp add: dsub_def)
  \<comment> \<open>the drawdown is a share of the peak: read it as one of a state whose equity is the peak\<close>
  have "(1 - dec_u) ^ (1 + 2) * (?d / peak_equity s * 100) \<le> drawdown_pct s"
    using share_of_equity_lower [of "s\<lparr>total_equity := peak_equity s\<rparr>" ?d 1, OF _ _ d] wf
    by (simp add: drawdown_pct_def share_of_equity_def)
  moreover have "drawdown_pct s \<le> max_dd_pct lims"
    using v(2) wf by (auto simp: drawdown_violations_def split: if_splits)
  ultimately show "(1 - dec_u) ^ 3 * (?d / peak_equity s * 100) \<le> max_dd_pct lims"
    by (simp add: eval_nat_numeral)
  show "(1 - dec_u) ^ 3 * (- daily_pnl s / total_equity s * 100) \<le> max_daily_loss_pct lims"
  proof (cases "daily_pnl s < 0")
    case True
    then have l: "(1 - dec_u) ^ 1 * (- daily_pnl s) \<le> dneg (daily_pnl s)"
      using dec.lower [of "- daily_pnl s"] by (simp add: dneg_def)
    have "(1 - dec_u) ^ (1 + 2) * (- daily_pnl s / total_equity s * 100)
          \<le> share_of_equity (dneg (daily_pnl s)) s"
      using True by (intro share_of_equity_lower wf l) simp
    moreover have "share_of_equity (dneg (daily_pnl s)) s \<le> max_daily_loss_pct lims"
      using v(1) True by (auto simp: daily_loss_violations_def Let_def split: if_splits)
    ultimately show ?thesis by (simp add: eval_nat_numeral)
  next
    case False
    then have "- daily_pnl s / total_equity s * 100 \<le> 0"
      using wf by (simp add: zero_le_divide_iff)
    then have "(1 - dec_u) ^ 3 * (- daily_pnl s / total_equity s * 100) \<le> 0"
      using one_minus_u(2) by (rule mult_nonneg_nonpos [rotated])
    also have "0 \<le> max_daily_loss_pct lims"
      using assms(4) by (simp add: wf_limits_def pct_ok_def)
    finally show ?thesis .
  qed
qed

theorem allowed_within_kill_switches_witness:
  "(1 - dec_u) ^ 3 *
     ((peak_equity ex_state - total_equity ex_state) / peak_equity ex_state * 100) \<le> max_dd_pct ex_limits
   \<and> (1 - dec_u) ^ 3 * (- daily_pnl ex_state / total_equity ex_state * 100)
       \<le> max_daily_loss_pct ex_limits"
  by (rule allowed_within_kill_switches [OF evaluate_eq [of _ ex_buy]]) (simp_all add: ex_approved ex_wf)

text \<open>
  Selling no more than the gate counts as held is a pure trim: it never trips the
  single-name limit, whatever the price and however far the position is above the limit.
\<close>

theorem pure_trim_never_trips_position_limit:
  assumes "ti_side i = ''sell''" "ti_quantity i \<le> held_qty i s" "0 < total_equity s"
  shows "position_violations lims i s = []"
  using assms by (simp add: position_violations_def effective_notional_def min_def dsub_def Let_def)

theorem pure_trim_never_trips_position_limit_witness:
  "position_violations ex_limits (ex_buy\<lparr>ti_side := ''sell''\<rparr>) ex_state = []"
  by (rule pure_trim_never_trips_position_limit) (simp_all add: ex_defs held_qty_def dsum_def dadd_def)

lemma share_of_equity_mono:
  "0 < total_equity s \<Longrightarrow> x \<le> y \<Longrightarrow> share_of_equity x s \<le> share_of_equity y s"
  by (simp add: share_of_equity_def dmul_mono ddiv_mono)

text \<open>
  Fail-safe in the order size: shrinking a BUY never turns an approval into a rejection.
  The rounding is monotone, so this holds for the rounded arithmetic as it is.
\<close>

theorem buy_approval_antitone_in_quantity:
  assumes "evaluate lims (i\<lparr>ti_quantity := q'\<rparr>) s = Inr d'" "allowed d'"
    and "ti_side i = ''buy''" "q \<le> q'" "0 < ti_price i" "0 < total_equity s"
  shows "\<exists>d. evaluate lims (i\<lparr>ti_quantity := q\<rparr>) s = Inr d \<and> allowed d"
proof -
  let ?i = "i\<lparr>ti_quantity := q\<rparr>" and ?i' = "i\<lparr>ti_quantity := q'\<rparr>"
  have v: "gate_violations lims ?i' s = []" using evaluate_allowed [OF assms(1)] assms(2) by simp
  have h: "held_qty ?i s = held_qty ?i' s" by (simp add: held_qty_def)
  have "effective_notional ?i (held_qty ?i s) \<le> effective_notional ?i' (held_qty ?i' s)"
    using assms(3-5) unfolding h
    by (simp add: effective_notional_def dmul_mono dadd_mono less_imp_le)
  then have p: "position_violations lims ?i s = []"
    using v assms(6) share_of_equity_mono [of s]
    by (fastforce simp: gate_violations_Nil position_violations_def Let_def split: if_splits)
  have "projected_sector_value sec ?i s \<le> projected_sector_value sec ?i' s" for sec
    using assms(3-5)
    by (simp add: projected_sector_value_def sector_value_def notional_def dadd_mono dmul_mono
        less_imp_le)
  then have m: "share_of_equity (projected_sector_value sec ?i s) s
      \<le> share_of_equity (projected_sector_value sec ?i' s) s" for sec
    by (rule share_of_equity_mono [OF assms(6)])
  have "sector_violations lims ?i' s = []" using v by (simp add: gate_violations_Nil)
  then have "sector_violations lims ?i s = []"
    by (cases "ti_sector i")
      (auto simp: sector_violations_def Let_def not_less split: if_splits intro: order_trans [OF m])
  then have "gate_violations lims ?i s = []"
    using v p assms(4) by (auto simp: gate_violations_Nil placeholder_violations_def split: if_splits)
  then show ?thesis by (simp add: evaluate_eq)
qed

theorem buy_approval_antitone_in_quantity_witness:
  "\<exists>d. evaluate ex_limits (ex_buy\<lparr>ti_quantity := 5\<rparr>) ex_state = Inr d \<and> allowed d"
proof (rule buy_approval_antitone_in_quantity [OF evaluate_eq])
  have "ex_buy\<lparr>ti_quantity := 10\<rparr> = ex_buy" by (simp add: ex_buy_def)
  then show "allowed \<lparr>allowed = (gate_violations ex_limits (ex_buy\<lparr>ti_quantity := 10\<rparr>) ex_state = []),
      violations = gate_violations ex_limits (ex_buy\<lparr>ti_quantity := 10\<rparr>) ex_state,
      meta = snd (evaluate_acc ex_limits (ex_buy\<lparr>ti_quantity := 10\<rparr>) ex_state)\<rparr>"
    by (simp add: ex_approved)
qed (simp_all add: ex_defs)

lemma used_limits:
  "max_position_pct (lims\<lparr>allow_short := b, leverage_max := l\<rparr>) = max_position_pct lims"
  "max_sector_pct (lims\<lparr>allow_short := b, leverage_max := l\<rparr>) = max_sector_pct lims"
  "max_daily_loss_pct (lims\<lparr>allow_short := b, leverage_max := l\<rparr>) = max_daily_loss_pct lims"
  "max_dd_pct (lims\<lparr>allow_short := b, leverage_max := l\<rparr>) = max_dd_pct lims"
  by simp_all

lemma checks_ignore_unused_limits:
  "check_position_size (lims\<lparr>allow_short := b, leverage_max := l\<rparr>) = check_position_size lims"
  "check_sector_exposure (lims\<lparr>allow_short := b, leverage_max := l\<rparr>) = check_sector_exposure lims"
  "check_daily_loss (lims\<lparr>allow_short := b, leverage_max := l\<rparr>) = check_daily_loss lims"
  "check_drawdown (lims\<lparr>allow_short := b, leverage_max := l\<rparr>) = check_drawdown lims"
  unfolding check_position_size_def check_sector_exposure_def check_daily_loss_def
    check_drawdown_def used_limits by (rule refl)+

text \<open>
  The gate reads neither \<open>allow_short\<close> nor \<open>leverage_max\<close>: the decision, its violations and
  its metadata do not depend on them, so a short sale is never refused for being one.
\<close>

theorem gate_ignores_short_and_leverage_limits:
  "evaluate (lims\<lparr>allow_short := b, leverage_max := l\<rparr>) i s = evaluate lims i s"
  by (simp add: evaluate_def checks_ignore_unused_limits)

end
