(* ===== verification/Orders.thy ===== *)
theory Orders
  imports Prelude PyDecimal
begin

text \<open>
  \<open>src/broker/orders.py\<close>, \<open>src/broker/account.py\<close> and \<open>src/broker/slicer.py\<close>: the order and
  portfolio types of the broker interface and the slicer that splits a parent order into chunks
  of five percent of the average daily volume. Times are integers of microseconds.
\<close>

section \<open>Orders and portfolios\<close>

datatype order_side = BUY | SELL

definition side_value :: "order_side \<Rightarrow> string" where
  "side_value s = (case s of BUY \<Rightarrow> ''BUY'' | SELL \<Rightarrow> ''SELL'')"

datatype order_status = PENDING | SUBMITTED | FILLED | REJECTED | CANCELLED

definition status_value :: "order_status \<Rightarrow> string" where
  "status_value s = (case s of PENDING \<Rightarrow> ''PENDING'' | SUBMITTED \<Rightarrow> ''SUBMITTED''
     | FILLED \<Rightarrow> ''FILLED'' | REJECTED \<Rightarrow> ''REJECTED'' | CANCELLED \<Rightarrow> ''CANCELLED'')"

record order =
  o_ticker :: string
  o_side :: order_side
  o_quantity :: rat
  o_limit :: "rat option" \<comment> \<open>\<open>None\<close> for a \<open>MarketOrder\<close>, the price of a \<open>LimitOrder\<close>\<close>

definition mk_market_order :: "string \<Rightarrow> order_side \<Rightarrow> rat \<Rightarrow> order result" where
  "mk_market_order ticker side quantity =
     (if length ticker < 1 \<or> 12 < length ticker then Inl ValidationError
      else if quantity \<le> 0 then Inl ValidationError
      else Inr \<lparr>o_ticker = py_strip (py_upper ticker), o_side = side, o_quantity = quantity,
                o_limit = None\<rparr>)"

definition mk_limit_order :: "string \<Rightarrow> order_side \<Rightarrow> rat \<Rightarrow> rat \<Rightarrow> order result" where
  "mk_limit_order ticker side quantity price =
     (if length ticker < 1 \<or> 12 < length ticker then Inl ValidationError
      else if quantity \<le> 0 then Inl ValidationError
      else if price \<le> 0 then Inl ValidationError
      else Inr \<lparr>o_ticker = py_strip (py_upper ticker), o_side = side, o_quantity = quantity,
                o_limit = Some price\<rparr>)"

definition is_market :: "order \<Rightarrow> bool" where
  "is_market ord \<longleftrightarrow> o_limit ord = None"

record broker_position =
  bp_ticker :: string
  bp_quantity :: rat
  bp_avg_price :: rat

record portfolio_snapshot =
  sn_account_id :: string
  sn_cash :: rat
  sn_positions :: "broker_position list"

lemma mk_market_order_Inr:
  "mk_market_order t sd q = Inr ord \<Longrightarrow>
     0 < q \<and> o_quantity ord = q \<and> o_side ord = sd \<and> o_limit ord = None \<and>
     o_ticker ord = norm_ticker t"
  by (auto simp: mk_market_order_def norm_ticker_def strip_upper split: if_splits)

section \<open>The order slicer\<close>

record slicer =
  adv_shares :: rat
  parent_qty :: rat

definition mk_slicer :: "rat \<Rightarrow> rat \<Rightarrow> slicer result" where
  "mk_slicer adv qty =
     (if adv \<le> 0 then Inl ValueError
      else if qty \<le> 0 then Inl ValueError
      else Inr \<lparr>adv_shares = adv, parent_qty = qty\<rparr>)"

record slice_batch =
  sb_ticker :: string
  sb_side :: string
  sb_quantity :: rat
  cumulative_pct :: rat
  start_at :: int
  end_at :: int

definition CHUNK_PCT :: rat where "CHUNK_PCT = 5"
definition MAX_DURATION :: int where "MAX_DURATION = 30 * 60 * 1000000"
definition MIN_INTERVAL_MS :: int where "MIN_INTERVAL_MS = 1000 div 60"

text \<open>\<open>int(MAX_DURATION.total_seconds() * 1000 / MIN_INTERVAL_MS)\<close>: the float arithmetic is
  exact here (1800000 / 16).\<close>

definition max_chunks :: int where
  "max_chunks = \<lfloor>of_int (MAX_DURATION div 1000) / (of_int MIN_INTERVAL_MS :: rat)\<rfloor>"

text \<open>\<open>timedelta / int\<close> rounds half to even to a microsecond.\<close>

definition timedelta_div :: "int \<Rightarrow> int \<Rightarrow> int" where
  "timedelta_div d n = rhe (of_int d / of_int n)"

definition chunk_size :: "slicer \<Rightarrow> rat" where
  "chunk_size sl = ddiv (dmul (adv_shares sl) CHUNK_PCT) 100"

text \<open>Lines 94-117: the number of chunks and the size of each.\<close>

definition capped_chunks :: "slicer \<Rightarrow> int" where
  "capped_chunks sl =
     max 1 (min (max 1 (dintegral (ddiv (parent_qty sl) (chunk_size sl)))) max_chunks)"

definition plan_chunks :: "slicer \<Rightarrow> int \<times> rat" where
  "plan_chunks sl =
     (let n = capped_chunks sl;
          actual = ddiv (parent_qty sl) (of_int n)
      in if actual < 1
         then let n = max 1 (dint (parent_qty sl)) in (n, ddiv (parent_qty sl) (of_int n))
         else (n, actual))"

text \<open>Lines 120-131: the body of the loop at index \<open>i\<close>.\<close>

definition make_chunk :: "slicer \<Rightarrow> int \<Rightarrow> int \<Rightarrow> rat \<Rightarrow> nat \<Rightarrow> slice_batch" where
  "make_chunk sl start interval actual i =
     (let cumulative = min (parent_qty sl) (dmul (of_nat (i + 1)) actual)
      in \<lparr>sb_ticker = [], sb_side = [],
          sb_quantity = min actual (dadd (dsub (parent_qty sl) cumulative) actual),
          cumulative_pct = dmul (ddiv cumulative (parent_qty sl)) 100,
          start_at = start + int i * interval,
          end_at = start + int (i + 1) * interval\<rparr>)"

definition slices :: "slicer \<Rightarrow> int \<Rightarrow> slice_batch list" where
  "slices sl start =
     (if parent_qty sl \<le> chunk_size sl
      then [\<lparr>sb_ticker = [], sb_side = [], sb_quantity = parent_qty sl, cumulative_pct = 100,
             start_at = start, end_at = start\<rparr>]
      else case plan_chunks sl of (n, actual) \<Rightarrow>
        map (make_chunk sl start (timedelta_div MAX_DURATION n) actual) [0..<nat n])"

section \<open>The shape of a plan\<close>

definition wf_slicer :: "slicer \<Rightarrow> bool" where
  "wf_slicer sl \<longleftrightarrow> 0 < adv_shares sl \<and> 0 < parent_qty sl \<and> dec_exact (parent_qty sl)"

lemma mk_slicer_Inr:
  "mk_slicer adv qty = Inr sl \<Longrightarrow> 0 < adv_shares sl \<and> 0 < parent_qty sl \<and>
     adv_shares sl = adv \<and> parent_qty sl = qty"
  by (auto simp: mk_slicer_def split: if_splits)

lemma max_chunks_eq: "max_chunks = 112500"
  by (simp add: max_chunks_def MAX_DURATION_def MIN_INTERVAL_MS_def)

lemma capped_chunks_bounds: "1 \<le> capped_chunks sl" "capped_chunks sl \<le> 112500"
  by (simp_all add: capped_chunks_def max_chunks_eq)

lemma plan_chunks_bounds:
  assumes "plan_chunks sl = (n, a)" "0 < parent_qty sl"
  shows "1 \<le> n \<and> n \<le> 112500 \<and> a = ddiv (parent_qty sl) (of_int n)"
proof (cases "ddiv (parent_qty sl) (of_int (capped_chunks sl)) < 1")
  case True
  let ?c = "capped_chunks sl"
  have "parent_qty sl / of_int ?c < 1"
    using True unfolding ddiv_def by (auto intro: dec.less_fixed [OF drnd_one])
  moreover have c: "(0 :: rat) < of_int ?c" using capped_chunks_bounds(1) [of sl] by linarith
  ultimately have "parent_qty sl < of_int ?c" by (simp only: divide_less_eq_1_pos)
  then have "dint (parent_qty sl) \<le> ?c"
    using dint_le [of "parent_qty sl"] assms(2) by linarith
  with True assms(1) capped_chunks_bounds [of sl] show ?thesis
    by (auto simp: plan_chunks_def Let_def)
next
  case False
  with assms(1) capped_chunks_bounds [of sl] show ?thesis by (auto simp: plan_chunks_def Let_def)
qed

text \<open>The running minimum in the loop never cuts a chunk: each chunk has the planned size.\<close>

lemma chunk_quantity:
  assumes "a = ddiv q n"
  shows "sb_quantity (make_chunk sl t d a i) = a"
proof -
  have "dec_exact a" using assms by (simp add: dec_exact_def ddiv_def dec.idem)
  have "0 \<le> dsub (parent_qty sl) (min (parent_qty sl) (dmul (of_nat (i + 1)) a))"
    by (simp add: dsub_def dec.nonneg)
  then have "a \<le> dadd (dsub (parent_qty sl) (min (parent_qty sl) (dmul (of_nat (i + 1)) a))) a"
    unfolding dadd_def using \<open>dec_exact a\<close> by (intro dec.ge_fixed) (auto simp: dec_exact_def)
  then show ?thesis by (simp add: make_chunk_def Let_def min_def)
qed

lemma plan_quantities:
  assumes "parent_qty sl > chunk_size sl" "plan_chunks sl = (n, a)" "0 < parent_qty sl"
  shows "map sb_quantity (slices sl t) = replicate (nat n) a"
proof -
  have "a = ddiv (parent_qty sl) (of_int n)" using plan_chunks_bounds assms by blast
  then have "sb_quantity \<circ> make_chunk sl t d a = (\<lambda>_. a)" for d
    using chunk_quantity by (auto simp: fun_eq_iff)
  then show ?thesis
    using assms by (simp add: slices_def map_replicate_const)
qed

section \<open>A concrete parent order\<close>

definition ex_slicer :: slicer where
  "ex_slicer = \<lparr>adv_shares = 1000, parent_qty = 200\<rparr>"

lemma ex_slicer: "mk_slicer 1000 200 = Inr ex_slicer"
  by (simp add: mk_slicer_def ex_slicer_def)

lemma ex_chunks:
  "chunk_size ex_slicer = 50" "capped_chunks ex_slicer = 4" "plan_chunks ex_slicer = (4, 50)"
  by (simp_all add: chunk_size_def capped_chunks_def plan_chunks_def ex_slicer_def dintegral_def
      dmul_def ddiv_def CHUNK_PCT_def max_chunks_eq)

lemma ex_slices: "length (slices ex_slicer 0) = 4" "slices ex_slicer 0 ! 0 \<in> set (slices ex_slicer 0)"
proof -
  have "map sb_quantity (slices ex_slicer 0) = replicate 4 50"
    using plan_quantities [OF _ ex_chunks(3), of 0] ex_chunks(1) by (simp add: ex_slicer_def)
  then have "length (map sb_quantity (slices ex_slicer 0)) = 4" by simp
  then show "length (slices ex_slicer 0) = 4" by simp
  then show "slices ex_slicer 0 ! 0 \<in> set (slices ex_slicer 0)" by (intro nth_mem) simp
qed

section \<open>Properties of the slicer\<close>

text \<open>
  C6. A parent order is split into at least one and at most 112500 chunks, and consecutive
  chunks of a split start at least \<open>MIN_INTERVAL_MS\<close> (16 ms) apart, whatever the ratio of the
  order to the average daily volume.
\<close>

theorem slices_respect_rate_limit:
  assumes "mk_slicer adv qty = Inr sl"
  shows "1 \<le> length (slices sl t) \<and> length (slices sl t) \<le> 112500 \<and>
    (\<forall>i. i + 1 < length (slices sl t) \<longrightarrow>
       start_at (slices sl t ! i) + 1000 * MIN_INTERVAL_MS \<le> start_at (slices sl t ! (i + 1)))"
proof (cases "parent_qty sl \<le> chunk_size sl")
  case True
  then show ?thesis by (simp add: slices_def)
next
  case False
  obtain n a where plan: "plan_chunks sl = (n, a)" by fastforce
  have n: "1 \<le> n" "n \<le> 112500"
    using plan_chunks_bounds [OF plan] mk_slicer_Inr [OF assms] by auto
  have "of_int 16000 \<le> (of_int MAX_DURATION :: rat) / of_int n"
    using n by (simp add: MAX_DURATION_def le_divide_eq)
  then have d: "16000 \<le> timedelta_div MAX_DURATION n"
    unfolding timedelta_div_def by (rule rhe_ge_int)
  have "1 \<le> nat n" "nat n \<le> 112500" using n by linarith+
  then show ?thesis using False plan d
    by (simp add: slices_def make_chunk_def Let_def MIN_INTERVAL_MS_def algebra_simps)
qed

theorem slices_respect_rate_limit_witness:
  "1 \<le> length (slices ex_slicer 0) \<and>
   start_at (slices ex_slicer 0 ! 0) + 1000 * MIN_INTERVAL_MS \<le> start_at (slices ex_slicer 0 ! 1)"
  using slices_respect_rate_limit [OF ex_slicer, of 0] by (simp add: ex_slices)

text \<open>
  Nothing is lost or added by slicing: the quantities of the chunks add up to the parent
  quantity, up to the relative error of the one division that sets the chunk size.
\<close>

theorem slices_conserve_quantity:
  assumes "mk_slicer adv qty = Inr sl"
  shows "\<bar>sum_list (map sb_quantity (slices sl t)) - qty\<bar> \<le> dec_u * qty"
proof (cases "parent_qty sl \<le> chunk_size sl")
  case True
  then show ?thesis using mk_slicer_Inr [OF assms] dec.u by (simp add: slices_def)
next
  case False
  obtain n a where plan: "plan_chunks sl = (n, a)" by fastforce
  have q: "parent_qty sl = qty" "0 < qty" using mk_slicer_Inr [OF assms] by auto
  have n: "1 \<le> n" and a: "a = ddiv qty (of_int n)"
    using plan_chunks_bounds [OF plan] q by auto
  have "sum_list (map sb_quantity (slices sl t)) = of_int n * a"
    using plan_quantities [OF _ plan] False q n by (simp add: sum_list_replicate)
  moreover have "\<bar>a - qty / of_int n\<bar> \<le> dec_u * (qty / of_int n)"
    using dec.error [of "qty / of_int n"] q n by (simp add: a ddiv_def)
  then have "of_int n * \<bar>a - qty / of_int n\<bar> \<le> of_int n * (dec_u * (qty / of_int n))"
    using n by (intro mult_left_mono) auto
  then have "\<bar>of_int n * (a - qty / of_int n)\<bar> \<le> dec_u * qty"
    using n by (simp add: abs_mult)
  then have "\<bar>of_int n * a - qty\<bar> \<le> dec_u * qty"
    using n by (simp add: right_diff_distrib)
  ultimately show ?thesis by simp
qed

theorem slices_conserve_quantity_witness:
  "\<bar>sum_list (map sb_quantity (slices ex_slicer 0)) - 200\<bar> \<le> dec_u * 200"
  by (rule slices_conserve_quantity [OF ex_slicer])

text \<open>
  For an order of at least one share no chunk is below one share: the clamp of the chunk
  count (issue 198) works for every ratio.
\<close>

theorem slices_at_least_one_share:
  assumes "mk_slicer adv qty = Inr sl" "1 \<le> qty" "b \<in> set (slices sl t)"
  shows "1 \<le> sb_quantity b"
proof (cases "parent_qty sl \<le> chunk_size sl")
  case True
  then show ?thesis using mk_slicer_Inr [OF assms(1)] assms(2,3) by (simp add: slices_def)
next
  case False
  obtain n a where plan: "plan_chunks sl = (n, a)" by fastforce
  have q: "parent_qty sl = qty" using mk_slicer_Inr [OF assms(1)] by auto
  have "sb_quantity b \<in> set (map sb_quantity (slices sl t))" using assms(3) by simp
  then have "sb_quantity b = a"
    using plan_quantities [OF _ plan] False assms(2) q by (simp split: if_splits)
  moreover have "1 \<le> a"
  proof (cases "ddiv qty (of_int (capped_chunks sl)) < 1")
    case True
    have "1 \<le> dint qty" using assms(2) by (simp add: dint_def)
    moreover have "of_int (dint qty) \<le> qty" using dint_le assms(2) by simp
    ultimately have "1 \<le> qty / of_int (max 1 (dint qty))" by (simp add: le_divide_eq)
    then have "1 \<le> ddiv qty (of_int (max 1 (dint qty)))"
      unfolding ddiv_def by (intro dec.ge_fixed) auto
    then show ?thesis using True plan q by (auto simp: plan_chunks_def Let_def)
  next
    case False
    then show ?thesis using plan q by (auto simp: plan_chunks_def Let_def)
  qed
  ultimately show ?thesis by simp
qed

theorem slices_at_least_one_share_witness: "1 \<le> sb_quantity (slices ex_slicer 0 ! 0)"
  by (rule slices_at_least_one_share [OF ex_slicer _ ex_slices(2)]) simp

definition over_slicer :: slicer where
  "over_slicer = \<lparr>adv_shares = 1000, parent_qty = 70\<rparr>"

text \<open>
  A split chunk can exceed the five percent participation the class promises, because the
  number of chunks is the ratio rounded to nearest: an order of 7 percent of the average daily
  volume is sent as a single chunk of 7 percent.
\<close>

theorem slice_exceeds_participation_cap:
  "mk_slicer 1000 70 = Inr over_slicer \<and> chunk_size over_slicer = 50 \<and>
   map sb_quantity (slices over_slicer 0) = [70]"
proof -
  have n [simp]: "drnd 5000 = 5000" "drnd 50 = 50" "drnd 70 = 70"
    using drnd_of_int [of 5000] drnd_of_int [of 50] drnd_of_int [of 70] by simp_all
  have e: "drnd (7 / 5) = 7 / 5" by (rule drnd_exactI [of _ 1 14]) auto
  have "rhe (drnd (7 / 5)) = 1" unfolding e by (rule rhe_unique) simp
  then have c: "capped_chunks over_slicer = 1" "chunk_size over_slicer = 50"
    by (simp_all add: capped_chunks_def chunk_size_def dintegral_def ddiv_def dmul_def
        over_slicer_def CHUNK_PCT_def max_chunks_eq)
  have p: "plan_chunks over_slicer = (1, 70)"
    using c by (simp add: plan_chunks_def ddiv_def over_slicer_def)
  have "map sb_quantity (slices over_slicer 0) = replicate 1 70"
    using plan_quantities [OF _ p] c(2) by (simp add: over_slicer_def)
  then show ?thesis using c by (simp add: mk_slicer_def over_slicer_def)
qed

lemma ratio_rhe: "1 \<le> x \<Longrightarrow> x / of_int (max 1 (rhe x)) \<le> 3 / 2"
proof -
  assume x: "1 \<le> x"
  then have r: "1 \<le> rhe x" using rhe_ge_int [of 1 x] by simp
  have e: "x \<le> of_int (rhe x) + 1 / 2" using rhe_error [of x] unfolding abs_le_iff by linarith
  have "x \<le> 3 / 2 * of_int (rhe x)"
  proof (cases "rhe x = 1")
    case False
    then have "2 \<le> rhe x" using r by simp
    then have "(2 :: rat) \<le> of_int (rhe x)" by linarith
    with e show ?thesis by linarith
  qed (use e in simp)
  then show ?thesis using r by (simp add: divide_le_eq)
qed

lemma chunk_size_pos: "0 < adv_shares sl \<Longrightarrow> 0 < chunk_size sl"
  by (simp add: chunk_size_def ddiv_def dmul_def drnd_pos CHUNK_PCT_def)

lemma slice_excess_bounded_aux:
  assumes "mk_slicer adv qty = Inr sl" "b \<in> set (slices sl t)"
    and "ddiv qty (chunk_size sl) \<le> 112500"
    and "1 \<le> ddiv qty (of_int (capped_chunks sl))" "0 < chunk_size sl"
  shows "(1 - dec_u) * sb_quantity b \<le> (1 + dec_u) * (3 / 2 * chunk_size sl)"
proof (cases "parent_qty sl \<le> chunk_size sl")
  case True
  then have "sb_quantity b \<le> chunk_size sl" using assms(2) by (simp add: slices_def)
  then have "(1 - dec_u) * sb_quantity b \<le> (1 - dec_u) * chunk_size sl"
    using dec_u_le_one by (intro mult_left_mono) auto
  also have "\<dots> \<le> (1 + dec_u) * (3 / 2 * chunk_size sl)"
    using assms(5) dec.u by (intro mult_mono) auto
  finally show ?thesis .
next
  case False
  let ?r = "ddiv qty (chunk_size sl)" and ?n = "capped_chunks sl"
  have q: "parent_qty sl = qty" "0 < qty" using mk_slicer_Inr [OF assms(1)] by auto
  have plan: "plan_chunks sl = (?n, ddiv qty (of_int ?n))"
    using assms(4) q by (simp add: plan_chunks_def Let_def)
  have "sb_quantity b \<in> set (map sb_quantity (slices sl t))" using assms(2) by simp
  then have b: "sb_quantity b = ddiv qty (of_int ?n)"
    using plan_quantities [OF _ plan] False q by (simp split: if_splits)
  have "rhe ?r \<le> 112500" using rhe_le_int [of ?r 112500] assms(3) by simp
  then have n: "?n = max 1 (rhe ?r)"
    by (simp add: capped_chunks_def dintegral_def max_chunks_eq q)
  have n0: "(0 :: rat) < of_int ?n" using capped_chunks_bounds(1) [of sl] by linarith
  have "1 \<le> ?r" using False assms(5) q unfolding ddiv_def by (intro dec.ge_fixed) auto
  then have "?r / of_int ?n \<le> 3 / 2" unfolding n by (rule ratio_rhe)
  moreover have "(1 - dec_u) * (qty / chunk_size sl) \<le> ?r"
    unfolding ddiv_def using q assms(5) by (intro dec.lower) simp
  ultimately have "(1 - dec_u) * (qty / chunk_size sl) / of_int ?n \<le> 3 / 2"
    using n0 by (meson divide_right_mono less_imp_le order_trans)
  then have "(1 - dec_u) * (qty / chunk_size sl) / of_int ?n * chunk_size sl \<le> 3 / 2 * chunk_size sl"
    using assms(5) by (intro mult_right_mono) auto
  then have le: "(1 - dec_u) * (qty / of_int ?n) \<le> 3 / 2 * chunk_size sl"
    using assms(5) by simp
  have "sb_quantity b \<le> (1 + dec_u) * (qty / of_int ?n)"
    unfolding b ddiv_def using q n0 by (intro dec.upper) simp
  then have "(1 - dec_u) * sb_quantity b \<le> (1 - dec_u) * ((1 + dec_u) * (qty / of_int ?n))"
    using dec_u_le_one by (intro mult_left_mono) auto
  also have "\<dots> = (1 + dec_u) * ((1 - dec_u) * (qty / of_int ?n))" by (rule mult.left_commute)
  also have "\<dots> \<le> (1 + dec_u) * (3 / 2 * chunk_size sl)"
    using le dec.u by (intro mult_left_mono) auto
  finally show ?thesis .
qed

text \<open>
  The excess is bounded: as long as the rate cap is not in force and the chunks hold at
  least one share, a chunk is at most one and a half times the five percent chunk, up to the
  relative error of the two divisions.
\<close>

theorem slice_excess_bounded:
  assumes "mk_slicer adv qty = Inr sl" "b \<in> set (slices sl t)"
    and "ddiv qty (chunk_size sl) \<le> 112500"
    and "1 \<le> ddiv qty (of_int (capped_chunks sl))"
  shows "(1 - dec_u) * sb_quantity b \<le> (1 + dec_u) * (3 / 2 * chunk_size sl)"
proof -
  have "0 < chunk_size sl" using mk_slicer_Inr [OF assms(1)] chunk_size_pos by blast
  then show ?thesis by (rule slice_excess_bounded_aux [OF assms])
qed

theorem slice_excess_bounded_witness:
  "(1 - dec_u) * sb_quantity (slices ex_slicer 0 ! 0) \<le> (1 + dec_u) * (3 / 2 * chunk_size ex_slicer)"
  by (rule slice_excess_bounded [OF ex_slicer ex_slices(2)]) (simp_all add: ex_chunks ddiv_def)

end
