(* ===== verification/OrderFlow.thy ===== *)
theory OrderFlow
  imports RiskGate Orders
begin

text \<open>
  \<open>src/broker/integration.py\<close>: \<open>OrderFlow\<close>, the path of one market order from the universe
  filter over the live quote, the risk gate and the slicer to the broker. The providers and the
  broker are code outside this class: they are fields of the flow, functions on a world \<open>'w\<close>
  that they may change, and each may raise. What the flow relies on in the broker is the locale
  \<open>broker_port\<close>.
\<close>

section \<open>State and results\<close>

text \<open>The quote provider may return something that is no \<open>Decimal\<close>; decimals are finite.\<close>

datatype quote = QuoteDecimal rat | QuoteOther

record 'w order_flow =
  of_broker :: "order \<Rightarrow> 'w \<Rightarrow> order_status result \<times> 'w"
  of_gate :: risk_limits
  of_quote :: "string \<Rightarrow> 'w \<Rightarrow> quote result \<times> 'w"
  of_adv :: "(string \<Rightarrow> 'w \<Rightarrow> rat result \<times> 'w) option"
  of_universe :: "(string \<Rightarrow> bool) option"
  of_peak :: "('w \<Rightarrow> rat result \<times> 'w) option"
  warned_missing_adv :: bool
  warned_missing_peak :: bool

definition mk_order_flow ::
  "(order \<Rightarrow> 'w \<Rightarrow> order_status result \<times> 'w) \<Rightarrow> risk_limits \<Rightarrow>
   (string \<Rightarrow> 'w \<Rightarrow> quote result \<times> 'w) option \<Rightarrow>
   (string \<Rightarrow> 'w \<Rightarrow> rat result \<times> 'w) option \<Rightarrow> (string \<Rightarrow> bool) option \<Rightarrow>
   ('w \<Rightarrow> rat result \<times> 'w) option \<Rightarrow> 'w order_flow result" where
  "mk_order_flow broker gate quote adv universe peak =
     (case quote of None \<Rightarrow> Inl TypeError
      | Some q \<Rightarrow> Inr \<lparr>of_broker = broker, of_gate = gate, of_quote = q, of_adv = adv,
                        of_universe = universe, of_peak = peak,
                        warned_missing_adv = False, warned_missing_peak = False\<rparr>)"

datatype flow_violation =
    UNIVERSE_BLOCKED | QUOTE_UNAVAILABLE | QUOTE_INVALID | ADV_UNAVAILABLE | ADV_INVALID
  | GateViolation violation

record order_flow_result =
  intent_symbol :: string
  fr_side :: string
  fr_quantity :: rat
  decision_violations :: "flow_violation list"
  slice_count :: nat
  submitted :: "order_status list"
  final_status :: order_status
  filled_count :: nat
  rejected_count :: nat

definition rejected_result ::
  "string \<Rightarrow> order_side \<Rightarrow> rat \<Rightarrow> flow_violation list \<Rightarrow> order_flow_result" where
  "rejected_result symbol side qty vs =
     \<lparr>intent_symbol = symbol, fr_side = side_value side, fr_quantity = qty,
      decision_violations = vs, slice_count = 0, submitted = [], final_status = REJECTED,
      filled_count = 0, rejected_count = 0\<rparr>"

section \<open>The portfolio state the gate sees\<close>

definition gate_position :: "broker_position \<Rightarrow> position result" where
  "gate_position p = mk_position (bp_ticker p) (bp_quantity p) (bp_avg_price p) None"

definition positions_value :: "broker_position list \<Rightarrow> rat" where
  "positions_value ps = dsum (map (\<lambda>p. dmul (bp_quantity p) (bp_avg_price p)) ps)"

definition free_cash :: "portfolio_snapshot \<Rightarrow> rat" where
  "free_cash sn = (let c = dsub (sn_cash sn) (positions_value (sn_positions sn))
                   in if c < 0 then 0 else c)"

definition portfolio_to_state :: "portfolio_snapshot \<Rightarrow> rat \<Rightarrow> portfolio_state result" where
  "portfolio_to_state sn pnl =
     bindR (map_result gate_position (sn_positions sn)) (\<lambda>ps.
       mk_portfolio_state (sn_cash sn) (free_cash sn) ps pnl (sn_cash sn))"

text \<open>Lines 507-536: the peak comes from the provider; a provider that raises is disabled.\<close>

definition resolve_peak :: "'w order_flow \<Rightarrow> rat \<Rightarrow> 'w \<Rightarrow> rat \<times> 'w order_flow \<times> 'w" where
  "resolve_peak fl nav w =
     (case of_peak fl of
        Some provider \<Rightarrow>
          (case provider w of
             (Inl e, w') \<Rightarrow> (nav, fl\<lparr>of_peak := None\<rparr>, w')
           | (Inr peak, w') \<Rightarrow> (if peak < nav then nav else peak, fl, w'))
      | None \<Rightarrow> (nav, fl\<lparr>warned_missing_peak := True\<rparr>, w))"

definition portfolio_to_state_impl ::
  "'w order_flow \<Rightarrow> portfolio_snapshot \<Rightarrow> rat \<Rightarrow> 'w \<Rightarrow> portfolio_state result \<times> 'w order_flow \<times> 'w" where
  "portfolio_to_state_impl fl sn pnl w =
     (case map_result gate_position (sn_positions sn) of
        Inl e \<Rightarrow> (Inl e, fl, w)
      | Inr ps \<Rightarrow>
          (case resolve_peak fl (sn_cash sn) w of
             (peak, fl', w') \<Rightarrow>
               (mk_portfolio_state (sn_cash sn) (free_cash sn) ps pnl peak, fl', w')))"

section \<open>Submitting the slices\<close>

text \<open>A \<open>BrokerError\<close> counts as \<open>REJECTED\<close> for its slice; any other exception propagates.\<close>

fun submit_slices ::
  "(order \<Rightarrow> 'w \<Rightarrow> order_status result \<times> 'w) \<Rightarrow> string \<Rightarrow> order_side \<Rightarrow> rat list \<Rightarrow> 'w \<Rightarrow>
   order_status list result \<times> 'w" where
  "submit_slices place symbol side [] w = (Inr [], w)"
| "submit_slices place symbol side (q # qs) w =
     (case mk_market_order symbol side q of
        Inl e \<Rightarrow> (Inl e, w)
      | Inr ord \<Rightarrow>
          (case place ord w of
             (Inl e, w') \<Rightarrow>
               if e = BrokerError
               then (case submit_slices place symbol side qs w' of
                       (r, w'') \<Rightarrow> (bindR r (\<lambda>sts. Inr (REJECTED # sts)), w''))
               else (Inl e, w')
           | (Inr st, w') \<Rightarrow>
               (case submit_slices place symbol side qs w' of
                  (r, w'') \<Rightarrow> (bindR r (\<lambda>sts. Inr (st # sts)), w''))))"

definition final_status_of :: "order_status list \<Rightarrow> order_status" where
  "final_status_of sts =
     (let filled = length (filter (\<lambda>s. s = FILLED) sts);
          rejected = length (filter (\<lambda>s. s = REJECTED) sts)
      in if sts = [] then REJECTED
         else if rejected = length sts then REJECTED
         else if filled = length sts then FILLED
         else SUBMITTED)"

text \<open>Lines 306-352: the average daily volume handed to the slicer, or a refusal.\<close>

definition resolve_adv ::
  "'w order_flow \<Rightarrow> string \<Rightarrow> rat \<Rightarrow> 'w \<Rightarrow> (flow_violation + rat) \<times> 'w order_flow \<times> 'w" where
  "resolve_adv fl symbol qty w =
     (case of_adv fl of
        None \<Rightarrow> (Inr (max (dmul qty 20) 100), fl\<lparr>warned_missing_adv := True\<rparr>, w)
      | Some provider \<Rightarrow>
          (case provider (py_upper symbol) w of
             (Inl e, w') \<Rightarrow> (Inl ADV_UNAVAILABLE, fl, w')
           | (Inr adv, w') \<Rightarrow>
               (if adv \<le> 0 then Inl ADV_INVALID else Inr adv, fl, w')))"

definition plan_slices :: "rat \<Rightarrow> rat \<Rightarrow> int \<Rightarrow> rat list" where
  "plan_slices adv qty now =
     (case mk_slicer adv qty of Inl e \<Rightarrow> [] | Inr sl \<Rightarrow> map sb_quantity (slices sl now))"

definition execute_slices ::
  "'w order_flow \<Rightarrow> string \<Rightarrow> order_side \<Rightarrow> rat \<Rightarrow> violation list \<Rightarrow> rat list \<Rightarrow> 'w \<Rightarrow>
   order_flow_result result \<times> 'w order_flow \<times> 'w" where
  "execute_slices fl symbol side qty vs qs w =
     (case submit_slices (of_broker fl) symbol side qs w of
        (Inl e, w') \<Rightarrow> (Inl e, fl, w')
      | (Inr sts, w') \<Rightarrow>
          (Inr \<lparr>intent_symbol = symbol, fr_side = side_value side, fr_quantity = qty,
                decision_violations = map GateViolation vs, slice_count = length qs,
                submitted = sts, final_status = final_status_of sts,
                filled_count = length (filter (\<lambda>s. s = FILLED) sts),
                rejected_count = length (filter (\<lambda>s. s = REJECTED) sts)\<rparr>, fl, w'))"

text \<open>Stages 3 to 5 of \<open>submit_market\<close>, from the live price on.\<close>

definition risk_stage ::
  "'w order_flow \<Rightarrow> string \<Rightarrow> order_side \<Rightarrow> rat \<Rightarrow> portfolio_snapshot \<Rightarrow> rat \<Rightarrow> rat \<Rightarrow> 'w \<Rightarrow>
   risk_decision result \<times> 'w order_flow \<times> 'w" where
  "risk_stage fl symbol side qty sn pnl price w =
     (case portfolio_to_state_impl fl sn pnl w of
        (Inl e, fl', w') \<Rightarrow> (Inl e, fl', w')
      | (Inr s, fl', w') \<Rightarrow>
          (bindR (mk_trade_intent (py_upper symbol) (py_lower (side_value side)) qty price None)
             (\<lambda>i. evaluate (of_gate fl') i s), fl', w'))"

definition execution_stage ::
  "'w order_flow \<Rightarrow> string \<Rightarrow> order_side \<Rightarrow> rat \<Rightarrow> risk_decision \<Rightarrow> int \<Rightarrow> 'w \<Rightarrow>
   order_flow_result result \<times> 'w order_flow \<times> 'w" where
  "execution_stage fl symbol side qty d now w =
     (case resolve_adv fl symbol qty w of
        (Inl v, fl', w') \<Rightarrow> (Inr (rejected_result symbol side qty [v]), fl', w')
      | (Inr adv, fl', w') \<Rightarrow>
          execute_slices fl' symbol side qty (violations d) (plan_slices adv qty now) w')"

definition submit_market ::
  "'w order_flow \<Rightarrow> string \<Rightarrow> order_side \<Rightarrow> rat \<Rightarrow> portfolio_snapshot \<Rightarrow> rat \<Rightarrow> int \<Rightarrow> 'w \<Rightarrow>
   order_flow_result result \<times> 'w order_flow \<times> 'w" where
  "submit_market fl symbol side qty sn pnl now w =
     (if (case of_universe fl of None \<Rightarrow> False | Some f \<Rightarrow> \<not> f symbol)
      then (Inr (rejected_result symbol side qty [UNIVERSE_BLOCKED]), fl, w)
      else
        case of_quote fl symbol w of
          (Inl e, w') \<Rightarrow> (Inr (rejected_result symbol side qty [QUOTE_UNAVAILABLE]), fl, w')
        | (Inr QuoteOther, w') \<Rightarrow> (Inr (rejected_result symbol side qty [QUOTE_INVALID]), fl, w')
        | (Inr (QuoteDecimal price), w') \<Rightarrow>
            if price \<le> 0 then (Inr (rejected_result symbol side qty [QUOTE_INVALID]), fl, w')
            else
              case risk_stage fl symbol side qty sn pnl price w' of
                (Inl e, fl', w'') \<Rightarrow> (Inl e, fl', w'')
              | (Inr d, fl', w'') \<Rightarrow>
                  if \<not> allowed d
                  then (Inr (rejected_result symbol side qty (map GateViolation (violations d))), fl', w'')
                  else execution_stage fl' symbol side qty d now w'')"

lemma length_filter_count: "length (filter (\<lambda>s. s = x) xs) = count_list xs x"
  by (induction xs) auto

lemma length_filter_all: "(length (filter P xs) = length xs) = (\<forall>s \<in> set xs. P s)"
  by (metis filter_True filter_id_conv length_filter_less order_less_irrefl)

lemma final_status_of_eq:
  "final_status_of sts =
     (if \<forall>s \<in> set sts. s = REJECTED then REJECTED
      else if \<forall>s \<in> set sts. s = FILLED then FILLED else SUBMITTED)"
  by (auto simp: final_status_of_def Let_def length_filter_all)

lemma submit_slices_length:
  "submit_slices place symbol side qs w = (Inr sts, w') \<Longrightarrow> length sts = length qs"
  by (induction qs arbitrary: w sts)
    (auto simp: bindR_Inr_iff split: sum.splits prod.splits if_splits)

lemma submit_market_cases:
  assumes "submit_market fl symbol side qty sn pnl now w = (Inr r, fl', w')"
  shows "(\<exists>vs. r = rejected_result symbol side qty vs) \<or>
    (\<exists>f vs qs v. execute_slices f symbol side qty vs qs v = (Inr r, fl', w'))"
  using assms by (auto simp: submit_market_def execution_stage_def
      split: if_splits sum.splits quote.splits option.splits prod.splits)

lemma submit_market_counts:
  assumes "submit_market fl symbol side qty sn pnl now w = (Inr r, fl', w')"
  shows "(final_status r = REJECTED \<longleftrightarrow> (\<forall>s \<in> set (submitted r). s = REJECTED)) \<and>
    (final_status r = FILLED \<longleftrightarrow> submitted r \<noteq> [] \<and> (\<forall>s \<in> set (submitted r). s = FILLED)) \<and>
    final_status r \<in> {REJECTED, FILLED, SUBMITTED} \<and>
    filled_count r = count_list (submitted r) FILLED \<and>
    rejected_count r = count_list (submitted r) REJECTED \<and>
    slice_count r = length (submitted r)"
proof -
  have rej: "r = rejected_result symbol side qty vs \<Longrightarrow> ?thesis" for vs
    by (simp add: rejected_result_def)
  have ex: "?thesis" if e: "execute_slices f symbol side qty vs qs v = (Inr r, fl', w')" for f vs qs v
  proof -
    obtain sts where s: "submit_slices (of_broker f) symbol side qs v = (Inr sts, w')"
      "submitted r = sts" "final_status r = final_status_of sts" "slice_count r = length qs"
      "filled_count r = length (filter (\<lambda>s. s = FILLED) sts)"
      "rejected_count r = length (filter (\<lambda>s. s = REJECTED) sts)"
      using e by (auto simp: execute_slices_def split: prod.splits sum.splits)
    have c: "filled_count r = count_list sts FILLED" "rejected_count r = count_list sts REJECTED"
      using s(5,6) by (simp_all only: length_filter_count)
    have l: "slice_count r = length sts" using s(4) submit_slices_length [OF s(1)] by simp
    show ?thesis unfolding c l s(2,3) final_status_of_eq by (cases sts) auto
  qed
  from submit_market_cases [OF assms] show ?thesis by (elim disjE exE) (rule rej ex, assumption)+
qed

section \<open>The stages of a run\<close>

text \<open>Every provider of the flow keeps the relation \<open>R\<close> on the world.\<close>

definition providers_keep :: "('w \<Rightarrow> 'w \<Rightarrow> bool) \<Rightarrow> 'w order_flow \<Rightarrow> bool" where
  "providers_keep R fl \<longleftrightarrow> (\<forall>s. keepsW R (of_quote fl s)) \<and>
     (\<forall>p. of_adv fl = Some p \<longrightarrow> (\<forall>s. keepsW R (p s))) \<and> (\<forall>p. of_peak fl = Some p \<longrightarrow> keepsW R p)"

text \<open>A run that stopped before the broker: it raised, or it is a rejection with no slice.\<close>

definition stopped :: "order_flow_result result \<Rightarrow> bool" where
  "stopped rr \<longleftrightarrow> (case rr of Inl e \<Rightarrow> True | Inr r \<Rightarrow> submitted r = [] \<and> final_status r = REJECTED)"

lemma stopped_simps [simp]:
  "stopped (Inl e)" "stopped (Inr (rejected_result symbol side qty vs))"
  by (simp_all add: stopped_def rejected_result_def)

lemma resolve_peak_keeps:
  assumes "resolve_peak fl nav w = (peak, fl', w')" "providers_keep R fl" "reflp R"
  shows "R w w' \<and> of_broker fl' = of_broker fl \<and> of_adv fl' = of_adv fl"
  using assms
  by (auto simp: resolve_peak_def providers_keep_def reflp_def dest: keepsWD
      split: option.splits prod.splits sum.splits)

lemma risk_stage_keeps:
  assumes "risk_stage fl symbol side qty sn pnl price w = (d, fl', w')" "providers_keep R fl" "reflp R"
  shows "R w w' \<and> of_broker fl' = of_broker fl \<and> of_adv fl' = of_adv fl"
proof -
  obtain rs where st: "portfolio_to_state_impl fl sn pnl w = (rs, fl', w')"
    using assms(1) by (auto simp: risk_stage_def split: prod.splits sum.splits)
  obtain peak fl1 w1 where p: "resolve_peak fl (sn_cash sn) w = (peak, fl1, w1)"
    by (cases "resolve_peak fl (sn_cash sn) w") auto
  from resolve_peak_keeps [OF p assms(2,3)] st assms(3) p show ?thesis
    by (auto simp: portfolio_to_state_impl_def reflp_def split: sum.splits)
qed

lemma execution_stage_keeps:
  assumes "execution_stage fl symbol side qty d now w = (rr, fl', w')"
    and "\<forall>p. of_adv fl = Some p \<longrightarrow> (\<forall>s. keepsW R (p s))" "reflp R"
  shows "stopped rr \<and> R w w' \<or> (\<exists>fl2 w2 adv. R w w2 \<and> of_broker fl2 = of_broker fl \<and>
    execute_slices fl2 symbol side qty (violations d) (plan_slices adv qty now) w2 = (rr, fl', w'))"
proof -
  obtain a fl1 w1 where a: "resolve_adv fl symbol qty w = (a, fl1, w1)"
    by (cases "resolve_adv fl symbol qty w") auto
  have "R w w1 \<and> of_broker fl1 = of_broker fl"
    using a assms(2,3)
    by (auto simp: resolve_adv_def reflp_def dest: keepsWD split: option.splits prod.splits sum.splits)
  with assms(1) a show ?thesis by (cases a) (auto simp: execution_stage_def)
qed

lemma submit_market_stages:
  assumes "submit_market fl symbol side qty sn pnl now w = (rr, fl', w')"
    and "providers_keep R fl" "reflp R" "transp R"
  shows "stopped rr \<and> R w w' \<or> (\<exists>fl2 w2 vs adv. R w w2 \<and> of_broker fl2 = of_broker fl \<and>
    execute_slices fl2 symbol side qty vs (plan_slices adv qty now) w2 = (rr, fl', w'))"
proof -
  obtain q w1 where q: "of_quote fl symbol w = (q, w1)" by fastforce
  have 1: "R w w1" using assms(2) q keepsWD by (fastforce simp: providers_keep_def)
  have stop: ?thesis if "stopped rr" "w' = w \<or> w' = w1"
    using that 1 assms(3) by (auto simp: reflp_def)
  have run: ?thesis
    if e: "execution_stage fl1 symbol side qty d now w2 = (rr, fl', w')"
      and k: "R w1 w2 \<and> of_broker fl1 = of_broker fl \<and> of_adv fl1 = of_adv fl" for fl1 d w2
  proof -
    have "\<forall>p. of_adv fl1 = Some p \<longrightarrow> (\<forall>s. keepsW R (p s))"
      using assms(2) k by (auto simp: providers_keep_def)
    from execution_stage_keeps [OF e this assms(3)] k 1 show ?thesis
      using transpD [OF assms(4)] by metis
  qed
  show ?thesis
  proof (cases "(case of_universe fl of None \<Rightarrow> False | Some f \<Rightarrow> \<not> f symbol) \<or>
      (\<nexists>price. q = Inr (QuoteDecimal price) \<and> 0 < price)")
    case True
    then show ?thesis
      using assms(1) by (intro stop) (auto simp: submit_market_def q not_less
          split: if_splits sum.splits quote.splits)
  next
    case False
    then obtain price where price: "q = Inr (QuoteDecimal price)" "0 < price" by auto
    obtain d fl1 w2 where r: "risk_stage fl symbol side qty sn pnl price w1 = (d, fl1, w2)"
      by (cases "risk_stage fl symbol side qty sn pnl price w1") auto
    note k = risk_stage_keeps [OF r assms(2,3)]
    then have "R w w2" using 1 transpD [OF assms(4)] by blast
    with assms(1) False price r k run show ?thesis
      by (cases d) (auto simp: submit_market_def q split: if_splits)
  qed
qed

section \<open>The broker port\<close>

text \<open>
  What \<open>OrderFlow\<close> relies on in a broker: under the \<open>LIVE_TRADING\<close> lock nothing happens; one
  call puts at most one order on the wire and takes none back; the lock does not change under a
  call; and a fill is only reported for an order that went out.
\<close>

locale broker_port =
  fixes place :: "order \<Rightarrow> 'w \<Rightarrow> order_status result \<times> 'w"
    and live :: "'w \<Rightarrow> bool"
    and wire :: "'w \<Rightarrow> 'o list"
  assumes locked: "\<not> live w \<Longrightarrow> place ord w = (Inr REJECTED, w)"
    and live_kept: "place ord w = (r, w') \<Longrightarrow> live w' = live w"
    and one_order: "place ord w = (r, w') \<Longrightarrow>
          \<exists>out. wire w' = wire w @ out \<and> length out \<le> 1"
    and fill_on_wire: "place ord w = (Inr FILLED, w') \<Longrightarrow> length (wire w') = Suc (length (wire w))"
begin

lemma submit_locked:
  "\<not> live w \<Longrightarrow> submit_slices place symbol side qs w = (r, w') \<Longrightarrow>
     w' = w \<and> (\<forall>sts. r = Inr sts \<longrightarrow> (\<forall>st \<in> set sts. st = REJECTED))"
proof (induction qs arbitrary: r w')
  case (Cons q qs)
  show ?case
  proof (cases "mk_market_order symbol side q")
    case (Inr ord)
    obtain r1 w1 where rec: "submit_slices place symbol side qs w = (r1, w1)" by fastforce
    from Cons.IH [OF Cons.prems(1) rec] Cons.prems(2) show ?thesis
      by (auto simp: Inr locked [OF Cons.prems(1)] rec bindR_Inr_iff)
  qed (use Cons.prems in auto)
qed auto

lemma submit_wire:
  "submit_slices place symbol side qs w = (r, w') \<Longrightarrow>
     \<exists>out. wire w' = wire w @ out \<and> length out \<le> length qs"
proof (induction qs arbitrary: r w w')
  case (Cons q qs)
  show ?case
  proof (cases "mk_market_order symbol side q")
    case (Inr ord)
    obtain r1 w1 where p: "place ord w = (r1, w1)" by fastforce
    obtain r2 w2 where rec: "submit_slices place symbol side qs w1 = (r2, w2)" by fastforce
    obtain out1 where o1: "wire w1 = wire w @ out1" "length out1 \<le> 1" using one_order [OF p] by auto
    obtain out2 where o2: "wire w2 = wire w1 @ out2" "length out2 \<le> length qs"
      using Cons.IH [OF rec] by auto
    have "w' = w1 \<or> w' = w2"
      using Cons.prems by (auto simp: Inr p rec split: sum.splits if_splits)
    with o1 o2 show ?thesis
      by (elim disjE) (auto intro: exI [of _ out1] exI [of _ "out1 @ out2"])
  qed (use Cons.prems in auto)
qed auto

lemma fills_on_wire:
  "submit_slices place symbol side qs w = (Inr sts, w') \<Longrightarrow>
     length (filter (\<lambda>s. s = FILLED) sts) + length (wire w) \<le> length (wire w')"
proof (induction qs arbitrary: w sts)
  case (Cons q qs)
  show ?case
  proof (cases "mk_market_order symbol side q")
    case (Inr ord)
    obtain r1 w1 where p: "place ord w = (r1, w1)" by fastforce
    obtain r2 w2 where rec: "submit_slices place symbol side qs w1 = (r2, w2)" by fastforce
    obtain sts2 where r2: "r2 = Inr sts2" and w': "w' = w2"
      using Cons.prems by (auto simp: Inr p rec bindR_Inr_iff split: sum.splits if_splits)
    have ih: "length (filter (\<lambda>s. s = FILLED) sts2) + length (wire w1) \<le> length (wire w2)"
      using Cons.IH rec r2 w' by simp
    have "length (wire w) \<le> length (wire w1)" using one_order [OF p] by auto
    moreover have "r1 = Inr FILLED \<Longrightarrow> length (wire w1) = Suc (length (wire w))"
      using fill_on_wire p by blast
    ultimately show ?thesis
      using Cons.prems ih w' by (auto simp: Inr p rec r2 split: sum.splits if_splits)
  qed (use Cons.prems in auto)
qed simp

lemma flow_locked:
  assumes "of_broker fl = place" "\<not> live w" "providers_keep (\<lambda>w w'. live w' = live w \<and> wire w' = wire w) fl"
    and "submit_market fl symbol side qty sn pnl now w = (rr, fl', w')"
  shows "wire w' = wire w \<and> live w' = live w \<and> (\<forall>r. rr = Inr r \<longrightarrow> final_status r = REJECTED)"
proof -
  let ?R = "\<lambda>w w'. live w' = live w \<and> wire w' = wire w"
  have R: "reflp ?R" "transp ?R" by (auto simp: reflp_def transp_def)
  from submit_market_stages [OF assms(4,3) R] show ?thesis
  proof
    assume "\<exists>fl2 w2 vs adv. ?R w w2 \<and> of_broker fl2 = of_broker fl \<and>
      execute_slices fl2 symbol side qty vs (plan_slices adv qty now) w2 = (rr, fl', w')"
    then obtain fl2 w2 vs adv where e: "?R w w2" "of_broker fl2 = place"
      "execute_slices fl2 symbol side qty vs (plan_slices adv qty now) w2 = (rr, fl', w')"
      using assms(1) by auto
    obtain rs w3 where sub: "submit_slices place symbol side (plan_slices adv qty now) w2 = (rs, w3)"
      by fastforce
    have l: "\<not> live w2" using assms(2) e by simp
    from submit_locked [OF l sub] e sub show ?thesis
      by (auto simp: execute_slices_def final_status_of_eq split: sum.splits)
  qed (auto simp: stopped_def split: sum.splits)
qed

lemma flow_wire:
  assumes "of_broker fl = place" "providers_keep (\<lambda>w w'. wire w' = wire w) fl"
    and "submit_market fl symbol side qty sn pnl now w = (Inr r, fl', w')"
  shows "\<exists>out. wire w' = wire w @ out \<and> filled_count r \<le> length out \<and> length out \<le> slice_count r"
proof -
  let ?R = "\<lambda>w w'. wire w' = wire w"
  have R: "reflp ?R" "transp ?R" by (auto simp: reflp_def transp_def)
  from submit_market_stages [OF assms(3,2) R] show ?thesis
  proof
    assume "\<exists>fl2 w2 vs adv. ?R w w2 \<and> of_broker fl2 = of_broker fl \<and>
      execute_slices fl2 symbol side qty vs (plan_slices adv qty now) w2 = (Inr r, fl', w')"
    then obtain fl2 w2 vs adv where e: "?R w w2" "of_broker fl2 = place"
      "execute_slices fl2 symbol side qty vs (plan_slices adv qty now) w2 = (Inr r, fl', w')"
      using assms(1) by auto
    then obtain sts where sub: "submit_slices place symbol side (plan_slices adv qty now) w2 = (Inr sts, w')"
      and r: "slice_count r = length (plan_slices adv qty now)"
        "filled_count r = length (filter (\<lambda>s. s = FILLED) sts)"
      by (auto simp: execute_slices_def split: prod.splits sum.splits)
    from submit_wire [OF sub] fills_on_wire [OF sub] e(1) r show ?thesis by auto
  next
    assume "stopped (Inr r) \<and> ?R w w'"
    moreover from this have "filled_count r = 0"
      using submit_market_counts [OF assms(3)] by (auto simp: stopped_def)
    ultimately show ?thesis by simp
  qed
qed

end

section \<open>A concrete run\<close>

text \<open>The account and order of \<open>RiskGate\<close>, through a flow whose broker fills everything.\<close>

definition ex_flow :: "unit order_flow" where
  "ex_flow = \<lparr>of_broker = (\<lambda>ord w. (Inr FILLED, w)), of_gate = ex_limits,
     of_quote = (\<lambda>symbol w. (Inr (QuoteDecimal 100), w)), of_adv = None, of_universe = None,
     of_peak = Some (\<lambda>w. (Inr 125000, w)), warned_missing_adv = False, warned_missing_peak = False\<rparr>"

definition ex_snapshot :: portfolio_snapshot where
  "ex_snapshot = \<lparr>sn_account_id = ''SB1'', sn_cash = 100000,
     sn_positions = [\<lparr>bp_ticker = ''SBER'', bp_quantity = 20, bp_avg_price = 90\<rparr>]\<rparr>"

definition ex_result :: order_flow_result where
  "ex_result = \<lparr>intent_symbol = ''SBER'', fr_side = ''BUY'', fr_quantity = 10,
     decision_violations = [], slice_count = 1, submitted = [FILLED], final_status = FILLED,
     filled_count = 1, rejected_count = 0\<rparr>"

lemma ex_ticker [simp]:
  "norm_ticker ''SBER'' = ''SBER''" "py_strip (py_upper ''SBER'') = ''SBER''" "py_upper ''SBER'' = ''SBER''"
  by (simp_all add: norm_ticker_def py_strip_def py_upper_def is_space_def upper_char_def)

lemma ex_state_built: "portfolio_to_state_impl ex_flow ex_snapshot (- 1000) () = (Inr ex_state, ex_flow, ())"
  by (simp add: portfolio_to_state_impl_def ex_flow_def ex_snapshot_def gate_position_def
      mk_position_def resolve_peak_def free_cash_def positions_value_def dsum_def dadd_def dmul_def
      dsub_def mk_portfolio_state_def ex_state_def)

lemma ex_intent: "mk_trade_intent (py_upper ''SBER'') (py_lower (side_value BUY)) 10 100 None = Inr ex_buy"
proof -
  have "py_lower (side_value BUY) = ''buy''" "py_strip ''buy'' = ''buy''" "py_lower ''buy'' = ''buy''"
    by (simp_all add: py_lower_def lower_char_def side_value_def py_strip_def is_space_def char_of_def bit_0)
  then show ?thesis by (simp add: mk_trade_intent_def ex_buy_def)
qed

lemma ex_risk:
  "risk_stage ex_flow ''SBER'' BUY 10 ex_snapshot (- 1000) 100 () =
     (evaluate ex_limits ex_buy ex_state, ex_flow, ())"
  unfolding risk_stage_def ex_state_built ex_intent by (simp add: ex_flow_def)

lemma ex_plan_slices: "plan_slices 200 10 0 = [10]"
  by (simp add: plan_slices_def mk_slicer_def slices_def chunk_size_def CHUNK_PCT_def dmul_def ddiv_def)

lemma ex_run:
  "submit_market ex_flow ''SBER'' BUY 10 ex_snapshot (- 1000) 0 () =
     (Inr ex_result, ex_flow\<lparr>warned_missing_adv := True\<rparr>, ())"
proof -
  have q: "of_quote ex_flow ''SBER'' () = (Inr (QuoteDecimal 100), ())" "of_universe ex_flow = None"
    by (simp_all add: ex_flow_def)
  have d: "allowed d \<and> violations d = []" if "evaluate ex_limits ex_buy ex_state = Inr d" for d
    using that by (auto simp: evaluate_eq ex_approved)
  obtain d where e: "evaluate ex_limits ex_buy ex_state = Inr d" by (simp add: evaluate_eq)
  have adv: "resolve_adv ex_flow ''SBER'' 10 () = (Inr 200, ex_flow\<lparr>warned_missing_adv := True\<rparr>, ())"
    by (simp add: resolve_adv_def ex_flow_def dmul_def)
  have x: "execute_slices (ex_flow\<lparr>warned_missing_adv := True\<rparr>) ''SBER'' BUY 10 [] [10] () =
      (Inr ex_result, ex_flow\<lparr>warned_missing_adv := True\<rparr>, ())"
    by (simp add: execute_slices_def mk_market_order_def ex_flow_def final_status_of_def ex_result_def
        side_value_def)
  show ?thesis
    using d [OF e] x by (simp add: submit_market_def q ex_risk e execution_stage_def adv ex_plan_slices)
qed

section \<open>Properties of the flow\<close>



text \<open>
  C7. The three-tier final status (issue 168) is exactly: REJECTED when no slice was submitted or
  the broker rejected every one, FILLED when there is a slice and every one filled, SUBMITTED
  otherwise; and the per-outcome counts are those of the submitted list.
\<close>

theorem final_status_and_counts:
  assumes "submit_market fl symbol side qty sn pnl now w = (Inr r, fl', w')"
  shows "(final_status r = REJECTED \<longleftrightarrow> (\<forall>s \<in> set (submitted r). s = REJECTED)) \<and>
    (final_status r = FILLED \<longleftrightarrow> submitted r \<noteq> [] \<and> (\<forall>s \<in> set (submitted r). s = FILLED)) \<and>
    final_status r \<in> {REJECTED, FILLED, SUBMITTED} \<and>
    filled_count r = count_list (submitted r) FILLED \<and>
    rejected_count r = count_list (submitted r) REJECTED \<and>
    slice_count r = length (submitted r)"
  by (rule submit_market_counts [OF assms])

theorem final_status_and_counts_witness:
  "final_status ex_result = FILLED \<and> filled_count ex_result = 1 \<and> rejected_count ex_result = 0"
  using final_status_and_counts [OF ex_run] by (simp add: ex_result_def)


lemma portfolio_to_state_impl_Inr:
  assumes "portfolio_to_state_impl fl sn pnl w = (Inr s, fl', w')"
  shows "wf_state s \<and> total_equity s = sn_cash sn \<and> daily_pnl s = pnl \<and>
     peak_equity s = fst (resolve_peak fl (sn_cash sn) w) \<and> fl' = fst (snd (resolve_peak fl (sn_cash sn) w))"
proof -
  obtain ps where ps: "map_result gate_position (sn_positions sn) = Inr ps"
    using assms by (auto simp: portfolio_to_state_impl_def split: sum.splits)
  have "\<forall>p \<in> set ps. wf_position p"
    by (rule map_result_all [OF ps], unfold gate_position_def, erule mk_position_wf)
  with assms ps show ?thesis
    by (auto simp: portfolio_to_state_impl_def mk_portfolio_state_def wf_state_def
        split: prod.splits if_splits)
qed

text \<open>
  The state the flow hands to the gate is well formed, values the account at the snapshot's
  NAV without adding the position book to it (issue 180), and its peak is the larger of the
  provider's high-water mark and the NAV; without a provider, or when it raises, it is the NAV.
\<close>

theorem flow_state_well_formed:
  assumes "portfolio_to_state_impl fl sn pnl w = (Inr s, fl', w')"
  shows "wf_state s \<and> total_equity s = sn_cash sn \<and> daily_pnl s = pnl \<and>
    peak_equity s = (case of_peak fl of None \<Rightarrow> sn_cash sn
       | Some p \<Rightarrow> (case fst (p w) of Inl e \<Rightarrow> sn_cash sn | Inr peak \<Rightarrow> max peak (sn_cash sn)))"
  using portfolio_to_state_impl_Inr [OF assms]
  by (auto simp: resolve_peak_def max_def split: option.splits prod.splits sum.splits)

theorem flow_state_well_formed_witness:
  "wf_state ex_state \<and> total_equity ex_state = 100000 \<and> peak_equity ex_state = 125000"
  using flow_state_well_formed [OF ex_state_built] by (simp add: ex_flow_def ex_snapshot_def max_def)

lemma no_provider_no_drawdown:
  assumes "of_peak fl = None" "portfolio_to_state_impl fl sn pnl w = (Inr s, fl', w')" "wf_limits lims"
  shows "drawdown_violations lims s = []"
proof -
  have "wf_state s" "peak_equity s = total_equity s"
    using portfolio_to_state_impl_Inr [OF assms(2)] assms(1) by (auto simp: resolve_peak_def)
  then show ?thesis
    using assms(3)
    by (auto simp: drawdown_violations_def drawdown_pct_def dsub_def ddiv_def wf_state_def
        wf_limits_def pct_ok_def)
qed

text \<open>
  A peak provider that raises once disarms the drawdown limit for good: after that run the
  flow has no provider left, and a flow without provider never reports a drawdown violation,
  whatever the account has lost.
\<close>

theorem failing_peak_provider_disarms_drawdown:
  assumes "of_peak fl = Some p" "p w = (Inl e, w1)" "portfolio_to_state_impl fl sn pnl w = (Inr s, fl', w')"
    and "wf_limits lims"
  shows "of_peak fl' = None \<and>
    (\<forall>sn' pnl' w'' s' fl'' w3. portfolio_to_state_impl fl' sn' pnl' w'' = (Inr s', fl'', w3) \<longrightarrow>
       of_peak fl'' = None \<and> drawdown_violations lims s' = [])"
proof -
  have n: "of_peak fl' = None"
    using portfolio_to_state_impl_Inr [OF assms(3)] assms(1,2) by (simp add: resolve_peak_def)
  have "of_peak fl'' = None" if "portfolio_to_state_impl fl' sn' pnl' w'' = (Inr s', fl'', w3)"
    for sn' pnl' w'' s' fl'' w3
    using portfolio_to_state_impl_Inr [OF that] n by (simp add: resolve_peak_def)
  with n no_provider_no_drawdown [OF n _ assms(4)] show ?thesis by blast
qed

theorem failing_peak_provider_disarms_drawdown_witness:
  "\<exists>fl'. of_peak fl' = None \<and>
     portfolio_to_state_impl (ex_flow\<lparr>of_peak := Some (\<lambda>w. (Inl BrokerError, w))\<rparr>) ex_snapshot (- 1000) ()
       = (Inr (ex_state\<lparr>peak_equity := 100000\<rparr>), fl', ())"
proof -
  let ?fl = "ex_flow\<lparr>of_peak := Some (\<lambda>w. (Inl BrokerError, w))\<rparr>"
  have r: "portfolio_to_state_impl ?fl ex_snapshot (- 1000) ()
      = (Inr (ex_state\<lparr>peak_equity := 100000\<rparr>), ?fl\<lparr>of_peak := None\<rparr>, ())"
    by (simp add: portfolio_to_state_impl_def ex_flow_def ex_snapshot_def gate_position_def
        mk_position_def resolve_peak_def free_cash_def positions_value_def dsum_def dadd_def dmul_def
        dsub_def mk_portfolio_state_def ex_state_def)
  have "of_peak (?fl\<lparr>of_peak := None\<rparr>) = None"
    using failing_peak_provider_disarms_drawdown [OF _ _ r ex_wf(1)] by simp
  with r show ?thesis by blast
qed

text \<open>
  Without an \<open>adv_provider\<close> slicing is dead code (issue 230): the placeholder volume makes
  every order, of any size, one single slice of the full quantity (for quantities whose small
  multiples fit the 28 digits).
\<close>

theorem placeholder_adv_never_slices:
  assumes "of_adv fl = None" "0 < qty" "resolve_adv fl symbol qty w = (Inr adv, fl', w')"
    and "dec_exact (qty * 20)" "dec_exact (qty * 100)" "dec_exact qty"
  shows "plan_slices adv qty now = [qty]"
proof -
  have adv: "adv = max (qty * 20) 100"
    using assms by (simp add: resolve_adv_def dmul_def dec_exact_def)
  let ?sl = "\<lparr>adv_shares = adv, parent_qty = qty\<rparr>"
  have "qty \<le> chunk_size ?sl"
  proof -
    have "qty = ddiv (dmul (qty * 20) 5) 100"
      using assms(5,6) by (simp add: ddiv_def dmul_def dec_exact_def mult.commute)
    also have "\<dots> \<le> ddiv (dmul adv 5) 100"
      by (intro ddiv_mono dmul_mono) (auto simp: adv)
    finally show ?thesis by (simp add: chunk_size_def CHUNK_PCT_def)
  qed
  then show ?thesis using assms(2) by (simp add: plan_slices_def mk_slicer_def slices_def adv max_def)
qed

theorem placeholder_adv_never_slices_witness: "plan_slices 200 10 0 = [10]"
  by (rule placeholder_adv_never_slices [of ex_flow _ "''SBER''" "()" _ "ex_flow\<lparr>warned_missing_adv := True\<rparr>" "()"])
    (simp_all add: ex_flow_def resolve_adv_def dmul_def dec_exact_def)

end
