(* ===== verification/EquityStore.thy ===== *)
theory EquityStore
  imports Prelude
begin

text \<open>
  The two JSON stores of \<open>src/broker/tinkoff_account.py\<close>: the peak-equity high-water mark and the
  daily-P\&L basis. Each is a primary file, a \<open>.bak\<close> mirror and a temporary file in one
  directory. Saving is a sequence of file-system steps, any of which may fail with an
  \<open>OSError\<close> and after any of which the process may be killed, so it is a step relation; the
  uninterrupted run is a function.
\<close>

section \<open>Files\<close>

text \<open>A file is a complete JSON document or text that \<open>json.load\<close> refuses (truncated, empty).\<close>

datatype 'a json_file = Json 'a | Corrupt

record 'a store =
  primary :: "'a json_file option"
  bak :: "'a json_file option"
  tmp :: "'a json_file option"
  aside :: "'a json_file list" \<comment> \<open>\<open>.corrupt-*\<close> files of the primary\<close>
  bak_aside :: "'a json_file list" \<comment> \<open>\<open>.corrupt-*\<close> files of the mirror\<close>

text \<open>What the directory lets the loader do: rename a corrupt file, remove old evidence.\<close>

record dir_io =
  rename_ok :: bool
  prune_ok :: bool

section \<open>Saving\<close>

text \<open>The uninterrupted save: mirror the raw primary, write the temporary file, replace.\<close>

definition save_store :: "'a \<Rightarrow> 'a store \<Rightarrow> 'a store" where
  "save_store v fs =
     (let fs = (case primary fs of None \<Rightarrow> fs | Some c \<Rightarrow> fs\<lparr>bak := Some c\<rparr>)
      in fs\<lparr>primary := Some (Json v), tmp := None\<rparr>)"

datatype 'a save_pc =
    Save_Begin
  | Bak_Opened "'a json_file"  \<comment> \<open>the mirror is truncated, the old text is in memory\<close>
  | Bak_Done
  | Tmp_Opened
  | Tmp_Written
  | Save_End

inductive save_step :: "'a \<Rightarrow> 'a save_pc \<times> 'a store \<Rightarrow> 'a save_pc \<times> 'a store \<Rightarrow> bool"
  for v :: 'a where
  bak_open: "primary fs = Some c \<Longrightarrow>
     save_step v (Save_Begin, fs) (Bak_Opened c, fs\<lparr>bak := Some Corrupt\<rparr>)"
| bak_write: "save_step v (Bak_Opened c, fs) (Bak_Done, fs\<lparr>bak := Some c\<rparr>)"
| bak_absent: "primary fs = None \<Longrightarrow> save_step v (Save_Begin, fs) (Bak_Done, fs)"
| bak_open_fails: "save_step v (Save_Begin, fs) (Bak_Done, fs)"
| bak_write_fails: "save_step v (Bak_Opened c, fs) (Bak_Done, fs)"
| tmp_open: "save_step v (Bak_Done, fs) (Tmp_Opened, fs\<lparr>tmp := Some Corrupt\<rparr>)"
| tmp_write: "save_step v (Tmp_Opened, fs) (Tmp_Written, fs\<lparr>tmp := Some (Json v)\<rparr>)"
| tmp_fails: "save_step v (Tmp_Opened, fs) (Save_End, fs\<lparr>tmp := None\<rparr>)"
| tmp_open_fails: "save_step v (Bak_Done, fs) (Save_End, fs)"
| cleanup_fails: "save_step v (Tmp_Opened, fs) (Save_End, fs)"
| replace: "save_step v (Tmp_Written, fs) (Save_End, fs\<lparr>primary := tmp fs, tmp := None\<rparr>)"
| replace_fails: "save_step v (Tmp_Written, fs) (Save_End, fs\<lparr>tmp := None\<rparr>)"

inductive_cases save_stepE: "save_step v (pc, fs) (pc', fs')"

inductive save_run :: "'a \<Rightarrow> 'a store \<Rightarrow> 'a save_pc \<Rightarrow> 'a store \<Rightarrow> bool"
  for v :: 'a and fs :: "'a store" where
  run_begin: "save_run v fs Save_Begin fs"
| run_step: "save_run v fs pc fs1 \<Longrightarrow> save_step v (pc, fs1) (pc', fs2) \<Longrightarrow> save_run v fs pc' fs2"

text \<open>The function is the run without failures.\<close>

lemma save_store_run: "save_run v fs Save_End (save_store v fs)"
proof -
  define fs1 where "fs1 = (case primary fs of None \<Rightarrow> fs | Some c \<Rightarrow> fs\<lparr>bak := Some c\<rparr>)"
  have "save_run v fs Bak_Done fs1"
  proof (cases "primary fs")
    case None
    then show ?thesis
      by (auto simp: fs1_def intro: run_step [OF run_begin] bak_absent)
  next
    case (Some c)
    have "save_run v fs (Bak_Opened c) (fs\<lparr>bak := Some Corrupt\<rparr>)"
      using Some by (intro run_step [OF run_begin] bak_open)
    from run_step [OF this bak_write] show ?thesis by (simp add: fs1_def Some)
  qed
  from run_step [OF run_step [OF run_step [OF this tmp_open] tmp_write] replace]
  show ?thesis by (simp add: save_store_def fs1_def Let_def)
qed

text \<open>An invariant of every interrupted or failing run: the primary is the old one or holds the
  new value, the temporary file is complete once written, and the mirror is the old mirror, a
  truncated one, or the old primary.\<close>

definition save_inv :: "'a \<Rightarrow> 'a store \<Rightarrow> 'a save_pc \<Rightarrow> 'a store \<Rightarrow> bool" where
  "save_inv v fs pc fs' \<longleftrightarrow>
     (if pc = Save_End then primary fs' \<in> {primary fs, Some (Json v)} else primary fs' = primary fs) \<and>
     (pc = Tmp_Written \<longrightarrow> tmp fs' = Some (Json v)) \<and>
     (\<forall>c. pc = Bak_Opened c \<longrightarrow> primary fs = Some c) \<and>
     (if primary fs = None then bak fs' = bak fs
      else bak fs' \<in> {bak fs, Some Corrupt, primary fs})"

lemma save_inv_step:
  "save_step v (pc, fs1) (pc', fs2) \<Longrightarrow> save_inv v fs pc fs1 \<Longrightarrow> save_inv v fs pc' fs2"
  by (erule save_stepE; simp add: save_inv_def split: if_splits; fastforce)

lemma save_run_inv: "save_run v fs pc fs' \<Longrightarrow> save_inv v fs pc fs'"
  by (induction rule: save_run.induct) (simp add: save_inv_def, rule save_inv_step)

lemma save_run_primary:
  "save_run v fs pc fs' \<Longrightarrow> primary fs' = primary fs \<or> primary fs' = Some (Json v)"
  by (drule save_run_inv) (auto simp: save_inv_def split: if_splits)

section \<open>The peak-equity store\<close>

text \<open>What \<open>data.get("peak_equity", "0")\<close> can find in a complete document.\<close>

datatype peak_json = PeakValue rat | PeakMissing | PeakNotDecimal | PeakNotObject

text \<open>Lines 233-282: \<open>None\<close> for a missing or corrupt file; a value that is no decimal literal
  raises \<open>decimal.InvalidOperation\<close>, a document that is no object \<open>AttributeError\<close>, neither of
  which is caught.\<close>

definition parse_peak :: "peak_json json_file option \<Rightarrow> rat option result" where
  "parse_peak f =
     (case f of
        None \<Rightarrow> Inr None
      | Some Corrupt \<Rightarrow> Inr None
      | Some (Json (PeakValue v)) \<Rightarrow> Inr (Some (if v < 0 then 0 else v))
      | Some (Json PeakMissing) \<Rightarrow> Inr (Some 0)
      | Some (Json PeakNotDecimal) \<Rightarrow> Inl (OtherError ''InvalidOperation'')
      | Some (Json PeakNotObject) \<Rightarrow> Inl AttributeError)"

definition set_aside_primary :: "dir_io \<Rightarrow> 'a store \<Rightarrow> 'a store" where
  "set_aside_primary io fs =
     (if primary fs = Some Corrupt \<and> rename_ok io
      then fs\<lparr>primary := None, aside := Corrupt # aside fs\<rparr> else fs)"

definition set_aside_bak :: "dir_io \<Rightarrow> 'a store \<Rightarrow> 'a store" where
  "set_aside_bak io fs =
     (if bak fs = Some Corrupt \<and> rename_ok io
      then fs\<lparr>bak := None, bak_aside := Corrupt # bak_aside fs\<rparr> else fs)"

definition prune_forensics :: "dir_io \<Rightarrow> 'a store \<Rightarrow> 'a store" where
  "prune_forensics io fs = (if prune_ok io then fs\<lparr>aside := []\<rparr> else fs)"

definition load_peak_equity :: "dir_io \<Rightarrow> peak_json store \<Rightarrow> rat result \<times> peak_json store" where
  "load_peak_equity io fs =
     (case parse_peak (primary fs) of
        Inl e \<Rightarrow> (Inl e, fs)
      | Inr (Some v) \<Rightarrow> (Inr v, prune_forensics io fs)
      | Inr None \<Rightarrow>
          (let fs = set_aside_primary io fs in
           case parse_peak (bak fs) of
             Inl e \<Rightarrow> (Inl e, fs)
           | Inr (Some v) \<Rightarrow> (Inr v, fs)
           | Inr None \<Rightarrow> (Inr 0, set_aside_bak io fs)))"

definition save_peak_equity :: "rat \<Rightarrow> peak_json store \<Rightarrow> peak_json store" where
  "save_peak_equity v fs = save_store (PeakValue v) fs"

text \<open>At least \<open>m\<close> can be recovered: from the primary, or from the mirror when a save would not
  touch it (there is no primary to copy over it).\<close>

definition good_peak :: "rat \<Rightarrow> peak_json json_file option \<Rightarrow> bool" where
  "good_peak m f \<longleftrightarrow> (\<exists>v. f = Some (Json (PeakValue v)) \<and> m \<le> v)"

text \<open>A file this class can have left behind: absent, cut off, or complete.\<close>

definition sane_peak :: "peak_json json_file option \<Rightarrow> bool" where
  "sane_peak f \<longleftrightarrow> (\<forall>j. f = Some (Json j) \<longrightarrow> (\<exists>v. j = PeakValue v))"

definition recoverable :: "rat \<Rightarrow> peak_json store \<Rightarrow> bool" where
  "recoverable m fs \<longleftrightarrow> sane_peak (primary fs) \<and> sane_peak (bak fs) \<and>
     (m \<le> 0 \<or> good_peak m (primary fs) \<or> primary fs = None \<and> good_peak m (bak fs))"

lemma sane_peak_simps [simp]:
  "sane_peak None" "sane_peak (Some Corrupt)" "sane_peak (Some (Json (PeakValue v)))"
  by (simp_all add: sane_peak_def)

lemma sane_peak_cases:
  assumes "sane_peak f"
  obtains "f = None" | "f = Some Corrupt" | v where "f = Some (Json (PeakValue v))"
proof (cases f)
  case (Some x)
  with assms that show ?thesis by (cases x) (auto simp: sane_peak_def)
qed (use that in blast)

lemma good_peak_parse:
  "good_peak m f \<Longrightarrow> 0 \<le> m \<Longrightarrow> \<exists>v. parse_peak f = Inr (Some v) \<and> m \<le> v"
  by (auto simp: good_peak_def parse_peak_def)

lemma parse_sane: "sane_peak f \<Longrightarrow> \<exists>r. parse_peak f = Inr r \<and> (\<forall>v. r = Some v \<longrightarrow> 0 \<le> v)"
  by (erule sane_peak_cases) (auto simp: parse_peak_def)

lemma load_sane:
  assumes "sane_peak (primary fs)" "sane_peak (bak fs)"
  shows "\<exists>v fs'. load_peak_equity io fs = (Inr v, fs') \<and> 0 \<le> v \<and>
    sane_peak (primary fs') \<and> sane_peak (bak fs')"
  using parse_sane [OF assms(1)] parse_sane [OF assms(2)] assms
  by (auto simp: load_peak_equity_def Let_def set_aside_primary_def set_aside_bak_def
      prune_forensics_def split: option.splits)

lemma recoverable_load:
  assumes "recoverable m fs" "0 \<le> m"
  shows "\<exists>v fs'. load_peak_equity io fs = (Inr v, fs') \<and> m \<le> v \<and> recoverable m fs'"
proof (cases "good_peak m (primary fs)")
  case True
  with good_peak_parse [OF True assms(2)] assms(1) show ?thesis
    by (auto simp: load_peak_equity_def recoverable_def prune_forensics_def)
next
  case primary: False
  show ?thesis
  proof (cases "primary fs = None \<and> good_peak m (bak fs)")
    case True
    then have "parse_peak (primary fs) = Inr None" "set_aside_primary io fs = fs"
      by (simp_all add: parse_peak_def set_aside_primary_def)
    with good_peak_parse [OF _ assms(2), of "bak fs"] True assms(1) show ?thesis
      by (auto simp: load_peak_equity_def recoverable_def)
  next
    case False
    then have "m \<le> 0" "sane_peak (primary fs)" "sane_peak (bak fs)"
      using primary assms(1) by (auto simp: recoverable_def)
    with load_sane [of fs io] show ?thesis by (force simp: recoverable_def)
  qed
qed

section \<open>The daily-P\&L basis store\<close>

datatype day_json = DayIso int | DayUnparsable | DayNotString

text \<open>An object: the value (\<open>None\<close> when it is no decimal literal; a missing key reads 0), the
  day, the integer \<open>schema_version\<close> if there is one, and whether \<open>basis_valid\<close> is \<open>True\<close>.\<close>

record basis_obj =
  bo_value :: "rat option"
  bo_day :: day_json
  bo_schema :: "int option"
  bo_valid :: bool

datatype basis_json = BasisObject basis_obj | BasisNotObject

record basis =
  prev_close :: rat
  last_day :: "int option"
  trusted :: bool

definition cold_basis :: basis where
  "cold_basis = \<lparr>prev_close = 0, last_day = None, trusted = False\<rparr>"

definition day_of :: "day_json \<Rightarrow> int option" where
  "day_of d = (case d of DayIso n \<Rightarrow> Some n | DayUnparsable \<Rightarrow> None | DayNotString \<Rightarrow> None)"

definition read_basis :: "basis_obj \<Rightarrow> rat \<Rightarrow> basis" where
  "read_basis b v =
     (let v = (if v < 0 then 0 else v); d = day_of (bo_day b)
      in \<lparr>prev_close = v, last_day = d,
          trusted = ((case bo_schema b of None \<Rightarrow> False | Some n \<Rightarrow> 1 \<le> n) \<and> bo_valid b \<and>
                     d \<noteq> None \<and> 0 < v)\<rparr>)"

definition parse_basis :: "basis_json json_file option \<Rightarrow> basis option result" where
  "parse_basis f =
     (case f of
        None \<Rightarrow> Inr None
      | Some Corrupt \<Rightarrow> Inr None
      | Some (Json BasisNotObject) \<Rightarrow> Inl AttributeError
      | Some (Json (BasisObject b)) \<Rightarrow>
          (case bo_value b of None \<Rightarrow> Inl (OtherError ''InvalidOperation'')
           | Some v \<Rightarrow> Inr (Some (read_basis b v))))"

text \<open>Lines 384-506: a missing primary is a cold start without a look at the mirror; a corrupt
  primary is left where it is and the mirror is tried.\<close>

definition load_daily_pnl_basis ::
  "dir_io \<Rightarrow> basis_json store \<Rightarrow> basis result \<times> basis_json store" where
  "load_daily_pnl_basis io fs =
     (case primary fs of
        None \<Rightarrow> (Inr cold_basis, fs)
      | Some Corrupt \<Rightarrow>
          (case parse_basis (bak fs) of
             Inl e \<Rightarrow> (Inl e, fs)
           | Inr (Some b) \<Rightarrow> (Inr b, fs)
           | Inr None \<Rightarrow> (Inr cold_basis, set_aside_bak io fs))
      | Some (Json j) \<Rightarrow>
          (case parse_basis (primary fs) of
             Inl e \<Rightarrow> (Inl e, fs)
           | Inr None \<Rightarrow> (Inr cold_basis, fs)
           | Inr (Some b) \<Rightarrow> (Inr b, fs)))"

definition basis_payload :: "basis \<Rightarrow> basis_json" where
  "basis_payload b = BasisObject
     \<lparr>bo_value = Some (prev_close b),
      bo_day = (case last_day b of None \<Rightarrow> DayNotString | Some d \<Rightarrow> DayIso d),
      bo_schema = Some 1, bo_valid = True\<rparr>"

definition save_daily_pnl_basis :: "basis \<Rightarrow> basis_json store \<Rightarrow> basis_json store" where
  "save_daily_pnl_basis b fs = save_store (basis_payload b) fs"

section \<open>The life of the peak store\<close>

text \<open>
  A process boots (loads the peak), observes NAVs (raising the peak and saving it when it grew)
  and is killed at any moment, also in the middle of a save. \<open>published\<close> is a ghost: the largest
  peak whose file has been renamed into place.
\<close>

record peak_life =
  memory :: "rat option" \<comment> \<open>\<open>None\<close> while the process is down\<close>
  saving :: "(rat \<times> peak_json save_pc) option"
  disk :: "peak_json store"
  published :: rat

inductive peak_step :: "dir_io \<Rightarrow> peak_life \<Rightarrow> peak_life \<Rightarrow> bool" for io :: dir_io where
  boot: "memory s = None \<Longrightarrow> load_peak_equity io (disk s) = (Inr v, fs) \<Longrightarrow>
     peak_step io s (s\<lparr>memory := Some v, saving := None, disk := fs\<rparr>)"
| observe: "memory s = Some p \<Longrightarrow> saving s = None \<Longrightarrow> p < nav \<Longrightarrow>
     peak_step io s (s\<lparr>memory := Some nav, saving := Some (nav, Save_Begin)\<rparr>)"
| save_io: "saving s = Some (v, pc) \<Longrightarrow> memory s \<noteq> None \<Longrightarrow>
     save_step (PeakValue v) (pc, disk s) (pc', fs) \<Longrightarrow>
     peak_step io s (s\<lparr>saving := (if pc' = Save_End then None else Some (v, pc')), disk := fs,
       published := (if primary fs = Some (Json (PeakValue v)) then max v (published s)
                     else published s)\<rparr>)"
| kill: "peak_step io s (s\<lparr>memory := None, saving := None\<rparr>)"

inductive peak_reach :: "dir_io \<Rightarrow> peak_life \<Rightarrow> peak_life \<Rightarrow> bool" for io :: dir_io where
  reach_init: "peak_reach io s s"
| reach_step: "peak_reach io s t \<Longrightarrow> peak_step io t u \<Longrightarrow> peak_reach io s u"

text \<open>The disk always lets at least the published peak be recovered, memory is never below it,
  and a save in progress writes at least it and is consistent with its program counter.\<close>

definition save_consistent :: "rat \<Rightarrow> peak_json save_pc \<Rightarrow> peak_json store \<Rightarrow> bool" where
  "save_consistent v pc fs \<longleftrightarrow>
     (pc = Tmp_Written \<longrightarrow> tmp fs = Some (Json (PeakValue v))) \<and>
     (\<forall>c. pc = Bak_Opened c \<longrightarrow> primary fs = Some c)"

definition life_inv :: "peak_life \<Rightarrow> bool" where
  "life_inv s \<longleftrightarrow> 0 \<le> published s \<and> recoverable (published s) (disk s) \<and>
     (\<forall>p. memory s = Some p \<longrightarrow> published s \<le> p) \<and>
     (\<forall>v pc. saving s = Some (v, pc) \<longrightarrow> memory s = Some v \<and> save_consistent v pc (disk s))"

lemma save_step_recoverable:
  assumes "save_step (PeakValue v) (pc, fs) (pc', fs')" "recoverable m fs" "m \<le> v"
    and "save_consistent v pc fs"
  shows "recoverable m fs' \<and> save_consistent v pc' fs' \<and>
    (primary fs' = primary fs \<or> primary fs' = Some (Json (PeakValue v)))"
  using assms by (elim save_stepE) (auto simp: recoverable_def good_peak_def save_consistent_def)

lemma recoverable_written:
  "primary fs = Some (Json (PeakValue v)) \<Longrightarrow> recoverable m fs \<Longrightarrow> recoverable v fs"
  by (auto simp: recoverable_def good_peak_def)

lemma life_inv_step: "peak_step io s t \<Longrightarrow> life_inv s \<Longrightarrow> life_inv t"
proof (induction rule: peak_step.induct)
  case (boot s v fs)
  then show ?case using recoverable_load [of "published s" "disk s" io]
    by (auto simp: life_inv_def)
next
  case (observe s p nav)
  then show ?case by (auto simp: life_inv_def save_consistent_def)
next
  case (save_io s v pc pc' fs)
  then have inv: "recoverable (published s) (disk s)" "published s \<le> v" "memory s = Some v"
    "save_consistent v pc (disk s)" by (auto simp: life_inv_def)
  from save_step_recoverable [OF save_io.hyps(3) inv(1,2,4)] inv save_io.prems show ?case
    by (auto simp: life_inv_def max_def recoverable_written)
next
  case (kill s)
  then show ?case by (auto simp: life_inv_def)
qed

text \<open>A first start on an empty directory, an observed NAV, a kill in the middle of its save.\<close>

definition fresh_life :: peak_life where
  "fresh_life = \<lparr>memory = None, saving = None,
     disk = \<lparr>primary = None, bak = None, tmp = None, aside = [], bak_aside = []\<rparr>, published = 0\<rparr>"

definition cut_life :: peak_life where
  "cut_life = fresh_life\<lparr>disk := (disk fresh_life)\<lparr>tmp := Some Corrupt\<rparr>\<rparr>"

definition good_dir :: dir_io where
  "good_dir = \<lparr>rename_ok = True, prune_ok = True\<rparr>"

lemma fresh_life_inv: "life_inv fresh_life"
  by (simp add: life_inv_def fresh_life_def recoverable_def)

lemma cut_life_reached: "peak_reach good_dir fresh_life cut_life"
proof -
  let ?s1 = "fresh_life\<lparr>memory := Some 0\<rparr>"
  let ?s2 = "?s1\<lparr>memory := Some 10, saving := Some (10, Save_Begin)\<rparr>"
  let ?s3 = "?s2\<lparr>saving := Some (10, Bak_Done)\<rparr>"
  let ?s4 = "?s3\<lparr>saving := Some (10, Tmp_Opened), disk := disk cut_life\<rparr>"
  have 1: "peak_step good_dir fresh_life ?s1"
    using boot [of fresh_life good_dir 0 "disk fresh_life"]
    by (simp add: fresh_life_def load_peak_equity_def parse_peak_def set_aside_primary_def set_aside_bak_def)
  have 2: "peak_step good_dir ?s1 ?s2"
    using observe [of ?s1 0 10] by (simp add: fresh_life_def)
  have 3: "peak_step good_dir ?s2 ?s3"
    using save_io [OF _ _ bak_absent, of ?s2 10] by (simp add: fresh_life_def)
  have 4: "peak_step good_dir ?s3 ?s4"
    using save_io [OF _ _ tmp_open, of ?s3 10] by (simp add: fresh_life_def cut_life_def)
  have 5: "peak_step good_dir ?s4 cut_life"
    using kill [of good_dir ?s4] by (simp add: fresh_life_def cut_life_def)
  from reach_step [OF reach_step [OF reach_step [OF reach_step [OF reach_step [OF reach_init 1] 2] 3] 4] 5]
  show ?thesis .
qed

text \<open>
  C4. The high-water mark survives every crash: from any state of the disk that is consistent,
  through any sequence of boots, observed NAVs, completed, failed or interrupted saves and kills
  at any point, the next load returns at least every peak ever published. RISK_DD is never
  disarmed by a crash.
\<close>

theorem peak_survives_crashes:
  assumes "life_inv s" "peak_reach io s t"
  shows "\<exists>v fs. load_peak_equity io (disk t) = (Inr v, fs) \<and> published t \<le> v"
proof -
  have "life_inv t" using assms(2,1) by (induction rule: peak_reach.induct) (auto intro: life_inv_step)
  then show ?thesis using recoverable_load [of "published t" "disk t" io] by (auto simp: life_inv_def)
qed

theorem peak_survives_crashes_witness:
  "\<exists>v fs. load_peak_equity good_dir (disk cut_life) = (Inr v, fs) \<and> published cut_life \<le> v"
  by (rule peak_survives_crashes [OF fresh_life_inv cut_life_reached])

text \<open>
  C8. What a completed save wrote is what the next start reads, for both stores: the peak (a
  non-negative one), and the basis with its day, as a trusted basis.
\<close>

theorem saved_stores_load_back:
  assumes "0 \<le> v" "0 < prev_close b" "last_day b = Some d"
  shows "fst (load_peak_equity io (save_peak_equity v fs)) = Inr v \<and>
    fst (load_daily_pnl_basis io (save_daily_pnl_basis b fs')) = Inr (b\<lparr>trusted := True\<rparr>)"
  using assms
  by (simp add: load_peak_equity_def save_peak_equity_def save_store_def parse_peak_def Let_def
      load_daily_pnl_basis_def save_daily_pnl_basis_def parse_basis_def basis_payload_def
      read_basis_def day_of_def split: option.split)

definition ex_basis :: basis where
  "ex_basis = \<lparr>prev_close = 100, last_day = Some 739000, trusted = True\<rparr>"

theorem saved_stores_load_back_witness:
  "fst (load_peak_equity good_dir (save_peak_equity 125000 (disk fresh_life))) = Inr 125000 \<and>
   fst (load_daily_pnl_basis good_dir (save_daily_pnl_basis ex_basis
     \<lparr>primary = None, bak = None, tmp = None, aside = [], bak_aside = []\<rparr>)) = Inr (ex_basis\<lparr>trusted := True\<rparr>)"
  by (rule saved_stores_load_back [of _ _ 739000]) (simp_all add: ex_basis_def)

text \<open>
  The basis store has no such guarantee. After a corrupt primary the loader recovers the
  trusted basis from the mirror but leaves the corrupt primary in place; the next save then copies
  the corrupt text over the good mirror before it writes, and a kill in that window leaves both
  files corrupt: the next start is cold (basis 0, no day) and RISK_DAILY_LOSS is disarmed.
\<close>

theorem basis_lost_by_crash_after_recovery:
  assumes "primary fs = Some Corrupt" "bak fs = Some (Json (BasisObject b))"
    and "bo_value b = Some v" "trusted (read_basis b v)"
  shows "fst (load_daily_pnl_basis io fs) = Inr (read_basis b v) \<and>
    (\<exists>pc fs'. save_run (basis_payload nb) (snd (load_daily_pnl_basis io fs)) pc fs' \<and>
       fst (load_daily_pnl_basis io fs') = Inr cold_basis)"
proof -
  have l: "load_daily_pnl_basis io fs = (Inr (read_basis b v), fs)"
    using assms by (simp add: load_daily_pnl_basis_def parse_basis_def)
  have "save_run (basis_payload nb) fs (Bak_Opened Corrupt) (fs\<lparr>bak := Some Corrupt\<rparr>)"
    using assms(1) by (intro run_step [OF run_begin] bak_open)
  from run_step [OF this bak_write]
  have "save_run (basis_payload nb) fs Bak_Done (fs\<lparr>bak := Some Corrupt\<rparr>)" by simp
  moreover have "fst (load_daily_pnl_basis io (fs\<lparr>bak := Some Corrupt\<rparr>)) = Inr cold_basis"
    using assms(1) by (simp add: load_daily_pnl_basis_def parse_basis_def)
  ultimately show ?thesis using l by (metis fst_conv snd_conv)
qed

definition damaged_store :: "basis_json store" where
  "damaged_store = \<lparr>primary = Some Corrupt, bak = Some (Json (basis_payload ex_basis)), tmp = None,
     aside = [], bak_aside = []\<rparr>"

theorem basis_lost_by_crash_after_recovery_witness:
  "\<exists>pc fs'. save_run (basis_payload ex_basis) (snd (load_daily_pnl_basis good_dir damaged_store)) pc fs' \<and>
     fst (load_daily_pnl_basis good_dir fs') = Inr cold_basis"
  using basis_lost_by_crash_after_recovery [of damaged_store _ 100 good_dir ex_basis]
  by (simp add: damaged_store_def basis_payload_def ex_basis_def read_basis_def day_of_def)

end
