(* ===== verification/TinkoffAccount.thy ===== *)
theory TinkoffAccount
  imports OrderFlow EquityStore
begin

text \<open>
  \<open>src/broker/tinkoff_account.py\<close>: the concrete broker. The SDK (\<open>t_tech.invest\<close>) is code outside
  the repository: its calls are the fields of a record \<open>sdk\<close>, functions on a remote state \<open>'x\<close>
  that may raise. The world of an account is the environment variable, the clock, the
  high-water mark and the daily basis in memory and on disk, the remote state, and a ghost trace
  of the rate-limit acquisitions and SDK calls made.
\<close>

section \<open>The SDK and the world\<close>

text \<open>A price or amount: the \<open>units\<close>/\<open>nano\<close> pair, or a legacy value (\<open>None\<close> when its text is no
  decimal literal).\<close>

datatype money = Quotation int int | LegacyMoney "rat option"

record instrument =
  inst_ticker :: "string option"
  class_code :: "string option"
  figi :: string

record last_price =
  lp_figi :: "string option"
  lp_price :: "money option"

record remote_position =
  rp_ticker :: string
  rp_quantity :: "rat option" \<comment> \<open>\<open>None\<close> when \<open>str(quantity)\<close> is no decimal literal\<close>
  rp_avg_price :: "money option"

record portfolio_response =
  pr_positions :: "remote_position list"
  pr_amount :: "money option"

record wire_order =
  wo_figi :: string
  wo_quantity :: int
  wo_account :: string
  wo_side :: order_side
  wo_price :: "(int \<times> int) option" \<comment> \<open>\<open>None\<close> for a market order\<close>

datatype sdk_event =
    Acquire
  | FindInstrument string
  | GetLastPrices string
  | GetAccounts
  | GetPortfolio string
  | PostOrder wire_order
  | CancelOrder string

record 'x sdk =
  sdk_installed :: bool
  find_instrument :: "string \<Rightarrow> 'x \<Rightarrow> instrument list result \<times> 'x"
  get_last_prices :: "string \<Rightarrow> 'x \<Rightarrow> last_price list result \<times> 'x"
  get_accounts :: "'x \<Rightarrow> string list result \<times> 'x"
  sdk_portfolio :: "string \<Rightarrow> 'x \<Rightarrow> portfolio_response result \<times> 'x"
  post_order :: "wire_order \<Rightarrow> 'x \<Rightarrow> string result \<times> 'x"
  sdk_cancel :: "string \<Rightarrow> 'x \<Rightarrow> unit result \<times> 'x"

record tinkoff_account =
  ac_token :: string
  ac_id :: string
  ac_gate :: "risk_limits option"

record 'x tk_world =
  live_env :: "string option"
  msk_today :: int
  disk_ok :: bool
  peak_mem :: rat
  peak_disk :: "peak_json store"
  basis_mem :: basis
  basis_disk :: "basis_json store"
  remote :: 'x
  trace :: "sdk_event list"

type_synonym ('x, 'a) tk = "'x tk_world \<Rightarrow> 'a result \<times> 'x tk_world"

definition acquire :: "('x, unit) tk" where
  "acquire w = (Inr (), w\<lparr>trace := trace w @ [Acquire]\<rparr>)"

definition sdk_call :: "sdk_event \<Rightarrow> ('x \<Rightarrow> 'a result \<times> 'x) \<Rightarrow> ('x, 'a) tk" where
  "sdk_call ev f w =
     (case f (remote w) of (r, x) \<Rightarrow> (r, w\<lparr>remote := x, trace := trace w @ [ev]\<rparr>))"

section \<open>Configuration\<close>

definition is_sandbox :: "tinkoff_account \<Rightarrow> bool" where
  "is_sandbox ac \<longleftrightarrow> take 2 (ac_token ac) = ''t.''"

text \<open>\<open>LIVE_TRADING\<close> must be the word true, in any case.\<close>

definition live_trading :: "'x tk_world \<Rightarrow> bool" where
  "live_trading w \<longleftrightarrow>
     py_lower (case live_env w of None \<Rightarrow> ''false'' | Some v \<Rightarrow> v) = ''true''"

text \<open>The credentials \<open>from_env\<close> picks.\<close>

definition nonblank :: "string option \<Rightarrow> bool" where
  "nonblank v \<longleftrightarrow> (case v of None \<Rightarrow> False | Some s \<Rightarrow> py_strip s \<noteq> [])"

definition from_env ::
  "(string \<rightharpoonup> string) \<Rightarrow> risk_limits option \<Rightarrow> tinkoff_account result" where
  "from_env env gate =
     (let sandbox = env ''TINKOFF_SANDBOX_TOKEN'';
          real = env ''TINKOFF_REAL_TOKEN'';
          account = (case env ''TINKOFF_ACCOUNT_ID'' of None \<Rightarrow> ''SB1'' | Some a \<Rightarrow> a)
      in if nonblank real
         then Inr \<lparr>ac_token = the real, ac_id = account, ac_gate = gate\<rparr>
         else if nonblank sandbox \<and> sandbox \<noteq> Some ''placeholder_get_from_tbank''
         then Inr \<lparr>ac_token = the sandbox, ac_id = account, ac_gate = gate\<rparr>
         else Inl BrokerError)"

text \<open>The part of the constructor that touches the world: both stores are loaded.\<close>

definition init_account :: "dir_io \<Rightarrow> ('x, unit) tk" where
  "init_account io w =
     (case load_peak_equity io (peak_disk w) of
        (Inl e, fs) \<Rightarrow> (Inl e, w\<lparr>peak_disk := fs\<rparr>)
      | (Inr v, fs) \<Rightarrow>
          (let w = w\<lparr>peak_mem := v, peak_disk := fs\<rparr> in
           case load_daily_pnl_basis io (basis_disk w) of
             (Inl e, bs) \<Rightarrow> (Inl e, w\<lparr>basis_disk := bs\<rparr>)
           | (Inr b, bs) \<Rightarrow> (Inr (), w\<lparr>basis_mem := b, basis_disk := bs\<rparr>)))"

section \<open>Prices, instruments, portfolio\<close>

definition units_nano :: "int \<Rightarrow> int \<Rightarrow> rat" where
  "units_nano units nano = dadd (of_int units) (ddiv (of_int nano) 1000000000)"

definition tradable_class_codes :: "string set" where
  "tradable_class_codes =
     {''TQBR'', ''TQOB'', ''TQCB'', ''TQTE'', ''SPBXM'', ''TQBS'', ''TQDE'', ''TQNO'', ''TQLV'', ''TQPI''}"

definition tradable :: "string \<Rightarrow> instrument \<Rightarrow> bool" where
  "tradable ticker i \<longleftrightarrow> inst_ticker i = Some ticker \<and>
     (case class_code i of None \<Rightarrow> False | Some c \<Rightarrow> c \<in> tradable_class_codes)"

definition as_broker_error :: "'a result \<times> 'w \<Rightarrow> 'a result \<times> 'w" where
  "as_broker_error p = (case p of (Inl e, w) \<Rightarrow> (Inl BrokerError, w) | (Inr x, w) \<Rightarrow> (Inr x, w))"

definition ticker_to_figi :: "'x sdk \<Rightarrow> string \<Rightarrow> ('x, string) tk" where
  "ticker_to_figi sdk ticker =
     (let t = py_strip (py_upper ticker) in
      bindW (\<lambda>w. as_broker_error (sdk_call (FindInstrument t) (find_instrument sdk t) w))
        (\<lambda>insts. liftW (case find (tradable t) insts of
             Some i \<Rightarrow> Inr (figi i) | None \<Rightarrow> Inl BrokerError)))"

text \<open>The first entry of the response for this instrument decides.\<close>

definition price_of_quote :: "last_price \<Rightarrow> rat result" where
  "price_of_quote lp =
     (case lp_price lp of
        Some (Quotation units nano) \<Rightarrow>
          (let price = units_nano units nano in if price \<le> 0 then Inl BrokerError else Inr price)
      | _ \<Rightarrow> Inl BrokerError)"

definition fetch_live_quote_price :: "'x sdk \<Rightarrow> string \<Rightarrow> ('x, rat) tk" where
  "fetch_live_quote_price sdk ticker = (\<lambda>w. as_broker_error
     (bindW (ticker_to_figi sdk ticker)
       (\<lambda>f. bindW (sdk_call (GetLastPrices f) (get_last_prices sdk f))
         (\<lambda>lps. liftW (case find (\<lambda>lp. lp_figi lp = Some f) lps of
             None \<Rightarrow> Inl BrokerError | Some lp \<Rightarrow> price_of_quote lp))) w))"

definition money_value :: "money option \<Rightarrow> rat result" where
  "money_value m =
     (case m of
        None \<Rightarrow> Inr 0
      | Some (Quotation units nano) \<Rightarrow> Inr (units_nano units nano)
      | Some (LegacyMoney None) \<Rightarrow> Inl (OtherError ''InvalidOperation'')
      | Some (LegacyMoney (Some v)) \<Rightarrow> Inr v)"

definition read_position :: "remote_position \<Rightarrow> broker_position result" where
  "read_position p =
     bindR (money_value (rp_avg_price p)) (\<lambda>avg.
       case rp_quantity p of
         None \<Rightarrow> Inl (OtherError ''InvalidOperation'')
       | Some q \<Rightarrow> Inr \<lparr>bp_ticker = rp_ticker p, bp_quantity = q, bp_avg_price = avg\<rparr>)"

definition read_portfolio :: "string \<Rightarrow> portfolio_response \<Rightarrow> portfolio_snapshot result" where
  "read_portfolio account r =
     bindR (map_result read_position (pr_positions r)) (\<lambda>ps.
       bindR (money_value (pr_amount r)) (\<lambda>cash.
         Inr \<lparr>sn_account_id = account, sn_cash = cash, sn_positions = ps\<rparr>))"

definition get_portfolio :: "'x sdk \<Rightarrow> tinkoff_account \<Rightarrow> ('x, portfolio_snapshot) tk" where
  "get_portfolio sdk ac =
     bindW acquire (\<lambda>_ w. as_broker_error
       ((if \<not> sdk_installed sdk then raiseW (OtherError ''ImportError'')
         else bindW (sdk_call GetAccounts (get_accounts sdk)) (\<lambda>accounts.
           if ac_id ac \<notin> set accounts then raiseW BrokerError
           else bindW (sdk_call (GetPortfolio (ac_id ac)) (sdk_portfolio sdk (ac_id ac)))
             (\<lambda>r. liftW (read_portfolio (ac_id ac) r)))) w))"

section \<open>The state the gate sees\<close>

definition observe_nav :: "rat \<Rightarrow> 'x tk_world \<Rightarrow> 'x tk_world" where
  "observe_nav nav w =
     (if peak_mem w < nav
      then w\<lparr>peak_mem := nav,
             peak_disk := (if disk_ok w then save_peak_equity nav (peak_disk w) else peak_disk w)\<rparr>
      else w)"

text \<open>Lines 863-891: the day rollover and the P\&L of the day.\<close>

definition roll_day :: "rat \<Rightarrow> ('x, rat) tk" where
  "roll_day nav w =
     (if last_day (basis_mem w) \<noteq> Some (msk_today w) then
        if \<not> trusted (basis_mem w) \<and> last_day (basis_mem w) \<noteq> None then (Inl BrokerError, w)
        else
          let b = \<lparr>prev_close = nav, last_day = Some (msk_today w), trusted = True\<rparr>
          in (Inr 0, w\<lparr>basis_mem := b,
                basis_disk := (if disk_ok w then save_daily_pnl_basis b (basis_disk w) else basis_disk w)\<rparr>)
      else (Inr (dsub nav (prev_close (basis_mem w))), w))"

definition build_state :: "portfolio_snapshot \<Rightarrow> rat \<Rightarrow> ('x, portfolio_state) tk" where
  "build_state sn pnl w =
     (bindR (map_result gate_position (sn_positions sn)) (\<lambda>ps.
        mk_portfolio_state (sn_cash sn) (free_cash sn) ps pnl (peak_mem w)), w)"

definition state_of_snapshot :: "portfolio_snapshot \<Rightarrow> ('x, portfolio_state) tk" where
  "state_of_snapshot sn w =
     (if sn_cash sn \<le> 0 then (Inl BrokerError, w)
      else bindW (roll_day (sn_cash sn)) (build_state sn) (observe_nav (sn_cash sn) w))"

definition fetch_real_portfolio_state ::
  "'x sdk \<Rightarrow> tinkoff_account \<Rightarrow> ('x, portfolio_state) tk" where
  "fetch_real_portfolio_state sdk ac = bindW (get_portfolio sdk ac) state_of_snapshot"

definition order_price :: "'x sdk \<Rightarrow> order \<Rightarrow> ('x, rat) tk" where
  "order_price sdk ord =
     (case o_limit ord of None \<Rightarrow> fetch_live_quote_price sdk (o_ticker ord) | Some p \<Rightarrow> liftW (Inr p))"

definition build_intent_and_state ::
  "'x sdk \<Rightarrow> tinkoff_account \<Rightarrow> order \<Rightarrow> ('x, trade_intent \<times> portfolio_state) tk" where
  "build_intent_and_state sdk ac ord =
     bindW (order_price sdk ord) (\<lambda>price.
       bindW (liftW (mk_trade_intent (o_ticker ord) (py_lower (side_value (o_side ord)))
                (o_quantity ord) price None)) (\<lambda>i.
         bindW (fetch_real_portfolio_state sdk ac) (\<lambda>s. liftW (Inr (i, s)))))"

section \<open>Placing and cancelling orders\<close>

text \<open>\<open>price.quantize(Decimal("1e-9"), ROUND_DOWN)\<close> raises when the result needs more than 28
  digits.\<close>

definition quantize9 :: "rat \<Rightarrow> rat result" where
  "quantize9 p = (let c = dint (p * 1000000000)
     in if 10 ^ 28 \<le> \<bar>c\<bar> then Inl (OtherError ''InvalidOperation'') else Inr (of_int c / 1000000000))"

definition wire_price :: "rat \<Rightarrow> (int \<times> int) result" where
  "wire_price price =
     bindR (quantize9 price) (\<lambda>price_9.
       let fractional = dsub price_9 (of_int (dint price_9));
           nano = dint (dmul fractional 1000000000);
           nano = (if 0 \<le> nano \<and> nano < 1000000000 then nano else max 0 (min nano 999999999))
       in Inr (dint price_9, nano))"

definition order_wire_price :: "order \<Rightarrow> (int \<times> int) option result" where
  "order_wire_price ord =
     (case o_limit ord of None \<Rightarrow> Inr None | Some p \<Rightarrow> bindR (wire_price p) (\<lambda>q. Inr (Some q)))"

definition map_status :: "string \<Rightarrow> order_status" where
  "map_status raw =
     (if raw = ''EXECUTION_REPORT_STATUS_FILL'' then FILLED
      else if raw = ''EXECUTION_REPORT_STATUS_PARTIALLYFILL'' then FILLED
      else if raw = ''EXECUTION_REPORT_STATUS_REJECTED'' then REJECTED
      else if raw = ''EXECUTION_REPORT_STATUS_CANCELLED'' then CANCELLED
      else SUBMITTED)"

definition send_order :: "'x sdk \<Rightarrow> tinkoff_account \<Rightarrow> order \<Rightarrow> ('x, order_status) tk" where
  "send_order sdk ac ord =
     bindW (ticker_to_figi sdk (o_ticker ord)) (\<lambda>f.
       bindW (liftW (order_wire_price ord)) (\<lambda>price.
         let wo = \<lparr>wo_figi = f, wo_quantity = dint (o_quantity ord), wo_account = ac_id ac,
                   wo_side = o_side ord, wo_price = price\<rparr>
         in bindW (sdk_call (PostOrder wo) (post_order sdk wo)) (\<lambda>raw. liftW (Inr (map_status raw)))))"

definition gated_order ::
  "'x sdk \<Rightarrow> tinkoff_account \<Rightarrow> risk_limits \<Rightarrow> order \<Rightarrow> ('x, order_status) tk" where
  "gated_order sdk ac lims ord =
     (if \<not> sdk_installed sdk then raiseW (OtherError ''ImportError'')
      else bindW (build_intent_and_state sdk ac ord) (\<lambda>is.
        bindW (liftW (evaluate lims (fst is) (snd is))) (\<lambda>d.
          if \<not> allowed d then liftW (Inr REJECTED) else send_order sdk ac ord)))"

text \<open>A \<open>BrokerError\<close> inside is a rejection; any other exception is wrapped and raised.\<close>

definition settle :: "order_status result \<times> 'w \<Rightarrow> order_status result \<times> 'w" where
  "settle p = (case p of
      (Inl BrokerError, w) \<Rightarrow> (Inr REJECTED, w)
    | (Inl _, w) \<Rightarrow> (Inl BrokerError, w)
    | (Inr st, w) \<Rightarrow> (Inr st, w))"

definition place_order :: "'x sdk \<Rightarrow> tinkoff_account \<Rightarrow> order \<Rightarrow> ('x, order_status) tk" where
  "place_order sdk ac ord w =
     (if \<not> live_trading w then (Inr REJECTED, w)
      else case ac_gate ac of
             None \<Rightarrow> (Inr REJECTED, w)
           | Some lims \<Rightarrow> bindW acquire (\<lambda>_ w. settle (gated_order sdk ac lims ord w)) w)"

definition cancel_order :: "'x sdk \<Rightarrow> string \<Rightarrow> ('x, order_status) tk" where
  "cancel_order sdk oid =
     bindW acquire (\<lambda>_ w. as_broker_error
       ((if \<not> sdk_installed sdk then raiseW (OtherError ''ImportError'')
         else bindW (sdk_call (CancelOrder oid) (sdk_cancel sdk oid)) (\<lambda>_. liftW (Inr CANCELLED))) w))"


section \<open>What the calls leave alone\<close>

fun posted :: "sdk_event list \<Rightarrow> wire_order list" where
  "posted [] = []"
| "posted (PostOrder wo # evs) = wo # posted evs"
| "posted (ev # evs) = posted evs"

definition wire :: "'x tk_world \<Rightarrow> wire_order list" where
  "wire w = posted (trace w)"

lemma posted_append [simp]: "posted (xs @ ys) = posted xs @ posted ys"
  by (induction xs rule: posted.induct) auto

text \<open>\<open>calm\<close>: nothing is posted, the environment stays, and the high-water mark does not sink.\<close>

definition calm :: "'x tk_world \<Rightarrow> 'x tk_world \<Rightarrow> bool" where
  "calm w w' \<longleftrightarrow> live_env w' = live_env w \<and> msk_today w' = msk_today w \<and> wire w' = wire w \<and>
     peak_mem w \<le> peak_mem w'"

lemma calm_refl [simp]: "calm w w"
  by (simp add: calm_def)

text \<open>Any preorder that the bookkeeping of an SDK call respects is kept by every read-only part.\<close>

lemma keepsW_as_broker_error: "keepsW R m \<Longrightarrow> keepsW R (\<lambda>w. as_broker_error (m w))"
  unfolding keepsW_def as_broker_error_def by (auto split: prod.split sum.split) (metis snd_conv)+

locale quiet_relation =
  fixes R :: "'x tk_world \<Rightarrow> 'x tk_world \<Rightarrow> bool"
  assumes refl: "reflp R"
    and trans: "transp R"
    and call: "posted [ev] = [] \<Longrightarrow> R w (w\<lparr>remote := x, trace := trace w @ [ev]\<rparr>)"
begin

lemmas pure = keepsW_pure [OF refl]
lemmas bind = keepsW_bind [OF trans]

lemma keeps_acquire: "keepsW R acquire"
  using call [of Acquire w "remote w" for w] by (simp add: keepsW_def acquire_def)

lemma keeps_call: "posted [ev] = [] \<Longrightarrow> keepsW R (sdk_call ev f)"
  using call by (auto simp: keepsW_def sdk_call_def split: prod.split)

lemma keeps_figi: "keepsW R (ticker_to_figi sdk ticker)"
  unfolding ticker_to_figi_def Let_def
  by (intro bind keepsW_as_broker_error keeps_call pure) simp_all

lemma keeps_quote: "keepsW R (fetch_live_quote_price sdk ticker)"
  unfolding fetch_live_quote_price_def
  by (intro bind keepsW_as_broker_error keeps_call keeps_figi pure) simp_all

lemma keeps_get_portfolio: "keepsW R (get_portfolio sdk ac)"
proof -
  have "keepsW R (if \<not> sdk_installed sdk then raiseW (OtherError ''ImportError'')
      else bindW (sdk_call GetAccounts (get_accounts sdk)) (\<lambda>accounts.
        if ac_id ac \<notin> set accounts then raiseW BrokerError
        else bindW (sdk_call (GetPortfolio (ac_id ac)) (sdk_portfolio sdk (ac_id ac)))
          (\<lambda>r. liftW (read_portfolio (ac_id ac) r))))"
    by (auto intro!: bind keeps_call pure)
  then show ?thesis
    unfolding get_portfolio_def by (intro bind keepsW_as_broker_error keeps_acquire) simp
qed

lemma keeps_price: "keepsW R (order_price sdk ord)"
  unfolding order_price_def by (auto intro: keeps_quote pure split: option.split)

lemma keeps_build:
  assumes "\<And>sn. keepsW R (state_of_snapshot sn)"
  shows "keepsW R (build_intent_and_state sdk ac ord)"
  unfolding build_intent_and_state_def fetch_real_portfolio_state_def
  by (intro bind pure assms keeps_price keeps_get_portfolio)

end

interpretation calm: quiet_relation calm
  by unfold_locales (auto simp: calm_def reflp_def transp_def wire_def)

lemma observe_nav_calm: "calm w (observe_nav nav w)"
  by (simp add: calm_def observe_nav_def wire_def)

lemma roll_day_calm: "keepsW calm (roll_day nav)"
  by (simp add: keepsW_def calm_def roll_day_def wire_def Let_def)

lemma build_state_calm: "keepsW calm (build_state sn pnl)"
  by (simp add: keepsW_def build_state_def)

lemma calm_roll_and_build_tk: "keepsW calm (bindW (roll_day nav) (build_state sn))"
  by (intro calm.bind roll_day_calm build_state_calm)

lemma calm_roll_and_build: "calm v (snd (bindW (roll_day nav) (build_state sn) v))"
  using calm_roll_and_build_tk [unfolded keepsW_def] by (rule spec)

lemma calm_state: "keepsW calm (state_of_snapshot sn)"
  by (auto simp: keepsW_def state_of_snapshot_def
      intro: transpD [OF calm.trans observe_nav_calm calm_roll_and_build])

lemmas calm_build = calm.keeps_build [OF calm_state]

section \<open>What placing an order does\<close>

text \<open>One order goes out: its fields are those of the order.\<close>

definition sent :: "tinkoff_account \<Rightarrow> order \<Rightarrow> wire_order \<Rightarrow> 'x tk_world \<Rightarrow> 'x tk_world \<Rightarrow> bool" where
  "sent ac ord wo w w' \<longleftrightarrow> wire w' = wire w @ [wo] \<and> live_env w' = live_env w \<and>
     peak_mem w \<le> peak_mem w' \<and> wo_quantity wo = dint (o_quantity ord) \<and> wo_side wo = o_side ord \<and>
     wo_account wo = ac_id ac \<and> order_wire_price ord = Inr (wo_price wo)"

lemma calm_sent: "calm w w1 \<Longrightarrow> sent ac ord wo w1 w2 \<Longrightarrow> sent ac ord wo w w2"
  by (auto simp: calm_def sent_def)

lemma sdk_call_post:
  assumes "sdk_call (PostOrder wo) f w = (r, w')"
  shows "wire w' = wire w @ [wo] \<and> live_env w' = live_env w \<and> peak_mem w' = peak_mem w"
  using assms by (auto simp: sdk_call_def wire_def split: prod.splits)

lemma send_order_cases:
  assumes "send_order sdk ac ord w = (r, w')"
  shows "(\<exists>e. r = Inl e) \<and> calm w w' \<or>
    (\<exists>wo. sent ac ord wo w w') \<and> ((\<exists>e. r = Inl e) \<or> (\<exists>raw. r = Inr (map_status raw)))"
proof -
  obtain rf w1 where f: "ticker_to_figi sdk (o_ticker ord) w = (rf, w1)" by fastforce
  have c: "calm w w1" by (rule keepsWD [OF calm.keeps_figi f])
  show ?thesis
  proof (cases rf)
    case (Inl e)
    then show ?thesis using assms f c by (auto simp: send_order_def)
  next
    case (Inr fg)
    show ?thesis
    proof (cases "order_wire_price ord")
      case (Inl e)
      then show ?thesis using assms f c Inr by (auto simp: send_order_def)
    next
      case price: (Inr price)
      let ?wo = "\<lparr>wo_figi = fg, wo_quantity = dint (o_quantity ord), wo_account = ac_id ac,
          wo_side = o_side ord, wo_price = price\<rparr>"
      obtain rp w2 where p: "sdk_call (PostOrder ?wo) (post_order sdk ?wo) w1 = (rp, w2)" by fastforce
      have "sent ac ord ?wo w w2"
        using c sdk_call_post [OF p] by (simp add: sent_def calm_def price)
      moreover have "w' = w2 \<and> ((\<exists>e. r = Inl e) \<or> (\<exists>raw. r = Inr (map_status raw)))"
        using assms f p by (cases rp) (auto simp: send_order_def Inr price Let_def)
      ultimately show ?thesis by blast
    qed
  qed
qed

text \<open>The order went out after the gate allowed its intent on a freshly fetched state.\<close>

definition approved :: "'x sdk \<Rightarrow> tinkoff_account \<Rightarrow> order \<Rightarrow> 'x tk_world \<Rightarrow> bool" where
  "approved sdk ac ord w \<longleftrightarrow> (\<exists>lims i s d w1 w2. ac_gate ac = Some lims \<and> calm w w1 \<and>
     build_intent_and_state sdk ac ord w1 = (Inr (i, s), w2) \<and> evaluate lims i s = Inr d \<and> allowed d)"

lemma gated_order_cases:
  assumes "gated_order sdk ac lims ord w = (r, w')" "ac_gate ac = Some lims" "calm v w"
  shows "((\<exists>e. r = Inl e) \<or> r = Inr REJECTED) \<and> calm w w' \<or>
    approved sdk ac ord v \<and> (\<exists>wo. sent ac ord wo w w') \<and>
      ((\<exists>e. r = Inl e) \<or> (\<exists>raw. r = Inr (map_status raw)))"
proof (cases "sdk_installed sdk")
  case True
  obtain rb w1 where b: "build_intent_and_state sdk ac ord w = (rb, w1)" by fastforce
  have c: "calm w w1" by (rule keepsWD [OF calm_build b])
  show ?thesis
  proof (cases rb)
    case (Inl e)
    then show ?thesis using assms b c True by (auto simp: gated_order_def)
  next
    case (Inr iw)
    obtain i s where iw: "iw = (i, s)" by fastforce
    obtain d where d: "evaluate lims i s = Inr d" by (simp add: evaluate_eq)
    show ?thesis
    proof (cases "allowed d")
      case False
      then show ?thesis using assms b c d True by (auto simp: gated_order_def Inr iw)
    next
      case allowed: True
      then have send: "send_order sdk ac ord w1 = (r, w')"
        using assms b d True by (simp add: gated_order_def Inr iw)
      have "approved sdk ac ord v"
        unfolding approved_def using assms(2,3) b d allowed Inr iw by blast
      with send_order_cases [OF send] c show ?thesis
        using calm_sent transpD [OF calm.trans] by metis
    qed
  qed
qed (use assms in \<open>auto simp: gated_order_def\<close>)

lemma settle_cases:
  assumes "settle p = (r, w')"
  shows "snd p = w' \<and> (fst p = r \<and> (\<exists>st. r = Inr st) \<or>
    (\<exists>e. fst p = Inl e) \<and> (r = Inr REJECTED \<or> r = Inl BrokerError))"
  using assms by (auto simp: settle_def split: prod.splits sum.splits py_exc.splits)

lemma place_order_cases:
  assumes "place_order sdk ac ord w = (r, w')"
  shows "(r = Inl BrokerError \<or> r = Inr REJECTED) \<and> calm w w' \<or>
    live_trading w \<and> approved sdk ac ord w \<and> (\<exists>wo. sent ac ord wo w w') \<and>
      (r = Inl BrokerError \<or> r = Inr REJECTED \<or> (\<exists>raw. r = Inr (map_status raw)))"
proof (cases "live_trading w \<and> ac_gate ac \<noteq> None")
  case True
  then obtain lims where l: "live_trading w" "ac_gate ac = Some lims" by blast
  obtain w1 where a: "acquire w = (Inr (), w1)" by (simp add: acquire_def)
  have c: "calm w w1" by (rule keepsWD [OF calm.keeps_acquire a])
  obtain rg w2 where g: "gated_order sdk ac lims ord w1 = (rg, w2)" by fastforce
  have "settle (rg, w2) = (r, w')" using assms l a g by (simp add: place_order_def)
  note st = settle_cases [OF this]
  from gated_order_cases [OF g l(2) c] show ?thesis
  proof
    assume "((\<exists>e. rg = Inl e) \<or> rg = Inr REJECTED) \<and> calm w1 w2"
    with st transpD [OF calm.trans c] show ?thesis by auto
  next
    assume s: "approved sdk ac ord w \<and> (\<exists>wo. sent ac ord wo w1 w2) \<and>
      ((\<exists>e. rg = Inl e) \<or> (\<exists>raw. rg = Inr (map_status raw)))"
    then obtain wo where "sent ac ord wo w w2" using calm_sent [OF c] by blast
    with st s l(1) show ?thesis by auto
  qed
qed (use assms in \<open>auto simp: place_order_def split: if_splits\<close>)

section \<open>The account is a broker port\<close>

interpretation tk: broker_port "place_order sdk ac" live_trading wire for sdk ac
proof unfold_locales
  fix ord r and w w' :: "'a tk_world"
  show "\<not> live_trading w \<Longrightarrow> place_order sdk ac ord w = (Inr REJECTED, w)"
    by (simp add: place_order_def)
  assume p: "place_order sdk ac ord w = (r, w')"
  from place_order_cases [OF p] have "live_env w' = live_env w" by (auto simp: calm_def sent_def)
  then show "live_trading w' = live_trading w" by (simp add: live_trading_def)
  from place_order_cases [OF p] show "\<exists>out. wire w' = wire w @ out \<and> length out \<le> 1"
    by (auto simp: calm_def sent_def)
next
  fix ord and w w' :: "'a tk_world"
  assume "place_order sdk ac ord w = (Inr FILLED, w')"
  from place_order_cases [OF this] show "length (wire w') = Suc (length (wire w))"
    by (auto simp: sent_def)
qed


text \<open>
  C10. The lock is end to end: while \<open>LIVE_TRADING\<close> is not true, a whole run of the order flow on
  this broker puts nothing on the wire and does not change the lock, and if it returns at all
  its status is REJECTED, whatever the quote, volume and peak providers answer (as long as they
  neither post an order nor touch the lock).
\<close>

theorem live_lock_end_to_end:
  assumes "of_broker fl = place_order sdk ac" "\<not> live_trading w"
    and "providers_keep (\<lambda>w w'. live_trading w' = live_trading w \<and> wire w' = wire w) fl"
    and "submit_market fl symbol side qty sn pnl now w = (rr, fl', w')"
  shows "wire w' = wire w \<and> live_trading w' = live_trading w \<and>
    (\<forall>r. rr = Inr r \<longrightarrow> final_status r = REJECTED)"
  by (rule tk.flow_locked [OF assms])

text \<open>
  One order per slice at most: a run of the flow that returns has put at least one order on
  the wire for every slice it counts as filled, and at most one for every slice of the plan.
\<close>

theorem flow_orders_bounded_by_slices:
  assumes "of_broker fl = place_order sdk ac" "providers_keep (\<lambda>w w'. wire w' = wire w) fl"
    and "submit_market fl symbol side qty sn pnl now w = (Inr r, fl', w')"
  shows "\<exists>out. wire w' = wire w @ out \<and> filled_count r \<le> length out \<and> length out \<le> slice_count r"
  by (rule tk.flow_wire [OF assms])

section \<open>The state of the account\<close>

lemma roll_day_Inr:
  assumes "roll_day nav w = (Inr pnl, w')"
  shows "peak_mem w' = peak_mem w \<and> last_day (basis_mem w') = Some (msk_today w) \<and>
    (if last_day (basis_mem w) = Some (msk_today w)
     then pnl = dsub nav (prev_close (basis_mem w)) \<and> basis_mem w' = basis_mem w
     else pnl = 0 \<and> prev_close (basis_mem w') = nav \<and> trusted (basis_mem w') \<and>
       (trusted (basis_mem w) \<or> last_day (basis_mem w) = None))"
  using assms by (auto simp: roll_day_def Let_def split: if_splits)

lemma state_of_snapshot_Inr:
  assumes "state_of_snapshot sn w = (Inr s, w')"
  shows "\<exists>pnl. 0 < sn_cash sn \<and> roll_day (sn_cash sn) (observe_nav (sn_cash sn) w) = (Inr pnl, w') \<and>
    wf_state s \<and> total_equity s = sn_cash sn \<and> peak_equity s = peak_mem w' \<and> daily_pnl s = pnl"
proof -
  obtain pnl where n: "0 < sn_cash sn"
    and r: "roll_day (sn_cash sn) (observe_nav (sn_cash sn) w) = (Inr pnl, w')"
    and b: "build_state sn pnl w' = (Inr s, w')"
    using assms by (auto simp: state_of_snapshot_def bindW_Inr build_state_def split: if_splits)
  obtain ps where ps: "map_result gate_position (sn_positions sn) = Inr ps"
    and mk: "mk_portfolio_state (sn_cash sn) (free_cash sn) ps pnl (peak_mem w') = Inr s"
    using b by (auto simp: build_state_def bindR_Inr_iff)
  have "\<forall>p \<in> set ps. wf_position p"
    by (rule map_result_all [OF ps], unfold gate_position_def, erule mk_position_wf)
  then have "wf_state s" by (rule mk_portfolio_state_wf [OF mk])
  with n r mk show ?thesis by (auto simp: mk_portfolio_state_def split: if_splits)
qed

text \<open>
  The state the account hands to the gate is well formed: its peak is the larger of the
  high-water mark and the NAV, and becomes the new mark; the P\&L of the day is the NAV minus the
  basis on the day of the basis, and zero with the NAV as new basis on the first call of another
  day, which is only possible from a trusted basis or none at all.
\<close>

theorem account_state_spec:
  assumes "state_of_snapshot sn w = (Inr s, w')"
  shows "wf_state s \<and> total_equity s = sn_cash sn \<and>
    peak_equity s = max (peak_mem w) (sn_cash sn) \<and> peak_mem w' = peak_equity s \<and>
    last_day (basis_mem w') = Some (msk_today w) \<and>
    (if last_day (basis_mem w) = Some (msk_today w)
     then daily_pnl s = dsub (sn_cash sn) (prev_close (basis_mem w)) \<and> basis_mem w' = basis_mem w
     else daily_pnl s = 0 \<and> prev_close (basis_mem w') = sn_cash sn \<and>
       (trusted (basis_mem w) \<or> last_day (basis_mem w) = None))"
proof -
  let ?w1 = "observe_nav (sn_cash sn) w"
  have o: "basis_mem ?w1 = basis_mem w" "msk_today ?w1 = msk_today w"
    "peak_mem ?w1 = max (peak_mem w) (sn_cash sn)"
    by (simp_all add: observe_nav_def max_def)
  obtain pnl where s: "roll_day (sn_cash sn) ?w1 = (Inr pnl, w')" "wf_state s"
    "total_equity s = sn_cash sn" "peak_equity s = peak_mem w'" "daily_pnl s = pnl"
    using state_of_snapshot_Inr [OF assms] by blast
  from roll_day_Inr [OF s(1)] s(2-5) show ?thesis unfolding o by auto
qed

section \<open>The untrusted basis\<close>

definition same_basis :: "'x tk_world \<Rightarrow> 'x tk_world \<Rightarrow> bool" where
  "same_basis w w' \<longleftrightarrow> basis_mem w' = basis_mem w \<and> basis_disk w' = basis_disk w \<and>
     msk_today w' = msk_today w \<and> wire w' = wire w"

interpretation basis: quiet_relation same_basis
  by unfold_locales (auto simp: same_basis_def reflp_def transp_def wire_def)

definition untrusted_rollover :: "'x tk_world \<Rightarrow> bool" where
  "untrusted_rollover w \<longleftrightarrow> \<not> trusted (basis_mem w) \<and>
     last_day (basis_mem w) \<noteq> None \<and> last_day (basis_mem w) \<noteq> Some (msk_today w)"

lemma untrusted_state:
  assumes "untrusted_rollover w"
  shows "\<exists>w'. state_of_snapshot sn w = (Inl BrokerError, w') \<and> same_basis w w'"
proof -
  let ?w1 = "observe_nav (sn_cash sn) w"
  have b: "same_basis w ?w1" "untrusted_rollover ?w1"
    using assms by (simp_all add: same_basis_def untrusted_rollover_def observe_nav_def wire_def)
  then have "roll_day (sn_cash sn) ?w1 = (Inl BrokerError, ?w1)"
    by (simp add: roll_day_def untrusted_rollover_def)
  with b basis.refl show ?thesis by (auto simp: state_of_snapshot_def reflp_def)
qed

lemma untrusted_build:
  assumes "untrusted_rollover w"
  shows "\<exists>e w'. build_intent_and_state sdk ac ord w = (Inl e, w') \<and> same_basis w w'"
proof -
  let ?i = "\<lambda>p. mk_trade_intent (o_ticker ord) (py_lower (side_value (o_side ord))) (o_quantity ord) p None"
  obtain rp w1 where p: "order_price sdk ord w = (rp, w1)" by fastforce
  have 1: "same_basis w w1" by (rule keepsWD [OF basis.keeps_price p])
  obtain rs w2 where g: "get_portfolio sdk ac w1 = (rs, w2)" by fastforce
  have 2: "same_basis w w2"
    using 1 keepsWD [OF basis.keeps_get_portfolio g] transpD [OF basis.trans] by blast
  then have u: "untrusted_rollover w2" using assms by (simp add: same_basis_def untrusted_rollover_def)
  show ?thesis
  proof (cases rp)
    case (Inr price)
    show ?thesis
    proof (cases "?i price")
      case i: (Inr i)
      show ?thesis
      proof (cases rs)
        case s: (Inr sn)
        from untrusted_state [OF u, of sn] obtain w3
          where "state_of_snapshot sn w2 = (Inl BrokerError, w3)" "same_basis w2 w3" by blast
        with p Inr i g s 2 transpD [OF basis.trans] show ?thesis
          by (auto simp: build_intent_and_state_def fetch_real_portfolio_state_def)
      qed (use p Inr i g 2 in \<open>auto simp: build_intent_and_state_def fetch_real_portfolio_state_def\<close>)
    qed (use p Inr 1 in \<open>auto simp: build_intent_and_state_def\<close>)
  qed (use p 1 in \<open>auto simp: build_intent_and_state_def\<close>)
qed

text \<open>
  C11. Fail-closed on a stale basis (issue 207): with an untrusted basis of another day no order
  of this account ever reaches the wire, and neither the basis in memory nor its file is
  overwritten, so the loss it may hide is not zeroed. The call is a rejection or an error.
\<close>

theorem untrusted_basis_blocks_trading:
  assumes "untrusted_rollover w" "place_order sdk ac ord w = (r, w')"
  shows "wire w' = wire w \<and> basis_mem w' = basis_mem w \<and> basis_disk w' = basis_disk w \<and>
    (r = Inr REJECTED \<or> r = Inl BrokerError)"
proof (cases "live_trading w \<and> ac_gate ac \<noteq> None \<and> sdk_installed sdk")
  case True
  then obtain lims where l: "live_trading w" "ac_gate ac = Some lims" "sdk_installed sdk" by blast
  obtain w1 where a: "acquire w = (Inr (), w1)" by (simp add: acquire_def)
  have 1: "same_basis w w1" by (rule keepsWD [OF basis.keeps_acquire a])
  then have "untrusted_rollover w1" using assms(1) by (simp add: same_basis_def untrusted_rollover_def)
  from untrusted_build [OF this] obtain e w2 where
    b: "build_intent_and_state sdk ac ord w1 = (Inl e, w2)" "same_basis w1 w2" by blast
  then have "same_basis w w2" using 1 transpD [OF basis.trans] by blast
  moreover have "w' = w2 \<and> (r = Inr REJECTED \<or> r = Inl BrokerError)"
    using assms(2) l a b(1) by (cases e) (auto simp: place_order_def gated_order_def settle_def)
  ultimately show ?thesis by (auto simp: same_basis_def)
next
  case False
  with assms(2) show ?thesis
    by (auto simp: place_order_def acquire_def gated_order_def settle_def wire_def bindW_def
        split: if_splits option.splits)
qed

section \<open>The price on the wire\<close>

definition nanos :: "rat \<Rightarrow> int" where
  "nanos p = \<lfloor>p * 1000000000\<rfloor>"

lemma drnd_nanos: "\<bar>m\<bar> \<le> 10 ^ 28 \<Longrightarrow> drnd (of_int m / 1000000000) = of_int m / 1000000000"
  by (rule drnd_exactI [of _ 9 m]) simp_all

lemma wire_price_eq:
  assumes "0 \<le> p"
  shows "wire_price p = (if nanos p < 10 ^ 28 then Inr (nanos p div 1000000000, nanos p mod 1000000000)
    else Inl (OtherError ''InvalidOperation''))"
proof (cases "nanos p < 10 ^ 28")
  case True
  let ?c = "nanos p" and ?B = "1000000000 :: int"
  have c: "dint (p * 1000000000) = ?c" "0 \<le> ?c" using assms by (simp_all add: dint_def nanos_def)
  have q: "quantize9 p = Inr (of_int ?c / 1000000000)"
    using c True by (simp add: quantize9_def Let_def)
  have u: "dint (of_int ?c / 1000000000) = ?c div ?B"
    using c(2) floor_divide_of_int_eq [of ?c ?B, where 'a = rat] by (simp add: dint_def)
  have m: "0 \<le> ?c mod ?B" "?c mod ?B < ?B" by simp_all
  have "(of_int ?c :: rat) = of_int (?c div ?B) * 1000000000 + of_int (?c mod ?B)"
    by (metis of_int_add of_int_mult of_int_numeral div_mult_mod_eq)
  then have "(of_int ?c :: rat) / 1000000000 - of_int (?c div ?B) = of_int (?c mod ?B) / 1000000000"
    by (simp add: field_simps)
  note d = this
  have "\<bar>?c mod ?B\<bar> \<le> 10 ^ 28" using m by simp
  then have f: "dsub (of_int ?c / 1000000000) (of_int (?c div ?B)) = of_int (?c mod ?B) / 1000000000"
    unfolding dsub_def d by (rule drnd_nanos)
  have "dmul (of_int (?c mod ?B) / 1000000000) 1000000000 = of_int (?c mod ?B)"
    using m by (simp add: dmul_def drnd_of_int)
  then show ?thesis using True m by (simp add: wire_price_def q u f Let_def)
next
  case False
  then show ?thesis
    using assms by (simp add: wire_price_def quantize9_def nanos_def dint_def Let_def)
qed

lemma units_nano_exact:
  assumes "0 \<le> c" "c < 10 ^ 28"
  shows "units_nano (c div 1000000000) (c mod 1000000000) = of_int c / 1000000000"
proof -
  have m: "\<bar>c mod 1000000000\<bar> \<le> 10 ^ 28" using pos_mod_bound [of 1000000000 c] by (simp add: abs_of_nonneg)
  have "(of_int c :: rat) = of_int (c div 1000000000) * 1000000000 + of_int (c mod 1000000000)"
    by (metis of_int_add of_int_mult of_int_numeral div_mult_mod_eq)
  then have "of_int (c div 1000000000) + of_int (c mod 1000000000) / 1000000000
      = (of_int c :: rat) / 1000000000" by (simp add: field_simps)
  note d = this
  show ?thesis
    unfolding units_nano_def dadd_def ddiv_def drnd_nanos [OF m] d
    by (rule drnd_nanos) (use assms in simp)
qed

text \<open>
  C12. The limit price on the wire (issue 100) is a legal \<open>Quotation\<close> (\<open>nano\<close> in \<open>[0, 1e9)\<close>), read
  back it is the requested price rounded down to nine digits: never above it, less than one
  nano below it, and equal to it when it has at most nine fractional digits.
\<close>

theorem wire_price_round_trip:
  assumes "0 \<le> p" "wire_price p = Inr (units, nano)"
  shows "0 \<le> units \<and> 0 \<le> nano \<and> nano < 1000000000 \<and> units_nano units nano \<le> p \<and>
    p < units_nano units nano + 1 / 1000000000 \<and>
    (p * 1000000000 = of_int k \<longrightarrow> units_nano units nano = p)"
proof -
  have c: "nanos p < 10 ^ 28" "units = nanos p div 1000000000" "nano = nanos p mod 1000000000"
    using assms(2) by (simp_all add: wire_price_eq [OF assms(1)] split: if_splits)
  have n: "0 \<le> nanos p" using assms(1) by (simp add: nanos_def)
  have v: "units_nano units nano = of_int (nanos p) / 1000000000"
    unfolding c(2,3) by (rule units_nano_exact [OF n c(1)])
  have "of_int (nanos p) \<le> p * 1000000000" "p * 1000000000 < of_int (nanos p) + 1"
    unfolding nanos_def by linarith+
  then have "units_nano units nano \<le> p" "p < units_nano units nano + 1 / 1000000000"
    unfolding v by (simp_all add: field_simps)
  moreover have "units_nano units nano = p" if "p * 1000000000 = of_int k"
    using that unfolding v nanos_def by simp
  ultimately show ?thesis using n c by simp
qed

section \<open>The calls of one order\<close>

lemma trace_call: "sdk_call ev f w = (r, w') \<Longrightarrow> trace w' = trace w @ [ev]"
  by (auto simp: sdk_call_def split: prod.splits)

lemma trace_figi:
  "ticker_to_figi sdk ticker w = (r, w') \<Longrightarrow>
     trace w' = trace w @ [FindInstrument (py_strip (py_upper ticker))]"
  by (auto simp: ticker_to_figi_def Let_def bindW_def as_broker_error_def
      split: prod.splits sum.splits dest!: trace_call)

lemma as_broker_error_Inr: "as_broker_error p = (Inr x, w) \<longleftrightarrow> p = (Inr x, w)"
  by (auto simp: as_broker_error_def split: prod.splits sum.splits)

lemma trace_quote:
  assumes "fetch_live_quote_price sdk ticker w = (Inr price, w')"
  shows "\<exists>f. trace w' = trace w @ [FindInstrument (py_strip (py_upper ticker)), GetLastPrices f]"
  using assms
  by (auto simp: fetch_live_quote_price_def as_broker_error_Inr bindW_Inr dest!: trace_figi trace_call)

lemma trace_portfolio:
  assumes "get_portfolio sdk ac w = (Inr sn, w')"
  shows "trace w' = trace w @ [Acquire, GetAccounts, GetPortfolio (ac_id ac)]"
  using assms
  by (auto simp: get_portfolio_def as_broker_error_Inr bindW_Inr acquire_def split: if_splits
      dest!: trace_call)

lemma trace_state: "state_of_snapshot sn w = (Inr s, w') \<Longrightarrow> trace w' = trace w"
  by (auto simp: state_of_snapshot_def bindW_Inr build_state_def roll_day_def observe_nav_def Let_def
      split: if_splits)

lemma gated_order_posted:
  assumes "gated_order sdk ac lims ord w = (r, w')" "wire w' \<noteq> wire w"
  shows "\<exists>iw w1. build_intent_and_state sdk ac ord w = (Inr iw, w1) \<and>
    send_order sdk ac ord w1 = (r, w') \<and> wire w' \<noteq> wire w1"
proof -
  obtain rb w1 where b: "build_intent_and_state sdk ac ord w = (rb, w1)" by fastforce
  have "wire w1 = wire w" using keepsWD [OF calm_build b] by (simp add: calm_def)
  with assms b show ?thesis
    by (cases rb) (auto simp: gated_order_def bindW_def split: if_splits sum.splits)
qed

lemma send_order_trace:
  assumes "send_order sdk ac ord w = (r, w')" "wire w' \<noteq> wire w"
  shows "\<exists>wo. trace w' = trace w @ [FindInstrument (py_strip (py_upper (o_ticker ord))), PostOrder wo]"
proof -
  obtain rf w1 where f: "ticker_to_figi sdk (o_ticker ord) w = (rf, w1)" by fastforce
  note t = trace_figi [OF f]
  have "wire w1 = wire w" using keepsWD [OF calm.keeps_figi f] by (simp add: calm_def)
  with assms f t show ?thesis
    by (cases rf) (auto simp: send_order_def bindW_def Let_def split: sum.splits prod.splits dest!: trace_call)
qed

text \<open>
  The rate limiter counts two requests for an order that makes six: a market order that goes
  out acquires a token once in \<open>place_order\<close> and once in \<open>get_portfolio\<close>, while it looks the
  instrument up twice, asks for the quote, the accounts and the portfolio, and posts.
\<close>

theorem market_order_call_sequence:
  assumes "place_order sdk ac ord w = (r, w')" "wire w' \<noteq> wire w" "o_limit ord = None"
  shows "\<exists>f wo. trace w' = trace w @
    [Acquire, FindInstrument (py_strip (py_upper (o_ticker ord))), GetLastPrices f,
     Acquire, GetAccounts, GetPortfolio (ac_id ac),
     FindInstrument (py_strip (py_upper (o_ticker ord))), PostOrder wo]"
proof -
  obtain lims where l: "live_trading w" "ac_gate ac = Some lims"
    using assms by (auto simp: place_order_def split: if_splits option.splits)
  obtain w1 where a: "acquire w = (Inr (), w1)" "trace w1 = trace w @ [Acquire]" "wire w1 = wire w"
    by (simp add: acquire_def wire_def)
  obtain rg where g: "gated_order sdk ac lims ord w1 = (rg, w')"
    using assms(1) l a by (auto simp: place_order_def settle_def split: prod.splits sum.splits py_exc.splits)
  obtain i s w2 where b: "build_intent_and_state sdk ac ord w1 = (Inr (i, s), w2)"
    and send: "send_order sdk ac ord w2 = (rg, w')" "wire w' \<noteq> wire w2"
    using gated_order_posted [OF g] assms(2) a(3) by (metis surj_pair)
  obtain price w3 sn w4 where q: "fetch_live_quote_price sdk (o_ticker ord) w1 = (Inr price, w3)"
    and p: "get_portfolio sdk ac w3 = (Inr sn, w4)" and st: "state_of_snapshot sn w4 = (Inr s, w2)"
    using b assms(3)
    by (auto simp: build_intent_and_state_def order_price_def fetch_real_portfolio_state_def bindW_Inr)
  from trace_quote [OF q] trace_portfolio [OF p] trace_state [OF st] send_order_trace [OF send] a(2)
  show ?thesis by auto
qed

section \<open>Whole shares\<close>

lemma ddiv_100_30: "rhe (ddiv 100 30) = 3"
proof (rule rhe_unique)
  have "drnd (34 / 10) = 34 / 10" by (rule drnd_exactI [of _ 1 34]) simp_all
  then have "ddiv 100 30 \<le> 34 / 10" unfolding ddiv_def by (rule dec.le_fixed) simp
  moreover have "3 \<le> ddiv 100 30" unfolding ddiv_def by (rule dec.ge_fixed) simp_all
  ultimately show "\<bar>ddiv 100 30 - of_int 3\<bar> < 1 / 2" by (simp add: abs_less_iff)
qed

lemma ddiv_100_3: "33 \<le> ddiv 100 3" "ddiv 100 3 \<le> 334 / 10"
proof -
  show "33 \<le> ddiv 100 3" unfolding ddiv_def by (rule dec.ge_fixed) simp_all
  have "drnd (334 / 10) = 334 / 10" by (rule drnd_exactI [of _ 1 334]) simp_all
  then show "ddiv 100 3 \<le> 334 / 10" unfolding ddiv_def by (rule dec.le_fixed) simp
qed

lemma dint_100_3: "dint (ddiv 100 3) = 33"
proof -
  have "\<lfloor>ddiv 100 3\<rfloor> = 33" using ddiv_100_3 by (simp add: floor_eq_iff)
  then show ?thesis using ddiv_100_3 by (simp add: dint_def)
qed

lemma plan_600_100: "plan_slices 600 100 now = replicate 3 (ddiv 100 3)"
proof -
  let ?sl = "\<lparr>adv_shares = 600, parent_qty = 100\<rparr>"
  have c: "chunk_size ?sl = 30" by (simp add: chunk_size_def CHUNK_PCT_def dmul_def ddiv_def)
  have p: "plan_chunks ?sl = (3, ddiv 100 3)"
    using ddiv_100_30 ddiv_100_3(1)
    by (simp add: plan_chunks_def capped_chunks_def dintegral_def c max_chunks_eq Let_def)
  then show ?thesis
    using plan_quantities [OF _ p, of now] by (simp add: plan_slices_def mk_slicer_def c)
qed

lemma submit_lots:
  assumes "submit_slices (place_order sdk ac) symbol side qs w = (r, w')"
  shows "\<exists>wos. wire w' = wire w @ wos \<and> sum_list (map wo_quantity wos) \<le> sum_list (map dint (filter (\<lambda>q. 0 < q) qs))"
  using assms
proof (induction qs arbitrary: r w w')
  case (Cons q qs)
  show ?case
  proof (cases "mk_market_order symbol side q")
    case (Inl e)
    then show ?thesis using Cons.prems dint_nonneg
      by (auto intro!: add_nonneg_nonneg sum_list_nonneg)
  next
    case (Inr ord)
    obtain r1 w1 where p: "place_order sdk ac ord w = (r1, w1)" by fastforce
    obtain r2 w2 where rec: "submit_slices (place_order sdk ac) symbol side qs w1 = (r2, w2)" by fastforce
    have q: "0 < q" "o_quantity ord = q" using mk_market_order_Inr [OF Inr] by auto
    have nn: "0 \<le> sum_list (map dint (filter (\<lambda>q. 0 < q) qs))" "0 \<le> dint q"
      using q dint_nonneg by (auto intro!: sum_list_nonneg)
    have 1: "wire w1 = wire w \<or> (\<exists>wo. wire w1 = wire w @ [wo] \<and> wo_quantity wo = dint q)"
      using place_order_cases [OF p] q by (auto simp: calm_def sent_def)
    obtain wos where wos: "wire w2 = wire w1 @ wos"
      "sum_list (map wo_quantity wos) \<le> sum_list (map dint (filter (\<lambda>q. 0 < q) qs))"
      using Cons.IH [OF rec] by blast
    have "w' = w1 \<or> w' = w2"
      using Cons.prems by (auto simp: Inr p rec split: sum.splits if_splits)
    then show ?thesis
    proof
      assume "w' = w1"
      with 1 nn q(1) show ?thesis by (elim disjE exE) (auto intro: exI [of _ "[]"] exI [of _ "[_]"])
    next
      assume "w' = w2"
      with 1 nn q(1) wos show ?thesis
        by (elim disjE exE) (auto intro: exI [of _ wos] exI [of _ "_ # wos"])
    qed
  qed
qed simp

text \<open>
  Sliced orders are under-filled: each slice is sent as its whole shares, so of a parent order
  of 100 shares, sliced in three at an average daily volume of 600, at most 99 shares ever go
  out, whatever the exchange answers and even if every slice is reported as filled.
\<close>

theorem sliced_order_underfills:
  assumes "submit_slices (place_order sdk ac) symbol side (plan_slices 600 100 now) w = (r, w')"
  shows "\<exists>wos. wire w' = wire w @ wos \<and> sum_list (map wo_quantity wos) \<le> 99"
  using submit_lots [OF assms] ddiv_100_3(1)
  by (simp add: plan_600_100 dint_100_3 filter_replicate map_replicate sum_list_replicate)

section \<open>A concrete exchange\<close>

text \<open>One account with 1000 units of cash, one instrument at the price 2, and an exchange whose
  answer to an order is the remote state: \<open>None\<close> for a call that raises after the order left.\<close>

definition ex_sdk :: "string option sdk" where
  "ex_sdk = \<lparr>sdk_installed = True,
     find_instrument = (\<lambda>t x. (Inr [\<lparr>inst_ticker = Some ''SBER'', class_code = Some ''TQBR'', figi = ''F''\<rparr>], x)),
     get_last_prices = (\<lambda>f x. (Inr [\<lparr>lp_figi = Some ''F'', lp_price = Some (Quotation 2 0)\<rparr>], x)),
     get_accounts = (\<lambda>x. (Inr [''SB1''], x)),
     sdk_portfolio = (\<lambda>a x. (Inr \<lparr>pr_positions = [], pr_amount = Some (Quotation 1000 0)\<rparr>, x)),
     post_order = (\<lambda>wo x. (case x of None \<Rightarrow> Inl (OtherError ''RequestError'') | Some raw \<Rightarrow> Inr raw, x)),
     sdk_cancel = (\<lambda>i x. (Inr (), x))\<rparr>"

definition ex_account :: tinkoff_account where
  "ex_account = \<lparr>ac_token = ''t.x'', ac_id = ''SB1'', ac_gate = Some ex_limits\<rparr>"

definition ex_world :: "string option \<Rightarrow> string option tk_world" where
  "ex_world answer = \<lparr>live_env = Some ''True'', msk_today = 739000, disk_ok = True, peak_mem = 1000,
     peak_disk = disk fresh_life, basis_mem = \<lparr>prev_close = 1000, last_day = Some 739000, trusted = True\<rparr>,
     basis_disk = \<lparr>primary = None, bak = None, tmp = None, aside = [], bak_aside = []\<rparr>,
     remote = answer, trace = []\<rparr>"

definition ex_order :: order where
  "ex_order = \<lparr>o_ticker = ''SBER'', o_side = BUY, o_quantity = 10, o_limit = None\<rparr>"

definition ex_order_intent :: trade_intent where
  "ex_order_intent = \<lparr>ti_symbol = ''SBER'', ti_side = ''buy'', ti_quantity = 10, ti_price = 2, ti_sector = None\<rparr>"

definition ex_order_state :: portfolio_state where
  "ex_order_state = \<lparr>total_equity = 1000, ps_cash = 1000, positions = [], daily_pnl = 0, peak_equity = 1000\<rparr>"

definition ex_wire :: wire_order where
  "ex_wire = \<lparr>wo_figi = ''F'', wo_quantity = 10, wo_account = ''SB1'', wo_side = BUY, wo_price = None\<rparr>"

lemma ex_order_approved: "gate_violations ex_limits ex_order_intent ex_order_state = []"
proof -
  have [simp]: "drnd (1 / 50) = 1 / 50" by (rule drnd_exactI [of _ 2 2]) simp_all
  show ?thesis
    by (simp add: gate_violations_Nil placeholder_violations_def position_violations_def
        sector_violations_def daily_loss_violations_def drawdown_violations_def drawdown_pct_def
        share_of_equity_def effective_notional_def held_qty_def dsum_def dadd_def dmul_def ddiv_def
        dsub_def dneg_def ex_limits_def ex_order_intent_def ex_order_state_def)
qed

lemma ex_strip [simp]: "py_strip ''SBER'' = ''SBER''"
  by (simp add: py_strip_def is_space_def)

lemma ex_live: "live_trading (ex_world a)"
  by (simp add: live_trading_def ex_world_def py_lower_def lower_char_def char_of_def bit_0)

lemma ex_figi:
  "ticker_to_figi ex_sdk ''SBER'' w = (Inr ''F'', w\<lparr>trace := trace w @ [FindInstrument ''SBER'']\<rparr>)"
  by (simp add: ticker_to_figi_def ex_sdk_def Let_def bindW_def as_broker_error_def sdk_call_def
      tradable_def tradable_class_codes_def)

lemma ex_quote:
  "fetch_live_quote_price ex_sdk ''SBER'' w =
     (Inr 2, w\<lparr>trace := trace w @ [FindInstrument ''SBER'', GetLastPrices ''F'']\<rparr>)"
  by (simp add: fetch_live_quote_price_def ex_figi bindW_def as_broker_error_def sdk_call_def)
    (simp add: ex_sdk_def price_of_quote_def units_nano_def dadd_def ddiv_def Let_def)

lemma ex_portfolio:
  "get_portfolio ex_sdk ex_account w =
     (Inr \<lparr>sn_account_id = ''SB1'', sn_cash = 1000, sn_positions = []\<rparr>,
      w\<lparr>trace := trace w @ [Acquire, GetAccounts, GetPortfolio ''SB1'']\<rparr>)"
  by (simp add: get_portfolio_def ex_account_def ex_sdk_def acquire_def bindW_def as_broker_error_def
      sdk_call_def read_portfolio_def money_value_def units_nano_def dadd_def ddiv_def)

lemma ex_build:
  "build_intent_and_state ex_sdk ex_account ex_order (ex_world a\<lparr>trace := t\<rparr>) =
    (Inr (ex_order_intent, ex_order_state),
     ex_world a\<lparr>trace := t @ [FindInstrument ''SBER'', GetLastPrices ''F'', Acquire, GetAccounts, GetPortfolio ''SB1'']\<rparr>)"
proof -
  have i: "mk_trade_intent ''SBER'' (py_lower (side_value BUY)) 10 2 None = Inr ex_order_intent"
  proof -
    have "py_lower (side_value BUY) = ''buy''" "py_strip ''buy'' = ''buy''" "py_lower ''buy'' = ''buy''"
      by (simp_all add: py_lower_def lower_char_def side_value_def py_strip_def is_space_def char_of_def bit_0)
    then show ?thesis by (simp add: mk_trade_intent_def ex_order_intent_def)
  qed
  show ?thesis
    by (simp add: build_intent_and_state_def order_price_def ex_order_def ex_quote i bindW_def
        fetch_real_portfolio_state_def ex_portfolio)
      (simp add: state_of_snapshot_def observe_nav_def ex_world_def roll_day_def
        bindW_def build_state_def free_cash_def positions_value_def dsub_def mk_portfolio_state_def
        ex_order_state_def)
qed

text \<open>The whole run, with the answer of the exchange as a parameter.\<close>

lemma ex_place:
  "place_order ex_sdk ex_account ex_order (ex_world a) =
     (case a of None \<Rightarrow> Inl BrokerError | Some raw \<Rightarrow> Inr (map_status raw),
      (ex_world a)\<lparr>trace := [Acquire, FindInstrument ''SBER'', GetLastPrices ''F'', Acquire, GetAccounts,
         GetPortfolio ''SB1'', FindInstrument ''SBER'', PostOrder ex_wire]\<rparr>)"
proof -
  have w: "(ex_world a)\<lparr>trace := trace (ex_world a) @ [Acquire]\<rparr> = ex_world a\<lparr>trace := [Acquire]\<rparr>"
    by (simp add: ex_world_def)
  have d: "bindW (liftW (evaluate ex_limits ex_order_intent ex_order_state))
      (\<lambda>d. if \<not> allowed d then liftW (Inr REJECTED) else m) v = m v" for m and v :: "string option tk_world"
    by (simp add: evaluate_eq ex_order_approved)
  have l: "dint 10 = 10" using dint_of_int [of 10] by simp
  have s: "sdk_installed ex_sdk" "ac_gate ex_account = Some ex_limits" by (simp_all add: ex_sdk_def ex_account_def)
  have p: "post_order ex_sdk wo x =
      (case x of None \<Rightarrow> Inl (OtherError ''RequestError'') | Some raw \<Rightarrow> Inr raw, x)" for wo x
    by (simp add: ex_sdk_def)
  have g: "gated_order ex_sdk ex_account ex_limits ex_order (ex_world a\<lparr>trace := [Acquire]\<rparr>) =
      send_order ex_sdk ex_account ex_order (ex_world a\<lparr>trace := [Acquire, FindInstrument ''SBER'',
        GetLastPrices ''F'', Acquire, GetAccounts, GetPortfolio ''SB1'']\<rparr>)"
    by (simp add: gated_order_def s bindW_def [of "build_intent_and_state ex_sdk ex_account ex_order"] ex_build d)
  show ?thesis
    by (simp add: place_order_def ex_live s acquire_def bindW_def [of acquire] w g)
      (simp add: send_order_def ex_order_def ex_figi order_wire_price_def l Let_def p
        sdk_call_def ex_wire_def ex_account_def bindW_def settle_def ex_world_def split: option.split)
qed

abbreviation FILL :: string where "FILL \<equiv> ''EXECUTION_REPORT_STATUS_FILL''"
abbreviation PARTIAL :: string where "PARTIAL \<equiv> ''EXECUTION_REPORT_STATUS_PARTIALLYFILL''"

definition ex_after :: "string option \<Rightarrow> string option tk_world" where
  "ex_after a = snd (place_order ex_sdk ex_account ex_order (ex_world a))"

lemma ex_wires: "wire (ex_world a) = []" "wire (ex_after a) = [ex_wire]"
  by (simp_all add: wire_def ex_after_def ex_place) (simp add: ex_world_def)

lemma ex_market_order: "mk_market_order ''SBER'' BUY 10 = Inr ex_order"
  by (simp add: mk_market_order_def ex_order_def)

lemma ex_submit:
  "submit_slices (place_order ex_sdk ex_account) ''SBER'' BUY [10] (ex_world a) =
     (Inr [case a of None \<Rightarrow> REJECTED | Some raw \<Rightarrow> map_status raw], ex_after a)"
  by (simp add: ex_market_order ex_place ex_after_def split: option.split)

definition ex_tk_flow :: "string option tk_world order_flow" where
  "ex_tk_flow = \<lparr>of_broker = place_order ex_sdk ex_account, of_gate = ex_limits,
     of_quote = (\<lambda>symbol w. (Inr (QuoteDecimal 2), w)), of_adv = None, of_universe = None,
     of_peak = Some (\<lambda>w. (Inr (peak_mem w), w)), warned_missing_adv = True, warned_missing_peak = False\<rparr>"

definition ex_tk_snapshot :: portfolio_snapshot where
  "ex_tk_snapshot = \<lparr>sn_account_id = ''SB1'', sn_cash = 1000, sn_positions = []\<rparr>"

lemma ex_tk_providers: "(\<And>w. R w w) \<Longrightarrow> providers_keep R ex_tk_flow"
  by (simp add: providers_keep_def keepsW_def ex_tk_flow_def)

lemma ex_intent_2:
  "mk_trade_intent (py_upper ''SBER'') (py_lower (side_value BUY)) 10 2 None = Inr ex_order_intent"
proof -
  have "py_lower (side_value BUY) = ''buy''" "py_strip ''buy'' = ''buy''" "py_lower ''buy'' = ''buy''"
    by (simp_all add: py_lower_def lower_char_def side_value_def py_strip_def is_space_def char_of_def bit_0)
  then show ?thesis by (simp add: mk_trade_intent_def ex_order_intent_def)
qed

lemma ex_tk_run:
  "\<exists>r. submit_market ex_tk_flow ''SBER'' BUY 10 ex_tk_snapshot 0 0 (ex_world a) = (Inr r, ex_tk_flow, ex_after a) \<and>
     submitted r = [case a of None \<Rightarrow> REJECTED | Some raw \<Rightarrow> map_status raw]"
proof -
  have q: "of_quote ex_tk_flow ''SBER'' w = (Inr (QuoteDecimal 2), w)" "of_universe ex_tk_flow = None"
    "of_gate ex_tk_flow = ex_limits" "of_broker ex_tk_flow = place_order ex_sdk ex_account" for w
    by (simp_all add: ex_tk_flow_def)
  have st: "portfolio_to_state_impl ex_tk_flow ex_tk_snapshot 0 (ex_world a) = (Inr ex_order_state, ex_tk_flow, ex_world a)"
    by (simp add: portfolio_to_state_impl_def ex_tk_flow_def ex_tk_snapshot_def resolve_peak_def
        free_cash_def positions_value_def dsub_def mk_portfolio_state_def ex_order_state_def ex_world_def)
  obtain d where d: "evaluate ex_limits ex_order_intent ex_order_state = Inr d" "allowed d" "violations d = []"
    by (simp add: evaluate_eq ex_order_approved)
  have adv: "resolve_adv ex_tk_flow ''SBER'' 10 (ex_world a) = (Inr 200, ex_tk_flow, ex_world a)"
    by (simp add: resolve_adv_def ex_tk_flow_def dmul_def)
  have risk: "risk_stage ex_tk_flow ''SBER'' BUY 10 ex_tk_snapshot 0 2 (ex_world a) = (Inr d, ex_tk_flow, ex_world a)"
    unfolding risk_stage_def st ex_intent_2 by (simp add: q d)
  show ?thesis
    unfolding submit_market_def
    by (simp add: q risk d execution_stage_def adv ex_plan_slices execute_slices_def ex_submit
        del: submit_slices.simps)
qed

text \<open>
  The status the flow records is not the status at the exchange. An order whose call raises
  after it left is recorded as REJECTED while it is on the wire, and a partial fill is recorded
  as FILLED.
\<close>

theorem recorded_status_is_not_the_exchange_status:
  "submit_slices (place_order ex_sdk ex_account) ''SBER'' BUY [10] (ex_world None) = (Inr [REJECTED], ex_after None) \<and>
   final_status_of [REJECTED] = REJECTED \<and> wire (ex_after None) = [ex_wire] \<and>
   submit_slices (place_order ex_sdk ex_account) ''SBER'' BUY [10] (ex_world (Some PARTIAL))
     = (Inr [FILLED], ex_after (Some PARTIAL)) \<and> final_status_of [FILLED] = FILLED"
proof -
  have "map_status PARTIAL = FILLED" by (simp add: map_status_def)
  then show ?thesis by (simp add: ex_submit ex_wires final_status_of_eq del: submit_slices.simps)
qed

section \<open>Instances\<close>


definition locked_run :: "order_flow_result result \<times> string option tk_world order_flow \<times> string option tk_world" where
  "locked_run = submit_market ex_tk_flow ''SBER'' BUY 10 ex_tk_snapshot 0 0
     (ex_world (Some FILL)\<lparr>live_env := Some ''no''\<rparr>)"

theorem live_lock_end_to_end_witness:
  "wire (snd (snd locked_run)) = wire (ex_world (Some FILL)\<lparr>live_env := Some ''no''\<rparr>) \<and>
   \<not> live_trading (snd (snd locked_run))"
proof -
  let ?w = "ex_world (Some FILL)\<lparr>live_env := Some ''no''\<rparr>"
  have b: "of_broker ex_tk_flow = place_order ex_sdk ex_account" by (simp add: ex_tk_flow_def)
  have l: "\<not> live_trading ?w" by (simp add: live_trading_def py_lower_def)
  have r: "submit_market ex_tk_flow ''SBER'' BUY 10 ex_tk_snapshot 0 0 ?w =
      (fst locked_run, fst (snd locked_run), snd (snd locked_run))" by (simp add: locked_run_def)
  have k: "providers_keep (\<lambda>w w'. live_trading w' = live_trading w \<and> wire w' = wire w) ex_tk_flow"
    by (rule ex_tk_providers) simp
  from live_lock_end_to_end [OF b l k r] l show ?thesis by simp
qed

theorem flow_orders_bounded_by_slices_witness:
  "\<exists>r out. submit_market ex_tk_flow ''SBER'' BUY 10 ex_tk_snapshot 0 0 (ex_world (Some FILL)) =
      (Inr r, ex_tk_flow, ex_after (Some FILL)) \<and>
     wire (ex_after (Some FILL)) = wire (ex_world (Some FILL)) @ out \<and>
     filled_count r \<le> length out \<and> length out \<le> slice_count r"
proof -
  obtain r where r: "submit_market ex_tk_flow ''SBER'' BUY 10 ex_tk_snapshot 0 0 (ex_world (Some FILL)) =
      (Inr r, ex_tk_flow, ex_after (Some FILL))" using ex_tk_run by blast
  have "of_broker ex_tk_flow = place_order ex_sdk ex_account" by (simp add: ex_tk_flow_def)
  from flow_orders_bounded_by_slices [OF this ex_tk_providers [OF refl] r] r show ?thesis by blast
qed

theorem account_state_spec_witness:
  "\<exists>s w'. state_of_snapshot ex_tk_snapshot (ex_world None) = (Inr s, w') \<and>
     wf_state s \<and> total_equity s = 1000 \<and> peak_equity s = 1000 \<and> daily_pnl s = 0"
proof -
  have "state_of_snapshot ex_tk_snapshot (ex_world None) = (Inr ex_order_state, ex_world None)"
    by (simp add: state_of_snapshot_def ex_tk_snapshot_def observe_nav_def ex_world_def roll_day_def
        bindW_def build_state_def free_cash_def positions_value_def dsub_def mk_portfolio_state_def
        ex_order_state_def)
  from this account_state_spec [OF this] show ?thesis
    by (intro exI [of _ ex_order_state] exI [of _ "ex_world None"])
      (simp add: ex_tk_snapshot_def ex_world_def dsub_def)
qed

theorem untrusted_basis_blocks_trading_witness:
  "let w = ex_world (Some FILL)\<lparr>basis_mem := \<lparr>prev_close = 900, last_day = Some 738999, trusted = False\<rparr>\<rparr>;
       p = place_order ex_sdk ex_account ex_order w
   in wire (snd p) = wire w \<and> basis_mem (snd p) = basis_mem w"
  using untrusted_basis_blocks_trading [OF _ surjective_pairing,
      of "ex_world (Some FILL)\<lparr>basis_mem := \<lparr>prev_close = 900, last_day = Some 738999, trusted = False\<rparr>\<rparr>"
        ex_sdk ex_account ex_order]
  by (simp add: untrusted_rollover_def) (simp add: ex_world_def)

theorem wire_price_round_trip_witness: "units_nano 250 500000000 = 250.5"
proof -
  have "nanos (250.5 :: rat) = 250500000000" by (simp add: nanos_def)
  then have "wire_price 250.5 = Inr (250, 500000000)" by (simp add: wire_price_eq)
  from wire_price_round_trip [OF _ this, of 250500000000] show ?thesis by simp
qed

theorem market_order_call_sequence_witness:
  "\<exists>f wo. trace (ex_after (Some FILL)) = trace (ex_world (Some FILL)) @
    [Acquire, FindInstrument (py_strip (py_upper (o_ticker ex_order))), GetLastPrices f,
     Acquire, GetAccounts, GetPortfolio (ac_id ex_account),
     FindInstrument (py_strip (py_upper (o_ticker ex_order))), PostOrder wo]"
  unfolding ex_after_def
  by (rule market_order_call_sequence [OF surjective_pairing], simp add: ex_wires flip: ex_after_def)
    (simp add: ex_order_def)

theorem sliced_order_underfills_witness:
  "\<exists>wos. wire (snd (submit_slices (place_order ex_sdk ex_account) ''SBER'' BUY (plan_slices 600 100 0) (ex_world (Some FILL))))
     = wire (ex_world (Some FILL)) @ wos \<and> sum_list (map wo_quantity wos) \<le> 99"
  by (rule sliced_order_underfills [OF surjective_pairing])

end
