(* ===== verification/DataModels.thy ===== *)
theory DataModels
  imports Prelude PyDecimal
begin

text \<open>\<open>src/data/models.py\<close>: the wire types shared by the loaders and the stores. Dates are ordinals.\<close>

definition ticker_char :: "char \<Rightarrow> bool" where
  "ticker_char c = (let n = of_char c :: nat in
     65 \<le> n \<and> n \<le> 90 \<or> 48 \<le> n \<and> n \<le> 57 \<or> n \<in> {64, 46, 95, 45})"

text \<open>\<open>^[A-Z0-9@._-]{1,12}$\<close> on a stripped string.\<close>

definition ticker_regex :: "string \<Rightarrow> bool" where
  "ticker_regex s \<longleftrightarrow> 1 \<le> length s \<and> length s \<le> 12 \<and> list_all ticker_char s"

definition valid_ticker :: "string \<Rightarrow> string result" where
  "valid_ticker v = (let v = py_strip (py_upper v) in if ticker_regex v then Inr v else Inl ValidationError)"

datatype source_type = Tkf | Moex | Manual

record ohlcv_row =
  r_ticker :: string
  r_ts :: int
  r_open :: rat
  r_high :: rat
  r_low :: rat
  r_close :: rat
  r_volume :: rat
  r_adj_close :: rat
  r_source :: source_type

definition ohlc_consistent :: "ohlcv_row \<Rightarrow> bool" where
  "ohlc_consistent r \<longleftrightarrow> r_low r \<le> r_high r \<and> r_open r \<le> r_high r \<and> r_close r \<le> r_high r \<and>
     r_low r \<le> r_open r \<and> r_low r \<le> r_close r"

definition row_nonneg :: "ohlcv_row \<Rightarrow> bool" where
  "row_nonneg r \<longleftrightarrow> 0 \<le> r_open r \<and> 0 \<le> r_high r \<and> 0 \<le> r_low r \<and> 0 \<le> r_close r \<and>
     0 \<le> r_volume r \<and> 0 \<le> r_adj_close r"

text \<open>Building a row validates it, in the order fields, ticker, consistency.\<close>

definition mk_row :: "ohlcv_row \<Rightarrow> ohlcv_row result" where
  "mk_row r =
     (if \<not> row_nonneg r then Inl ValidationError
      else bindR (valid_ticker (r_ticker r)) (\<lambda>t.
        if ohlc_consistent r then Inr (r\<lparr>r_ticker := t\<rparr>) else Inl ValidationError))"

definition wf_row :: "ohlcv_row \<Rightarrow> bool" where
  "wf_row r \<longleftrightarrow> row_nonneg r \<and> ohlc_consistent r \<and> valid_ticker (r_ticker r) = Inr (r_ticker r)"

lemma valid_ticker_idem: "valid_ticker v = Inr t \<Longrightarrow> valid_ticker t = Inr t"
  by (auto simp: valid_ticker_def Let_def strip_upper split: if_splits)

lemma mk_row_wf: "mk_row r = Inr r' \<Longrightarrow> wf_row r'"
  by (auto simp: mk_row_def wf_row_def bindR_Inr_iff row_nonneg_def ohlc_consistent_def
      valid_ticker_idem split: if_splits)

lemma mk_row_id: "wf_row r \<Longrightarrow> mk_row r = Inr r"
  by (simp add: mk_row_def wf_row_def)

datatype action_kind = Split | Dividend | Change

record corporate_action =
  ca_ticker :: string
  ca_ts :: int
  ca_kind :: action_kind
  ca_value :: rat
  ca_source :: source_type

definition mk_action :: "corporate_action \<Rightarrow> corporate_action result" where
  "mk_action a = bindR (valid_ticker (ca_ticker a)) (\<lambda>t. Inr (a\<lparr>ca_ticker := t\<rparr>))"

record ticker_meta =
  tm_ticker :: string
  tm_figi :: "string option"
  tm_name :: string
  tm_lot :: int
  tm_isin :: "string option"
  tm_currency :: string
  tm_class_code :: "string option"
  tm_delisted :: bool
  tm_delisted_at :: "int option"
  tm_listed_at :: "int option"
  tm_source :: source_type

definition mk_ticker_meta :: "ticker_meta \<Rightarrow> ticker_meta result" where
  "mk_ticker_meta m =
     (if tm_name m = [] \<or> tm_lot m \<le> 0 \<or> length (tm_currency m) \<noteq> 3 then Inl ValidationError
      else bindR (valid_ticker (tm_ticker m)) (\<lambda>t. Inr (m\<lparr>tm_ticker := t\<rparr>)))"

end
