(* ===== verification/Quality.thy ===== *)
theory Quality
  imports Prelude PyFloat "HOL-Library.Multiset"
begin

text \<open>
  \<open>src/data/quality/severity.py\<close> and \<open>src/data/quality/ingestion_gate.py\<close>: the severity catalog and
  the Level-1 ingestion gate over a series of daily bars. Dates are proleptic ordinals
  (\<open>date.toordinal()\<close>), instants are microseconds on the same scale. The functions of the platform
  math library (\<open>math.log\<close> and the standard deviation, whose rounding the language does not fix)
  are a parameter.
\<close>

section \<open>Severities\<close>

datatype severity = LOW | MEDIUM | HIGH | CRITICAL

fun sev_index :: "severity \<Rightarrow> nat" where
  "sev_index LOW = 0"
| "sev_index MEDIUM = 1"
| "sev_index HIGH = 2"
| "sev_index CRITICAL = 3"

lemma sev_index_inj [simp]: "sev_index a = sev_index b \<longleftrightarrow> a = b"
  by (cases a; cases b) auto

instantiation severity :: linorder
begin

definition less_eq_severity :: "severity \<Rightarrow> severity \<Rightarrow> bool" where
  "a \<le> b \<longleftrightarrow> sev_index a \<le> sev_index b"

definition less_severity :: "severity \<Rightarrow> severity \<Rightarrow> bool" where
  "a < b \<longleftrightarrow> sev_index a < sev_index b"

instance
  by intro_classes (auto simp: less_eq_severity_def less_severity_def)

end

text \<open>\<open>Severity.worst\<close>: the loop over the values with the running maximal index.\<close>

definition worst_step :: "severity \<Rightarrow> severity option \<Rightarrow> severity option" where
  "worst_step v m = (case m of None \<Rightarrow> Some v | Some w \<Rightarrow> if sev_index w < sev_index v then Some v else m)"

definition worst :: "severity list \<Rightarrow> severity option" where
  "worst vs = fold worst_step vs None"

lemma fold_worst: "fold worst_step vs (Some w) = Some (Max (insert w (set vs)))"
proof (induction vs arbitrary: w)
  case (Cons v vs)
  have "worst_step v (Some w) = Some (max w v)"
    by (auto simp: worst_step_def max_def less_eq_severity_def)
  moreover have "Max (insert (max w v) (set vs)) = Max (insert w (set (v # vs)))"
    by (cases "set vs = {}") (auto simp: max.assoc)
  ultimately show ?case by (simp add: Cons.IH)
qed simp

lemma worst_eq: "worst vs = (if vs = [] then None else Some (Max (set vs)))"
  by (cases vs) (simp_all add: worst_def worst_step_def fold_worst)

datatype issue_kind =
    ING_MISSING_COLUMNS | ING_NULL_PRIMARY_KEY | ING_RANGE_VIOLATION | ING_ZERO_OR_NEGATIVE_PRICE
  | ING_NAN_PRICE | ING_OUTLIER | ING_COVERAGE_LOW | ING_INSUFFICIENT_HISTORY | ING_STALE_DATA
  | ING_LARGE_GAP | ING_LOW_VOLUME
  | XSC_CORRELATION_LOW | XSC_DIVERGENCE_HIGH | XSC_SOURCE_MISSING
  | HST_SPLIT_DETECTED | HST_SPLIT_UNADJUSTED | HST_DELISTED | HST_FUTURE_ROW

fun severity_for :: "issue_kind \<Rightarrow> severity" where
  "severity_for ING_MISSING_COLUMNS = CRITICAL"
| "severity_for ING_NULL_PRIMARY_KEY = CRITICAL"
| "severity_for ING_NAN_PRICE = CRITICAL"
| "severity_for HST_FUTURE_ROW = CRITICAL"
| "severity_for ING_ZERO_OR_NEGATIVE_PRICE = HIGH"
| "severity_for ING_RANGE_VIOLATION = HIGH"
| "severity_for ING_COVERAGE_LOW = HIGH"
| "severity_for ING_STALE_DATA = HIGH"
| "severity_for ING_INSUFFICIENT_HISTORY = HIGH"
| "severity_for XSC_DIVERGENCE_HIGH = HIGH"
| "severity_for HST_SPLIT_UNADJUSTED = HIGH"
| "severity_for HST_DELISTED = HIGH"
| "severity_for XSC_SOURCE_MISSING = HIGH"
| "severity_for ING_OUTLIER = MEDIUM"
| "severity_for XSC_CORRELATION_LOW = MEDIUM"
| "severity_for ING_LARGE_GAP = MEDIUM"
| "severity_for HST_SPLIT_DETECTED = MEDIUM"
| "severity_for ING_LOW_VOLUME = LOW"

text \<open>An issue without its message text (the gates give every issue one of legal length).\<close>

record issue =
  is_gate :: string
  is_kind :: issue_kind
  is_severity :: severity
  is_count :: int

definition mk_issue :: "string \<Rightarrow> issue_kind \<Rightarrow> int \<Rightarrow> issue result" where
  "mk_issue gate kind n =
     (if length gate < 1 \<or> 32 < length gate then Inl ValidationError
      else if n < 0 then Inl ValidationError
      else Inr \<lparr>is_gate = gate, is_kind = kind, is_severity = severity_for kind, is_count = n\<rparr>)"

record quality_report =
  qr_ticker :: string
  qr_gate :: string
  qr_issues :: "issue list"

definition mk_report :: "string \<Rightarrow> string \<Rightarrow> issue list \<Rightarrow> quality_report result" where
  "mk_report ticker gate issues =
     (if length ticker < 1 \<or> 32 < length ticker then Inl ValidationError
      else if length gate < 1 \<or> 32 < length gate then Inl ValidationError
      else Inr \<lparr>qr_ticker = ticker, qr_gate = gate, qr_issues = issues\<rparr>)"

definition worst_severity :: "quality_report \<Rightarrow> severity option" where
  "worst_severity r = (if qr_issues r = [] then None else worst (map is_severity (qr_issues r)))"

definition passed :: "quality_report \<Rightarrow> bool" where
  "passed r \<longleftrightarrow> length (qr_issues r) = 0"

definition rejected :: "quality_report \<Rightarrow> bool" where
  "rejected r \<longleftrightarrow> worst_severity r = Some CRITICAL"

definition skipped :: "quality_report \<Rightarrow> bool" where
  "skipped r \<longleftrightarrow> worst_severity r = Some HIGH"

definition by_severity :: "severity \<Rightarrow> quality_report \<Rightarrow> issue list" where
  "by_severity s r = filter (\<lambda>i. is_severity i = s) (qr_issues r)"

section \<open>Bars and parameters\<close>

record bar =
  primary_key :: "int option"
  b_open :: pyfloat
  b_high :: pyfloat
  b_low :: pyfloat
  b_close :: pyfloat
  b_volume :: int

text \<open>\<open>Field(gt=0.0)\<close> refuses NaN, zero and negatives but lets positive infinity through.\<close>

definition mk_bar :: "int \<Rightarrow> pyfloat \<Rightarrow> pyfloat \<Rightarrow> pyfloat \<Rightarrow> pyfloat \<Rightarrow> int \<Rightarrow> bar result" where
  "mk_bar d o1 h l c v =
     (if f_less (Fin 0) o1 \<and> f_less (Fin 0) h \<and> f_less (Fin 0) l \<and> f_less (Fin 0) c \<and> 0 \<le> v
      then Inr \<lparr>primary_key = Some d, b_open = o1, b_high = h, b_low = l, b_close = c, b_volume = v\<rparr>
      else Inl ValidationError)"

record ingestion_params =
  min_history_rows :: int
  coverage_min_ratio :: rat
  large_gap_calendar_days :: int
  stale_max_calendar_days :: int
  outlier_zscore :: rat
  range_epsilon :: rat

definition default_params :: ingestion_params where
  "default_params = \<lparr>min_history_rows = 252, coverage_min_ratio = frnd (95 / 100),
     large_gap_calendar_days = 7, stale_max_calendar_days = 3, outlier_zscore = 6,
     range_epsilon = frnd (1 / 1000000000)\<rparr>"

record math_lib =
  lib_log :: "rat \<Rightarrow> rat"
  lib_stdev :: "rat list \<Rightarrow> rat"

section \<open>Helpers\<close>

definition weekday :: "int \<Rightarrow> int" where
  "weekday d = (d + 6) mod 7"

definition expected_trading_days :: "int \<Rightarrow> int \<Rightarrow> int" where
  "expected_trading_days start end' =
     (if end' < start then 0 else int (length (filter (\<lambda>d. weekday d < 5) [start..end'])))"

text \<open>\<open>None\<close> is the NaN return; \<open>math.log(0.0)\<close>, of a quotient that underflowed, raises.\<close>

fun log_returns_from :: "math_lib \<Rightarrow> rat \<Rightarrow> rat list \<Rightarrow> rat option list result" where
  "log_returns_from lib prev [] = Inr []"
| "log_returns_from lib prev (cur # cs) =
     bindR (if prev \<le> 0 \<or> cur \<le> 0 then Inr None
            else if frnd (cur / prev) = 0 then Inl ValueError
            else Inr (Some (lib_log lib (frnd (cur / prev)))))
       (\<lambda>r. bindR (log_returns_from lib cur cs) (\<lambda>rs. Inr (r # rs)))"

definition log_returns :: "math_lib \<Rightarrow> rat list \<Rightarrow> rat option list result" where
  "log_returns lib closes = (case closes of [] \<Rightarrow> Inr [] | c # cs \<Rightarrow> log_returns_from lib c cs)"

definition fmean :: "rat list \<Rightarrow> rat" where
  "fmean xs = frnd (frnd (sum_list xs) / of_nat (length xs))"

definition zscore_filter :: "math_lib \<Rightarrow> rat option list \<Rightarrow> rat \<Rightarrow> (nat \<times> rat) list" where
  "zscore_filter lib returns threshold =
     (let clean = List.map_filter id returns in
      if length returns < 2 \<or> length clean < 2 then []
      else
        let mean = fmean clean; stdev = lib_stdev lib clean
        in if stdev = 0 then []
           else List.map_filter
             (\<lambda>(i, r). case r of None \<Rightarrow> None
                | Some x \<Rightarrow> if threshold < \<bar>frnd (frnd (x - mean) / stdev)\<bar> then Some (i + 1, x) else None)
             (enumerate 0 returns))"

definition date_key :: "bar \<Rightarrow> int" where
  "date_key b = the (primary_key b)"

fun max_step :: "int list \<Rightarrow> int" where
  "max_step (a # b # ds) = max (b - a) (max_step (b # ds))"
| "max_step _ = 0"

definition max_calendar_gap :: "bar list \<Rightarrow> int" where
  "max_calendar_gap bars =
     (if length bars < 2 then 0 else max_step (map date_key (sort_key date_key bars)))"

section \<open>The checks\<close>

definition ingestion :: string where "ingestion = ''ingestion''"

definition required_columns :: "string list" where
  "required_columns = [''primary_key'', ''open'', ''high'', ''low'', ''close'', ''volume'']"

definition flag :: "bool \<Rightarrow> issue_kind \<Rightarrow> int \<Rightarrow> issue list result" where
  "flag c kind n = (if c then bindR (mk_issue ingestion kind n) (\<lambda>i. Inr [i]) else Inr [])"

definition has_nan_or_inf :: "bar \<Rightarrow> bool" where
  "has_nan_or_inf b \<longleftrightarrow> \<not> (is_finite (b_open b) \<and> is_finite (b_high b) \<and> is_finite (b_low b) \<and> is_finite (b_close b))"

definition range_violation :: "rat \<Rightarrow> bar \<Rightarrow> bool" where
  "range_violation eps b \<longleftrightarrow>
     (let hi = float_of (max (fin (b_open b)) (fin (b_close b)) + eps);
          lo = float_of (min (fin (b_open b)) (fin (b_close b)) - eps)
      in f_less (b_high b) hi \<or> f_less lo (b_low b))"

definition count_bars :: "(bar \<Rightarrow> bool) \<Rightarrow> bar list \<Rightarrow> int" where
  "count_bars P bars = int (length (filter P bars))"

definition check_range :: "ingestion_params \<Rightarrow> bar list \<Rightarrow> issue list result" where
  "check_range p bars =
     (let n = count_bars (range_violation (range_epsilon p)) bars in flag (0 < n) ING_RANGE_VIOLATION n)"

definition check_zero :: "bar list \<Rightarrow> issue list result" where
  "check_zero bars =
     (let n = count_bars (\<lambda>b. fin (b_close b) \<le> 0) bars in flag (0 < n) ING_ZERO_OR_NEGATIVE_PRICE n)"

definition check_outliers :: "math_lib \<Rightarrow> ingestion_params \<Rightarrow> bar list \<Rightarrow> issue list result" where
  "check_outliers lib p bars =
     bindR (log_returns lib (map (\<lambda>b. fin (b_close b)) bars)) (\<lambda>rets.
       let outliers = zscore_filter lib rets (outlier_zscore p)
       in flag (outliers \<noteq> []) ING_OUTLIER (int (length outliers)))"

definition check_coverage :: "ingestion_params \<Rightarrow> bar list \<Rightarrow> issue list result" where
  "check_coverage p bars =
     (case map date_key (sort_key date_key bars) of [] \<Rightarrow> Inr []
      | ds \<Rightarrow>
          let expected = expected_trading_days (hd ds) (last ds); actual = int (length bars)
          in flag (0 < expected \<and> frnd (of_int actual / of_int expected) < coverage_min_ratio p)
               ING_COVERAGE_LOW (expected - actual))"

definition check_history :: "ingestion_params \<Rightarrow> bar list \<Rightarrow> issue list result" where
  "check_history p bars =
     flag (int (length bars) < min_history_rows p) ING_INSUFFICIENT_HISTORY
       (min_history_rows p - int (length bars))"

definition DAY_US :: int where "DAY_US = 86400000000"

definition check_stale :: "ingestion_params \<Rightarrow> int \<Rightarrow> bar list \<Rightarrow> issue list result" where
  "check_stale p now bars =
     (case map date_key (sort_key date_key bars) of [] \<Rightarrow> Inr []
      | ds \<Rightarrow>
          let age = (now - last ds * DAY_US) div DAY_US
          in flag (stale_max_calendar_days p < age) ING_STALE_DATA age)"

definition check_gap :: "ingestion_params \<Rightarrow> bar list \<Rightarrow> issue list result" where
  "check_gap p bars =
     (if length bars < 2 then Inr []
      else let g = max_calendar_gap bars in flag (large_gap_calendar_days p < g) ING_LARGE_GAP g)"

definition check_volume :: "bar list \<Rightarrow> issue list result" where
  "check_volume bars =
     (let n = count_bars (\<lambda>b. b_volume b = 0) bars
      in flag (0 < length bars \<and> frnd (of_nat (length bars) * frnd (1 / 10)) < of_int n) ING_LOW_VOLUME n)"

definition data_checks ::
  "math_lib \<Rightarrow> ingestion_params \<Rightarrow> int \<Rightarrow> bar list \<Rightarrow> issue list result list" where
  "data_checks lib p now bars =
     [check_range p bars, check_zero bars, check_outliers lib p bars, check_coverage p bars,
      check_history p bars, check_stale p now bars, check_gap p bars, check_volume bars]"

definition check_ingestion ::
  "math_lib \<Rightarrow> ingestion_params \<Rightarrow> int \<Rightarrow> string \<Rightarrow> string list option \<Rightarrow> bar list \<Rightarrow>
   quality_report result" where
  "check_ingestion lib p now ticker columns bars =
     (let missing = (case columns of None \<Rightarrow> [] | Some cs \<Rightarrow> filter (\<lambda>c. c \<notin> set cs) required_columns);
          null_pk = count_bars (\<lambda>b. primary_key b = None) bars;
          nan = count_bars has_nan_or_inf bars
      in bindR
        (if missing \<noteq> [] then flag True ING_MISSING_COLUMNS (int (length missing))
         else if 0 < null_pk then flag True ING_NULL_PRIMARY_KEY null_pk
         else if 0 < nan then flag True ING_NAN_PRICE nan
         else bindR (map_result id (data_checks lib p now bars)) (\<lambda>iss. Inr (concat iss)))
        (mk_report ticker ingestion))"

section \<open>Properties of the gate\<close>

lemma flag_Inr:
  "flag c kind n = Inr iss \<Longrightarrow>
     iss = (if c then [\<lparr>is_gate = ingestion, is_kind = kind, is_severity = severity_for kind, is_count = n\<rparr>] else [])"
  by (auto simp: flag_def mk_issue_def ingestion_def split: if_splits)

lemma flag_HIGH: "flag True kind n = Inr iss \<Longrightarrow> severity_for kind \<in> is_severity ` set iss"
  by (drule flag_Inr) simp

lemma worst_severity_ge:
  assumes "s \<in> is_severity ` set (qr_issues r)"
  shows "\<exists>w. worst_severity r = Some w \<and> s \<le> w"
proof -
  have "Max (is_severity ` set (qr_issues r)) \<ge> s" using assms by simp
  with assms show ?thesis by (auto simp: worst_severity_def worst_eq)
qed

lemma count_bars_pos: "b \<in> set bars \<Longrightarrow> P b \<Longrightarrow> 0 < count_bars P bars"
  by (auto simp: count_bars_def filter_empty_conv)

lemma map_result_id_cons: "map_result id (m # ms) = Inr yss \<Longrightarrow> \<exists>ys. m = Inr ys \<and> ys \<in> set yss"
  by (auto simp: bindR_Inr_iff)

lemma mk_report_Inr: "mk_report ticker gate iss = Inr r \<Longrightarrow> qr_issues r = iss"
  by (auto simp: mk_report_def split: if_splits)

lemma check_ingestion_Inr:
  assumes "check_ingestion lib p now ticker cols bars = Inr r"
  shows "(\<exists>k n. severity_for k = CRITICAL \<and> flag True k n = Inr (qr_issues r)) \<or>
    (\<exists>yss. map_result id (data_checks lib p now bars) = Inr yss \<and> qr_issues r = concat yss)"
proof -
  define missing where "missing = (case cols of None \<Rightarrow> [] | Some cs \<Rightarrow> filter (\<lambda>c. c \<notin> set cs) required_columns)"
  define null_pk where "null_pk = count_bars (\<lambda>b. primary_key b = None) bars"
  define nan where "nan = count_bars has_nan_or_inf bars"
  obtain iss where i: "(if missing \<noteq> [] then flag True ING_MISSING_COLUMNS (int (length missing))
         else if 0 < null_pk then flag True ING_NULL_PRIMARY_KEY null_pk
         else if 0 < nan then flag True ING_NAN_PRICE nan
         else bindR (map_result id (data_checks lib p now bars)) (\<lambda>iss. Inr (concat iss))) = Inr iss"
    and r: "qr_issues r = iss"
    using assms mk_report_Inr
    unfolding check_ingestion_def Let_def missing_def null_pk_def nan_def bindR_Inr_iff by blast
  consider "missing \<noteq> []" | "missing = []" "0 < null_pk" | "missing = []" "\<not> 0 < null_pk" "0 < nan"
    | "missing = []" "\<not> 0 < null_pk" "\<not> 0 < nan" by blast
  then show ?thesis unfolding r using i
    by cases (force simp: bindR_Inr_iff intro: exI [of _ ING_MISSING_COLUMNS]
        exI [of _ ING_NULL_PRIMARY_KEY] exI [of _ ING_NAN_PRICE])+
qed

text \<open>Whatever else a series contains, one bar with a range violation makes the report HIGH or worse.\<close>

lemma range_violation_HIGH:
  assumes "check_ingestion lib p now ticker cols bars = Inr r"
    and "b \<in> set bars" "range_violation (range_epsilon p) b"
  shows "worst_severity r \<in> {Some HIGH, Some CRITICAL}"
proof -
  have "\<exists>s \<ge> HIGH. s \<in> is_severity ` set (qr_issues r)"
    using check_ingestion_Inr [OF assms(1)]
  proof
    assume "\<exists>k n. severity_for k = CRITICAL \<and> flag True k n = Inr (qr_issues r)"
    then show ?thesis using flag_HIGH by (force simp: less_eq_severity_def)
  next
    assume "\<exists>yss. map_result id (data_checks lib p now bars) = Inr yss \<and> qr_issues r = concat yss"
    then obtain yss where y: "map_result id (data_checks lib p now bars) = Inr yss" "qr_issues r = concat yss"
      by blast
    obtain ys where ys: "check_range p bars = Inr ys" "ys \<in> set yss"
      using map_result_id_cons [OF y(1) [unfolded data_checks_def]] by blast
    have "0 < count_bars (range_violation (range_epsilon p)) bars" using assms(2,3) by (rule count_bars_pos)
    then have "HIGH \<in> is_severity ` set ys"
      using ys(1) flag_HIGH [of ING_RANGE_VIOLATION] by (simp add: check_range_def Let_def)
    then show ?thesis using ys(2) unfolding y(2) by auto
  qed
  then obtain s w where "HIGH \<le> s" "worst_severity r = Some w" "s \<le> w" using worst_severity_ge by blast
  then have "HIGH \<le> w" "worst_severity r = Some w" by auto
  then show ?thesis by (cases w) (simp_all add: less_eq_severity_def)
qed

lemma epsilon_bounds: "1 / 2 ^ 31 \<le> range_epsilon default_params" "range_epsilon default_params \<le> 1"
proof -
  have e: "\<bar>frnd (1 / 1000000000) - 1 / 1000000000\<bar> \<le> 1 / 2 ^ 32" by (rule frnd_error_small) simp_all
  show "1 / 2 ^ 31 \<le> range_epsilon default_params" "range_epsilon default_params \<le> 1"
    using e unfolding default_params_def abs_le_iff by simp_all
qed

lemma range_violation_ordinary:
  assumes "check_ingestion lib default_params now ticker cols bars = Inr r" "b \<in> set bars"
    and "b_open b = Fin x" "b_close b = Fin y" "b_high b = Fin (max x y)" "0 < max x y" "max x y \<le> 1000000"
  shows "worst_severity r \<in> {Some HIGH, Some CRITICAL}"
proof (rule range_violation_HIGH [OF assms(1,2)])
  let ?c = "max x y" and ?e = "range_epsilon default_params"
  have s: "0 \<le> ?c + ?e" "?c + ?e \<le> 2 ^ 21"
    using add_mono [OF assms(7) epsilon_bounds(2)] assms(6) epsilon_bounds(1) by simp_all
  have "1 / 2 ^ 32 < ?e" using epsilon_bounds(1) by simp
  then have "?c < ?c + ?e - 1 / 2 ^ 32" by linarith
  also have "\<dots> \<le> frnd (?c + ?e)" using frnd_error_small [OF s] unfolding abs_le_iff by linarith
  finally have "?c < frnd (?c + ?e)" .
  then show "range_violation ?e b"
    using assms(3-5) float_of_small [OF s] by (simp add: range_violation_def Let_def)
qed

text \<open>
  The tolerance of the range check has the wrong sign: it demands \<open>high >= max(open, close)\<close>
  plus one nano, so a perfectly ordinary bar whose high is its open or close (up to a price of
  one million) is a range violation, and with the default parameters every series containing
  one such bar is HIGH or CRITICAL.
\<close>

theorem ordinary_bar_flagged:
  assumes "check_ingestion lib default_params now ticker cols bars = Inr r" "b \<in> set bars"
    and "b_open b = Fin x" "b_close b = Fin y" "b_high b = Fin (max x y)" "0 < max x y" "max x y \<le> 1000000"
  shows "worst_severity r \<in> {Some HIGH, Some CRITICAL}"
  by (rule range_violation_ordinary [OF assms])

lemma count_bars_mset: "mset xs = mset ys \<Longrightarrow> count_bars P xs = count_bars P ys"
  by (metis count_bars_def mset_filter size_mset)

lemma sorted_dates_mset:
  assumes "mset xs = mset ys"
  shows "map date_key (sort_key date_key xs) = map date_key (sort_key date_key ys)"
proof -
  have "map date_key (sort_key date_key zs) = sort (map date_key zs)" for zs :: "bar list"
    by (rule properties_for_sort [symmetric]) simp_all
  moreover have "sort (map date_key xs) = sort (map date_key ys)"
    by (rule properties_for_sort) (simp_all add: assms)
  ultimately show ?thesis by simp
qed

text \<open>
  Order independence: every check except the outlier check gives the same result on every
  permutation of the bars. (The outlier check reads the closes in the order given.)
\<close>

theorem checks_ignore_order:
  assumes "mset bars = mset bars'"
  shows "check_range p bars = check_range p bars' \<and> check_zero bars = check_zero bars' \<and>
    check_coverage p bars = check_coverage p bars' \<and> check_history p bars = check_history p bars' \<and>
    check_stale p now bars = check_stale p now bars' \<and> check_gap p bars = check_gap p bars' \<and>
    check_volume bars = check_volume bars'"
proof -
  note c = count_bars_mset [OF assms] and d = sorted_dates_mset [OF assms]
  have l: "length bars = length bars'" using assms by (rule mset_eq_length)
  show ?thesis
    by (simp add: check_range_def check_zero_def check_coverage_def check_history_def check_stale_def
        check_gap_def check_volume_def max_calendar_gap_def Let_def c d l cong: list.case_cong)
qed

section \<open>Instances\<close>

definition ex_lib :: math_lib where
  "ex_lib = \<lparr>lib_log = (\<lambda>x. x - 1), lib_stdev = (\<lambda>xs. 0)\<rparr>"

definition ex_bar :: bar where
  "ex_bar = \<lparr>primary_key = Some 739000, b_open = Fin 10, b_high = Fin 12, b_low = Fin 9,
     b_close = Fin 12, b_volume = 5\<rparr>"

lemma ex_report: "\<exists>r. check_ingestion ex_lib default_params (739000 * DAY_US) ''SBER'' None [ex_bar] = Inr r"
proof -
  have "has_nan_or_inf ex_bar = False" "primary_key ex_bar = Some 739000"
    by (simp_all add: has_nan_or_inf_def ex_bar_def)
  moreover have "expected_trading_days 739000 739000 = 1"
    by (simp add: expected_trading_days_def weekday_def)
  moreover have "frnd (95 / 100) \<le> 1" by (rule flt.le_fixed) simp_all
  moreover have "frnd (frnd (1 / 10)) \<ge> 0" by (intro flt.nonneg) simp
  ultimately show ?thesis
    by (auto simp: check_ingestion_def Let_def count_bars_def data_checks_def check_range_def check_zero_def
        check_outliers_def log_returns_def zscore_filter_def check_coverage_def check_history_def
        check_stale_def check_gap_def check_volume_def flag_def mk_issue_def mk_report_def ingestion_def
        date_key_def default_params_def ex_bar_def DAY_US_def)
qed

theorem ordinary_bar_flagged_witness:
  "\<exists>r. check_ingestion ex_lib default_params (739000 * DAY_US) ''SBER'' None [ex_bar] = Inr r \<and>
     worst_severity r \<in> {Some HIGH, Some CRITICAL}"
proof -
  obtain r where r: "check_ingestion ex_lib default_params (739000 * DAY_US) ''SBER'' None [ex_bar] = Inr r"
    using ex_report by blast
  have "worst_severity r \<in> {Some HIGH, Some CRITICAL}"
    by (rule ordinary_bar_flagged [OF r, of ex_bar 10 12]) (simp_all add: ex_bar_def)
  with r show ?thesis by blast
qed

theorem checks_ignore_order_witness:
  "check_gap default_params [ex_bar, ex_bar\<lparr>primary_key := Some 738990\<rparr>]
   = check_gap default_params [ex_bar\<lparr>primary_key := Some 738990\<rparr>, ex_bar]"
proof -
  have "mset [ex_bar, ex_bar\<lparr>primary_key := Some 738990\<rparr>]
      = mset [ex_bar\<lparr>primary_key := Some 738990\<rparr>, ex_bar]" by (simp add: add_mset_commute)
  from checks_ignore_order [OF this] show ?thesis by blast
qed

end
