(* ===== verification/Coordinator.thy ===== *)
theory Coordinator
  imports RiskGate Orders DataModels Quality
begin

text \<open>
  \<open>src/coordinator.py\<close>: the one-shot pipeline FETCH, VALIDATE, RISK, EXECUTE, AUDIT. The data
  loader, the broker, the audit table and the clocks are outside this file: they are the fields of
  an environment over a world \<open>'w\<close>.
\<close>

section \<open>Configuration and results\<close>

datatype pipeline_stage = FETCH | VALIDATE | RISK | EXECUTE | AUDIT | DONE | SKIPPED

record config =
  cf_ticker :: string
  cf_side :: order_side
  cf_quantity :: rat
  limit_price :: rat
  cf_limits :: risk_limits
  portfolio_equity :: rat
  portfolio_cash :: rat
  portfolio_peak :: rat
  portfolio_daily_pnl :: rat
  fetch_lookback_days :: int
  cf_live_trading :: bool
  store_dsn :: "string option"
  toctou_max_seconds :: rat

definition mk_config :: "config \<Rightarrow> config result" where
  "mk_config c =
     (let t = py_strip (py_upper (cf_ticker c)) in
      if t = [] then Inl ValueError else Inr (c\<lparr>cf_ticker := t\<rparr>))"

definition coordinator_side_value :: "order_side \<Rightarrow> string" where
  "coordinator_side_value s = (case s of BUY \<Rightarrow> ''buy'' | SELL \<Rightarrow> ''sell'')"

datatype pipeline_violation =
    FETCH_ERROR | VALIDATE_EXCEPTION | VALIDATE_CRITICAL | RISK_EXCEPTION | TOCTOU_STATE_STALE
  | RISK_LIMIT_PRICE_INVALID | GateRefusal violation

record pipeline_result =
  pr_config :: config
  stages_completed :: "pipeline_stage list"
  bars_loaded :: nat
  risk_allowed :: bool
  risk_violations :: "pipeline_violation list"
  broker_status :: "string option"
  audit_log_id :: "int option"

definition local_rejections :: "string set" where
  "local_rejections = {''REJECTED_LIVE_TRADING_FALSE'', ''REJECTED_RISK_GATE''}"

definition decided :: "pipeline_result \<Rightarrow> bool" where
  "decided r = (case broker_status r of
      None \<Rightarrow> False
    | Some bs \<Rightarrow> take 5 bs \<noteq> ''ERROR'' \<and> bs \<notin> local_rejections)"

text \<open>The row written to the decision log.\<close>

record audit_row =
  ar_config :: config
  ar_stages :: "pipeline_stage list"
  ar_bars :: nat
  ar_allowed :: bool
  ar_violations :: "pipeline_violation list"
  ar_status :: "string option"

record 'w coord_env =
  ce_fetch :: "string \<Rightarrow> int \<Rightarrow> int \<Rightarrow> 'w \<Rightarrow> ohlcv_row list result \<times> 'w"
  ce_today :: int
  ce_now :: int
  ce_lib :: math_lib
  ce_risk_clock :: rat
  ce_exec_clock :: rat
  ce_broker :: "risk_limits \<Rightarrow> order \<Rightarrow> 'w \<Rightarrow> order_status result \<times> 'w"
  ce_insert :: "audit_row \<Rightarrow> 'w \<Rightarrow> int option result \<times> 'w"

section \<open>The stages\<close>

definition fetch_stage :: "'w coord_env \<Rightarrow> config \<Rightarrow> 'w \<Rightarrow> ohlcv_row list result \<times> 'w" where
  "fetch_stage env c w =
     (let start = ce_today env - fetch_lookback_days c in
      if start < 1 then (Inl (OtherError ''OverflowError''), w)
      else ce_fetch env (cf_ticker c) start (ce_today env) w)"

text \<open>The first row of every date is kept.\<close>

fun dedup_from :: "int set \<Rightarrow> ohlcv_row list \<Rightarrow> ohlcv_row list" where
  "dedup_from seen [] = []"
| "dedup_from seen (b # bs) =
     (if r_ts b \<in> seen then dedup_from seen bs else b # dedup_from (insert (r_ts b) seen) bs)"

definition row_bar :: "ohlcv_row \<Rightarrow> bar result" where
  "row_bar b = mk_bar (r_ts b) (float_of (r_open b)) (float_of (r_high b)) (float_of (r_low b))
     (float_of (r_close b)) (dint (r_volume b))"

definition validate_stage :: "'w coord_env \<Rightarrow> config \<Rightarrow> ohlcv_row list \<Rightarrow> bool result" where
  "validate_stage env c bars =
     (if bars = [] then Inr False
      else bindR (map_result row_bar (dedup_from {} bars)) (\<lambda>bar_list.
        bindR (check_ingestion (ce_lib env) default_params (ce_now env) (cf_ticker c) None bar_list)
          (\<lambda>report. Inr (case worst_severity report of
              None \<Rightarrow> True | Some s \<Rightarrow> s \<notin> {CRITICAL, HIGH}))))"

definition risk_stage_check :: "config \<Rightarrow> (bool \<times> pipeline_violation list) result" where
  "risk_stage_check c =
     (if limit_price c \<le> 0 then Inr (False, [RISK_LIMIT_PRICE_INVALID])
      else bindR (mk_trade_intent (cf_ticker c) (coordinator_side_value (cf_side c)) (cf_quantity c)
                   (limit_price c) None) (\<lambda>i.
        bindR (mk_portfolio_state (portfolio_equity c) (portfolio_cash c) [] (portfolio_daily_pnl c)
                 (portfolio_peak c)) (\<lambda>s.
          bindR (evaluate (cf_limits c) i s) (\<lambda>d.
            Inr (allowed d, map GateRefusal (violations d))))))"

definition state_fresh :: "'w coord_env \<Rightarrow> config \<Rightarrow> bool" where
  "state_fresh env c \<longleftrightarrow> frnd (ce_exec_clock env - ce_risk_clock env) \<le> toctou_max_seconds c"

text \<open>The names \<open>TinkoffAccount\<close> defines (with those of its base class): \<open>TinkoffAccount.from_env\<close>
  is looked up among them, and an absent name raises \<open>AttributeError\<close>.\<close>

definition tinkoff_account_attributes :: "string list" where
  "tinkoff_account_attributes =
     [''__init__'', ''_load_peak_equity'', ''_try_load_peak_from'', ''_prune_corrupt_forensics'',
      ''_save_peak_equity'', ''_load_daily_pnl_basis'', ''_try_load_basis_from'',
      ''_save_daily_pnl_basis'', ''is_sandbox'', ''_rate_limit_acquire'', ''_build_intent_and_state'',
      ''_fetch_live_quote_price'', ''_fetch_real_portfolio_state'', ''get_portfolio'',
      ''get_positions'', ''place_order'', ''cancel_order'', ''_ticker_to_figi'', ''_map_status'']"

definition submit_to_broker :: "'w coord_env \<Rightarrow> config \<Rightarrow> 'w \<Rightarrow> string result \<times> 'w" where
  "submit_to_broker env c w =
     (if ''from_env'' \<notin> set tinkoff_account_attributes then (Inl AttributeError, w)
      else case mk_market_order (cf_ticker c) (cf_side c) (cf_quantity c) of
             Inl e \<Rightarrow> (Inl e, w)
           | Inr ord \<Rightarrow> (case ce_broker env (cf_limits c) ord w of
                (Inl e, w') \<Rightarrow> (Inl e, w') | (Inr st, w') \<Rightarrow> (Inr (status_value st), w')))"

definition execute_stage :: "'w coord_env \<Rightarrow> config \<Rightarrow> bool \<Rightarrow> 'w \<Rightarrow> string option \<times> 'w" where
  "execute_stage env c ok w =
     (if \<not> cf_live_trading c then (Some ''REJECTED_LIVE_TRADING_FALSE'', w)
      else if \<not> ok then (Some ''REJECTED_RISK_GATE'', w)
      else case submit_to_broker env c w of
             (Inl e, w') \<Rightarrow> (Some (''ERROR:'' @ exc_name e), w')
           | (Inr s, w') \<Rightarrow> (Some s, w'))"

definition audit_stage :: "'w coord_env \<Rightarrow> audit_row \<Rightarrow> 'w \<Rightarrow> int option \<times> 'w" where
  "audit_stage env row w =
     (if store_dsn (ar_config row) = None \<or> store_dsn (ar_config row) = Some [] then (None, w)
      else case ce_insert env row w of (Inl e, w') \<Rightarrow> (None, w') | (Inr i, w') \<Rightarrow> (i, w'))"

section \<open>The pipeline\<close>

text \<open>A blocked run: the audit row is written with the stages so far, then the result is built.\<close>

definition blocked ::
  "'w coord_env \<Rightarrow> config \<Rightarrow> pipeline_stage list \<Rightarrow> nat \<Rightarrow> pipeline_violation \<Rightarrow> 'w \<Rightarrow>
   pipeline_result \<times> 'w" where
  "blocked env c stages n v w =
     (case audit_stage env \<lparr>ar_config = c, ar_stages = stages, ar_bars = n, ar_allowed = False,
         ar_violations = [v], ar_status = None\<rparr> w of
       (aid, w') \<Rightarrow>
         (\<lparr>pr_config = c, stages_completed = stages, bars_loaded = n, risk_allowed = False,
           risk_violations = [v], broker_status = None, audit_log_id = aid\<rparr>, w'))"

definition finish_run ::
  "'w coord_env \<Rightarrow> config \<Rightarrow> nat \<Rightarrow> bool \<Rightarrow> pipeline_violation list \<Rightarrow> 'w \<Rightarrow> pipeline_result \<times> 'w" where
  "finish_run env c n ok vs w =
     (case execute_stage env c ok w of
       (status, w1) \<Rightarrow>
         let stages = [FETCH, VALIDATE, RISK] @ (if status \<noteq> None then [EXECUTE] else []) in
         case audit_stage env \<lparr>ar_config = c, ar_stages = stages, ar_bars = n, ar_allowed = ok,
             ar_violations = vs, ar_status = status\<rparr> w1 of
           (aid, w2) \<Rightarrow>
             (\<lparr>pr_config = c, stages_completed = stages @ [AUDIT, DONE], bars_loaded = n,
               risk_allowed = ok, risk_violations = vs, broker_status = status, audit_log_id = aid\<rparr>, w2))"

definition run_once :: "'w coord_env \<Rightarrow> config \<Rightarrow> 'w \<Rightarrow> pipeline_result \<times> 'w" where
  "run_once env c w =
     (case fetch_stage env c w of
        (Inl e, w1) \<Rightarrow> blocked env c [] 0 FETCH_ERROR w1
      | (Inr bars, w1) \<Rightarrow>
          (case validate_stage env c bars of
             Inl e \<Rightarrow> blocked env c [FETCH, VALIDATE, SKIPPED] (length bars) VALIDATE_EXCEPTION w1
           | Inr False \<Rightarrow> blocked env c [FETCH, VALIDATE, SKIPPED] (length bars) VALIDATE_CRITICAL w1
           | Inr True \<Rightarrow>
               (case risk_stage_check c of
                  Inl e \<Rightarrow> blocked env c [FETCH, VALIDATE, SKIPPED] (length bars) RISK_EXCEPTION w1
                | Inr (ok, vs) \<Rightarrow>
                    if \<not> state_fresh env c
                    then blocked env c [FETCH, VALIDATE, RISK, SKIPPED] (length bars) TOCTOU_STATE_STALE w1
                    else finish_run env c (length bars) ok vs w1)))"

section \<open>Properties\<close>

lemma blocked_eq:
  "\<exists>aid w'. blocked env c st n v w =
     (\<lparr>pr_config = c, stages_completed = st, bars_loaded = n, risk_allowed = False,
       risk_violations = [v], broker_status = None, audit_log_id = aid\<rparr>, w')"
  by (auto simp: blocked_def split: prod.split)

lemma execute_stage_Some: "\<exists>s w'. execute_stage env c ok w = (Some s, w')"
  by (auto simp: execute_stage_def split: prod.split sum.split)

lemma finish_run_fields:
  assumes "finish_run env c n ok vs w = (r, w')"
  shows "stages_completed r = [FETCH, VALIDATE, RISK, EXECUTE, AUDIT, DONE] \<and> risk_allowed r = ok \<and>
    risk_violations r = vs \<and> bars_loaded r = n \<and> broker_status r = fst (execute_stage env c ok w)"
  using assms execute_stage_Some [of env c ok w] by (auto simp: finish_run_def Let_def split: prod.splits)

text \<open>A run is blocked, or it ran through all stages.\<close>

lemma run_once_cases:
  assumes "run_once env c w = (r, w')"
  obtains (blocked) st n v v1 where "blocked env c st n v v1 = (r, w')" "EXECUTE \<notin> set st"
  | (through) bars w1 ok vs where "fetch_stage env c w = (Inr bars, w1)"
      "validate_stage env c bars = Inr True" "risk_stage_check c = Inr (ok, vs)" "state_fresh env c"
      "finish_run env c (length bars) ok vs w1 = (r, w')"
proof -
  obtain rb w1 where f: "fetch_stage env c w = (rb, w1)" by fastforce
  show thesis
  proof (cases rb)
    case (Inl e)
    then show thesis using assms f by (intro blocked) (auto simp: run_once_def)
  next
    case b: (Inr bars)
    consider e where "validate_stage env c bars = Inl e" | "validate_stage env c bars = Inr False"
      | "validate_stage env c bars = Inr True" by (metis sum.exhaust)
    then show thesis
    proof cases
      case 1
      then have "blocked env c [FETCH, VALIDATE, SKIPPED] (length bars) VALIDATE_EXCEPTION w1 = (r, w')"
        using assms f b by (simp add: run_once_def)
      then show thesis by (rule blocked) simp
    next
      case 2
      then have "blocked env c [FETCH, VALIDATE, SKIPPED] (length bars) VALIDATE_CRITICAL w1 = (r, w')"
        using assms f b by (simp add: run_once_def)
      then show thesis by (rule blocked) simp
    next
      case 3
      show thesis
      proof (cases "risk_stage_check c")
        case (Inl e)
        then have "blocked env c [FETCH, VALIDATE, SKIPPED] (length bars) RISK_EXCEPTION w1 = (r, w')"
          using assms f b 3 by (simp add: run_once_def)
        then show thesis by (rule blocked) simp
      next
        case k: (Inr p)
        obtain ok vs where p: "p = (ok, vs)" by fastforce
        show thesis
        proof (cases "state_fresh env c")
          case True
          then show thesis using assms f b 3 k p by (intro through) (auto simp: run_once_def)
        next
          case False
          then have "blocked env c [FETCH, VALIDATE, RISK, SKIPPED] (length bars) TOCTOU_STATE_STALE w1 = (r, w')"
            using assms f b 3 k p by (simp add: run_once_def)
          then show thesis by (rule blocked) simp
        qed
      qed
    qed
  qed
qed



lemma no_from_env: "submit_to_broker env c w = (Inl AttributeError, w)"
  by (simp add: submit_to_broker_def tinkoff_account_attributes_def)

lemma execute_stage_eq:
  "execute_stage env c ok w =
     (Some (if \<not> cf_live_trading c then ''REJECTED_LIVE_TRADING_FALSE''
            else if \<not> ok then ''REJECTED_RISK_GATE'' else ''ERROR:AttributeError''), w)"
  by (simp add: execute_stage_def no_from_env exc_name_def)

text \<open>
  The coordinator never trades: it looks \<open>from_env\<close> up in the class \<open>TinkoffAccount\<close>, which has no
  such attribute (it is a function of the module), so no run ever calls the broker, whatever the
  broker would do, and no run is decided; with live trading on and an approval the status is
  \<open>ERROR:AttributeError\<close>.
\<close>

theorem coordinator_never_trades:
  "run_once (env\<lparr>ce_broker := broker\<rparr>) c w = run_once env c w \<and> \<not> decided (fst (run_once env c w)) \<and>
   (risk_allowed (fst (run_once env c w)) \<and> cf_live_trading c \<longrightarrow>
      broker_status (fst (run_once env c w)) = Some ''ERROR:AttributeError'')"
proof (intro conjI impI)
  let ?env = "env\<lparr>ce_broker := broker\<rparr>"
  have a: "audit_stage ?env row v = audit_stage env row v" for row v by (simp add: audit_stage_def)
  have "execute_stage ?env c ok v = execute_stage env c ok v" for ok v by (simp add: execute_stage_eq)
  then have "finish_run ?env c n ok vs v = finish_run env c n ok vs v" for n ok vs v
    by (simp add: finish_run_def a)
  moreover have "blocked ?env c st n x v = blocked env c st n x v" for st n x v
    by (simp add: blocked_def a)
  moreover have "fetch_stage ?env c w = fetch_stage env c w" "state_fresh ?env c = state_fresh env c"
    by (simp_all add: fetch_stage_def state_fresh_def Let_def)
  moreover have "validate_stage ?env c bars = validate_stage env c bars" for bars
    by (simp add: validate_stage_def)
  ultimately show "run_once ?env c w = run_once env c w"
    unfolding run_once_def by presburger
  obtain r w' where r: "run_once env c w = (r, w')" by fastforce
  then have st: "broker_status r = None \<and> \<not> risk_allowed r \<or> broker_status r = Some (if \<not> cf_live_trading c
      then ''REJECTED_LIVE_TRADING_FALSE'' else if \<not> risk_allowed r then ''REJECTED_RISK_GATE''
      else ''ERROR:AttributeError'')"
  proof (cases rule: run_once_cases)
    case (blocked st n v v1)
    then show ?thesis using blocked_eq [of env c st n v v1] by auto
  next
    case (through bars w1 ok vs)
    from finish_run_fields [OF through(5)] show ?thesis by (simp add: execute_stage_eq)
  qed
  then show "\<not> decided (fst (run_once env c w))"
    by (auto simp: r decided_def local_rejections_def split: if_splits)
  assume "risk_allowed (fst (run_once env c w)) \<and> cf_live_trading c"
  with st show "broker_status (fst (run_once env c w)) = Some ''ERROR:AttributeError''" by (simp add: r)
qed

lemma dedup_distinct: "distinct (map r_ts (dedup_from seen bars)) \<and> r_ts ` set (dedup_from seen bars) \<inter> seen = {}"
  by (induction bars arbitrary: seen) (auto split: if_splits)

text \<open>
  Ordinary market data blocks the pipeline: if among the fetched rows (the first of its date)
  there is one whose high is its open or its close, as on any day that closes at its high, the run
  ends in VALIDATE, because of the sign of the tolerance in the range check of the quality gate.
\<close>

theorem ordinary_row_blocks_pipeline:
  assumes "run_once env c w = (r, w')" "fetch_stage env c w = (Inr bars, w1)"
    and "b \<in> set (dedup_from {} bars)" "r_high b = max (r_open b) (r_close b)" "r_high b \<le> 1000000"
  shows "EXECUTE \<notin> set (stages_completed r) \<and> \<not> risk_allowed r \<and> broker_status r = None"
  using assms(1)
proof (cases rule: run_once_cases)
  case (blocked st n v v1)
  then show ?thesis using blocked_eq [of env c st n v v1] by auto
next
  case (through bars' w1' ok vs)
  then have "validate_stage env c bars = Inr True" using assms(2) by simp
  then obtain bs rep where bs: "map_result row_bar (dedup_from {} bars) = Inr bs"
    and rep: "check_ingestion (ce_lib env) default_params (ce_now env) (cf_ticker c) None bs = Inr rep"
    and w: "worst_severity rep \<notin> {Some HIGH, Some CRITICAL}"
    by (auto simp: validate_stage_def bindR_Inr_iff split: if_splits option.splits)
  obtain x where x: "x \<in> set bs" "row_bar b = Inr x" using map_result_mem [OF bs assms(3)] by blast
  let ?o = "frnd (r_open b)" and ?c = "frnd (r_close b)"
  have le: "r_open b \<le> 1000000" "r_close b \<le> 1000000" using assms(4,5) by simp_all
  have xs: "b_open x = float_of (r_open b)" "b_close x = float_of (r_close b)" "b_high x = float_of (r_high b)"
    and pos: "f_less (Fin 0) (float_of (r_open b))" "f_less (Fin 0) (float_of (r_close b))"
    using x(2) by (auto simp: row_bar_def mk_bar_def split: if_splits)
  have nonneg: "0 \<le> r_open b" "0 \<le> r_close b" using pos float_of_pos by (meson less_imp_le)+
  have fl: "float_of y = Fin (frnd y)" if "0 \<le> y" "y \<le> 1000000" for y
    using that by (intro float_of_small) simp_all
  have "b_open x = Fin ?o" "b_close x = Fin ?c" using xs nonneg le fl by simp_all
  moreover have "b_high x = Fin (max ?o ?c)"
    using xs(3) assms(4) nonneg le fl flt.mono [of "r_open b" "r_close b"] flt.mono [of "r_close b" "r_open b"]
    by (auto simp: max_def)
  moreover have "0 < max ?o ?c" using pos nonneg le fl by (simp add: max_def)
  moreover have "max ?o ?c \<le> 1000000" using le flt.le_fixed [of 1000000] by simp
  ultimately have "worst_severity rep \<in> {Some HIGH, Some CRITICAL}"
    by (rule range_violation_ordinary [OF rep x(1)])
  with w show ?thesis by simp
qed

section \<open>A run that passes\<close>

text \<open>252 days of the same bar, fetched on the last of them, and a small order.\<close>

definition ex_row :: "int \<Rightarrow> ohlcv_row" where
  "ex_row d = \<lparr>r_ticker = ''SBER'', r_ts = d, r_open = 10, r_high = 12, r_low = 8, r_close = 10,
     r_volume = 5, r_adj_close = 10, r_source = Tkf\<rparr>"

definition ex_day :: "int \<Rightarrow> bar" where
  "ex_day d = \<lparr>primary_key = Some d, b_open = Fin 10, b_high = Fin 12, b_low = Fin 8, b_close = Fin 10, b_volume = 5\<rparr>"

definition first_day :: int where "first_day = 738700"
definition final_day :: int where "final_day = 738951"
definition ex_dates :: "int list" where "ex_dates = [first_day..final_day]"

lemma ex_dates: "length ex_dates = 252" "distinct ex_dates" "sorted ex_dates" "ex_dates \<noteq> []"
  "hd ex_dates = first_day" "last ex_dates = final_day"
proof -
  have le: "first_day \<le> final_day" by (simp add: first_day_def final_day_def)
  show "length ex_dates = 252" by (simp only: ex_dates_def length_upto) (simp add: first_day_def final_day_def)
  show "distinct ex_dates" "sorted ex_dates" by (simp_all add: ex_dates_def)
  show "ex_dates \<noteq> []" using le by (simp add: ex_dates_def)
  show "hd ex_dates = first_day" using le by (simp add: ex_dates_def upto_rec1)
  show "last ex_dates = final_day" using le by (simp add: ex_dates_def upto_rec2)
qed

definition ex_env :: "unit coord_env" where
  "ex_env = \<lparr>ce_fetch = (\<lambda>t a b w. (Inr (map ex_row ex_dates), w)), ce_today = final_day,
     ce_now = final_day * DAY_US, ce_lib = ex_lib, ce_risk_clock = 0, ce_exec_clock = 0,
     ce_broker = (\<lambda>lims ord w. (Inr FILLED, w)), ce_insert = (\<lambda>row w. (Inr (Some 1), w))\<rparr>"

definition ex_config :: config where
  "ex_config = \<lparr>cf_ticker = ''SBER'', cf_side = BUY, cf_quantity = 10, limit_price = 2,
     cf_limits = ex_limits, portfolio_equity = 1000, portfolio_cash = 1000, portfolio_peak = 1000,
     portfolio_daily_pnl = 0, fetch_lookback_days = 1825, cf_live_trading = True, store_dsn = None,
     toctou_max_seconds = 1 / 10\<rparr>"

lemma dedup_id: "distinct (map r_ts rs) \<Longrightarrow> r_ts ` set rs \<inter> seen = {} \<Longrightarrow> dedup_from seen rs = rs"
  by (induction rs arbitrary: seen) auto

lemma map_result_map: "(\<And>x. x \<in> set xs \<Longrightarrow> f x = Inr (g x)) \<Longrightarrow> map_result f xs = Inr (map g xs)"
  by (induction xs) auto

lemma ex_bars: "map_result row_bar (dedup_from {} (map ex_row ds)) = Inr (map ex_day ds)" if "distinct ds"
proof -
  have "float_of 10 = Fin 10" "float_of 12 = Fin 12" "float_of 8 = Fin 8"
    using float_of_small [of 10] float_of_small [of 12] float_of_small [of 8] by simp_all
  moreover have "dint 5 = 5" using dint_of_int [of 5] by simp
  ultimately have "row_bar (ex_row d) = Inr (ex_day d)" for d
    by (simp add: row_bar_def ex_row_def mk_bar_def ex_day_def)
  then have "map_result row_bar (map ex_row ds) = Inr (map ex_day ds)"
    by (induction ds) simp_all
  moreover have "dedup_from {} (map ex_row ds) = map ex_row ds"
    using that by (intro dedup_id) (simp_all add: comp_def ex_row_def)
  ultimately show ?thesis by simp
qed

lemma ex_returns: "log_returns_from ex_lib 10 (replicate n 10) = Inr (replicate n (Some 0))"
  by (induction n) (simp_all add: ex_lib_def)

lemma max_step_upto: "max_step [a..b] \<le> 1"
proof (induction "nat (b - a)" arbitrary: a)
  case (Suc n)
  then have "a < b" by simp
  then have "[a..b] = a # (a + 1) # [a + 1 + 1..b]" "[a + 1..b] = (a + 1) # [a + 1 + 1..b]"
    by (simp_all add: upto_rec1)
  moreover have "max_step [a + 1..b] \<le> 1" using Suc by simp
  ultimately show ?case by simp
next
  case 0
  then show ?case by (cases "a = b") simp_all
qed

lemma ex_no_range: "range_violation (range_epsilon default_params) (ex_day d) = False"
proof -
  have e: "0 \<le> range_epsilon default_params" "range_epsilon default_params \<le> 1"
    using epsilon_bounds by simp_all
  have "frnd (10 + range_epsilon default_params) \<le> 11" "9 \<le> frnd (10 - range_epsilon default_params)"
    using e by (auto intro!: flt.le_fixed flt.ge_fixed)
  then show ?thesis
    using e float_of_small [of "10 + range_epsilon default_params"] float_of_small [of "10 - range_epsilon default_params"]
    by (simp add: range_violation_def ex_day_def Let_def)
qed

lemma ex_clean: "check_ingestion ex_lib default_params (final_day * DAY_US) ''SBER'' None (map ex_day ex_dates) =
    Inr \<lparr>qr_ticker = ''SBER'', qr_gate = ingestion, qr_issues = []\<rparr>"
proof -
  let ?bs = "map ex_day ex_dates"
  have dates: "map date_key (sort_key date_key ?bs) = ex_dates"
  proof -
    have "sort_key date_key ?bs = ?bs"
      by (rule sort_key_id_if_sorted) (simp add: comp_def date_key_def ex_day_def ex_dates)
    then show ?thesis by (simp add: comp_def date_key_def ex_day_def)
  qed
  obtain ds where ne: "ex_dates = first_day # ds" using ex_dates(4,5) by (metis list.exhaust_sel)
  note dates' = trans [OF dates ne]
  have l: "last (first_day # ds) = final_day" using ex_dates(6) ne by simp
  have "check_range default_params ?bs = Inr []"
    by (simp add: check_range_def count_bars_def ex_no_range flag_def comp_def)
  moreover have "check_zero ?bs = Inr []"
    by (simp add: check_zero_def count_bars_def flag_def ex_day_def comp_def)
  moreover have "check_outliers ex_lib default_params ?bs = Inr []"
  proof -
    have "map (\<lambda>b. fin (b_close b)) ?bs = 10 # replicate (length ds) 10"
      by (simp add: comp_def ex_day_def map_replicate_const ne)
    moreover have "zscore_filter ex_lib rs t = []" for rs t
      by (simp add: zscore_filter_def Let_def ex_lib_def)
    ultimately show ?thesis
      unfolding check_outliers_def by (simp add: log_returns_def ex_returns flag_def Let_def)
  qed
  moreover have "check_coverage default_params ?bs = Inr []"
  proof -
    let ?e = "expected_trading_days first_day final_day"
    have "?e \<le> int (length ex_dates)"
      using length_filter_le [of "\<lambda>d. weekday d < 5" ex_dates]
      unfolding expected_trading_days_def ex_dates_def by (simp del: length_upto)
    then have "?e \<le> 252" by (simp add: ex_dates)
    then have "0 < ?e \<Longrightarrow> 1 \<le> frnd (252 / of_int ?e)" by (intro flt.ge_fixed) (simp_all add: le_divide_eq)
    moreover have "coverage_min_ratio default_params \<le> 1"
      by (simp add: default_params_def) (rule flt.le_fixed, simp_all)
    ultimately have "\<not> (0 < ?e \<and> frnd (252 / of_int ?e) < coverage_min_ratio default_params)"
      by (meson not_less order_trans)
    moreover have "length ?bs = 252" by (simp add: ex_dates)
    ultimately show ?thesis
      unfolding check_coverage_def dates' using l by (auto simp: flag_def Let_def)
  qed
  moreover have "check_history default_params ?bs = Inr []"
    by (simp add: check_history_def default_params_def flag_def ex_dates)
  moreover have "check_stale default_params (final_day * DAY_US) ?bs = Inr []"
  proof -
    show ?thesis
      unfolding check_stale_def dates' using l by (simp add: flag_def Let_def default_params_def DAY_US_def)
  qed
  moreover have "check_gap default_params ?bs = Inr []"
    using max_step_upto [of first_day final_day]
    by (simp add: check_gap_def max_calendar_gap_def dates [unfolded ex_dates_def] ex_dates_def flag_def Let_def default_params_def)
  moreover have "check_volume ?bs = Inr []"
  proof -
    have "0 \<le> frnd (of_nat (length ex_dates) * frnd (1 / 10))" by (intro flt.nonneg mult_nonneg_nonneg) simp_all
    then show ?thesis
      by (simp add: check_volume_def count_bars_def flag_def ex_day_def comp_def Let_def not_less)
  qed
  ultimately show ?thesis
    by (simp add: check_ingestion_def Let_def count_bars_def data_checks_def mk_report_def ingestion_def
        comp_def has_nan_or_inf_def ex_day_def)
qed

text \<open>The run goes through and the gate allows the order.\<close>

lemma ex_run_result:
  "\<exists>r. run_once ex_env ex_config () = (r, ()) \<and> risk_allowed r \<and>
     fetch_stage ex_env ex_config () = (Inr (map ex_row ex_dates), ())"
proof -
  have f: "fetch_stage ex_env ex_config () = (Inr (map ex_row ex_dates), ())"
    by (simp add: fetch_stage_def ex_env_def ex_config_def final_day_def)
  have env: "ce_lib ex_env = ex_lib" "ce_now ex_env = final_day * DAY_US" "cf_ticker ex_config = ''SBER''"
    by (simp_all add: ex_env_def ex_config_def)
  have v: "validate_stage ex_env ex_config (map ex_row ex_dates) = Inr True"
    using ex_dates(4) ex_bars [OF ex_dates(2)] by (simp add: validate_stage_def env ex_clean worst_severity_def)
  obtain i where i: "mk_trade_intent (cf_ticker ex_config) (coordinator_side_value (cf_side ex_config)) 10 2 None = Inr i"
    and ip: "ti_price i = 2" "ti_quantity i = 10" "ti_side i = ''buy''" "ti_sector i = None"
  proof
    show "mk_trade_intent (cf_ticker ex_config) (coordinator_side_value (cf_side ex_config)) 10 2 None
        = Inr \<lparr>ti_symbol = ''SBER'', ti_side = ''buy'', ti_quantity = 10, ti_price = 2, ti_sector = None\<rparr>"
      by (simp add: mk_trade_intent_def ex_config_def coordinator_side_value_def norm_ticker_def py_strip_def
          py_upper_def py_lower_def is_space_def upper_char_def lower_char_def)
  qed simp_all
  let ?s = "\<lparr>total_equity = 1000, ps_cash = 1000, positions = [], daily_pnl = 0, peak_equity = 1000\<rparr>"
  have st: "mk_portfolio_state 1000 1000 [] 0 1000 = Inr ?s" by (simp add: mk_portfolio_state_def)
  have [simp]: "drnd (1 / 50) = 1 / 50" by (rule drnd_exactI [of _ 2 2]) simp_all
  have g: "gate_violations ex_limits i ?s = []"
    by (simp add: gate_violations_Nil placeholder_violations_def position_violations_def
        sector_violations_def daily_loss_violations_def drawdown_violations_def drawdown_pct_def
        share_of_equity_def effective_notional_def held_qty_def dsum_def dadd_def dmul_def ddiv_def
        dsub_def dneg_def ex_limits_def ip)
  obtain vs where k: "risk_stage_check ex_config = Inr (True, vs)"
    using i by (simp add: risk_stage_check_def ex_config_def st evaluate_eq g)
  have s: "state_fresh ex_env ex_config" by (simp add: state_fresh_def ex_env_def ex_config_def)
  have "run_once ex_env ex_config () = finish_run ex_env ex_config 252 True vs ()"
    by (simp add: run_once_def f v k s ex_dates)
  moreover obtain r where "finish_run ex_env ex_config 252 True vs () = (r, ())"
    by (metis (full_types) old.unit.exhaust surj_pair)
  ultimately show ?thesis using f finish_run_fields by metis
qed


theorem coordinator_never_trades_witness:
  "broker_status (fst (run_once ex_env ex_config ())) = Some ''ERROR:AttributeError''"
proof -
  obtain r where r: "run_once ex_env ex_config () = (r, ())" "risk_allowed r" using ex_run_result by blast
  have "cf_live_trading ex_config" by (simp add: ex_config_def)
  with coordinator_never_trades [where env = ex_env and c = ex_config and w = "()"] r show ?thesis by simp
qed

definition ex_high_close :: ohlcv_row where
  "ex_high_close = (ex_row 738951)\<lparr>r_close := 12\<rparr>"

theorem ordinary_row_blocks_pipeline_witness:
  "let r = fst (run_once (ex_env\<lparr>ce_fetch := (\<lambda>t a b w. (Inr [ex_high_close], w))\<rparr>) ex_config ())
   in EXECUTE \<notin> set (stages_completed r) \<and> \<not> risk_allowed r \<and> broker_status r = None"
proof -
  let ?env = "ex_env\<lparr>ce_fetch := (\<lambda>t a b w. (Inr [ex_high_close], w))\<rparr>"
  have "fetch_stage ?env ex_config () = (Inr [ex_high_close], ())"
    by (simp add: fetch_stage_def ex_env_def ex_config_def final_day_def)
  from ordinary_row_blocks_pipeline [OF surjective_pairing this, of ex_high_close]
  show ?thesis by (simp add: ex_high_close_def ex_row_def Let_def)
qed

end
