(* ===== verification/Macro.thy ===== *)
theory Macro
  imports Prelude PyDecimal
begin

text \<open>
  \<open>src/macro/models.py\<close> and \<open>src/macro/regime.py\<close>: the macro snapshot and the deterministic regime
  classifier. The reason line is the list of the triggers and diagnostics it prints.
\<close>

record macro_snapshot =
  fetched_at :: int
  cbr_key_rate :: rat
  usdrub_close :: rat
  usdrub_5d_prev :: rat
  imoex_close :: rat
  imoex_60d_prev :: rat
  snapshot_sources :: "(string \<times> string) list"

datatype regime_label = Risk_Off | Risk_On_Reduced | Neutral

datatype reason_part =
    CBR_Trigger rat | IMOEX_Trigger rat | USDRUB_Trigger rat
  | IMOEX_Prior_Zero | USDRUB_Prior_Zero | CBR_Negative rat

record macro_regime =
  regime :: regime_label
  multiplier :: rat
  reason :: "reason_part list"
  snapshot :: "macro_snapshot option"

definition mk_macro_regime ::
  "regime_label \<Rightarrow> rat \<Rightarrow> reason_part list \<Rightarrow> macro_snapshot option \<Rightarrow> macro_regime result" where
  "mk_macro_regime l m r s =
     (if m < 1 / 2 \<or> 1 < m then Inl ValidationError
      else Inr \<lparr>regime = l, multiplier = m, reason = r, snapshot = s\<rparr>)"

definition THRESHOLD_CBR_HIGH :: rat where "THRESHOLD_CBR_HIGH = 15"
definition THRESHOLD_USDRUB_DELTA :: rat where "THRESHOLD_USDRUB_DELTA = 5"
definition THRESHOLD_IMOEX_DRAWDOWN :: rat where "THRESHOLD_IMOEX_DRAWDOWN = 20"
definition PERCENT_SCALE :: rat where "PERCENT_SCALE = 100"

definition safe_delta :: "rat \<Rightarrow> rat \<Rightarrow> rat" where
  "safe_delta cur prev = (if prev = 0 then 0 else ddiv (dsub cur prev) prev)"

definition safe_delta_percent :: "rat \<Rightarrow> rat \<Rightarrow> rat" where
  "safe_delta_percent cur prev = dmul (safe_delta cur prev) PERCENT_SCALE"

definition cbr_triggers :: "macro_snapshot \<Rightarrow> reason_part list" where
  "cbr_triggers s = (if THRESHOLD_CBR_HIGH < cbr_key_rate s then [CBR_Trigger (cbr_key_rate s)] else [])"

definition imoex_dd_pct :: "macro_snapshot \<Rightarrow> rat" where
  "imoex_dd_pct s = (if imoex_60d_prev s = 0 then 0
     else dmul (ddiv (dsub (imoex_60d_prev s) (imoex_close s)) (imoex_60d_prev s)) PERCENT_SCALE)"

definition imoex_triggers :: "macro_snapshot \<Rightarrow> reason_part list" where
  "imoex_triggers s =
     (if imoex_60d_prev s \<noteq> 0 \<and> THRESHOLD_IMOEX_DRAWDOWN < imoex_dd_pct s
      then [IMOEX_Trigger (imoex_dd_pct s)] else [])"

definition usdrub_delta_pct :: "macro_snapshot \<Rightarrow> rat" where
  "usdrub_delta_pct s = (if usdrub_5d_prev s = 0 then 0
     else dmul (ddiv (dsub (usdrub_close s) (usdrub_5d_prev s)) (usdrub_5d_prev s)) PERCENT_SCALE)"

definition usdrub_triggers :: "macro_snapshot \<Rightarrow> reason_part list" where
  "usdrub_triggers s =
     (if usdrub_5d_prev s \<noteq> 0 \<and> THRESHOLD_USDRUB_DELTA < usdrub_delta_pct s
      then [USDRUB_Trigger (usdrub_delta_pct s)] else [])"

definition diagnostics :: "macro_snapshot \<Rightarrow> reason_part list" where
  "diagnostics s =
     (if imoex_60d_prev s = 0 then [IMOEX_Prior_Zero] else []) @
     (if usdrub_5d_prev s = 0 then [USDRUB_Prior_Zero] else []) @
     (if cbr_key_rate s < 0 then [CBR_Negative (cbr_key_rate s)] else [])"

fun is_off_trigger :: "reason_part \<Rightarrow> bool" where
  "is_off_trigger (CBR_Trigger x) = True"
| "is_off_trigger (IMOEX_Trigger x) = True"
| "is_off_trigger _ = False"

fun is_reduced_trigger :: "reason_part \<Rightarrow> bool" where
  "is_reduced_trigger (USDRUB_Trigger x) = True"
| "is_reduced_trigger _ = False"

definition classify :: "macro_snapshot option \<Rightarrow> macro_regime result" where
  "classify so =
     (case so of None \<Rightarrow> Inl ValueError
      | Some s \<Rightarrow>
          let triggers = cbr_triggers s @ imoex_triggers s @ usdrub_triggers s;
              (label, m) =
                (if list_ex is_off_trigger triggers then (Risk_Off, 1 / 2)
                 else if list_ex is_reduced_trigger triggers then (Risk_On_Reduced, 3 / 4)
                 else (Neutral, 1))
          in mk_macro_regime label m (triggers @ diagnostics s) (Some s))"

text \<open>What the three thresholds mean in exact arithmetic, for positive priors.\<close>

definition imoex_fell :: "macro_snapshot \<Rightarrow> bool" where
  "imoex_fell s \<longleftrightarrow> imoex_60d_prev s \<noteq> 0 \<and> THRESHOLD_IMOEX_DRAWDOWN < imoex_dd_pct s"

definition ruble_fell :: "macro_snapshot \<Rightarrow> bool" where
  "ruble_fell s \<longleftrightarrow> usdrub_5d_prev s \<noteq> 0 \<and> THRESHOLD_USDRUB_DELTA < usdrub_delta_pct s"

lemma triggers:
  "list_ex is_off_trigger (cbr_triggers s @ imoex_triggers s @ usdrub_triggers s) \<longleftrightarrow>
     THRESHOLD_CBR_HIGH < cbr_key_rate s \<or> imoex_fell s"
  "list_ex is_reduced_trigger (cbr_triggers s @ imoex_triggers s @ usdrub_triggers s) \<longleftrightarrow> ruble_fell s"
  by (auto simp: cbr_triggers_def imoex_triggers_def usdrub_triggers_def imoex_fell_def ruble_fell_def)

lemma classify_eq:
  "classify (Some s) = Inr
     \<lparr>regime = (if THRESHOLD_CBR_HIGH < cbr_key_rate s \<or> imoex_fell s then Risk_Off
               else if ruble_fell s then Risk_On_Reduced else Neutral),
      multiplier = (if THRESHOLD_CBR_HIGH < cbr_key_rate s \<or> imoex_fell s then 1 / 2
               else if ruble_fell s then 3 / 4 else 1),
      reason = cbr_triggers s @ imoex_triggers s @ usdrub_triggers s @ diagnostics s,
      snapshot = Some s\<rparr>"
  unfolding classify_def option.case Let_def triggers by (simp add: mk_macro_regime_def)

text \<open>Rounding does not blur the thresholds: 20 and 5 percent are themselves Decimals.\<close>

lemma percent_of_fraction:
  assumes "drnd d = d" "0 < p"
  shows "d / p \<le> k / 100 \<Longrightarrow> drnd (k / 100) = k / 100 \<Longrightarrow> drnd k = k \<Longrightarrow>
           dmul (ddiv d p) PERCENT_SCALE \<le> k"
    and "k / 100 \<le> d / p \<Longrightarrow> drnd (k / 100) = k / 100 \<Longrightarrow> drnd k = k \<Longrightarrow>
           k \<le> dmul (ddiv d p) PERCENT_SCALE"
proof -
  assume a: "d / p \<le> k / 100" "drnd (k / 100) = k / 100" "drnd k = k"
  have "ddiv d p \<le> k / 100" using dec.mono [OF a(1)] a(2) by (simp add: ddiv_def)
  hence "ddiv d p * 100 \<le> k" by simp
  from dec.mono [OF this] show "dmul (ddiv d p) PERCENT_SCALE \<le> k"
    using a(3) by (simp add: dmul_def PERCENT_SCALE_def)
next
  assume a: "k / 100 \<le> d / p" "drnd (k / 100) = k / 100" "drnd k = k"
  have "k / 100 \<le> ddiv d p" using dec.mono [OF a(1)] a(2) by (simp add: ddiv_def)
  hence "k \<le> ddiv d p * 100" by simp
  from dec.mono [OF this] show "k \<le> dmul (ddiv d p) PERCENT_SCALE"
    using a(3) by (simp add: dmul_def PERCENT_SCALE_def)
qed

text \<open>The classifier is total on snapshots, and the multiplier follows the label.\<close>

lemma classify_worst_case_wins:
  "classify None = Inl ValueError \<and>
   (\<exists>r. classify (Some s) = Inr r \<and> 1 / 2 \<le> multiplier r \<and> multiplier r \<le> 1 \<and>
      (regime r = Risk_Off \<longleftrightarrow> THRESHOLD_CBR_HIGH < cbr_key_rate s \<or> imoex_fell s) \<and>
      (regime r = Risk_On_Reduced \<longleftrightarrow>
         ruble_fell s \<and> \<not> (THRESHOLD_CBR_HIGH < cbr_key_rate s \<or> imoex_fell s)) \<and>
      multiplier r = (case regime r of Risk_Off \<Rightarrow> 1 / 2 | Risk_On_Reduced \<Rightarrow> 3 / 4 | Neutral \<Rightarrow> 1))"
  unfolding classify_eq by (auto simp: classify_def)

lemma imoex_fell_exact:
  assumes "drnd (imoex_60d_prev s - imoex_close s) = imoex_60d_prev s - imoex_close s" "0 < imoex_60d_prev s"
  shows "4 / 5 * imoex_60d_prev s \<le> imoex_close s \<Longrightarrow> \<not> imoex_fell s"
    and "imoex_close s \<le> 799 / 1000 * imoex_60d_prev s \<Longrightarrow> imoex_fell s"
proof -
  have q: "drnd (dsub (imoex_60d_prev s) (imoex_close s)) = dsub (imoex_60d_prev s) (imoex_close s)"
    by (simp add: dsub_def dec.idem)
  have e: "dsub (imoex_60d_prev s) (imoex_close s) = imoex_60d_prev s - imoex_close s"
    by (simp add: dsub_def assms(1))
  have d: "drnd (20 / 100) = 20 / 100" "drnd (201 / 10 / 100) = 201 / 10 / 100" "drnd (201 / 10) = 201 / 10"
    by (rule drnd_exactI [of _ 3 200] drnd_exactI [of _ 3 201] drnd_exactI [of _ 3 20100]; simp)+
  { assume "4 / 5 * imoex_60d_prev s \<le> imoex_close s"
    then have "dsub (imoex_60d_prev s) (imoex_close s) / imoex_60d_prev s \<le> 20 / 100"
      using assms(2) by (simp add: e divide_le_eq)
    from percent_of_fraction(1) [OF q assms(2) this d(1)]
    show "\<not> imoex_fell s" by (simp add: imoex_fell_def imoex_dd_pct_def THRESHOLD_IMOEX_DRAWDOWN_def) }
  { assume "imoex_close s \<le> 799 / 1000 * imoex_60d_prev s"
    then have "201 / 10 / 100 \<le> dsub (imoex_60d_prev s) (imoex_close s) / imoex_60d_prev s"
      using assms(2) by (simp add: e le_divide_eq)
    from percent_of_fraction(2) [OF q assms(2) this d(2,3)]
    show "imoex_fell s" using assms(2)
      by (simp add: imoex_fell_def imoex_dd_pct_def THRESHOLD_IMOEX_DRAWDOWN_def) }
qed

lemma ruble_fell_exact:
  assumes "drnd (usdrub_close s - usdrub_5d_prev s) = usdrub_close s - usdrub_5d_prev s" "0 < usdrub_5d_prev s"
  shows "usdrub_close s \<le> 105 / 100 * usdrub_5d_prev s \<Longrightarrow> \<not> ruble_fell s"
    and "1051 / 1000 * usdrub_5d_prev s \<le> usdrub_close s \<Longrightarrow> ruble_fell s"
proof -
  have q: "drnd (dsub (usdrub_close s) (usdrub_5d_prev s)) = dsub (usdrub_close s) (usdrub_5d_prev s)"
    by (simp add: dsub_def dec.idem)
  have e: "dsub (usdrub_close s) (usdrub_5d_prev s) = usdrub_close s - usdrub_5d_prev s"
    by (simp add: dsub_def assms(1))
  have d: "drnd (5 / 100) = 5 / 100" "drnd (51 / 10 / 100) = 51 / 10 / 100" "drnd (51 / 10) = 51 / 10"
    by (rule drnd_exactI [of _ 3 50] drnd_exactI [of _ 3 51] drnd_exactI [of _ 3 5100]; simp)+
  { assume "usdrub_close s \<le> 105 / 100 * usdrub_5d_prev s"
    then have "dsub (usdrub_close s) (usdrub_5d_prev s) / usdrub_5d_prev s \<le> 5 / 100"
      using assms(2) by (simp add: e divide_le_eq)
    from percent_of_fraction(1) [OF q assms(2) this d(1)]
    show "\<not> ruble_fell s" by (simp add: ruble_fell_def usdrub_delta_pct_def THRESHOLD_USDRUB_DELTA_def) }
  { assume "1051 / 1000 * usdrub_5d_prev s \<le> usdrub_close s"
    then have "51 / 10 / 100 \<le> dsub (usdrub_close s) (usdrub_5d_prev s) / usdrub_5d_prev s"
      using assms(2) by (simp add: e le_divide_eq)
    from percent_of_fraction(2) [OF q assms(2) this d(2,3)]
    show "ruble_fell s" using assms(2)
      by (simp add: ruble_fell_def usdrub_delta_pct_def THRESHOLD_USDRUB_DELTA_def) }
qed

text \<open>
  The thresholds are what the documentation promises, in exact percentages of the raw
  prices and in spite of the rounded divisions: when the key rate is at most 15 percent, the
  index kept at least 80 percent of its prior and the dollar rose by at most 5 percent, the
  regime is neutral with multiplier one, the boundary values included; an index 20.1 percent
  down is \<open>risk_off\<close> with one half whatever the other inputs; and a dollar 5.1 percent
  up with the other two calm is \<open>risk_on_reduced\<close> with three quarters.
\<close>

theorem classify_thresholds:
  assumes "drnd (imoex_60d_prev s - imoex_close s) = imoex_60d_prev s - imoex_close s" "0 < imoex_60d_prev s"
    and "drnd (usdrub_close s - usdrub_5d_prev s) = usdrub_close s - usdrub_5d_prev s" "0 < usdrub_5d_prev s"
  shows "(cbr_key_rate s \<le> 15 \<and> 4 / 5 * imoex_60d_prev s \<le> imoex_close s \<and>
            usdrub_close s \<le> 105 / 100 * usdrub_5d_prev s \<longrightarrow>
          (\<exists>r. classify (Some s) = Inr r \<and> regime r = Neutral \<and> multiplier r = 1)) \<and>
         (15 < cbr_key_rate s \<or> imoex_close s \<le> 799 / 1000 * imoex_60d_prev s \<longrightarrow>
          (\<exists>r. classify (Some s) = Inr r \<and> regime r = Risk_Off \<and> multiplier r = 1 / 2)) \<and>
         (cbr_key_rate s \<le> 15 \<and> 4 / 5 * imoex_60d_prev s \<le> imoex_close s \<and>
            1051 / 1000 * usdrub_5d_prev s \<le> usdrub_close s \<longrightarrow>
          (\<exists>r. classify (Some s) = Inr r \<and> regime r = Risk_On_Reduced \<and> multiplier r = 3 / 4))"
  unfolding classify_eq
  using imoex_fell_exact [OF assms(1,2)] ruble_fell_exact [OF assms(3,4)]
  by (auto simp: THRESHOLD_CBR_HIGH_def)

definition ex_macro :: macro_snapshot where
  "ex_macro = \<lparr>fetched_at = 0, cbr_key_rate = 15, usdrub_close = 105, usdrub_5d_prev = 100,
     imoex_close = 2400, imoex_60d_prev = 3000, snapshot_sources = []\<rparr>"

theorem classify_thresholds_witness:
  "\<exists>r. classify (Some ex_macro) = Inr r \<and> regime r = Neutral \<and> multiplier r = 1"
  using classify_thresholds [of ex_macro] by (simp add: ex_macro_def)

end
