(* ===== verification/Sizing.thy ===== *)
theory Sizing
  imports Macro
begin

text \<open>
  \<open>src/broker/sizing.py\<close>: the position sizer. The volatility estimate (simple or EWMA with a
  Newton square root), the four scalars, their composition, the cash cap, the rounding to lots,
  the audit record, and the JSONL audit file. The square root of the float the Newton iteration
  starts from, \<open>Decimal(str(float(value) ** 0.5))\<close>, is the parameter \<open>fsqrt\<close>: nothing here
  relies on how close it is.
\<close>

section \<open>Inputs\<close>

record sizing_quote =
  q_ticker :: string
  q_side :: string
  q_confidence :: rat
  q_timestamp :: int
  q_reference_price :: "rat option"

definition mk_quote :: "sizing_quote \<Rightarrow> sizing_quote result" where
  "mk_quote q =
     (if 1 \<le> length (q_ticker q) \<and> length (q_ticker q) \<le> 12 \<and>
         0 \<le> q_confidence q \<and> q_confidence q \<le> 1 \<and> pred_option (\<lambda>p. 0 < p) (q_reference_price q)
      then Inr q else Inl ValidationError)"

definition q_ticker_upper :: "sizing_quote \<Rightarrow> string" where
  "q_ticker_upper q = norm_ticker (q_ticker q)"

record sizing_portfolio =
  sp_cash :: rat
  sp_peak_equity :: rat
  sp_total_equity :: rat

definition mk_sizing_portfolio :: "sizing_portfolio \<Rightarrow> sizing_portfolio result" where
  "mk_sizing_portfolio p =
     (if 0 \<le> sp_cash p \<and> 0 < sp_peak_equity p \<and> 0 < sp_total_equity p \<and>
         sp_total_equity p \<le> sp_peak_equity p
      then Inr p else Inl ValidationError)"

definition sp_drawdown_pct :: "sizing_portfolio \<Rightarrow> rat" where
  "sp_drawdown_pct p =
     (if sp_peak_equity p \<le> 0 then 0
      else let dd = dmul (ddiv (dsub (sp_peak_equity p) (sp_total_equity p)) (sp_peak_equity p)) 100
           in if 0 < dd then dd else 0)"

record sizing_bar =
  sb_high :: rat
  sb_low :: rat
  sb_close :: rat
  sb_volume :: rat

definition mk_sizing_bar :: "sizing_bar \<Rightarrow> sizing_bar result" where
  "mk_sizing_bar b =
     (if 0 < sb_high b \<and> 0 \<le> sb_low b \<and> 0 < sb_close b \<and> 0 \<le> sb_volume b
      then Inr b else Inl ValidationError)"

text \<open>\<open>MarketData\<close> carries a ticker as well, which the sizer never reads: it is its bars.\<close>

type_synonym market_data = "sizing_bar list"

record sizing_config =
  risk_per_trade_pct :: rat
  target_atr_frac :: rat
  min_atr_frac :: rat
  max_vol_scalar :: rat
  max_liq_scalar :: rat
  max_adv_pct :: rat
  min_adv_pct :: rat
  dd_floor :: rat
  dd_knee_pct :: rat
  min_size_lots :: int
  max_size_pct_of_cash :: rat
  atr_lookback :: int
  ewma_min_bars :: int
  ewma_lambda :: rat
  cfg_lot_size :: int
  formula_version :: string

definition default_sizing :: sizing_config where
  "default_sizing = \<lparr>risk_per_trade_pct = 1 / 100, target_atr_frac = 2 / 100,
     min_atr_frac = 1 / 10000, max_vol_scalar = 3, max_liq_scalar = 2, max_adv_pct = 5 / 100,
     min_adv_pct = 1 / 1000, dd_floor = 1 / 4, dd_knee_pct = 50, min_size_lots = 1,
     max_size_pct_of_cash = 1 / 10, atr_lookback = 20, ewma_min_bars = 30,
     ewma_lambda = 94 / 100, cfg_lot_size = 1, formula_version = ''v1''\<rparr>"

section \<open>Volatility\<close>

text \<open>\<open>xs[-n:]\<close>, for every sign of \<open>n\<close>.\<close>

definition slice_last :: "int \<Rightarrow> 'a list \<Rightarrow> 'a list" where
  "slice_last n xs = (if 0 < n then drop (length xs - nat n) xs else drop (nat (- n)) xs)"

definition compute_atr_simple :: "sizing_bar list \<Rightarrow> int \<Rightarrow> rat" where
  "compute_atr_simple bars lookback =
     (if bars = [] then 0
      else let window = slice_last lookback bars;
               closes = filter (\<lambda>c. 0 < c) (map sb_close window)
           in if closes = [] then 0
              else let rng = map (\<lambda>b. dsub (sb_high b) (sb_low b)) window;
                       mean_range = ddiv (dsum rng) (of_nat (length rng));
                       mean_close = ddiv (dsum closes) (of_nat (length closes))
                   in if mean_close \<le> 0 then 0 else ddiv mean_range mean_close)"

definition newton_step :: "rat \<Rightarrow> rat \<Rightarrow> rat" where
  "newton_step v guess = ddiv (dadd guess (ddiv v guess)) 2"

definition decimal_sqrt :: "(rat \<Rightarrow> rat) \<Rightarrow> rat \<Rightarrow> nat \<Rightarrow> rat" where
  "decimal_sqrt fsqrt v iters =
     (if v \<le> 0 then 0
      else let guess = fsqrt v;
               guess = (if guess = 0 then v else guess)
           in (newton_step v ^^ iters) guess)"

definition ewma_step :: "rat \<Rightarrow> rat \<Rightarrow> sizing_bar \<Rightarrow> rat" where
  "ewma_step lam var b =
     (if sb_close b \<le> 0 then var
      else let r = ddiv (dsub (sb_high b) (sb_low b)) (sb_close b)
           in dadd (dmul lam var) (dmul (dmul (dsub 1 lam) r) r))"

definition compute_atr_ewma :: "(rat \<Rightarrow> rat) \<Rightarrow> sizing_bar list \<Rightarrow> rat \<Rightarrow> rat option \<Rightarrow> rat" where
  "compute_atr_ewma fsqrt bars lam seed =
     (if length bars < 2 then 0
      else let seed_val = (case seed of Some s \<Rightarrow> s | None \<Rightarrow> compute_atr_simple (take 20 bars) 20);
               var = foldl (ewma_step lam) (dmul seed_val seed_val) bars
           in decimal_sqrt fsqrt var 30)"

definition compute_atr_actual :: "(rat \<Rightarrow> rat) \<Rightarrow> sizing_bar list \<Rightarrow> sizing_config \<Rightarrow> rat" where
  "compute_atr_actual fsqrt bars cfg =
     (if int (length bars) < ewma_min_bars cfg then compute_atr_simple bars (atr_lookback cfg)
      else compute_atr_ewma fsqrt bars (ewma_lambda cfg) (Some (compute_atr_simple (take 20 bars) 20)))"

section \<open>Scalars\<close>

definition drawdown_reduction_curve :: "rat \<Rightarrow> rat \<Rightarrow> rat \<Rightarrow> rat" where
  "drawdown_reduction_curve dd knee floor_pct =
     (if dd \<le> 0 then 1
      else if knee \<le> dd then floor_pct
      else dsub 1 (dmul (dsub 1 floor_pct) (ddiv dd knee)))"

definition regime_scalar :: "macro_regime option \<Rightarrow> rat" where
  "regime_scalar m = (case m of None \<Rightarrow> 1 | Some r \<Rightarrow> multiplier r)"

definition quantize_lots :: "rat \<Rightarrow> int \<Rightarrow> int" where
  "quantize_lots raw lot_size =
     (if raw \<le> 0 \<or> lot_size \<le> 0 then 0 else dint (ddiv raw (of_int lot_size)))"

definition liquidity_scalar :: "rat \<Rightarrow> rat \<Rightarrow> rat \<Rightarrow> sizing_config \<Rightarrow> rat" where
  "liquidity_scalar adv cash price cfg =
     (if adv \<le> 0 \<or> price \<le> 0 \<or> cash \<le> 0 then (if adv \<le> 0 then max_liq_scalar cfg else 1)
      else let position_shares = ddiv (dmul cash (risk_per_trade_pct cfg)) price
           in if position_shares \<le> 0 then 1
              else let target_shares = dmul position_shares (max_adv_pct cfg)
                   in if target_shares \<le> 0 then max_liq_scalar cfg
                      else min (ddiv adv target_shares) (max_liq_scalar cfg))"

definition cap_against_cash :: "rat \<Rightarrow> rat \<Rightarrow> sizing_config \<Rightarrow> rat" where
  "cap_against_cash raw cash cfg =
     (let cap = dmul cash (max_size_pct_of_cash cfg) in if cap < raw then cap else raw)"

definition reference_price :: "sizing_quote \<Rightarrow> market_data \<Rightarrow> rat" where
  "reference_price q md =
     (case q_reference_price q of Some p \<Rightarrow> p
      | None \<Rightarrow> if md \<noteq> [] then sb_close (last md) else 1)"

section \<open>The order and its audit record\<close>

datatype size_skip =
    No_Market_Data
  | No_Cash
  | Below_Min_Lots int int rat rat rat rat

text \<open>\<open>meta\<close> is a dictionary: a key that is absent is \<open>None\<close>.\<close>

record size_meta =
  sm_atr_frac :: "rat option"
  sm_atr_eff :: "rat option"
  sm_adv :: "rat option"
  sm_drawdown_pct :: "rat option"
  sm_regime :: regime_label
  sm_base_size :: "rat option"
  sm_vol_scalar :: "rat option"
  sm_liq_scalar :: "rat option"
  sm_dd_scalar :: "rat option"
  sm_regime_scalar :: rat
  sm_raw_size :: "rat option"
  sm_lot_size :: "int option"

record order_spec =
  os_ticker :: string
  os_side :: string
  os_quantity :: rat
  os_price :: rat
  os_confidence :: rat
  os_sizing_version :: string
  os_skip :: bool
  os_skip_reason :: "size_skip option"
  os_meta :: size_meta

definition mk_order_spec :: "order_spec \<Rightarrow> order_spec result" where
  "mk_order_spec s =
     (if 1 \<le> length (os_ticker s) \<and> length (os_ticker s) \<le> 12 \<and> 0 \<le> os_quantity s \<and>
         0 < os_price s \<and> 0 \<le> os_confidence s \<and> os_confidence s \<le> 1
      then Inr s else Inl ValidationError)"

record audit_record =
  ar_ts :: int
  ar_ticker :: string
  ar_side :: string
  ar_cash :: rat
  ar_peak_equity :: rat
  ar_total_equity :: rat
  ar_drawdown_pct :: rat
  ar_confidence :: rat
  ar_n_bars :: nat
  ar_adv :: rat
  ar_atr_frac :: rat
  ar_regime :: regime_label
  ar_regime_multiplier :: rat
  ar_vol_scalar :: "rat option"
  ar_liq_scalar :: "rat option"
  ar_dd_scalar :: "rat option"
  ar_regime_scalar :: rat
  ar_base_size :: "rat option"
  ar_final_size :: rat
  ar_final_lots :: int
  ar_price :: rat
  ar_skip :: bool
  ar_skip_reason :: "size_skip option"
  ar_formula_version :: string

text \<open>\<open>x / y\<close> and \<open>x // y\<close> with a divisor the code does not guard.\<close>

definition py_div :: "rat \<Rightarrow> rat \<Rightarrow> rat result" where
  "py_div x y =
     (if y = 0 then Inl (OtherError (if x = 0 then ''InvalidOperation'' else ''DivisionByZero''))
      else Inr (ddiv x y))"

definition py_floordiv :: "rat \<Rightarrow> rat \<Rightarrow> int result" where
  "py_floordiv x y =
     (if y = 0 then Inl (OtherError (if x = 0 then ''InvalidOperation'' else ''DivisionByZero''))
      else if 10 ^ 28 \<le> \<bar>dint (x / y)\<bar> then Inl (OtherError ''InvalidOperation'')
      else Inr (dint (x / y)))"

text \<open>The two early returns: no bars, no cash. \<open>regime.regime\<close> is read for the \<open>meta\<close>.\<close>

definition skipped_order ::
  "sizing_quote \<Rightarrow> market_data \<Rightarrow> macro_regime option \<Rightarrow> sizing_config \<Rightarrow> size_skip \<Rightarrow> order_spec result" where
  "skipped_order q md reg cfg why =
     (case reg of None \<Rightarrow> Inl AttributeError
      | Some r \<Rightarrow> mk_order_spec
          \<lparr>os_ticker = q_ticker_upper q, os_side = py_lower (q_side q), os_quantity = 0,
           os_price = reference_price q md, os_confidence = q_confidence q,
           os_sizing_version = formula_version cfg, os_skip = True, os_skip_reason = Some why,
           os_meta = \<lparr>sm_atr_frac = None, sm_atr_eff = None, sm_adv = None, sm_drawdown_pct = None,
             sm_regime = regime r, sm_base_size = None, sm_vol_scalar = None, sm_liq_scalar = None,
             sm_dd_scalar = None, sm_regime_scalar = regime_scalar reg, sm_raw_size = None,
             sm_lot_size = None\<rparr>\<rparr>)"

text \<open>The scalars and their composition, up to the raw notional.\<close>

record size_parts =
  z_atr :: rat
  z_eff_atr :: rat
  z_adv :: rat
  z_dd_pct :: rat
  z_base :: rat
  z_vol :: rat
  z_liq :: rat
  z_dd :: rat
  z_reg :: rat
  z_raw :: rat

definition size_scalars ::
  "(rat \<Rightarrow> rat) \<Rightarrow> sizing_quote \<Rightarrow> sizing_portfolio \<Rightarrow> market_data \<Rightarrow> macro_regime option \<Rightarrow>
   sizing_config \<Rightarrow> size_parts result" where
  "size_scalars fsqrt q p md reg cfg =
     (let price = reference_price q md;
          actual_atr = compute_atr_actual fsqrt md cfg;
          eff_atr = max actual_atr (min_atr_frac cfg)
      in bindR (py_div (target_atr_frac cfg) eff_atr) (\<lambda>ratio.
        let vol_s = max (min ratio (max_vol_scalar cfg)) 0;
            adv = dsum (map sb_volume (slice_last (atr_lookback cfg) md));
            liq_s = liquidity_scalar adv (sp_cash p) price cfg;
            dd_pct = sp_drawdown_pct p;
            dd_s = drawdown_reduction_curve dd_pct (dd_knee_pct cfg) (dd_floor cfg);
            reg_s = regime_scalar reg;
            base_size = dmul (sp_cash p) (risk_per_trade_pct cfg);
            raw = dmul (dmul (dmul (dmul base_size vol_s) liq_s) dd_s) reg_s;
            raw = dmul raw (q_confidence q);
            raw = cap_against_cash raw (sp_cash p) cfg
        in Inr \<lparr>z_atr = actual_atr, z_eff_atr = eff_atr, z_adv = adv, z_dd_pct = dd_pct,
                z_base = base_size, z_vol = vol_s, z_liq = liq_s, z_dd = dd_s, z_reg = reg_s,
                z_raw = raw\<rparr>))"

definition sized_order ::
  "(rat \<Rightarrow> rat) \<Rightarrow> sizing_quote \<Rightarrow> sizing_portfolio \<Rightarrow> market_data \<Rightarrow> macro_regime option \<Rightarrow>
   sizing_config \<Rightarrow> order_spec result" where
  "sized_order fsqrt q p md reg cfg =
     bindR (size_scalars fsqrt q p md reg cfg) (\<lambda>z.
     bindR (py_div (z_raw z) (reference_price q md)) (\<lambda>shares.
       let lots = quantize_lots shares (cfg_lot_size cfg);
           skip_reason = (if lots < min_size_lots cfg
             then Some (Below_Min_Lots lots (min_size_lots cfg) (z_vol z) (z_liq z) (z_dd z) (z_reg z))
             else None);
           lots = (if lots < min_size_lots cfg then 0 else lots)
       in case reg of None \<Rightarrow> Inl AttributeError
          | Some r \<Rightarrow> mk_order_spec
              \<lparr>os_ticker = q_ticker_upper q, os_side = py_lower (q_side q),
               os_quantity = of_int (lots * cfg_lot_size cfg),
               os_price = reference_price q md, os_confidence = q_confidence q,
               os_sizing_version = formula_version cfg, os_skip = (lots < min_size_lots cfg),
               os_skip_reason = skip_reason,
               os_meta = \<lparr>sm_atr_frac = Some (z_atr z), sm_atr_eff = Some (z_eff_atr z),
                 sm_adv = Some (z_adv z), sm_drawdown_pct = Some (z_dd_pct z), sm_regime = regime r,
                 sm_base_size = Some (z_base z), sm_vol_scalar = Some (z_vol z),
                 sm_liq_scalar = Some (z_liq z), sm_dd_scalar = Some (z_dd z),
                 sm_regime_scalar = z_reg z, sm_raw_size = Some (z_raw z),
                 sm_lot_size = Some (cfg_lot_size cfg)\<rparr>\<rparr>))"

definition sizing_decision ::
  "(rat \<Rightarrow> rat) \<Rightarrow> sizing_quote \<Rightarrow> sizing_portfolio \<Rightarrow> market_data \<Rightarrow> macro_regime option \<Rightarrow>
   sizing_config \<Rightarrow> order_spec result" where
  "sizing_decision fsqrt q p md reg cfg =
     (if md = [] then skipped_order q md reg cfg No_Market_Data
      else if sp_cash p \<le> 0 then skipped_order q md reg cfg No_Cash
      else sized_order fsqrt q p md reg cfg)"

definition build_audit ::
  "sizing_quote \<Rightarrow> sizing_portfolio \<Rightarrow> market_data \<Rightarrow> macro_regime \<Rightarrow> sizing_config \<Rightarrow> order_spec \<Rightarrow>
   audit_record result" where
  "build_audit q p md r cfg spec =
     bindR (if 0 < cfg_lot_size cfg then py_floordiv (os_quantity spec) (of_int (cfg_lot_size cfg))
            else Inr 0) (\<lambda>final_lots.
     Inr \<lparr>ar_ts = q_timestamp q, ar_ticker = q_ticker_upper q, ar_side = py_lower (q_side q),
          ar_cash = sp_cash p, ar_peak_equity = sp_peak_equity p, ar_total_equity = sp_total_equity p,
          ar_drawdown_pct = sp_drawdown_pct p, ar_confidence = q_confidence q, ar_n_bars = length md,
          ar_adv = (case sm_adv (os_meta spec) of None \<Rightarrow> 0 | Some v \<Rightarrow> v),
          ar_atr_frac = (case sm_atr_frac (os_meta spec) of None \<Rightarrow> 0 | Some v \<Rightarrow> v),
          ar_regime = regime r, ar_regime_multiplier = multiplier r,
          ar_vol_scalar = sm_vol_scalar (os_meta spec), ar_liq_scalar = sm_liq_scalar (os_meta spec),
          ar_dd_scalar = sm_dd_scalar (os_meta spec), ar_regime_scalar = sm_regime_scalar (os_meta spec),
          ar_base_size = sm_base_size (os_meta spec), ar_final_size = os_quantity spec,
          ar_final_lots = final_lots, ar_price = os_price spec, ar_skip = os_skip spec,
          ar_skip_reason = os_skip_reason spec, ar_formula_version = os_sizing_version spec\<rparr>)"

text \<open>The hook is called with the record and may raise; the state is the list of the records the
  hook has received.\<close>

type_synonym audit_hook = "audit_record \<Rightarrow> py_exc option"

definition run_audit ::
  "audit_hook option \<Rightarrow> sizing_quote \<Rightarrow> sizing_portfolio \<Rightarrow> market_data \<Rightarrow> macro_regime option \<Rightarrow>
   sizing_config \<Rightarrow> order_spec \<Rightarrow> audit_record list \<Rightarrow> unit result \<times> audit_record list" where
  "run_audit hook q p md reg cfg spec =
     (case hook of None \<Rightarrow> liftW (Inr ())
      | Some h \<Rightarrow> (case reg of None \<Rightarrow> raiseW AttributeError
          | Some r \<Rightarrow> bindW (liftW (build_audit q p md r cfg spec))
              (\<lambda>rec seen. (case h rec of None \<Rightarrow> Inr () | Some e \<Rightarrow> Inl e, seen @ [rec]))))"

definition compute_position_size ::
  "(rat \<Rightarrow> rat) \<Rightarrow> sizing_quote \<Rightarrow> sizing_portfolio \<Rightarrow> market_data \<Rightarrow> macro_regime option \<Rightarrow>
   sizing_config option \<Rightarrow> audit_hook option \<Rightarrow> audit_record list \<Rightarrow> order_spec result \<times> audit_record list" where
  "compute_position_size fsqrt q p md reg config hook =
     (let cfg = (case config of None \<Rightarrow> default_sizing | Some c \<Rightarrow> c)
      in bindW (liftW (sizing_decision fsqrt q p md reg cfg)) (\<lambda>spec.
           bindW (run_audit hook q p md reg cfg spec) (\<lambda>_. liftW (Inr spec))))"

section \<open>The JSONL audit file\<close>

text \<open>The file is its bytes; \<open>None\<close> is absent. The new line is the encoded record and a newline.
  An existing file that cannot be read counts as empty.\<close>

definition nl :: char where "nl = CHR 0x0A"

definition complete_lines :: "char list \<Rightarrow> char list" where
  "complete_lines raw =
     (if raw \<noteq> [] \<and> last raw \<noteq> nl then rev (dropWhile (\<lambda>c. c \<noteq> nl) (rev raw)) else raw)"

definition existing_bytes :: "bool \<Rightarrow> char list option \<Rightarrow> char list" where
  "existing_bytes readable f =
     (case f of None \<Rightarrow> [] | Some raw \<Rightarrow> if readable then complete_lines raw else [])"

record audit_file =
  audit_log :: "char list option"
  audit_tmp :: "char list option"

datatype audit_pc = Audit_Start | Audit_Tmp "char list" | Audit_End

text \<open>The write as steps: the temporary file may be cut anywhere, the write may fail with the
  temporary file removed or left behind, and only the rename touches the log.\<close>

inductive audit_step :: "bool \<Rightarrow> char list \<Rightarrow> audit_pc \<times> audit_file \<Rightarrow> audit_pc \<times> audit_file \<Rightarrow> bool"
  for readable :: bool and line :: "char list" where
  open_tmp: "audit_step readable line (Audit_Start, fs)
     (Audit_Tmp (existing_bytes readable (audit_log fs) @ line @ [nl]), fs\<lparr>audit_tmp := Some []\<rparr>)"
| write_tmp: "audit_tmp fs = Some w \<Longrightarrow> content = w @ c # rest \<Longrightarrow>
     audit_step readable line (Audit_Tmp content, fs) (Audit_Tmp content, fs\<lparr>audit_tmp := Some (w @ [c])\<rparr>)"
| rename_tmp: "audit_tmp fs = Some content \<Longrightarrow>
     audit_step readable line (Audit_Tmp content, fs) (Audit_End, fs\<lparr>audit_log := Some content, audit_tmp := None\<rparr>)"
| open_fails: "audit_step readable line (Audit_Start, fs) (Audit_End, fs)"
| write_fails: "audit_step readable line (Audit_Tmp content, fs) (Audit_End, fs\<lparr>audit_tmp := None\<rparr>)"
| unlink_fails: "audit_step readable line (Audit_Tmp content, fs) (Audit_End, fs)"

inductive_cases audit_stepE: "audit_step readable line (pc, fs) (pc', fs')"

definition write_audit_jsonl :: "bool \<Rightarrow> char list \<Rightarrow> audit_file \<Rightarrow> audit_file" where
  "write_audit_jsonl readable line fs =
     fs\<lparr>audit_log := Some (existing_bytes readable (audit_log fs) @ line @ [nl]), audit_tmp := None\<rparr>"

inductive audit_reach :: "bool \<Rightarrow> char list \<Rightarrow> audit_file \<Rightarrow> audit_pc \<Rightarrow> audit_file \<Rightarrow> bool"
  for readable :: bool and line :: "char list" and fs :: audit_file where
  reach_start: "audit_reach readable line fs Audit_Start fs"
| reach_step: "audit_reach readable line fs pc fs1 \<Longrightarrow> audit_step readable line (pc, fs1) (pc', fs2) \<Longrightarrow>
     audit_reach readable line fs pc' fs2"

section \<open>The Newton square root\<close>

lemma newton_step_pos: "0 < v \<Longrightarrow> 0 < g \<Longrightarrow> 0 < newton_step v g"
  by (simp add: newton_step_def ddiv_def dadd_def drnd_pos add_pos_pos)

lemma newton_iter_pos: "0 < v \<Longrightarrow> 0 < g \<Longrightarrow> 0 < (newton_step v ^^ n) g"
  by (induction n) (simp_all add: newton_step_pos)

text \<open>One rounded Heron step from any positive guess is at least the root, up to three roundings.\<close>

lemma newton_step_ge_mean:
  assumes "0 < v" "0 < g"
  shows "(1 - dec_u) ^ 3 * ((g + v / g) / 2) \<le> newton_step v g"
proof -
  let ?w = "1 - dec_u"
  have w: "0 \<le> ?w" "?w \<le> 1" by (simp_all add: dec_u_def)
  have pos: "0 < v / g" using assms by simp
  have "?w * (v / g) \<le> ddiv v g" unfolding ddiv_def using pos by (intro dec.lower) simp
  moreover have "?w * g \<le> g" using w assms(2) by simp
  ultimately have "?w * (g + v / g) \<le> g + ddiv v g" by (simp add: distrib_left)
  moreover have "?w * (g + ddiv v g) \<le> dadd g (ddiv v g)"
    unfolding dadd_def using assms by (intro dec.lower add_nonneg_nonneg ddiv_nonneg) simp_all
  ultimately have a: "?w * (?w * (g + v / g)) \<le> dadd g (ddiv v g)"
    using mult_left_mono [OF _ w(1)] order_trans by blast
  have "?w * (dadd g (ddiv v g) / 2) \<le> newton_step v g"
    unfolding newton_step_def ddiv_def [of _ 2]
    using assms by (intro dec.lower divide_nonneg_nonneg dadd_nonneg ddiv_nonneg) simp_all
  moreover have "?w * (?w * (?w * (g + v / g)) / 2) \<le> ?w * (dadd g (ddiv v g) / 2)"
    using a w(1) by (intro mult_left_mono divide_right_mono) simp_all
  ultimately have "?w * (?w * (?w * (g + v / g)) / 2) \<le> newton_step v g" by (rule order_trans [rotated])
  moreover have "?w ^ 3 * ((g + v / g) / 2) = ?w * (?w * (?w * (g + v / g)) / 2)"
    by (simp only: power3_eq_cube mult.assoc times_divide_eq_right)
  ultimately show ?thesis by (rule ord_eq_le_trans [rotated])
qed

lemma heron_mean: "0 < g \<Longrightarrow> (v :: rat) \<le> ((g + v / g) / 2) ^ 2"
proof -
  assume g: "0 < g"
  have "((g + v / g) / 2) ^ 2 - v = ((g - v / g) / 2) ^ 2"
    using g by (simp add: power2_eq_square field_simps)
  also have "0 \<le> \<dots>" by simp
  finally show ?thesis by simp
qed

lemma newton_step_ge_root:
  assumes "0 < v" "0 < g"
  shows "(1 - dec_u) ^ 6 * v \<le> (newton_step v g) ^ 2"
proof -
  have w: "0 \<le> 1 - dec_u" by (simp add: dec_u_def)
  have "(1 - dec_u) ^ 6 * v \<le> (1 - dec_u) ^ 6 * ((g + v / g) / 2) ^ 2"
    using heron_mean [OF assms(2)] w by (intro mult_left_mono) simp_all
  also have "\<dots> = ((1 - dec_u) ^ 3 * ((g + v / g) / 2)) ^ 2"
    by (simp only: power_mult_distrib power_mult [symmetric]) simp
  also have "\<dots> \<le> (newton_step v g) ^ 2"
    using newton_step_ge_mean [OF assms] w assms by (intro power_mono) simp_all
  finally show ?thesis .
qed

text \<open>
  The EWMA volatility is never understated by the square root: whatever positive
  first guess the float gives, the square of \<open>_decimal_sqrt(v)\<close> is at least \<open>v\<close> up to six
  roundings of the 28-digit context, and the result is positive, so no step divides by zero.
\<close>

theorem decimal_sqrt_never_understates:
  assumes "0 \<le> fsqrt v" "0 < n"
  shows "(1 - dec_u) ^ 6 * v \<le> (decimal_sqrt fsqrt v n) ^ 2 \<and> 0 \<le> decimal_sqrt fsqrt v n \<and>
         (0 < v \<longrightarrow> 0 < decimal_sqrt fsqrt v n)"
proof (cases "0 < v")
  case True
  obtain m where n: "n = Suc m" using assms(2) by (cases n) auto
  let ?g = "if fsqrt v = 0 then v else fsqrt v"
  have g: "0 < ?g" using True assms(1) by auto
  have r: "decimal_sqrt fsqrt v n = newton_step v ((newton_step v ^^ m) ?g)"
    using True by (simp add: decimal_sqrt_def n)
  from newton_iter_pos [OF True g, of m] show ?thesis
    unfolding r using newton_step_ge_root [OF True] newton_step_pos [OF True] by (auto intro: less_imp_le)
next
  case False
  then have "(1 - dec_u) ^ 6 * v \<le> 0"
    by (intro mult_nonneg_nonpos) (simp_all add: dec_u_def)
  with False show ?thesis by (simp add: decimal_sqrt_def)
qed

theorem decimal_sqrt_never_understates_witness:
  "(1 - dec_u) ^ 6 * 2 \<le> (decimal_sqrt (\<lambda>_. 1414 / 1000) 2 30) ^ 2"
  using decimal_sqrt_never_understates [of "\<lambda>_. 1414 / 1000" 2 30] by simp

section \<open>The scalars\<close>

definition sane_sizing :: "sizing_config \<Rightarrow> bool" where
  "sane_sizing c \<longleftrightarrow> 0 \<le> risk_per_trade_pct c \<and> 0 < min_atr_frac c \<and> 0 \<le> max_liq_scalar c \<and>
     0 \<le> dd_floor c \<and> dd_floor c \<le> 1 \<and> drnd (dd_floor c) = dd_floor c \<and>
     drnd (1 - dd_floor c) = 1 - dd_floor c \<and> 0 \<le> max_size_pct_of_cash c \<and> 1 \<le> cfg_lot_size c \<and>
     1 \<le> min_size_lots c"

lemma sane_default: "sane_sizing default_sizing"
proof -
  have "drnd (1 / 4) = 1 / 4" "drnd (1 - 1 / 4) = 1 - 1 / 4"
    by (rule drnd_exactI [of _ 2 25] drnd_exactI [of _ 2 75]; simp)+
  then show ?thesis by (simp add: sane_sizing_def default_sizing_def)
qed

lemma curve_bounds:
  assumes "0 \<le> f" "f \<le> 1" "drnd f = f" "drnd (1 - f) = 1 - f"
  shows "f \<le> drawdown_reduction_curve d k f" "drawdown_reduction_curve d k f \<le> 1"
proof -
  have m: "dmul (dsub 1 f) (ddiv d k) \<le> 1 - f" if "0 < d" "d < k"
  proof -
    have "ddiv d k \<le> 1" unfolding ddiv_def using that by (intro dec.le_fixed) simp_all
    then have "dsub 1 f * ddiv d k \<le> 1 - f"
      using mult_left_mono [of "ddiv d k" 1 "1 - f"] assms by (simp add: dsub_def)
    then show ?thesis unfolding dmul_def by (intro dec.le_fixed assms)
  qed
  have n: "0 \<le> dmul (dsub 1 f) (ddiv d k)" if "0 < d" "d < k"
    using that assms by (intro dmul_nonneg ddiv_nonneg) (simp_all add: dsub_def)
  show "f \<le> drawdown_reduction_curve d k f"
    using assms m by (auto simp: drawdown_reduction_curve_def dsub_def intro!: dec.ge_fixed)
  show "drawdown_reduction_curve d k f \<le> 1"
    using assms n by (auto simp: drawdown_reduction_curve_def dsub_def intro!: dec.le_fixed)
qed

lemma curve_antitone:
  assumes "0 \<le> f" "f \<le> 1" "drnd f = f" "drnd (1 - f) = 1 - f" "d \<le> d'"
  shows "drawdown_reduction_curve d' k f \<le> drawdown_reduction_curve d k f"
proof (cases "0 < d \<and> d' < k")
  case True
  have "ddiv d k \<le> ddiv d' k" using True assms(5) by (intro ddiv_mono) simp_all
  then have "dmul (dsub 1 f) (ddiv d k) \<le> dmul (dsub 1 f) (ddiv d' k)"
    unfolding dmul_def using assms by (intro dec.mono mult_left_mono) (simp_all add: dsub_def)
  then show ?thesis
    using True assms(5) by (simp add: drawdown_reduction_curve_def dsub_mono)
next
  case False
  then consider "d \<le> 0" | "k \<le> d'" "0 < d" by linarith
  then show ?thesis
  proof cases
    case 1
    then show ?thesis
      using curve_bounds(2) [OF assms(1-4)] by (simp add: drawdown_reduction_curve_def [of d])
  next
    case 2
    then show ?thesis
      using curve_bounds(1) [OF assms(1-4), of d k] assms(5)
      by (simp add: drawdown_reduction_curve_def [of d'])
  qed
qed

lemma liquidity_nonneg: "0 \<le> max_liq_scalar c \<Longrightarrow> 0 \<le> liquidity_scalar adv cash price c"
  by (simp add: liquidity_scalar_def Let_def ddiv_nonneg)

lemma sp_drawdown_nonneg: "0 \<le> sp_drawdown_pct p"
  by (simp add: sp_drawdown_pct_def Let_def)

lemma sp_drawdown_antitone:
  assumes "sp_peak_equity p' = sp_peak_equity p" "sp_total_equity p' \<le> sp_total_equity p"
  shows "sp_drawdown_pct p \<le> sp_drawdown_pct p'"
proof (cases "sp_peak_equity p \<le> 0")
  case False
  then have "dmul (ddiv (dsub (sp_peak_equity p) (sp_total_equity p)) (sp_peak_equity p)) 100
    \<le> dmul (ddiv (dsub (sp_peak_equity p') (sp_total_equity p')) (sp_peak_equity p')) 100"
    using assms by (intro dmul_mono) (auto intro: ddiv_mono dsub_mono)
  then show ?thesis using False assms(1) by (simp add: sp_drawdown_pct_def Let_def)
qed (simp add: sp_drawdown_pct_def assms(1))

section \<open>Size of the order\<close>

lemma cap_mono: "x \<le> y \<Longrightarrow> cap_against_cash x cash c \<le> cap_against_cash y cash c"
  by (auto simp: cap_against_cash_def Let_def)

lemma cap_le: "cap_against_cash x cash c \<le> dmul cash (max_size_pct_of_cash c)"
  by (simp add: cap_against_cash_def Let_def)

lemma lots_mono: "x \<le> y \<Longrightarrow> quantize_lots x l \<le> quantize_lots y l"
  by (auto simp: quantize_lots_def dint_def ddiv_nonneg not_le intro!: floor_mono ddiv_mono order_trans [OF _ ddiv_nonneg])

lemma lots_nonneg: "0 \<le> quantize_lots x l"
  by (simp add: quantize_lots_def dint_nonneg ddiv_nonneg)

lemma lots_le:
  assumes "0 \<le> x" "1 \<le> l"
  shows "of_int (quantize_lots x l * l) \<le> (1 + dec_u) * x"
proof (cases "x \<le> 0")
  case False
  have "of_int (dint (ddiv x (of_int l))) \<le> ddiv x (of_int l)"
    using assms by (intro dint_le ddiv_nonneg) simp_all
  also have "\<dots> \<le> (1 + dec_u) * (x / of_int l)"
    unfolding ddiv_def using assms by (intro dec.upper) simp_all
  finally show ?thesis
    using False assms by (simp add: quantize_lots_def pos_le_divide_eq)
qed (use assms in \<open>simp add: quantize_lots_def\<close>)

lemma raw_nonneg_parts:
  assumes "size_scalars fsqrt q p md reg c = Inr z" "sane_sizing c" "0 \<le> sp_cash p"
  shows "0 \<le> z_base z" "0 \<le> z_vol z" "0 \<le> z_liq z" "0 \<le> z_dd z"
  using assms curve_bounds(1) [of "dd_floor c" "sp_drawdown_pct p" "dd_knee_pct c"]
  by (auto simp: size_scalars_def Let_def bindR_Inr_iff sane_sizing_def liquidity_nonneg dmul_nonneg)

lemma raw_mono:
  assumes z: "size_scalars fsqrt q p md reg c = Inr z" "size_scalars fsqrt q' p' md reg' c = Inr z'"
    and s: "sane_sizing c" "0 \<le> sp_cash p" "sp_cash p' = sp_cash p"
    and dd: "sp_peak_equity p' = sp_peak_equity p" "sp_total_equity p' \<le> sp_total_equity p"
    and q: "q' = q\<lparr>q_confidence := k\<rparr>" "0 \<le> k" "k \<le> q_confidence q"
    and reg: "0 \<le> regime_scalar reg'" "regime_scalar reg' \<le> regime_scalar reg"
  shows "z_raw z' \<le> z_raw z"
proof -
  have same: "z_base z' = z_base z" "z_vol z' = z_vol z" "z_liq z' = z_liq z"
    using z s q by (auto simp: size_scalars_def Let_def bindR_Inr_iff reference_price_def)
  have dd': "z_dd z' \<le> z_dd z"
    using z s sp_drawdown_antitone [OF dd]
    by (auto simp: size_scalars_def Let_def bindR_Inr_iff sane_sizing_def intro!: curve_antitone)
  note nn = raw_nonneg_parts [OF z(1) s(1,2)] and nn' = raw_nonneg_parts [OF z(2) s(1)]
  let ?b = "dmul (dmul (z_base z) (z_vol z)) (z_liq z)"
  have 1: "dmul ?b (z_dd z') \<le> dmul ?b (z_dd z)"
    unfolding dmul_def [of ?b] using nn dd' by (intro dec.mono mult_left_mono dmul_nonneg)
  have n1: "0 \<le> dmul ?b (z_dd z')" using nn nn' s by (intro dmul_nonneg) simp_all
  have 2: "dmul (dmul ?b (z_dd z')) (regime_scalar reg') \<le> dmul (dmul ?b (z_dd z)) (regime_scalar reg)"
    unfolding dmul_def [of "dmul ?b _"] using 1 n1 reg by (intro dec.mono mult_mono) simp_all
  have n2: "0 \<le> dmul (dmul ?b (z_dd z')) (regime_scalar reg')" by (rule dmul_nonneg [OF n1 reg(1)])
  have 3: "dmul (dmul (dmul ?b (z_dd z')) (regime_scalar reg')) k
      \<le> dmul (dmul (dmul ?b (z_dd z)) (regime_scalar reg)) (q_confidence q)"
    unfolding dmul_def [of "dmul (dmul ?b _) _"] using 2 n2 q by (intro dec.mono mult_mono) simp_all
  have "z_raw z' = cap_against_cash (dmul (dmul (dmul ?b (z_dd z')) (regime_scalar reg')) k) (sp_cash p) c"
    "z_raw z = cap_against_cash (dmul (dmul (dmul ?b (z_dd z)) (regime_scalar reg)) (q_confidence q)) (sp_cash p) c"
    using z q s(3) same by (auto simp: size_scalars_def Let_def bindR_Inr_iff)
  then show ?thesis using cap_mono [OF 3] by simp
qed

lemmas decision_simps = sizing_decision_def skipped_order_def sized_order_def mk_order_spec_def Let_def bindR_Inr_iff

text \<open>A successful full sizing, taken apart.\<close>

lemma sized_orderE:
  assumes "sized_order fsqrt q p md reg c = Inr s"
  obtains z shares r where "size_scalars fsqrt q p md reg c = Inr z" "reg = Some r"
    "shares = ddiv (z_raw z) (reference_price q md)" "0 < reference_price q md"
    "os_price s = reference_price q md" "os_meta s = os_meta s"
    "os_quantity s = of_int ((if quantize_lots shares (cfg_lot_size c) < min_size_lots c then 0
                              else quantize_lots shares (cfg_lot_size c)) * cfg_lot_size c)"
    "os_skip s \<longleftrightarrow> (if quantize_lots shares (cfg_lot_size c) < min_size_lots c then 0
                    else quantize_lots shares (cfg_lot_size c)) < min_size_lots c"
    "os_skip_reason s \<noteq> None \<longleftrightarrow> quantize_lots shares (cfg_lot_size c) < min_size_lots c"
  using assms
  by (auto simp: sized_order_def mk_order_spec_def Let_def bindR_Inr_iff py_div_def
      split: option.splits if_splits)

lemma skipped_orderE:
  assumes "skipped_order q md reg c why = Inr s"
  obtains r where "reg = Some r" "os_quantity s = 0" "os_skip s" "os_skip_reason s = Some why"
    "os_price s = reference_price q md" "0 < os_price s"
  using assms by (auto simp: skipped_order_def mk_order_spec_def split: option.splits if_splits)

text \<open>The notional of a full sizing, before and after the rounding to lots.\<close>

lemma raw_capped:
  assumes "size_scalars fsqrt q p md reg c = Inr z" "0 \<le> max_size_pct_of_cash c * sp_cash p"
  shows "z_raw z \<le> (1 + dec_u) * (max_size_pct_of_cash c * sp_cash p)"
proof -
  have "z_raw z \<le> dmul (sp_cash p) (max_size_pct_of_cash c)"
    using assms(1) cap_le by (auto simp: size_scalars_def Let_def bindR_Inr_iff)
  also have "\<dots> \<le> (1 + dec_u) * (max_size_pct_of_cash c * sp_cash p)"
    unfolding dmul_def using assms(2) by (subst mult.commute) (rule dec.upper)
  finally show ?thesis .
qed

lemma lots_notional:
  assumes "0 \<le> raw" "0 < price" "1 \<le> l"
  shows "of_int (quantize_lots (ddiv raw price) l * l) * price \<le> (1 + dec_u) ^ 2 * raw"
proof -
  have u: "0 \<le> 1 + dec_u" by (simp add: dec_u_def)
  have sh0: "0 \<le> ddiv raw price" using assms by (simp add: ddiv_nonneg)
  have "of_int (quantize_lots (ddiv raw price) l * l) \<le> (1 + dec_u) * ddiv raw price"
    using lots_le [OF sh0, of l] assms(3) by simp
  also have "\<dots> \<le> (1 + dec_u) * ((1 + dec_u) * (raw / price))"
    unfolding ddiv_def using assms u by (intro mult_left_mono dec.upper) simp_all
  finally show ?thesis using assms(2) by (simp add: pos_le_divide_eq power2_eq_square)
qed

text \<open>
  C14. The soft cap of the sizer holds on the order that leaves it: whatever the
  volatility, liquidity, drawdown and regime scalars are, quantity times price is at most
  \<open>max_size_pct_of_cash\<close> of the cash, up to three roundings of the 28-digit context.
\<close>

theorem sized_notional_capped:
  assumes "sizing_decision fsqrt q p md reg c = Inr s" "sane_sizing c" "0 \<le> sp_cash p"
  shows "os_quantity s * os_price s \<le> (1 + dec_u) ^ 3 * (max_size_pct_of_cash c * sp_cash p)"
proof -
  have cap0: "0 \<le> max_size_pct_of_cash c * sp_cash p" using assms by (simp add: sane_sizing_def)
  have u: "0 \<le> 1 + dec_u" by (simp add: dec_u_def)
  have rhs0: "0 \<le> (1 + dec_u) ^ 3 * (max_size_pct_of_cash c * sp_cash p)"
    by (rule mult_nonneg_nonneg [OF zero_le_power [OF u] cap0])
  consider why where "skipped_order q md reg c why = Inr s" | "sized_order fsqrt q p md reg c = Inr s"
    using assms(1) by (auto simp: sizing_decision_def split: if_splits)
  then show ?thesis
  proof cases
    case 1
    then show ?thesis using rhs0 by (auto elim!: skipped_orderE)
  next
    case 2
    then obtain z where z: "size_scalars fsqrt q p md reg c = Inr z" "0 < os_price s"
      "os_quantity s = 0 \<or> os_quantity s = of_int (quantize_lots (ddiv (z_raw z) (os_price s)) (cfg_lot_size c) * cfg_lot_size c)"
      by (rule sized_orderE) (auto split: if_splits)
    show ?thesis
    proof (cases "os_quantity s = 0")
      case False
      then have q: "os_quantity s = of_int (quantize_lots (ddiv (z_raw z) (os_price s)) (cfg_lot_size c) * cfg_lot_size c)"
        using z(3) by simp
      have "0 \<le> z_raw z"
        using False q z(2) by (cases "0 \<le> z_raw z") (auto simp: quantize_lots_def ddiv_def dec.nonpos divide_nonpos_pos)
      then have "os_quantity s * os_price s \<le> (1 + dec_u) ^ 2 * z_raw z"
        unfolding q using z(2) assms(2) by (intro lots_notional) (simp_all add: sane_sizing_def)
      also have "\<dots> \<le> (1 + dec_u) ^ 2 * ((1 + dec_u) * (max_size_pct_of_cash c * sp_cash p))"
        using raw_capped [OF z(1) cap0] by (rule mult_left_mono) simp
      finally show ?thesis by (simp only: power3_eq_cube power2_eq_square mult.assoc)
    qed (use rhs0 in simp)
  qed
qed

text \<open>
  More risk never means a larger order: with the same cash, bars and quote, a lower
  equity under the same peak, a lower regime multiplier and a lower confidence never
  increase the quantity, floors, caps, rounding to lots and the minimum size included.
\<close>

theorem sized_quantity_monotone:
  assumes "sizing_decision fsqrt q p md reg c = Inr s"
    "sizing_decision fsqrt (q\<lparr>q_confidence := k\<rparr>) p' md reg' c = Inr s'"
    and "sane_sizing c" "0 \<le> sp_cash p" "sp_cash p' = sp_cash p"
    and "sp_peak_equity p' = sp_peak_equity p" "sp_total_equity p' \<le> sp_total_equity p"
    and "0 \<le> k" "k \<le> q_confidence q"
    and "0 \<le> regime_scalar reg'" "regime_scalar reg' \<le> regime_scalar reg"
  shows "os_quantity s' \<le> os_quantity s"
proof (cases "md = [] \<or> sp_cash p \<le> 0")
  case True
  then show ?thesis using assms(1,2,5)
    by (auto simp: sizing_decision_def elim!: skipped_orderE split: if_splits)
next
  case False
  then have d: "sized_order fsqrt q p md reg c = Inr s"
    "sized_order fsqrt (q\<lparr>q_confidence := k\<rparr>) p' md reg' c = Inr s'"
    using assms(1,2,5) by (auto simp: sizing_decision_def)
  have price: "reference_price (q\<lparr>q_confidence := k\<rparr>) md = reference_price q md"
    by (simp add: reference_price_def)
  obtain z shares where z: "size_scalars fsqrt q p md reg c = Inr z"
    "shares = ddiv (z_raw z) (reference_price q md)" "0 < reference_price q md"
    "os_quantity s = of_int ((if quantize_lots shares (cfg_lot_size c) < min_size_lots c then 0
                            else quantize_lots shares (cfg_lot_size c)) * cfg_lot_size c)"
    using d(1) by (elim sized_orderE)
  obtain z' shares' where z': "size_scalars fsqrt (q\<lparr>q_confidence := k\<rparr>) p' md reg' c = Inr z'"
    "shares' = ddiv (z_raw z') (reference_price q md)"
    "os_quantity s' = of_int ((if quantize_lots shares' (cfg_lot_size c) < min_size_lots c then 0
                            else quantize_lots shares' (cfg_lot_size c)) * cfg_lot_size c)"
    using d(2) unfolding price [symmetric] by (elim sized_orderE)
  have "z_raw z' \<le> z_raw z"
    by (rule raw_mono [OF z(1) z'(1) assms(3-7) refl assms(8-)])
  then have "shares' \<le> shares" using z(2,3) z'(2) by (simp add: ddiv_mono)
  from lots_mono [OF this, of "cfg_lot_size c"] show ?thesis
    using lots_nonneg [of shares "cfg_lot_size c"] assms(3)
    unfolding z(4) z'(3) of_int_le_iff by (intro mult_right_mono) (auto simp: sane_sizing_def)
qed

section \<open>The audit record\<close>

lemma decision_shape:
  assumes "sizing_decision fsqrt q p md reg c = Inr s" "1 \<le> min_size_lots c"
  shows "(os_skip s \<longleftrightarrow> os_skip_reason s \<noteq> None) \<and> (os_skip s \<longrightarrow> os_quantity s = 0) \<and>
     (\<exists>n \<ge> 0. os_quantity s = of_int (n * cfg_lot_size c)) \<and> reg \<noteq> None \<and> 0 < os_price s"
proof -
  consider why where "skipped_order q md reg c why = Inr s" | "sized_order fsqrt q p md reg c = Inr s"
    using assms(1) by (auto simp: sizing_decision_def split: if_splits)
  then show ?thesis
  proof cases
    case 1
    then show ?thesis by (auto elim!: skipped_orderE intro: exI [of _ 0])
  next
    case 2
    from lots_nonneg have n: "0 \<le> (if quantize_lots x l < m then 0 else quantize_lots x l)" for x l m by simp
    have "\<exists>k \<ge> 0. os_quantity s = of_int (k * cfg_lot_size c)"
      using 2 by (rule sized_orderE) (use n in blast)
    moreover from 2 have "(os_skip s \<longleftrightarrow> os_skip_reason s \<noteq> None) \<and> (os_skip s \<longrightarrow> os_quantity s = 0) \<and>
       reg \<noteq> None \<and> 0 < os_price s"
      by (rule sized_orderE) (use assms(2) in \<open>auto split: if_splits\<close>)
    ultimately show ?thesis by blast
  qed
qed

text \<open>A missing regime is not the neutral multiplier that \<open>regime_scalar\<close> promises: it is an
  \<open>AttributeError\<close> or another exception on every path.\<close>

lemma missing_regime_raises: "sizing_decision fsqrt q p md None c \<noteq> Inr s"
  by (auto simp: decision_simps split: if_splits)

text \<open>
  The audit trail is complete and truthful: a successful sizing with a hook adds exactly
  one record, carrying the order's ticker, side, quantity, price, skip flag, reason and
  version and the lots that make up the quantity, and a hook that refuses it makes the
  call fail; without a hook nothing is recorded; and a failed sizing adds at most one.
  The order itself does not depend on the hook, is a whole number of lots, and is skipped
  exactly when it has a reason, and then has quantity zero.
\<close>

theorem sizing_audit_faithful:
  assumes "compute_position_size fsqrt q p md reg (Some c) hook seen = (r, seen')"
    and "1 \<le> min_size_lots c" "1 \<le> cfg_lot_size c"
  shows "(\<exists>l. seen' = seen @ l \<and> length l \<le> 1) \<and>
     (\<forall>s. r = Inr s \<longrightarrow>
        sizing_decision fsqrt q p md reg c = Inr s \<and>
        (os_skip s \<longleftrightarrow> os_skip_reason s \<noteq> None) \<and> (os_skip s \<longrightarrow> os_quantity s = 0) \<and>
        (\<exists>n \<ge> 0. os_quantity s = of_int (n * cfg_lot_size c)) \<and>
        (case hook of None \<Rightarrow> seen' = seen
         | Some h \<Rightarrow> (\<exists>a. seen' = seen @ [a] \<and> h a = None \<and>
             ar_final_size a = os_quantity s \<and> ar_price a = os_price s \<and> ar_skip a = os_skip s \<and>
             ar_skip_reason a = os_skip_reason s \<and> ar_formula_version a = os_sizing_version s \<and>
             of_int (ar_final_lots a * cfg_lot_size c) = os_quantity s)))"
proof (cases "sizing_decision fsqrt q p md reg c")
  case (Inl e)
  then show ?thesis using assms(1) by (auto simp: compute_position_size_def)
next
  case (Inr s)
  note sh = decision_shape [OF Inr assms(2)]
  obtain rg where reg: "reg = Some rg" using sh by auto
  have lots: "of_int (ar_final_lots a * cfg_lot_size c) = os_quantity s"
    if "build_audit q p md rg c s = Inr a" for a
    using that assms(3) sh by (auto simp: build_audit_def bindR_Inr_iff py_floordiv_def split: if_splits)
  have fields: "ar_final_size a = os_quantity s" "ar_price a = os_price s" "ar_skip a = os_skip s"
    "ar_skip_reason a = os_skip_reason s" "ar_formula_version a = os_sizing_version s"
    if "build_audit q p md rg c s = Inr a" for a
    using that by (auto simp: build_audit_def bindR_Inr_iff)
  show ?thesis
  proof (cases hook)
    case None
    then show ?thesis using assms(1) Inr sh by (auto simp: compute_position_size_def run_audit_def)
  next
    case (Some h)
    show ?thesis
    proof (cases "build_audit q p md rg c s")
      case (Inl e)
      then show ?thesis
        using assms(1) Inr Some reg by (auto simp: compute_position_size_def run_audit_def)
    next
      case (Inr a)
      then have "compute_position_size fsqrt q p md reg (Some c) hook seen =
          ((case h a of None \<Rightarrow> Inr s | Some e \<Rightarrow> Inl e), seen @ [a])"
        using \<open>sizing_decision fsqrt q p md reg c = Inr s\<close> Some reg
        by (cases "h a") (simp_all add: compute_position_size_def run_audit_def bindW_def)
      then have r: "r = (case h a of None \<Rightarrow> Inr s | Some e \<Rightarrow> Inl e)" "seen' = seen @ [a]"
        using assms(1) by auto
      show ?thesis
        using r sh fields [OF Inr] lots [OF Inr] Some \<open>sizing_decision fsqrt q p md reg c = Inr s\<close>
        by (auto split: option.splits)
    qed
  qed
qed

section \<open>Liquidity\<close>

text \<open>The scalar divides the volume by a twentieth of the intended shares and caps the result
  at two: a window volume of a tenth of the intended shares already doubles the order.\<close>

lemma liquidity_doubles:
  assumes "0 < adv" "0 < price" "0 < cash"
    and "0 < dmul (ddiv (dmul cash (1 / 100)) price) (5 / 100)"
    and "2 * dmul (ddiv (dmul cash (1 / 100)) price) (5 / 100) \<le> adv"
  shows "liquidity_scalar adv cash price default_sizing = 2"
proof -
  have "2 \<le> adv / dmul (ddiv (dmul cash (1 / 100)) price) (5 / 100)"
    using assms by (simp add: le_divide_eq)
  then have "2 \<le> ddiv adv (dmul (ddiv (dmul cash (1 / 100)) price) (5 / 100))"
    unfolding ddiv_def [of adv] by (rule dec.ge_fixed [rotated]) simp
  moreover have "0 < ddiv (dmul cash (1 / 100)) price * (5 / 100)"
    using assms(4) unfolding dmul_def [of _ "5 / 100"] by (rule dec.pos_imp)
  then have "0 < ddiv (dmul cash (1 / 100)) price" by (simp add: zero_less_mult_iff)
  ultimately show ?thesis
    using assms by (auto simp: liquidity_scalar_def default_sizing_def Let_def)
qed

definition ex_quote :: sizing_quote where
  "ex_quote = \<lparr>q_ticker = ''SBER'', q_side = ''buy'', q_confidence = 1, q_timestamp = 0,
     q_reference_price = None\<rparr>"

definition ex_portfolio :: sizing_portfolio where
  "ex_portfolio = \<lparr>sp_cash = 1000000, sp_peak_equity = 1000000, sp_total_equity = 1000000\<rparr>"

definition ex_sizing_bar :: sizing_bar where
  "ex_sizing_bar = \<lparr>sb_high = 101, sb_low = 99, sb_close = 100, sb_volume = 100\<rparr>"

definition ex_calm :: macro_regime where
  "ex_calm = \<lparr>regime = Neutral, multiplier = 1, reason = [], snapshot = None\<rparr>"

lemma ex_arith:
  "drnd (2 / 100) = 2 / 100" "drnd (1 / 50) = 1 / 50"
  by (rule drnd_exactI [of _ 2 2]; simp)+

lemma ex_size_scalars:
  "size_scalars fsqrt ex_quote ex_portfolio [ex_sizing_bar] (Some ex_calm) default_sizing = Inr
     \<lparr>z_atr = 1 / 50, z_eff_atr = 1 / 50, z_adv = 100, z_dd_pct = 0, z_base = 10000, z_vol = 1,
      z_liq = 2, z_dd = 1, z_reg = 1, z_raw = 20000\<rparr>"
proof -
  have atr: "compute_atr_actual fsqrt [ex_sizing_bar] default_sizing = 1 / 50"
    by (simp add: compute_atr_actual_def default_sizing_def compute_atr_simple_def slice_last_def
        ex_sizing_bar_def dsum_def dadd_def dsub_def ddiv_def ex_arith)
  have p: "reference_price ex_quote [ex_sizing_bar] = 100"
    by (simp add: reference_price_def ex_quote_def ex_sizing_bar_def)
  have "dmul (ddiv (dmul 1000000 (1 / 100)) 100) (5 / 100) = 5"
    by (simp add: dmul_def ddiv_def)
  then have l: "liquidity_scalar 100 1000000 100 default_sizing = 2"
    by (intro liquidity_doubles) simp_all
  have v: "dsum (map sb_volume (slice_last (atr_lookback default_sizing) [ex_sizing_bar])) = 100"
    by (simp add: default_sizing_def slice_last_def ex_sizing_bar_def dsum_def dadd_def)
  have d: "sp_drawdown_pct ex_portfolio = 0"
    by (simp add: sp_drawdown_pct_def ex_portfolio_def dsub_def ddiv_def)
  show ?thesis
    unfolding size_scalars_def Let_def atr p v d
    using l by (simp add: py_div_def default_sizing_def ex_portfolio_def ex_quote_def ex_calm_def
        drawdown_reduction_curve_def regime_scalar_def cap_against_cash_def dmul_def ddiv_def)
qed

lemma ex_decision:
  "\<exists>s. sizing_decision fsqrt ex_quote ex_portfolio [ex_sizing_bar] (Some ex_calm) default_sizing = Inr s \<and>
     os_quantity s = 200 \<and> os_price s = 100 \<and> \<not> os_skip s"
proof -
  have p: "reference_price ex_quote [ex_sizing_bar] = 100"
    by (simp add: reference_price_def ex_quote_def ex_sizing_bar_def)
  have t: "q_ticker_upper ex_quote = ''SBER''"
    by (simp add: q_ticker_upper_def ex_quote_def norm_ticker_def py_upper_def upper_char_def
        py_strip_def is_space_def)
  have c: "sp_cash ex_portfolio = 1000000" by (simp add: ex_portfolio_def)
  show ?thesis
    unfolding sizing_decision_def sized_order_def ex_size_scalars p t c
    by (simp add: py_div_def ddiv_def Let_def quantize_lots_def dint_def default_sizing_def
        mk_order_spec_def ex_quote_def)
qed

text \<open>
  The liquidity scalar does not limit participation: with the default configuration an
  order can be twice everything that was traded in the whole window (200 shares against 100),
  where the documented cap is 5 percent of the volume.
\<close>

theorem sized_order_exceeds_traded_volume:
  "\<exists>s. sizing_decision fsqrt ex_quote ex_portfolio [ex_sizing_bar] (Some ex_calm) default_sizing = Inr s \<and>
     os_quantity s = 2 * dsum (map sb_volume [ex_sizing_bar]) \<and> \<not> os_skip s"
  using ex_decision [of fsqrt] by (auto simp: ex_sizing_bar_def dsum_def dadd_def)

theorem sized_notional_capped_witness:
  "\<exists>s. sizing_decision (\<lambda>x. x) ex_quote ex_portfolio [ex_sizing_bar] (Some ex_calm) default_sizing = Inr s \<and>
     os_quantity s * os_price s \<le> (1 + dec_u) ^ 3 * (1 / 10 * 1000000)"
proof -
  obtain s where s: "sizing_decision (\<lambda>x. x) ex_quote ex_portfolio [ex_sizing_bar] (Some ex_calm) default_sizing = Inr s"
    using ex_decision by blast
  show ?thesis
    using s sized_notional_capped [OF s sane_default] by (simp add: ex_portfolio_def default_sizing_def)
qed

text \<open>The same order with confidence zero: below the minimum size.\<close>

lemma ex_zero_decision:
  "\<exists>s. sizing_decision fsqrt (ex_quote\<lparr>q_confidence := 0\<rparr>) ex_portfolio [ex_sizing_bar] (Some ex_calm) default_sizing = Inr s"
proof -
  obtain z where z: "size_scalars fsqrt (ex_quote\<lparr>q_confidence := 0\<rparr>) ex_portfolio [ex_sizing_bar] (Some ex_calm) default_sizing = Inr z"
    using ex_size_scalars [of fsqrt]
    by (auto simp: size_scalars_def Let_def bindR_Inr_iff reference_price_def)
  have "z_raw z = 0"
    using z by (auto simp: size_scalars_def Let_def bindR_Inr_iff cap_against_cash_def dmul_def
        ex_portfolio_def default_sizing_def split: if_splits intro: antisym)
  have p: "reference_price (ex_quote\<lparr>q_confidence := 0\<rparr>) [ex_sizing_bar] = 100"
    by (simp add: reference_price_def ex_quote_def ex_sizing_bar_def)
  have t: "q_ticker_upper (ex_quote\<lparr>q_confidence := 0\<rparr>) = ''SBER''"
    by (simp add: q_ticker_upper_def ex_quote_def norm_ticker_def py_upper_def upper_char_def
        py_strip_def is_space_def)
  have c: "sp_cash ex_portfolio = 1000000" by (simp add: ex_portfolio_def)
  show ?thesis
    unfolding sizing_decision_def sized_order_def z p t c
    by (simp add: py_div_def Let_def \<open>z_raw z = 0\<close> ddiv_def quantize_lots_def default_sizing_def mk_order_spec_def)
qed

theorem sized_quantity_monotone_witness:
  "\<exists>s s'. sizing_decision (\<lambda>x. x) ex_quote ex_portfolio [ex_sizing_bar] (Some ex_calm) default_sizing = Inr s \<and>
     sizing_decision (\<lambda>x. x) (ex_quote\<lparr>q_confidence := 0\<rparr>) ex_portfolio [ex_sizing_bar] (Some ex_calm) default_sizing = Inr s' \<and>
     os_quantity s' \<le> os_quantity s"
proof -
  obtain s s' where s: "sizing_decision (\<lambda>x. x) ex_quote ex_portfolio [ex_sizing_bar] (Some ex_calm) default_sizing = Inr s"
    "sizing_decision (\<lambda>x. x) (ex_quote\<lparr>q_confidence := 0\<rparr>) ex_portfolio [ex_sizing_bar] (Some ex_calm) default_sizing = Inr s'"
    using ex_decision ex_zero_decision by blast
  have "os_quantity s' \<le> os_quantity s"
    by (rule sized_quantity_monotone [OF s sane_default])
      (simp_all add: ex_portfolio_def ex_quote_def ex_calm_def regime_scalar_def)
  with s show ?thesis by blast
qed

theorem sizing_audit_faithful_witness:
  "\<exists>s a. compute_position_size (\<lambda>x. x) ex_quote ex_portfolio [ex_sizing_bar] (Some ex_calm) (Some default_sizing)
       (Some (\<lambda>_. None)) [] = (Inr s, [a]) \<and> ar_final_size a = os_quantity s"
proof -
  obtain s where s: "sizing_decision (\<lambda>x. x) ex_quote ex_portfolio [ex_sizing_bar] (Some ex_calm) default_sizing = Inr s"
    "os_quantity s = 200" using ex_decision by blast
  have "py_floordiv 200 1 = Inr 200" by (simp add: py_floordiv_def dint_def)
  then obtain a where "build_audit ex_quote ex_portfolio [ex_sizing_bar] ex_calm default_sizing s = Inr a"
    by (simp add: build_audit_def s(2) default_sizing_def)
  then have c: "compute_position_size (\<lambda>x. x) ex_quote ex_portfolio [ex_sizing_bar] (Some ex_calm) (Some default_sizing)
       (Some (\<lambda>_. None)) [] = (Inr s, [a])"
    by (simp add: compute_position_size_def run_audit_def s(1) bindW_def)
  from sizing_audit_faithful [OF c] c show ?thesis by (auto simp: default_sizing_def)
qed

section \<open>Crash safety of the audit file\<close>

definition records :: "char list list \<Rightarrow> char list" where
  "records ls = concat (map (\<lambda>l. l @ [nl]) ls)"

lemma records_snoc: "records (ls @ [l]) = records ls @ l @ [nl]"
  by (simp add: records_def)

lemma complete_lines_records:
  assumes "nl \<notin> set part"
  shows "complete_lines (records ls @ part) = records ls"
proof (cases "part = []")
  case True
  have "records ls = [] \<or> last (records ls) = nl"
    by (cases ls rule: rev_cases) (simp_all add: records_snoc, simp add: records_def)
  with True show ?thesis by (auto simp: complete_lines_def)
next
  case False
  then have l: "last (records ls @ part) \<noteq> nl" using assms last_in_set by fastforce
  have "dropWhile (\<lambda>c. c \<noteq> nl) (rev part @ rev (records ls)) = dropWhile (\<lambda>c. c \<noteq> nl) (rev (records ls))"
    using assms by (intro dropWhile_append2) auto
  also have "\<dots> = rev (records ls)"
    by (cases ls rule: rev_cases) (simp_all add: records_snoc, simp add: records_def)
  finally show ?thesis using l False by (simp add: complete_lines_def)
qed

definition audit_inv :: "bool \<Rightarrow> char list \<Rightarrow> audit_file \<Rightarrow> audit_pc \<Rightarrow> audit_file \<Rightarrow> bool" where
  "audit_inv readable line fs pc fs' \<longleftrightarrow>
     (let full = existing_bytes readable (audit_log fs) @ line @ [nl] in
      (case pc of Audit_Start \<Rightarrow> fs' = fs
       | Audit_Tmp c \<Rightarrow> c = full \<and> audit_log fs' = audit_log fs
       | Audit_End \<Rightarrow> audit_log fs' \<in> {audit_log fs, Some full}))"

lemma audit_inv_step:
  "audit_step readable line (pc, fs1) (pc', fs2) \<Longrightarrow> audit_inv readable line fs pc fs1 \<Longrightarrow>
   audit_inv readable line fs pc' fs2"
  by (erule audit_stepE) (auto simp: audit_inv_def Let_def)

lemma audit_reach_inv: "audit_reach readable line fs pc fs' \<Longrightarrow> audit_inv readable line fs pc fs'"
  by (induction rule: audit_reach.induct) (simp add: audit_inv_def, rule audit_inv_step)

lemma audit_reach_log:
  "audit_reach readable line fs pc fs' \<Longrightarrow> audit_log fs' \<in>
     {audit_log fs, Some (existing_bytes readable (audit_log fs) @ line @ [nl])}"
  by (drule audit_reach_inv) (auto simp: audit_inv_def Let_def split: audit_pc.splits)

text \<open>The uninterrupted run writes the temporary file to the end and renames it.\<close>

lemma audit_write_all:
  "audit_reach readable line fs (Audit_Tmp (w @ rest)) fs1 \<Longrightarrow> audit_tmp fs1 = Some w \<Longrightarrow>
   audit_reach readable line fs (Audit_Tmp (w @ rest)) (fs1\<lparr>audit_tmp := Some (w @ rest)\<rparr>)"
proof (induction rest arbitrary: w fs1)
  case (Cons c rest)
  have "audit_reach readable line fs (Audit_Tmp (w @ c # rest)) (fs1\<lparr>audit_tmp := Some (w @ [c])\<rparr>)"
    using Cons.prems by (intro reach_step [OF Cons.prems(1)] write_tmp) auto
  from Cons.IH [of "w @ [c]", simplified, OF this] show ?case by simp
next
  case Nil
  then show ?case by (cases fs1) simp
qed

lemma write_audit_reached: "audit_reach readable line fs Audit_End (write_audit_jsonl readable line fs)"
proof -
  let ?c = "existing_bytes readable (audit_log fs) @ line @ [nl]"
  have "audit_reach readable line fs (Audit_Tmp ?c) (fs\<lparr>audit_tmp := Some []\<rparr>)"
    by (rule reach_step [OF reach_start open_tmp])
  from audit_write_all [of _ _ _ "[]", simplified, OF this]
  have "audit_reach readable line fs (Audit_Tmp ?c) (fs\<lparr>audit_tmp := Some ?c\<rparr>)" by simp
  from reach_step [OF this rename_tmp] show ?thesis by (simp add: write_audit_jsonl_def)
qed

text \<open>
  No audit record is torn or lost by a crash: if the readable log is a list of complete
  records and perhaps a partial line, then after any prefix of any append, failed, killed or
  finished, the log is what it was or the complete records followed by the new one; the
  finished run is one of these and gives the second.
\<close>

theorem audit_append_atomic:
  assumes "audit_log fs = Some (records ls @ part)" "nl \<notin> set part"
  shows "(\<forall>pc fs'. audit_reach True line fs pc fs' \<longrightarrow>
            audit_log fs' = audit_log fs \<or> audit_log fs' = Some (records (ls @ [line]))) \<and>
         audit_reach True line fs Audit_End (write_audit_jsonl True line fs) \<and>
         audit_log (write_audit_jsonl True line fs) = Some (records (ls @ [line]))"
  using audit_reach_log [of True line fs] write_audit_reached [of True line fs] assms
  by (auto simp: existing_bytes_def complete_lines_records records_snoc write_audit_jsonl_def)

theorem audit_append_atomic_witness:
  "audit_log (write_audit_jsonl True ''b'' \<lparr>audit_log = Some (''a'' @ [nl] @ ''x''), audit_tmp = None\<rparr>)
     = Some (''a'' @ [nl] @ ''b'' @ [nl])"
  using audit_append_atomic [of "\<lparr>audit_log = Some (''a'' @ [nl] @ ''x''), audit_tmp = None\<rparr>" "[''a'']" "''x''" "''b''"]
  by (simp add: records_def nl_def)

text \<open>A log that exists and cannot be read is replaced by the single new record.\<close>

lemma unreadable_log_lost:
  "audit_log (write_audit_jsonl False line fs) = Some (records [line])"
  by (cases "audit_log fs") (simp_all add: write_audit_jsonl_def existing_bytes_def records_def)

end
