(* ===== verification/TokenBucket.thy ===== *)
theory TokenBucket
  imports Prelude PyFloat
begin

text \<open>
  \<open>src/data/token_bucket.py\<close>: the rate limiter that the loaders and the broker share. Times
  and tokens are finite doubles with every rounding kept. Each method body runs under one lock,
  so a run of any number of threads is a sequence of locked sections; \<open>acquire\<close> sleeps between
  two of them.
\<close>

section \<open>The bucket\<close>

record bucket =
  tb_rate :: rat
  tb_window :: rat
  tb_capacity :: rat
  tb_tokens :: rat
  tb_last :: rat


definition rate_per_sec :: "bucket \<Rightarrow> rat" where
  "rate_per_sec b = frnd (tb_rate b / tb_window b)"

definition refill :: "rat \<Rightarrow> bucket \<Rightarrow> bucket" where
  "refill now b =
     (let elapsed = frnd (now - tb_last b)
      in if elapsed \<le> 0 then b
         else b\<lparr>tb_tokens := min (tb_capacity b) (frnd (tb_tokens b + frnd (elapsed * rate_per_sec b))),
                tb_last := now\<rparr>)"

definition delay_of :: "bucket \<Rightarrow> rat result" where
  "delay_of b = (if rate_per_sec b = 0 then Inl (OtherError ''ZeroDivisionError'')
     else Inr (frnd (frnd (1 - tb_tokens b) / rate_per_sec b)))"

definition wait_time :: "rat \<Rightarrow> bucket \<Rightarrow> rat result \<times> bucket" where
  "wait_time t b =
     (let b = refill t b in (if 1 \<le> tb_tokens b then Inr 0 else delay_of b, b))"

definition take_token :: "bucket \<Rightarrow> bucket" where
  "take_token b = b\<lparr>tb_tokens := frnd (tb_tokens b - 1)\<rparr>"

definition acquire_nowait :: "rat \<Rightarrow> bucket \<Rightarrow> unit result \<times> bucket" where
  "acquire_nowait t b =
     (let b = refill t b
      in if tb_tokens b < 1 then (Inl (OtherError ''RateLimitError''), b) else (Inr (), take_token b))"

definition tokens_available :: "rat \<Rightarrow> bucket \<Rightarrow> rat \<times> bucket" where
  "tokens_available t b = (let b = refill t b in (tb_tokens b, b))"

text \<open>One iteration of \<open>acquire\<close>: a result, or the delay to sleep before the next one.\<close>

definition acquire_once :: "rat \<Rightarrow> bucket \<Rightarrow> unit result option \<times> bucket" where
  "acquire_once t b =
     (let b = refill t b
      in if 1 \<le> tb_tokens b then (Some (Inr ()), take_token b)
         else (case delay_of b of Inl e \<Rightarrow> (Some (Inl e), b) | Inr d \<Rightarrow> (None, b)))"

text \<open>\<open>acquire\<close>: the \<open>i\<close>-th iteration reads the clock as \<open>clock i\<close>, or uses the fixed \<open>now\<close>
  argument. The loop need not end; the result counts the iterations.\<close>

partial_function (option) acquire_loop ::
  "rat option \<Rightarrow> (nat \<Rightarrow> rat) \<Rightarrow> nat \<Rightarrow> bucket \<Rightarrow> (unit result \<times> bucket \<times> nat) option" where
  "acquire_loop now clock i b =
     (let (r, b') = acquire_once (case now of None \<Rightarrow> clock i | Some t \<Rightarrow> t) b
      in case r of Some x \<Rightarrow> Some (x, b', i) | None \<Rightarrow> acquire_loop now clock (Suc i) b')"

definition acquire_token :: "rat option \<Rightarrow> (nat \<Rightarrow> rat) \<Rightarrow> bucket \<Rightarrow> (unit result \<times> bucket \<times> nat) option" where
  "acquire_token now clock b = acquire_loop now clock 0 b"

section \<open>The invariant\<close>







lemma refill_same [simp]:
  "tb_rate (refill t b) = tb_rate b" "tb_window (refill t b) = tb_window b"
  "tb_capacity (refill t b) = tb_capacity b" "rate_per_sec (refill t b) = rate_per_sec b"
  by (simp_all add: refill_def Let_def rate_per_sec_def)

lemma take_same [simp]:
  "tb_rate (take_token b) = tb_rate b" "tb_window (take_token b) = tb_window b"
  "tb_capacity (take_token b) = tb_capacity b" "rate_per_sec (take_token b) = rate_per_sec b"
  "tb_last (take_token b) = tb_last b"
  by (simp_all add: take_token_def rate_per_sec_def)

text \<open>Every method is a locked section: a refill, and a token taken if one is wanted and there.\<close>

definition locked :: "bool \<Rightarrow> rat \<Rightarrow> bucket \<Rightarrow> bool \<times> bucket" where
  "locked wants t b =
     (let b = refill t b in if wants \<and> 1 \<le> tb_tokens b then (True, take_token b) else (False, b))"

lemma methods_are_locked:
  "snd (acquire_nowait t b) = snd (locked True t b)"
  "fst (acquire_nowait t b) = Inr () \<longleftrightarrow> fst (locked True t b)"
  "snd (acquire_once t b) = snd (locked True t b)"
  "fst (acquire_once t b) = Some (Inr ()) \<longleftrightarrow> fst (locked True t b)"
  "snd (wait_time t b) = snd (locked False t b)"
  "snd (tokens_available t b) = snd (locked False t b)"
  by (auto simp: acquire_nowait_def acquire_once_def wait_time_def tokens_available_def locked_def
      Let_def delay_of_def)




section \<open>The rate\<close>











definition ex_bucket :: bucket where
  "ex_bucket = \<lparr>tb_rate = 2, tb_window = 1, tb_capacity = 2, tb_tokens = 2, tb_last = 0\<rparr>"


section \<open>Waiting for a token\<close>


lemma acquire_once_waits:
  "tb_tokens (refill t b) < 1 \<Longrightarrow> rate_per_sec b \<noteq> 0 \<Longrightarrow> acquire_once t b = (None, refill t b)"
  by (simp add: acquire_once_def Let_def delay_of_def)




definition ex_drained :: bucket where "ex_drained = ex_bucket\<lparr>tb_tokens := 0\<rparr>"


text \<open>With the \<open>now\<close> argument the clock does not advance between two iterations: on an empty
  bucket the call never returns (the documented test hook spins for ever).\<close>

lemma acquire_fixed_now_spins:
  "acquire_loop now clock i b = Some r \<Longrightarrow>
   now = Some t \<Longrightarrow> rate_per_sec b \<noteq> 0 \<Longrightarrow> 1 \<le> tb_tokens (refill t b)"
proof (induction now clock i b r rule: acquire_loop.raw_induct [rotated 1, consumes 1])
  case (1 f now clock i b r)
  have idem: "refill t (refill t b) = refill t b"
    by (auto simp: refill_def Let_def)
  show ?case
  proof (rule ccontr)
    assume a: "\<not> 1 \<le> tb_tokens (refill t b)"
    then have "f now clock (Suc i) (refill t b) = Some r"
      using 1(2-4) by (simp add: acquire_once_waits)
    from 1(1) [OF this] a 1(3,4) show False by (simp add: idem)
  qed
qed

text \<open>
  \<open>acquire(now=t)\<close> does not return on a bucket that holds no whole token at time \<open>t\<close>: the
  loop re-reads the same \<open>t\<close>, so no refill can ever happen.
\<close>

theorem acquire_with_fixed_time_spins:
  assumes "tb_tokens (refill t b) < 1" "rate_per_sec b \<noteq> 0"
  shows "acquire_token (Some t) clock b = None"
proof (cases "acquire_token (Some t) clock b")
  case (Some r)
  from acquire_fixed_now_spins [OF Some [unfolded acquire_token_def] refl] assms show ?thesis by simp
qed

theorem acquire_with_fixed_time_spins_witness:
  "acquire_token (Some 0) clock ex_drained = None"
  by (rule acquire_with_fixed_time_spins)
    (simp_all add: ex_drained_def ex_bucket_def refill_def rate_per_sec_def)

end
