(* ===== verification/FallbackLoader.thy ===== *)
theory FallbackLoader
  imports Prelude
begin

text \<open>
  \<open>src/data/fallback_loader.py\<close>: the chain of data sources behind one loader. A source is code the
  loader is given: its methods are state-passing functions of the outside world that return rows
  or raise, in any way they like. Dates are ordinals.
\<close>

section \<open>State\<close>

record source_stat =
  st_ok :: nat
  st_fallback :: nat
  st_error :: nat

type_synonym ('r, 'w) fetch = "string \<Rightarrow> int \<Rightarrow> int \<Rightarrow> 'w \<Rightarrow> 'r list result \<times> 'w"

text \<open>A source may be missing (\<open>None\<close>), and may have no corporate actions.\<close>

record ('r, 'a, 'm, 'w) data_source =
  src_ohlcv :: "('r, 'w) fetch"
  src_actions :: "('a, 'w) fetch option"
  src_tickers :: "'w \<Rightarrow> 'm list result \<times> 'w"

record ('r, 'a, 'm, 'w) chain =
  tinkoff_grpc :: "('r, 'a, 'm, 'w) data_source option"
  moex_iss :: "('r, 'a, 'm, 'w) data_source option"
  chain_order :: "string list"

definition tinkoff_name :: string where "tinkoff_name = ''tinkoff_grpc''"
definition moex_name :: string where "moex_name = ''moex_iss''"

definition FALLBACK_ORDER :: "string list" where
  "FALLBACK_ORDER = [tinkoff_name, moex_name]"

text \<open>The mutable state of the loader, and the world outside.\<close>

record 'w loader =
  stats :: "string \<Rightarrow> source_stat"
  skip :: "string \<Rightarrow> string set"
  world :: 'w

definition fresh_loader :: "'w \<Rightarrow> 'w loader" where
  "fresh_loader w = \<lparr>stats = (\<lambda>_. \<lparr>st_ok = 0, st_fallback = 0, st_error = 0\<rparr>), skip = (\<lambda>_. {}), world = w\<rparr>"

definition resolve :: "('r, 'a, 'm, 'w) chain \<Rightarrow> string \<Rightarrow> ('r, 'a, 'm, 'w) data_source option" where
  "resolve c name = (if name = tinkoff_name then tinkoff_grpc c
     else if name = moex_name then moex_iss c else None)"

definition MOEX_MAX_LOOKBACK :: nat where "MOEX_MAX_LOOKBACK = 5 * 365"

definition source_max_lookback :: "string \<Rightarrow> nat option" where
  "source_max_lookback name = (if name = moex_name then Some MOEX_MAX_LOOKBACK else None)"

definition count_ok :: "string \<Rightarrow> 'w loader \<Rightarrow> 'w loader" where
  "count_ok n l = l\<lparr>stats := (stats l)(n := (stats l n)\<lparr>st_ok := st_ok (stats l n) + 1\<rparr>)\<rparr>"

definition count_fallback :: "string \<Rightarrow> 'w loader \<Rightarrow> 'w loader" where
  "count_fallback n l = l\<lparr>stats := (stats l)(n := (stats l n)\<lparr>st_fallback := st_fallback (stats l n) + 1\<rparr>)\<rparr>"

definition count_error :: "string \<Rightarrow> 'w loader \<Rightarrow> 'w loader" where
  "count_error n l = l\<lparr>stats := (stats l)(n := (stats l n)\<lparr>st_error := st_error (stats l n) + 1\<rparr>)\<rparr>"

definition mark_skip :: "string \<Rightarrow> string \<Rightarrow> 'w loader \<Rightarrow> 'w loader" where
  "mark_skip ticker n l = l\<lparr>skip := (skip l)(ticker := insert n (skip l ticker))\<rparr>"

lemmas counters = count_ok_def count_fallback_def count_error_def mark_skip_def

section \<open>Windows\<close>

text \<open>The sub-windows a capped source is asked for; the loop advances past the end of each.\<close>

function chunks :: "int \<Rightarrow> int \<Rightarrow> nat \<Rightarrow> (int \<times> int) list" where
  "chunks start end width =
     (if start \<le> end
      then let chunk_end = min (start + int width) end
           in (start, chunk_end) # chunks (chunk_end + 1) end width
      else [])"
  by auto
termination by (relation "measure (\<lambda>(s, e, n). nat (e - s + 1))") auto

declare chunks.simps [simp del]

fun fetch_all :: "('r, 'w) fetch \<Rightarrow> string \<Rightarrow> (int \<times> int) list \<Rightarrow> 'w \<Rightarrow> 'r list result \<times> 'w" where
  "fetch_all f t [] = liftW (Inr [])"
| "fetch_all f t ((s, e) # cs) =
     bindW (f t s e) (\<lambda>rows. bindW (fetch_all f t cs) (\<lambda>more. liftW (Inr (rows @ more))))"

definition windows :: "int \<Rightarrow> int \<Rightarrow> nat option \<Rightarrow> (int \<times> int) list" where
  "windows start end cap =
     (case cap of None \<Rightarrow> [(start, end)]
      | Some d \<Rightarrow> if end - start \<le> int d then [(start, end)] else chunks start end d)"

definition iter_source ::
  "('r, 'w) fetch \<Rightarrow> string \<Rightarrow> int \<Rightarrow> int \<Rightarrow> nat option \<Rightarrow> 'w \<Rightarrow> 'r list result \<times> 'w" where
  "iter_source f ticker start end cap = fetch_all f ticker (windows start end cap)"

text \<open>A call on the outside world, made by the loader.\<close>

definition on_world :: "('w \<Rightarrow> 'x result \<times> 'w) \<Rightarrow> 'w loader \<Rightarrow> 'x result \<times> 'w loader" where
  "on_world m l = (case m (world l) of (r, w) \<Rightarrow> (r, l\<lparr>world := w\<rparr>))"

section \<open>The chain\<close>

fun ohlcv_from ::
  "('r, 'a, 'm, 'w) chain \<Rightarrow> string \<Rightarrow> int \<Rightarrow> int \<Rightarrow> string list \<Rightarrow> 'w loader \<Rightarrow> 'r list \<times> 'w loader" where
  "ohlcv_from c ticker start end [] l = ([], l)"
| "ohlcv_from c ticker start end (n # ns) l =
     (case resolve c n of None \<Rightarrow> ohlcv_from c ticker start end ns l
      | Some s \<Rightarrow>
          if n \<in> skip l ticker then ohlcv_from c ticker start end ns l
          else (case on_world (iter_source (src_ohlcv s) ticker start end (source_max_lookback n)) l of
             (Inl e, l) \<Rightarrow> ohlcv_from c ticker start end ns (mark_skip ticker n (count_fallback n (count_error n l)))
           | (Inr rows, l) \<Rightarrow>
               if rows \<noteq> [] then (rows, count_ok n l)
               else ohlcv_from c ticker start end ns (mark_skip ticker n (count_fallback n l))))"

definition iter_ohlcv ::
  "('r, 'a, 'm, 'w) chain \<Rightarrow> string \<Rightarrow> int \<Rightarrow> int \<Rightarrow> 'w loader \<Rightarrow> 'r list \<times> 'w loader" where
  "iter_ohlcv c ticker start end l = ohlcv_from c ticker start end (chain_order c) l"

fun actions_from ::
  "('r, 'a, 'm, 'w) chain \<Rightarrow> string \<Rightarrow> int \<Rightarrow> int \<Rightarrow> string list \<Rightarrow> 'w loader \<Rightarrow> 'a list \<times> 'w loader" where
  "actions_from c ticker start end [] l = ([], l)"
| "actions_from c ticker start end (n # ns) l =
     (case Option.bind (resolve c n) src_actions of None \<Rightarrow> actions_from c ticker start end ns l
      | Some f \<Rightarrow>
          (case on_world (iter_source f ticker start end (source_max_lookback n)) l of
             (Inl e, l) \<Rightarrow> actions_from c ticker start end ns (count_fallback n (count_error n l))
           | (Inr rows, l) \<Rightarrow>
               if rows \<noteq> [] then (rows, count_ok n l)
               else actions_from c ticker start end ns (count_fallback n l)))"

definition iter_corporate_actions ::
  "('r, 'a, 'm, 'w) chain \<Rightarrow> string \<Rightarrow> int \<Rightarrow> int \<Rightarrow> 'w loader \<Rightarrow> 'a list \<times> 'w loader" where
  "iter_corporate_actions c ticker start end l = actions_from c ticker start end (chain_order c) l"

text \<open>\<open>list_tickers\<close> names its two sources; a missing one is an \<open>AttributeError\<close>, caught like
  any other exception.\<close>

definition tickers_of :: "('r, 'a, 'm, 'w) data_source option \<Rightarrow> 'w \<Rightarrow> 'm list result \<times> 'w" where
  "tickers_of s = (case s of None \<Rightarrow> raiseW AttributeError | Some s \<Rightarrow> src_tickers s)"

definition try_tickers ::
  "('r, 'a, 'm, 'w) data_source option \<Rightarrow> string \<Rightarrow> 'w loader \<Rightarrow> 'm list \<times> 'w loader" where
  "try_tickers s n l =
     (case on_world (tickers_of s) l of
        (Inr metas, l) \<Rightarrow> if metas \<noteq> [] then (metas, count_ok n l) else ([], count_fallback n l)
      | (Inl e, l) \<Rightarrow> ([], count_error n l))"

definition list_tickers :: "('r, 'a, 'm, 'w) chain \<Rightarrow> 'w loader \<Rightarrow> 'm list \<times> 'w loader" where
  "list_tickers c l =
     (let (metas, l) = try_tickers (tinkoff_grpc c) tinkoff_name l
      in if metas \<noteq> [] then (metas, l) else try_tickers (moex_iss c) moex_name l)"

section \<open>The sub-windows cover the window\<close>

lemma chunks_step:
  "start \<le> end \<Longrightarrow> chunks start end width =
     (start, min (start + int width) end) # chunks (min (start + int width) end + 1) end width"
  by (subst chunks.simps) (simp add: Let_def)

lemma chunks_end: "end < start \<Longrightarrow> chunks start end width = []"
  by (subst chunks.simps) simp

lemma chunks_cover: "concat (map (\<lambda>(s, e). [s..e]) (chunks start end width)) = [start..end]"
proof (induction start "end" width rule: chunks.induct)
  case (1 start "end" width)
  show ?case
  proof (cases "start \<le> end")
    case True
    have "[start..end] = [start..min (start + int width) end] @ [min (start + int width) end + 1..end]"
      by (rule upto_split2) (use True in auto)
    then show ?thesis using 1 [OF True refl] by (simp add: chunks_step [OF True])
  qed (simp add: chunks_end)
qed

lemma chunks_short: "x \<in> set (chunks start end width) \<Longrightarrow> fst x \<le> snd x \<and> snd x - fst x \<le> int width"
proof (induction start "end" width rule: chunks.induct)
  case (1 start "end" width)
  have le: "start \<le> end" using 1(2) chunks_end [of "end" start width] by force
  consider "x = (start, min (start + int width) end)" | "x \<in> set (chunks (min (start + int width) end + 1) end width)"
    using 1(2) unfolding chunks_step [OF le] by auto
  then show ?case using 1(1) [OF le refl] le by cases auto
qed

text \<open>
  C21. Chunking is exact: the windows a source is asked for, put one after the other, are the
  requested days, each once and in order, and no window of a capped source is longer than
  its cap, so \<open>MOEXDataLoader\<close> never rejects one for its length.
\<close>

theorem windows_cover_exactly:
  assumes "start \<le> end"
  shows "concat (map (\<lambda>(s, e). [s..e]) (windows start end cap)) = [start..end] \<and>
    (\<forall>(s, e) \<in> set (windows start end cap). s \<le> e \<and> (\<forall>d. cap = Some d \<longrightarrow> e - s \<le> int d))"
  using assms by (auto simp: windows_def chunks_cover dest: chunks_short split: option.splits)

theorem windows_cover_exactly_witness:
  "concat (map (\<lambda>(s, e). [s..e]) (windows 1 10 (Some 3))) = [1..10]"
  using windows_cover_exactly [of 1 10 "Some 3"] by simp

section \<open>What the chain returns\<close>

lemma skip_counters [simp]:
  "skip (count_ok n l) = skip l" "skip (count_fallback n l) = skip l" "skip (count_error n l) = skip l"
  "skip (mark_skip t n l) = (skip l)(t := insert n (skip l t))"
  "skip (l\<lparr>world := w\<rparr>) = skip l" "world (count_ok n l) = world l" "world (count_fallback n l) = world l"
  "world (count_error n l) = world l" "world (mark_skip t n l) = world l"
  by (simp_all add: counters)

lemma on_world_cases:
  assumes "on_world m l = (r, l')"
  obtains w where "m (world l) = (r, w)" "l' = l\<lparr>world := w\<rparr>"
  using assms by (auto simp: on_world_def split: prod.splits)

definition grows :: "string \<Rightarrow> 'w loader \<Rightarrow> 'w loader \<Rightarrow> bool" where
  "grows t l l' \<longleftrightarrow> skip l t \<subseteq> skip l' t \<and> (\<forall>u. u \<noteq> t \<longrightarrow> skip l' u = skip l u)"

lemma grows_refl: "skip l' = skip l \<Longrightarrow> grows t l l'"
  by (simp add: grows_def)

lemma grows_mark: "skip l1 = (skip l)(t := insert n (skip l t)) \<Longrightarrow> grows t l1 l' \<Longrightarrow> grows t l l' \<and> n \<in> skip l' t"
  by (auto simp: grows_def)

lemma ohlcv_from_spec:
  assumes "ohlcv_from c t start end ns l = (rows, l')"
  shows "grows t l l' \<and>
    (rows = [] \<longrightarrow> (\<forall>n \<in> set ns. resolve c n \<noteq> None \<longrightarrow> n \<in> skip l' t)) \<and>
    (rows \<noteq> [] \<longrightarrow> (\<exists>n \<in> set ns. \<exists>s w w'. resolve c n = Some s \<and> n \<notin> skip l' t \<and>
       iter_source (src_ohlcv s) t start end (source_max_lookback n) w = (Inr rows, w')))"
  using assms
proof (induction ns arbitrary: l)
  case Nil
  then show ?case by (simp add: grows_def)
next
  case (Cons n ns)
  show ?case
  proof (cases "resolve c n")
    case None
    then show ?thesis using Cons.IH [of l] Cons.prems by auto
  next
    case (Some s)
    show ?thesis
    proof (cases "n \<in> skip l t")
      case True
      then have "ohlcv_from c t start end ns l = (rows, l')" using Cons.prems Some by simp
      from Cons.IH [OF this] True show ?thesis by (auto simp: grows_def)
    next
      case False
      obtain r l1 where o: "on_world (iter_source (src_ohlcv s) t start end (source_max_lookback n)) l = (r, l1)"
        by fastforce
      obtain w where w: "iter_source (src_ohlcv s) t start end (source_max_lookback n) (world l) = (r, w)"
        "l1 = l\<lparr>world := w\<rparr>" by (rule on_world_cases [OF o])
      show ?thesis
      proof (cases r)
        case (Inl e)
        let ?l = "mark_skip t n (count_fallback n (count_error n l1))"
        have "ohlcv_from c t start end ns ?l = (rows, l')" using Cons.prems Some False o Inl by simp
        from Cons.IH [OF this] grows_mark [of ?l l t n l'] w(2) show ?thesis by auto
      next
        case (Inr rs)
        show ?thesis
        proof (cases "rs = []")
          case True
          let ?l = "mark_skip t n (count_fallback n l1)"
          have "ohlcv_from c t start end ns ?l = (rows, l')" using Cons.prems Some False o Inr True by simp
          from Cons.IH [OF this] grows_mark [of ?l l t n l'] w(2) show ?thesis by auto
        next
          case ne: False
          then have "rows = rs" "l' = count_ok n l1" using Cons.prems Some False o Inr by simp_all
          then show ?thesis using ne Some False w Inr by (auto simp: grows_def)
        qed
      qed
    qed
  qed
qed

text \<open>
  The chain returns one source's complete answer or nothing: rows that come back are the
  whole non-empty answer of a single source for the requested window (never a part of an answer
  that failed half way, never a mix of two sources), and an empty result means that every
  source of the order was asked and failed or had been given up for this ticker. The call
  itself never raises.
\<close>

theorem chain_returns_one_source:
  assumes "iter_ohlcv c t start end l = (rows, l')"
  shows "(rows \<noteq> [] \<longrightarrow> (\<exists>n \<in> set (chain_order c). \<exists>s w w'. resolve c n = Some s \<and> n \<notin> skip l' t \<and>
            iter_source (src_ohlcv s) t start end (source_max_lookback n) w = (Inr rows, w'))) \<and>
         (rows = [] \<longrightarrow> (\<forall>n \<in> set (chain_order c). resolve c n \<noteq> None \<longrightarrow> n \<in> skip l' t)) \<and>
         skip l t \<subseteq> skip l' t \<and> (\<forall>u. u \<noteq> t \<longrightarrow> skip l' u = skip l u)"
  using ohlcv_from_spec [OF assms [unfolded iter_ohlcv_def]] unfolding grows_def by blast

lemma ohlcv_from_given_up:
  "\<forall>n \<in> set ns. resolve c n \<noteq> None \<longrightarrow> n \<in> skip l t \<Longrightarrow> ohlcv_from c t start end ns l = ([], l)"
  by (induction ns) (auto split: option.splits)

text \<open>
  One empty answer is for ever: after a call for a ticker that returned no rows, for
  whatever window and for whatever reason, a weekend or one lost connection included, every later
  call for that ticker, for every other window, returns no rows without asking any source.
\<close>

theorem one_empty_answer_is_final:
  assumes "iter_ohlcv c t start end l = ([], l')"
  shows "iter_ohlcv c t start' end' l' = ([], l')"
  using ohlcv_from_spec [OF assms [unfolded iter_ohlcv_def]] unfolding iter_ohlcv_def
  by (intro ohlcv_from_given_up) blast

text \<open>Two sources that know day 5 only.\<close>

definition ex_source :: "(int, unit, unit, nat) data_source" where
  "ex_source = \<lparr>src_ohlcv = (\<lambda>t s e w. (Inr (if s \<le> 5 \<and> 5 \<le> e then [5] else []), w + 1)),
     src_actions = None, src_tickers = (\<lambda>w. (Inr [], w))\<rparr>"

definition ex_chain :: "(int, unit, unit, nat) chain" where
  "ex_chain = \<lparr>tinkoff_grpc = Some ex_source, moex_iss = Some ex_source, chain_order = FALLBACK_ORDER\<rparr>"

lemma ex_resolve [simp]:
  "resolve ex_chain tinkoff_name = Some ex_source" "resolve ex_chain moex_name = Some ex_source"
  "chain_order ex_chain = [tinkoff_name, moex_name]" "tinkoff_name \<noteq> moex_name" "moex_name \<noteq> tinkoff_name"
  by (simp_all add: resolve_def ex_chain_def FALLBACK_ORDER_def tinkoff_name_def moex_name_def)

lemma ex_short_window:
  "e - s \<le> 5 \<Longrightarrow> iter_source (src_ohlcv ex_source) t s e (source_max_lookback n) w =
     (Inr (if s \<le> 5 \<and> 5 \<le> e then [5] else []), w + 1)"
  by (simp add: iter_source_def windows_def source_max_lookback_def MOEX_MAX_LOOKBACK_def ex_source_def bindW_def)

theorem chain_returns_one_source_witness:
  "\<exists>rows l'. iter_ohlcv ex_chain ''SBER'' 4 6 (fresh_loader 0) = (rows, l') \<and> rows = [5] \<and> tinkoff_name \<notin> skip l' ''SBER''"
proof -
  have i: "iter_ohlcv ex_chain ''SBER'' 4 6 (fresh_loader 0) = ([5], count_ok tinkoff_name ((fresh_loader 0)\<lparr>world := 1\<rparr>))"
    by (simp add: iter_ohlcv_def fresh_loader_def on_world_def ex_short_window)
  from chain_returns_one_source [OF i] i show ?thesis by (auto simp: fresh_loader_def)
qed

theorem one_empty_answer_is_final_witness:
  "\<exists>l'. iter_ohlcv ex_chain ''SBER'' 6 7 (fresh_loader 0) = ([], l') \<and> world l' = 2 \<and>
     iter_ohlcv ex_chain ''SBER'' 4 6 l' = ([], l')"
proof -
  have "\<exists>l'. iter_ohlcv ex_chain ''SBER'' 6 7 (fresh_loader 0) = ([], l') \<and> world l' = 2"
    by (simp add: iter_ohlcv_def fresh_loader_def on_world_def ex_short_window)
  then obtain l' where i: "iter_ohlcv ex_chain ''SBER'' 6 7 (fresh_loader 0) = ([], l')" "world l' = 2" by blast
  with one_empty_answer_is_final [OF i(1), of 4 6] show ?thesis by blast
qed

end
