(* ===== verification/BarStore.thy ===== *)
theory BarStore
  imports DataModels "HOL-Library.AList" "HOL-Library.Product_Lexorder"
begin

text \<open>
  The contract of \<open>src/data/store.py\<close> for OHLCV bars, which the SQLite and the PostgreSQL store
  share: a table keyed by ticker, date and source, an upsert that keeps the first value of a key,
  and a range query ordered by date and source. The contract is a locale; its clients are
  proved once, and each store interprets it.
\<close>

section \<open>Tables\<close>

text \<open>The text order of the tags \<open>'manual' < 'moex' < 'tkf'\<close>.\<close>

definition source_rank :: "source_type \<Rightarrow> nat" where
  "source_rank s = (case s of Manual \<Rightarrow> 0 | Moex \<Rightarrow> 1 | Tkf \<Rightarrow> 2)"

lemma source_rank_inj [simp]: "source_rank a = source_rank b \<longleftrightarrow> a = b"
  by (cases a; cases b) (simp_all add: source_rank_def)

instantiation source_type :: linorder
begin

definition less_eq_source_type :: "source_type \<Rightarrow> source_type \<Rightarrow> bool" where
  "a \<le> b \<longleftrightarrow> source_rank a \<le> source_rank b"

definition less_source_type :: "source_type \<Rightarrow> source_type \<Rightarrow> bool" where
  "a < b \<longleftrightarrow> source_rank a < source_rank b"

instance
  by intro_classes (auto simp: less_eq_source_type_def less_source_type_def)

end

text \<open>A table is an association list from its primary key in insertion order. \<open>SELECT ... WHERE P
  ORDER BY f\<close> sorts the matching rows.\<close>

definition select_by :: "('k \<Rightarrow> 'o :: linorder) \<Rightarrow> ('k \<Rightarrow> 'v \<Rightarrow> bool) \<Rightarrow> ('k \<times> 'v) list \<Rightarrow> ('k \<times> 'v) list" where
  "select_by f P t = sort_key (f \<circ> fst) (filter (\<lambda>(k, v). P k v) t)"

definition keyed :: "('k \<times> 'v) list \<Rightarrow> bool" where
  "keyed t \<longleftrightarrow> distinct (map fst t)"

lemma keyed_set: "keyed t \<Longrightarrow> (k, v) \<in> set t \<longleftrightarrow> map_of t k = Some v"
  by (simp add: keyed_def)

lemma set_select: "keyed t \<Longrightarrow> set (select_by f P t) = {(k, v). map_of t k = Some v \<and> P k v}"
  by (auto simp: select_by_def keyed_set)

lemma distinct_select: "keyed t \<Longrightarrow> distinct (map fst (select_by f P t))"
proof -
  assume k: "keyed t"
  have "distinct (map fst (filter (\<lambda>(k, v). P k v) t))"
    using k by (simp add: keyed_def distinct_map_filter)
  then show ?thesis
    by (simp add: select_by_def distinct_map inj_on_def)
qed

text \<open>Two tables with the same content give the same answer, if the order decides it.\<close>

lemma select_by_cong:
  assumes "keyed t" "keyed t'" "map_of t = map_of t'" "inj_on f {k. \<exists>v. map_of t k = Some v \<and> P k v}"
  shows "select_by f P t = select_by f P t'"
proof (rule map_sorted_distinct_set_unique [where f = "f \<circ> fst"])
  have s: "set (select_by f P t) = set (select_by f P t')" using assms by (simp add: set_select)
  then show "set (select_by f P t) = set (select_by f P t')" .
  have i: "inj_on (f \<circ> fst) (set (select_by f P x))" if "keyed x" "map_of x = map_of t" for x
    using assms(4) that by (simp add: set_select inj_on_def) (metis option.inject)
  from i [OF assms(1) refl] show "inj_on (f \<circ> fst) (set (select_by f P t) \<union> set (select_by f P t'))"
    using s by simp
  have d: "distinct (map (f \<circ> fst) (select_by f P x))" if "keyed x" "map_of x = map_of t" for x
    using distinct_select [OF that(1), of f P] i [OF that] by (auto simp: distinct_map)
  from d show "distinct (map (f \<circ> fst) (select_by f P t))" "distinct (map (f \<circ> fst) (select_by f P t'))"
    using assms by simp_all
qed (simp_all add: select_by_def)

section \<open>Bars\<close>

record stored_bar =
  b_open :: rat
  b_high :: rat
  b_low :: rat
  b_close :: rat
  b_volume :: rat
  b_adj_close :: rat

type_synonym bar_key = "string \<times> int \<times> source_type"

definition row_key :: "ohlcv_row \<Rightarrow> bar_key" where
  "row_key r = (py_upper (r_ticker r), r_ts r, r_source r)"

definition row_bar_of :: "ohlcv_row \<Rightarrow> stored_bar" where
  "row_bar_of r = \<lparr>b_open = r_open r, b_high = r_high r, b_low = r_low r, b_close = r_close r,
     b_volume = r_volume r, b_adj_close = r_adj_close r\<rparr>"

text \<open>\<open>_row_to_ohlcv\<close>: the row is validated again when it is read.\<close>

definition row_of_bar :: "bar_key \<times> stored_bar \<Rightarrow> ohlcv_row result" where
  "row_of_bar = (\<lambda>((t, ts, src), b). mk_row \<lparr>r_ticker = t, r_ts = ts, r_open = b_open b, r_high = b_high b,
     r_low = b_low b, r_close = b_close b, r_volume = b_volume b, r_adj_close = b_adj_close b, r_source = src\<rparr>)"

definition in_window :: "string \<Rightarrow> int \<Rightarrow> int \<Rightarrow> source_type option \<Rightarrow> bar_key \<Rightarrow> bool" where
  "in_window ticker start end src = (\<lambda>(t, ts, s). t = py_upper ticker \<and> start \<le> ts \<and> ts \<le> end \<and>
     (case src of None \<Rightarrow> True | Some x \<Rightarrow> s = x))"

definition select_bars ::
  "string \<Rightarrow> int \<Rightarrow> int \<Rightarrow> source_type option \<Rightarrow> (bar_key \<times> stored_bar) list \<Rightarrow> (bar_key \<times> stored_bar) list" where
  "select_bars ticker start end src t = select_by (\<lambda>(t, ts, s). (ts, s)) (\<lambda>k v. in_window ticker start end src k) t"

lemma select_bars_cong:
  "keyed t \<Longrightarrow> keyed t' \<Longrightarrow> map_of t = map_of t' \<Longrightarrow>
   select_bars ticker start end src t = select_bars ticker start end src t'"
  unfolding select_bars_def by (rule select_by_cong) (auto simp: inj_on_def in_window_def)

lemma set_select_bars:
  "keyed t \<Longrightarrow> set (select_bars ticker start end src t) =
     {(k, b). map_of t k = Some b \<and> in_window ticker start end src k}"
  unfolding select_bars_def by (simp add: set_select)

text \<open>The abstract upsert: the first bar of a key stays, a new key gets the bar as the column types
  store it.\<close>

definition keep_first :: "(stored_bar \<Rightarrow> stored_bar) \<Rightarrow> ohlcv_row \<Rightarrow> (bar_key \<rightharpoonup> stored_bar) \<Rightarrow> (bar_key \<rightharpoonup> stored_bar)" where
  "keep_first c r m = (case m (row_key r) of None \<Rightarrow> m(row_key r \<mapsto> c (row_bar_of r)) | Some b \<Rightarrow> m)"

lemma map_le_Some: "m \<subseteq>\<^sub>m m' \<Longrightarrow> m k = Some b \<Longrightarrow> m' k = Some b"
  by (metis domI map_le_def)

lemma keep_first_mono: "m \<subseteq>\<^sub>m keep_first c r m"
  by (auto simp: keep_first_def map_le_def split: option.splits)

lemma fold_keep_first_mono: "m \<subseteq>\<^sub>m fold (keep_first c) rows m"
proof (induction rows arbitrary: m)
  case (Cons r rows)
  have "m \<subseteq>\<^sub>m keep_first c r m" by (rule keep_first_mono)
  also have "\<dots> \<subseteq>\<^sub>m fold (keep_first c) rows (keep_first c r m)" by (rule Cons)
  finally show ?case by (simp add: map_le_trans)
qed simp

lemma fold_keep_first_covers: "r \<in> set rows \<Longrightarrow> fold (keep_first c) rows m (row_key r) \<noteq> None"
proof (induction rows arbitrary: m)
  case (Cons x rows)
  show ?case
  proof (cases "r = x")
    case True
    obtain b where "keep_first c x m (row_key r) = Some b"
      using True by (cases "m (row_key x)") (auto simp: keep_first_def)
    then have "fold (keep_first c) rows (keep_first c x m) (row_key r) = Some b"
      by (rule map_le_Some [OF fold_keep_first_mono])
    then show ?thesis by simp
  qed (use Cons in auto)
qed simp

lemma fold_keep_first_known:
  "\<forall>r \<in> set rows. m (row_key r) \<noteq> None \<Longrightarrow> fold (keep_first c) rows m = m"
  by (induction rows) (auto simp: keep_first_def)

lemma fold_keep_first_new:
  "fold (keep_first c) rows m k = Some b \<Longrightarrow> m k = None \<Longrightarrow> \<exists>r \<in> set rows. row_key r = k \<and> b = c (row_bar_of r)"
proof (induction rows arbitrary: m)
  case (Cons r rows)
  show ?case
  proof (cases "keep_first c r m k")
    case None
    then show ?thesis using Cons by auto
  next
    case (Some b')
    then have "fold (keep_first c) rows (keep_first c r m) k = Some b'"
      by (rule map_le_Some [OF fold_keep_first_mono])
    then have "b' = b" using Cons.prems(1) by simp
    moreover have "row_key r = k \<and> b' = c (row_bar_of r)"
      using Some Cons.prems(2) by (auto simp: keep_first_def split: option.splits if_splits)
    ultimately show ?thesis by simp
  qed
qed simp

section \<open>The contract\<close>

locale bar_store =
  fixes put :: "ohlcv_row list \<Rightarrow> 's \<Rightarrow> nat result \<times> 's"
    and get :: "string \<Rightarrow> int \<Rightarrow> int \<Rightarrow> source_type option \<Rightarrow> 's \<Rightarrow> ohlcv_row list result"
    and table :: "'s \<Rightarrow> (bar_key \<times> stored_bar) list"
    and ok :: "'s \<Rightarrow> bool"
    and column :: "stored_bar \<Rightarrow> stored_bar"
  assumes keyed: "ok s \<Longrightarrow> keyed (table s)"
    and put_ok: "ok s \<Longrightarrow> put rows s = (r, s') \<Longrightarrow> ok s'"
    and put_all: "ok s \<Longrightarrow> put rows s = (Inr n, s') \<Longrightarrow>
      n = length rows \<and> map_of (table s') = fold (keep_first column) rows (map_of (table s))"
    and put_some: "ok s \<Longrightarrow> put rows s = (Inl e, s') \<Longrightarrow> map_of (table s) \<subseteq>\<^sub>m map_of (table s')"
    and get: "ok s \<Longrightarrow> get ticker start end src s = map_result row_of_bar (select_bars ticker start end src (table s))"
    and column_wf: "wf_row x \<Longrightarrow> \<exists>y. row_of_bar (row_key x, column (row_bar_of x)) = Inr y"
begin

definition bars :: "'s \<Rightarrow> (bar_key \<rightharpoonup> stored_bar)" where
  "bars s = map_of (table s)"

text \<open>No write changes or loses a stored bar, successful or not.\<close>

lemma put_keeps: "ok s \<Longrightarrow> put rows s = (r, s') \<Longrightarrow> bars s \<subseteq>\<^sub>m bars s'"
  using put_all [of s rows] put_some [of s rows] fold_keep_first_mono [of "bars s" column rows]
  by (cases r) (auto simp: bars_def)

text \<open>A run of writes; errors are the caller's, who goes on.\<close>

fun put_run :: "ohlcv_row list list \<Rightarrow> 's \<Rightarrow> 's" where
  "put_run [] s = s"
| "put_run (rows # ws) s = put_run ws (snd (put rows s))"

lemma put_run_ok: "ok s \<Longrightarrow> ok (put_run ws s)"
  by (induction ws arbitrary: s) (auto intro: put_ok prod.collapse [symmetric])

lemma put_run_keeps: "ok s \<Longrightarrow> bars s \<subseteq>\<^sub>m bars (put_run ws s)"
proof (induction ws arbitrary: s)
  case (Cons rows ws)
  obtain r s' where p: "put rows s = (r, s')" by fastforce
  have "bars s \<subseteq>\<^sub>m bars s'" by (rule put_keeps [OF Cons.prems p])
  also have "\<dots> \<subseteq>\<^sub>m bars (put_run ws s')" by (rule Cons.IH [OF put_ok [OF Cons.prems p]])
  finally show ?case by (simp add: p map_le_trans)
qed simp

lemma get_mem:
  assumes "ok s" "get ticker start end src s = Inr rows" "bars s k = Some b" "in_window ticker start end src k"
  shows "\<exists>r \<in> set rows. row_of_bar (k, b) = Inr r"
  using assms keyed [OF assms(1)]
  by (intro map_result_mem [of _ "select_bars ticker start end src (table s)"])
    (auto simp: get set_select_bars bars_def)

text \<open>Survivorship: what a query has returned, every later query with the same window returns again.\<close>

lemma query_stable:
  assumes "ok s" "get ticker start end src s = Inr rows" "r \<in> set rows"
    and "get ticker start end src (put_run ws s) = Inr rows'"
  shows "r \<in> set rows'"
proof -
  have "map_result row_of_bar (select_bars ticker start end src (table s)) = Inr rows"
    using assms(2) get [OF assms(1)] by simp
  from map_result_Inr [OF this] assms(3) obtain k b where
    kb: "(k, b) \<in> set (select_bars ticker start end src (table s))" "row_of_bar (k, b) = Inr r"
    by (auto simp: list_all2_conv_all_nth in_set_conv_nth) (metis surj_pair)
  then have "bars s k = Some b" "in_window ticker start end src k"
    using keyed [OF assms(1)] by (auto simp: set_select_bars bars_def)
  moreover have "bars (put_run ws s) k = Some b"
    by (rule map_le_Some [OF put_run_keeps [OF assms(1)] \<open>bars s k = Some b\<close>])
  ultimately obtain r' where "r' \<in> set rows'" "row_of_bar (k, b) = Inr r'"
    using get_mem [OF put_run_ok [OF assms(1)] assms(4)] by blast
  with kb(2) show ?thesis by simp
qed

text \<open>Writing again what is stored changes nothing: the upsert is idempotent.\<close>

lemma put_idempotent:
  assumes "ok s" "put rows s = (Inr n, s1)" "put rows s1 = (Inr m, s2)"
  shows "bars s2 = bars s1"
proof -
  have 1: "bars s1 = fold (keep_first column) rows (bars s)" using put_all [OF assms(1,2)] by (simp add: bars_def)
  have "bars s2 = fold (keep_first column) rows (bars s1)"
    using put_all [OF put_ok [OF assms(1,2)] assms(3)] by (simp add: bars_def)
  also have "\<dots> = bars s1"
    by (rule fold_keep_first_known) (simp add: 1 fold_keep_first_covers)
  finally show ?thesis .
qed

text \<open>Every stored bar can be read back; writing valid rows keeps it so, whatever else fails.\<close>

definition readable :: "'s \<Rightarrow> bool" where
  "readable s \<longleftrightarrow> (\<forall>k b. bars s k = Some b \<longrightarrow> (\<exists>r. row_of_bar (k, b) = Inr r))"

lemma put_readable:
  assumes "ok s" "readable s" "\<forall>r \<in> set rows. wf_row r" "put rows s = (Inr n, s')"
  shows "readable s'"
  unfolding readable_def
proof (intro allI impI)
  fix k b assume b: "bars s' k = Some b"
  have f: "fold (keep_first column) rows (bars s) k = Some b"
    using b put_all [OF assms(1,4)] by (simp add: bars_def)
  show "\<exists>r. row_of_bar (k, b) = Inr r"
  proof (cases "bars s k")
    case None
    from fold_keep_first_new [OF f None] show ?thesis using assms(3) column_wf by auto
  next
    case (Some b')
    have "fold (keep_first column) rows (bars s) k = Some b'"
      using fold_keep_first_mono Some by (rule map_le_Some)
    then have "b' = b" using f by simp
    then show ?thesis using Some assms(2) unfolding readable_def by blast
  qed
qed

lemma get_total:
  assumes "ok s" "readable s"
  shows "\<exists>rows. get ticker start end src s = Inr rows"
proof -
  have "\<exists>ys. map_result row_of_bar xs = Inr ys" if "\<forall>x \<in> set xs. \<exists>y. row_of_bar x = Inr y" for xs
    using that by (induction xs) auto
  then show ?thesis
    using assms(2) set_select_bars [OF keyed [OF assms(1)]] by (auto simp: get [OF assms(1)] readable_def bars_def)
qed

text \<open>What was written can be read: a valid row under a new key comes back as the columns store it.\<close>

lemma put_get:
  assumes "ok s" "readable s" "\<forall>r \<in> set rows. wf_row r" "put rows s = (Inr n, s')"
    and "r \<in> set rows" "bars s (row_key r) = None" "\<forall>x \<in> set rows. row_key x = row_key r \<longrightarrow> x = r"
    and "in_window ticker start end src (row_key r)"
  shows "\<exists>out. get ticker start end src s' = Inr out \<and>
     (\<exists>r' \<in> set out. row_of_bar (row_key r, column (row_bar_of r)) = Inr r')"
proof -
  obtain out where out: "get ticker start end src s' = Inr out"
    using get_total [OF put_ok [OF assms(1,4)] put_readable [OF assms(1-4)]] by blast
  obtain b where b: "bars s' (row_key r) = Some b"
    using fold_keep_first_covers [OF assms(5)] put_all [OF assms(1,4)] by (auto simp: bars_def)
  then have "\<exists>x \<in> set rows. row_key x = row_key r \<and> b = column (row_bar_of x)"
    using put_all [OF assms(1,4)] assms(6)
    by (intro fold_keep_first_new [of column rows "bars s"]) (simp_all add: bars_def)
  then have "b = column (row_bar_of r)" using assms(7) by auto
  with get_mem [OF put_ok [OF assms(1,4)] out b assms(8)] out show ?thesis by auto
qed

end

end
