(* ===== verification/SqliteStore.thy ===== *)
theory SqliteStore
  imports BarStore "HOL-Library.List_Lexorder" "HOL-Library.Char_ord"
begin

text \<open>
  \<open>src/data/sqlite_store.py\<close>: the in-memory store. A statement of \<open>executemany\<close> that fails stops
  the batch; \<open>sqlite3\<close> does not roll the batch back and the code does not either, so the rows
  before it stay visible on the connection. The \<open>updated_at\<close> columns, which no method
  reads, are not modelled; the database itself is taken to work (no I/O error).
\<close>

definition store_error :: py_exc where "store_error = OtherError ''StoreError''"

record universe_row =
  u_figi :: "string option"
  u_name :: string
  u_lot :: int
  u_isin :: "string option"
  u_currency :: string
  u_delisted :: bool
  u_delisted_at :: "int option"
  u_listed_at :: "int option"
  u_source :: source_type

record sqlite_db =
  s_universe :: "(string \<times> universe_row) list"
  s_ohlcv :: "(bar_key \<times> stored_bar) list"
  s_adj :: "((string \<times> int) \<times> stored_bar) list"
  s_actions :: "((string \<times> int \<times> action_kind \<times> source_type) \<times> rat) list"
  s_delisting_log :: "(string \<times> int \<times> string) list"

definition sqlite_empty :: sqlite_db where
  "sqlite_empty = \<lparr>s_universe = [], s_ohlcv = [], s_adj = [], s_actions = [], s_delisting_log = []\<rparr>"

text \<open>\<open>executemany\<close>: the statement row by row up to the first error.\<close>

fun execute_many :: "('r \<Rightarrow> 'd \<Rightarrow> 'd option) \<Rightarrow> 'r list \<Rightarrow> 'd \<Rightarrow> bool \<times> 'd" where
  "execute_many f [] d = (True, d)"
| "execute_many f (r # rs) d = (case f r d of None \<Rightarrow> (False, d) | Some d' \<Rightarrow> execute_many f rs d')"

text \<open>The guard and the error mapping that every batch method has.\<close>

definition batch :: "('r \<Rightarrow> 'd \<Rightarrow> 'd option) \<Rightarrow> 'r list \<Rightarrow> 'd \<Rightarrow> nat result \<times> 'd" where
  "batch f rows d =
     (if rows = [] then (Inr 0, d)
      else (case execute_many f rows d of (True, d') \<Rightarrow> (Inr (length rows), d')
            | (False, d') \<Rightarrow> (Inl store_error, d')))"

section \<open>Tickers\<close>

definition universe_row_of :: "ticker_meta \<Rightarrow> universe_row" where
  "universe_row_of m = \<lparr>u_figi = tm_figi m, u_name = tm_name m, u_lot = tm_lot m, u_isin = tm_isin m,
     u_currency = tm_currency m, u_delisted = tm_delisted m, u_delisted_at = tm_delisted_at m,
     u_listed_at = tm_listed_at m, u_source = tm_source m\<rparr>"

definition insert_ticker :: "ticker_meta \<Rightarrow> sqlite_db \<Rightarrow> sqlite_db option" where
  "insert_ticker m d =
     (if tm_lot m \<le> 0 then None
      else Some (d\<lparr>s_universe := AList.update (py_upper (tm_ticker m)) (universe_row_of m) (s_universe d)\<rparr>))"

definition sqlite_upsert_tickers :: "ticker_meta list \<Rightarrow> sqlite_db \<Rightarrow> unit result \<times> sqlite_db" where
  "sqlite_upsert_tickers metas d = (case batch insert_ticker metas d of (r, d) \<Rightarrow> (map_sum id (\<lambda>_. ()) r, d))"

definition sqlite_upsert_ticker :: "ticker_meta \<Rightarrow> sqlite_db \<Rightarrow> unit result \<times> sqlite_db" where
  "sqlite_upsert_ticker m = sqlite_upsert_tickers [m]"

text \<open>\<open>_row_to_ticker\<close>; the table has no class code.\<close>

definition ticker_of_row :: "string \<times> universe_row \<Rightarrow> ticker_meta result" where
  "ticker_of_row = (\<lambda>(t, u). mk_ticker_meta \<lparr>tm_ticker = t, tm_figi = u_figi u, tm_name = u_name u,
     tm_lot = u_lot u, tm_isin = u_isin u, tm_currency = (if u_currency u = [] then ''RUB'' else u_currency u),
     tm_class_code = None, tm_delisted = u_delisted u, tm_delisted_at = u_delisted_at u,
     tm_listed_at = u_listed_at u, tm_source = u_source u\<rparr>)"

definition sqlite_list_tickers :: "bool \<Rightarrow> sqlite_db \<Rightarrow> ticker_meta list result" where
  "sqlite_list_tickers include_delisted d =
     map_result ticker_of_row (select_by id (\<lambda>_ u. include_delisted \<or> \<not> u_delisted u) (s_universe d))"

definition sqlite_mark_delisted :: "string \<Rightarrow> int \<Rightarrow> string \<Rightarrow> sqlite_db \<Rightarrow> sqlite_db" where
  "sqlite_mark_delisted ticker day why d =
     d\<lparr>s_universe := AList.map_entry (py_upper ticker) (\<lambda>u. u\<lparr>u_delisted := True, u_delisted_at := Some day\<rparr>) (s_universe d),
       s_delisting_log := s_delisting_log d @ [(py_upper ticker, day, why)]\<rparr>"

section \<open>Bars\<close>

definition sqlite_known :: "string \<Rightarrow> sqlite_db \<Rightarrow> bool" where
  "sqlite_known t d \<longleftrightarrow> map_of (s_universe d) t \<noteq> None"

text \<open>An existing key only gets a new \<open>updated_at\<close>; a new one needs its ticker in the universe.\<close>

definition insert_bar :: "ohlcv_row \<Rightarrow> sqlite_db \<Rightarrow> sqlite_db option" where
  "insert_bar r d =
     (if map_of (s_ohlcv d) (row_key r) = None \<and> \<not> sqlite_known (py_upper (r_ticker r)) d then None
      else Some (d\<lparr>s_ohlcv := AList.map_default (row_key r) (row_bar_of r) id (s_ohlcv d)\<rparr>))"

definition sqlite_upsert_ohlcv :: "ohlcv_row list \<Rightarrow> sqlite_db \<Rightarrow> nat result \<times> sqlite_db" where
  "sqlite_upsert_ohlcv = batch insert_bar"

definition sqlite_query_ohlcv ::
  "string \<Rightarrow> int \<Rightarrow> int \<Rightarrow> source_type option \<Rightarrow> sqlite_db \<Rightarrow> ohlcv_row list result" where
  "sqlite_query_ohlcv ticker start end src d = map_result row_of_bar (select_bars ticker start end src (s_ohlcv d))"

definition adj_key :: "ohlcv_row \<Rightarrow> string \<times> int" where
  "adj_key r = (py_upper (r_ticker r), r_ts r)"

definition insert_adj :: "ohlcv_row \<Rightarrow> sqlite_db \<Rightarrow> sqlite_db option" where
  "insert_adj r d =
     (if map_of (s_adj d) (adj_key r) = None \<and> \<not> sqlite_known (py_upper (r_ticker r)) d then None
      else Some (d\<lparr>s_adj := AList.update (adj_key r) (row_bar_of r) (s_adj d)\<rparr>))"

definition sqlite_upsert_ohlcv_adj :: "ohlcv_row list \<Rightarrow> sqlite_db \<Rightarrow> nat result \<times> sqlite_db" where
  "sqlite_upsert_ohlcv_adj = batch insert_adj"

text \<open>The eight-column rows are read back with the tag \<open>'tkf'\<close>.\<close>

definition sqlite_query_ohlcv_adj :: "string \<Rightarrow> int \<Rightarrow> int \<Rightarrow> sqlite_db \<Rightarrow> ohlcv_row list result" where
  "sqlite_query_ohlcv_adj ticker start end d =
     map_result (\<lambda>((t, ts), b). row_of_bar ((t, ts, Tkf), b))
       (select_by snd (\<lambda>(t, ts) _. t = py_upper ticker \<and> start \<le> ts \<and> ts \<le> end) (s_adj d))"

definition sqlite_count_ohlcv :: "string option \<Rightarrow> sqlite_db \<Rightarrow> nat" where
  "sqlite_count_ohlcv ticker d =
     length (case ticker of None \<Rightarrow> s_ohlcv d
       | Some t \<Rightarrow> if t = [] then s_ohlcv d else filter (\<lambda>((x, _), _). x = py_upper t) (s_ohlcv d))"

definition sqlite_count_ohlcv_adj :: "string option \<Rightarrow> sqlite_db \<Rightarrow> nat" where
  "sqlite_count_ohlcv_adj ticker d =
     length (case ticker of None \<Rightarrow> s_adj d
       | Some t \<Rightarrow> if t = [] then s_adj d else filter (\<lambda>((x, _), _). x = py_upper t) (s_adj d))"

section \<open>Corporate actions\<close>

definition action_key :: "corporate_action \<Rightarrow> string \<times> int \<times> action_kind \<times> source_type" where
  "action_key a = (py_upper (ca_ticker a), ca_ts a, ca_kind a, ca_source a)"

definition insert_action :: "corporate_action \<Rightarrow> sqlite_db \<Rightarrow> sqlite_db option" where
  "insert_action a d = Some (d\<lparr>s_actions := AList.update (action_key a) (ca_value a) (s_actions d)\<rparr>)"

definition sqlite_upsert_actions :: "corporate_action list \<Rightarrow> sqlite_db \<Rightarrow> nat result \<times> sqlite_db" where
  "sqlite_upsert_actions = batch insert_action"

definition action_of_row :: "(string \<times> int \<times> action_kind \<times> source_type) \<times> rat \<Rightarrow> corporate_action result" where
  "action_of_row = (\<lambda>((t, ts, k, s), v).
     mk_action \<lparr>ca_ticker = t, ca_ts = ts, ca_kind = k, ca_value = v, ca_source = s\<rparr>)"

text \<open>\<open>ORDER BY ts\<close> leaves the order of the actions of one day open; the model takes the order of
  insertion, and no theorem depends on it.\<close>

definition sqlite_query_actions :: "string \<Rightarrow> int \<Rightarrow> int \<Rightarrow> sqlite_db \<Rightarrow> corporate_action list result" where
  "sqlite_query_actions ticker start end d =
     map_result action_of_row
       (select_by (\<lambda>(t, ts, k, s). ts) (\<lambda>(t, ts, k, s) _. t = py_upper ticker \<and> start \<le> ts \<and> ts \<le> end) (s_actions d))"

section \<open>The invariant\<close>

definition refers :: "('k \<rightharpoonup> 'v) \<Rightarrow> ('k \<Rightarrow> string) \<Rightarrow> (string \<rightharpoonup> 'u) \<Rightarrow> bool" where
  "refers m f u \<longleftrightarrow> (\<forall>k \<in> dom m. f k \<in> dom u)"

lemma refers_intros:
  "refers m f u \<Longrightarrow> f k \<in> dom u \<Longrightarrow> refers (m(k \<mapsto> v)) f u"
  "refers m f u \<Longrightarrow> refers m f (u(t \<mapsto> x))"
  "refers m f u \<Longrightarrow> dom u' = dom u \<Longrightarrow> refers m f u'"
  by (auto simp: refers_def)

lemma refers_known: "refers m f u \<Longrightarrow> m k = Some v \<Longrightarrow> f k \<in> dom u"
  by (auto simp: refers_def)

definition sqlite_ok :: "sqlite_db \<Rightarrow> bool" where
  "sqlite_ok d \<longleftrightarrow> keyed (s_universe d) \<and> keyed (s_ohlcv d) \<and> keyed (s_adj d) \<and> keyed (s_actions d) \<and>
     (\<forall>u \<in> ran (map_of (s_universe d)). 0 < u_lot u) \<and>
     refers (map_of (s_ohlcv d)) fst (map_of (s_universe d)) \<and>
     refers (map_of (s_adj d)) fst (map_of (s_universe d))"

lemma sqlite_empty_ok: "sqlite_ok sqlite_empty"
  by (simp add: sqlite_ok_def sqlite_empty_def keyed_def refers_def)

lemma known_dom: "sqlite_known t d \<longleftrightarrow> t \<in> dom (map_of (s_universe d))"
  by (auto simp: sqlite_known_def)

lemma keyed_update: "keyed t \<Longrightarrow> keyed (AList.update k v t)"
  by (simp add: keyed_def distinct_update)

lemma keyed_map_default: "keyed t \<Longrightarrow> keyed (AList.map_default k v f t)"
  by (simp add: keyed_def distinct_map_default)

lemma map_default_id: "map_of (AList.map_default k v id t) = (case map_of t k of None \<Rightarrow> (map_of t)(k \<mapsto> v) | Some x \<Rightarrow> map_of t)"
  by (auto simp: map_of_map_default fun_eq_iff split: option.splits)

lemma execute_many_inv:
  assumes "\<And>r d d'. I d \<Longrightarrow> f r d = Some d' \<Longrightarrow> I d'" "I d"
  shows "I (snd (execute_many f rows d))"
  using assms(2) by (induction rows arbitrary: d) (auto intro: assms(1) split: option.splits)

lemma batch_inv:
  assumes "\<And>r d d'. I d \<Longrightarrow> f r d = Some d' \<Longrightarrow> I d'" "I d"
  shows "I (snd (batch f rows d))"
  using execute_many_inv [of I f d rows, OF assms] assms(2)
  by (auto simp: batch_def split: prod.splits bool.splits)

lemma ran_upd: "(\<forall>u \<in> ran m. P u) \<Longrightarrow> P x \<Longrightarrow> \<forall>u \<in> ran (m(k \<mapsto> x)). P u"
  by (auto simp: ran_def)

lemma insert_ticker_ok: "sqlite_ok d \<Longrightarrow> insert_ticker m d = Some d' \<Longrightarrow> sqlite_ok d'"
  using ran_upd [of "map_of (s_universe d)" "\<lambda>u. 0 < u_lot u" "universe_row_of m" "py_upper (tm_ticker m)"]
  by (auto simp: insert_ticker_def sqlite_ok_def keyed_update update_conv' universe_row_of_def
      intro: refers_intros split: if_splits)

lemma insert_bar_ok: "sqlite_ok d \<Longrightarrow> insert_bar r d = Some d' \<Longrightarrow> sqlite_ok d'"
  by (auto simp: insert_bar_def sqlite_ok_def known_dom keyed_map_default map_default_id row_key_def
      intro!: refers_intros(1) split: if_splits option.splits)

lemma insert_adj_ok: "sqlite_ok d \<Longrightarrow> insert_adj r d = Some d' \<Longrightarrow> sqlite_ok d'"
  using refers_known [of "map_of (s_adj d)" fst "map_of (s_universe d)" "adj_key r"]
  by (auto simp: insert_adj_def sqlite_ok_def known_dom keyed_update update_conv' adj_key_def
      intro!: refers_intros(1) split: if_splits)

lemma insert_action_ok: "sqlite_ok d \<Longrightarrow> insert_action a d = Some d' \<Longrightarrow> sqlite_ok d'"
  by (auto simp: insert_action_def sqlite_ok_def keyed_update)

section \<open>The store implements the contract\<close>

lemma insert_bar_bars:
  "insert_bar r d = Some d' \<Longrightarrow> map_of (s_ohlcv d') = keep_first id r (map_of (s_ohlcv d))"
  by (auto simp: insert_bar_def keep_first_def map_of_map_default fun_eq_iff split: if_splits option.splits)

lemma execute_bars:
  "execute_many insert_bar rows d = (b, d') \<Longrightarrow>
   map_of (s_ohlcv d) \<subseteq>\<^sub>m map_of (s_ohlcv d') \<and> (b \<longrightarrow> map_of (s_ohlcv d') = fold (keep_first id) rows (map_of (s_ohlcv d)))"
proof (induction rows arbitrary: d)
  case (Cons r rows)
  show ?case
  proof (cases "insert_bar r d")
    case (Some d1)
    have "map_of (s_ohlcv d) \<subseteq>\<^sub>m map_of (s_ohlcv d1)"
      unfolding insert_bar_bars [OF Some] by (rule keep_first_mono)
    moreover have "execute_many insert_bar rows d1 = (b, d')" using Cons.prems Some by simp
    ultimately show ?thesis
      using Cons.IH [of d1] insert_bar_bars [OF Some] by (auto intro: map_le_trans simp del: id_apply)
  qed (use Cons.prems in auto)
qed simp

lemma row_of_stored: "wf_row r \<Longrightarrow> row_of_bar (row_key r, row_bar_of r) = Inr r"
proof -
  assume w: "wf_row r"
  have "py_upper (r_ticker r) = r_ticker r"
    using w by (auto simp: wf_row_def valid_ticker_def Let_def strip_upper split: if_splits) (metis py_upper_idem)
  then show ?thesis
    using mk_row_id [OF w] by (cases r) (simp add: row_of_bar_def row_key_def row_bar_of_def)
qed

interpretation sq: bar_store sqlite_upsert_ohlcv sqlite_query_ohlcv s_ohlcv sqlite_ok id
proof unfold_locales
  fix s s' rows and r :: "nat result"
  show "sqlite_ok s \<Longrightarrow> keyed (s_ohlcv s)" by (simp add: sqlite_ok_def)
  show "sqlite_ok s'" if "sqlite_ok s" "sqlite_upsert_ohlcv rows s = (r, s')"
    using batch_inv [of sqlite_ok insert_bar s rows, OF insert_bar_ok] that
    by (simp add: sqlite_upsert_ohlcv_def)
next
  fix s s' rows n
  assume "sqlite_upsert_ohlcv rows s = (Inr n, s')"
  then show "n = length rows \<and> map_of (s_ohlcv s') = fold (keep_first id) rows (map_of (s_ohlcv s))"
    by (auto simp: sqlite_upsert_ohlcv_def batch_def dest: execute_bars split: if_splits prod.splits bool.splits)
next
  fix s s' rows e
  assume "sqlite_upsert_ohlcv rows s = (Inl e, s')"
  then show "map_of (s_ohlcv s) \<subseteq>\<^sub>m map_of (s_ohlcv s')"
    by (auto simp: sqlite_upsert_ohlcv_def batch_def dest: execute_bars split: if_splits prod.splits bool.splits)
next
  show "wf_row r \<Longrightarrow> \<exists>r'. row_of_bar (row_key r, id (row_bar_of r)) = Inr r'" for r
    by (simp add: row_of_stored)
qed (simp add: sqlite_query_ohlcv_def)

text \<open>A batch fails exactly at its first row of a ticker that the universe does not have.\<close>

lemma insert_bar_known:
  "sqlite_ok d \<Longrightarrow> insert_bar r d \<noteq> None \<longleftrightarrow> sqlite_known (py_upper (r_ticker r)) d"
  using refers_known [of "map_of (s_ohlcv d)" fst "map_of (s_universe d)" "row_key r"]
  by (auto simp: insert_bar_def sqlite_ok_def known_dom row_key_def)

lemma insert_bar_universe: "insert_bar r d = Some d' \<Longrightarrow> s_universe d' = s_universe d"
  by (auto simp: insert_bar_def split: if_splits)

lemma execute_known:
  "sqlite_ok d \<Longrightarrow> fst (execute_many insert_bar rows d) \<longleftrightarrow> (\<forall>r \<in> set rows. sqlite_known (py_upper (r_ticker r)) d)"
proof (induction rows arbitrary: d)
  case (Cons r rows)
  show ?case
  proof (cases "insert_bar r d")
    case None
    then show ?thesis using insert_bar_known [OF Cons.prems, of r] by simp
  next
    case (Some d1)
    have "sqlite_known t d1 = sqlite_known t d" for t
      by (simp add: sqlite_known_def insert_bar_universe [OF Some])
    then show ?thesis
      using Cons.IH [OF insert_bar_ok [OF Cons.prems Some]] Some insert_bar_known [OF Cons.prems, of r] by simp
  qed
qed simp


lemma mark_delisted_ok:
  assumes "sqlite_ok d"
  shows "sqlite_ok (sqlite_mark_delisted t day why d)"
proof -
  let ?u = "AList.map_entry (py_upper t) (\<lambda>u. u\<lparr>u_delisted := True, u_delisted_at := Some day\<rparr>) (s_universe d)"
  have m: "map_of ?u = (map_of (s_universe d))(py_upper t :=
      map_option (\<lambda>u. u\<lparr>u_delisted := True, u_delisted_at := Some day\<rparr>) (map_of (s_universe d) (py_upper t)))"
    by (auto simp: map_of_map_entry fun_eq_iff split: option.splits)
  then have "dom (map_of ?u) = dom (map_of (s_universe d))" by (auto simp: dom_def)
  moreover have "\<forall>u \<in> ran (map_of ?u). 0 < u_lot u"
    using assms unfolding m by (auto simp: sqlite_ok_def ran_def split: if_splits)
  moreover have "keyed ?u" using assms by (simp add: sqlite_ok_def keyed_def distinct_map_entry)
  ultimately show ?thesis
    using assms by (auto simp: sqlite_ok_def sqlite_mark_delisted_def intro: refers_intros(3))
qed

text \<open>
  A failing batch is half written: when a row's ticker is not in the universe, the call
  reports a \<open>StoreError\<close>, and yet every row before it is in the table for every later
  query, because the open transaction is neither rolled back nor isolated.
\<close>

theorem failed_batch_leaves_prefix:
  assumes "sqlite_ok d" "\<forall>r \<in> set before. sqlite_known (py_upper (r_ticker r)) d"
    and "\<not> sqlite_known (py_upper (r_ticker bad)) d"
  shows "\<exists>d'. sqlite_upsert_ohlcv (before @ bad # after) d = (Inl store_error, d') \<and>
    map_of (s_ohlcv d') = fold (keep_first id) before (map_of (s_ohlcv d))"
proof -
  obtain b d1 where e: "execute_many insert_bar before d = (b, d1)" by fastforce
  then have b: "b" using execute_known [OF assms(1), of before] assms(2) by simp
  have ok: "sqlite_ok d1" using execute_many_inv [of sqlite_ok insert_bar d before, OF insert_bar_ok assms(1)] e by simp
  have u: "s_universe d1 = s_universe d"
    using e by (induction before arbitrary: d) (auto split: option.splits dest: insert_bar_universe)
  then have "insert_bar bad d1 = None"
    using insert_bar_known [OF ok, of bad] assms(3) by (simp add: sqlite_known_def)
  moreover have "execute_many insert_bar (before @ bad # after) d = execute_many insert_bar (bad # after) d1"
    using e b by (induction before arbitrary: d) (auto split: option.splits)
  ultimately have "sqlite_upsert_ohlcv (before @ bad # after) d = (Inl store_error, d1)"
    by (simp add: sqlite_upsert_ohlcv_def batch_def)
  then show ?thesis using execute_bars [OF e] b by blast
qed

text \<open>The first value of a key is final: a correction is accepted, counted and dropped.\<close>

lemma sqlite_correction_dropped:
  assumes "sqlite_ok d" "map_of (s_ohlcv d) (row_key r) = Some b"
  shows "\<exists>d'. sqlite_upsert_ohlcv [r] d = (Inr 1, d') \<and> map_of (s_ohlcv d') = map_of (s_ohlcv d)"
proof -
  obtain d1 where i: "insert_bar r d = Some d1" using assms(2) by (auto simp: insert_bar_def)
  then show ?thesis
    using insert_bar_bars [OF i] assms(2) by (auto simp: sqlite_upsert_ohlcv_def batch_def keep_first_def)
qed

section \<open>Round trips\<close>

definition ex_meta :: ticker_meta where
  "ex_meta = \<lparr>tm_ticker = ''SBER'', tm_figi = None, tm_name = ''Sberbank'', tm_lot = 10, tm_isin = None,
     tm_currency = ''RUB'', tm_class_code = Some ''TQBR'', tm_delisted = False, tm_delisted_at = None,
     tm_listed_at = None, tm_source = Tkf\<rparr>"

definition ex_bar_row :: ohlcv_row where
  "ex_bar_row = \<lparr>r_ticker = ''SBER'', r_ts = 10, r_open = 100, r_high = 101, r_low = 99, r_close = 100,
     r_volume = 10, r_adj_close = 100, r_source = Tkf\<rparr>"

definition ex_db :: sqlite_db where
  "ex_db = sqlite_empty\<lparr>s_universe := [(''SBER'', universe_row_of ex_meta)]\<rparr>"

lemma upper_SBER [simp]: "py_upper ''SBER'' = ''SBER''"
  by (simp add: py_upper_def upper_char_def)

lemma upper_GAZP [simp]: "py_upper ''GAZP'' = ''GAZP''"
  by (simp add: py_upper_def upper_char_def)

lemma ex_db_reached: "sqlite_upsert_ticker ex_meta sqlite_empty = (Inr (), ex_db)"
  by (simp add: sqlite_upsert_ticker_def sqlite_upsert_tickers_def batch_def insert_ticker_def ex_meta_def
      ex_db_def sqlite_empty_def)

lemma ex_db_ok: "sqlite_ok ex_db"
  by (simp add: sqlite_ok_def ex_db_def sqlite_empty_def keyed_def refers_def universe_row_of_def ex_meta_def ran_def)

theorem failed_batch_leaves_prefix_witness:
  "\<exists>d'. sqlite_upsert_ohlcv [ex_bar_row, ex_bar_row\<lparr>r_ticker := ''GAZP''\<rparr>] ex_db = (Inl store_error, d') \<and>
     map_of (s_ohlcv d') (''SBER'', 10, Tkf) = Some (row_bar_of ex_bar_row)"
proof -
  obtain d' where d: "sqlite_upsert_ohlcv ([ex_bar_row] @ ex_bar_row\<lparr>r_ticker := ''GAZP''\<rparr> # []) ex_db = (Inl store_error, d')"
    "map_of (s_ohlcv d') = fold (keep_first id) [ex_bar_row] (map_of (s_ohlcv ex_db))"
    using failed_batch_leaves_prefix [of ex_db "[ex_bar_row]" "ex_bar_row\<lparr>r_ticker := ''GAZP''\<rparr>" "[]", OF ex_db_ok]
    by (auto simp: sqlite_known_def ex_db_def sqlite_empty_def ex_bar_row_def)
  from d(2) have "map_of (s_ohlcv d') (''SBER'', 10, Tkf) = Some (row_bar_of ex_bar_row)"
    by (simp add: ex_db_def sqlite_empty_def keep_first_def row_key_def ex_bar_row_def)
  with d(1) show ?thesis by auto
qed

end
