(* ===== verification/PgStore.thy ===== *)
theory PgStore
  imports SqliteStore
begin

text \<open>
  \<open>src/data/pg_store.py\<close> on the tables of \<open>src/data/schema.sql\<close>: the production store. The
  statements are the ones of the source; numbers are stored with the scale of their columns.
  How much of a failed \<open>executemany\<close> the server keeps belongs to \<open>psycopg\<close>, which is not
  in the repository: it is the parameter \<open>atomic\<close>. The connection itself is taken to work; the
  \<open>updated_at\<close> columns are not modelled.
\<close>

section \<open>Columns\<close>

text \<open>\<open>NUMERIC(p, s)\<close> rounds half away from zero to \<open>s\<close> digits and refuses \<open>10^(p - s)\<close> and more.\<close>

definition away :: "rat \<Rightarrow> int" where
  "away x = (if 0 \<le> x then \<lfloor>x + 1 / 2\<rfloor> else - \<lfloor>- x + 1 / 2\<rfloor>)"

definition pg_round :: "nat \<Rightarrow> rat \<Rightarrow> rat" where
  "pg_round s x = of_int (away (x * 10 ^ s)) / 10 ^ s"

definition pg_fits :: "nat \<Rightarrow> nat \<Rightarrow> rat \<Rightarrow> bool" where
  "pg_fits p s x \<longleftrightarrow> \<bar>pg_round s x\<bar> < 10 ^ (p - s)"

definition pg_column :: "stored_bar \<Rightarrow> stored_bar" where
  "pg_column b = \<lparr>b_open = pg_round 8 (b_open b), b_high = pg_round 8 (b_high b),
     b_low = pg_round 8 (b_low b), b_close = pg_round 8 (b_close b),
     b_volume = pg_round 0 (b_volume b), b_adj_close = pg_round 8 (b_adj_close b)\<rparr>"

definition pg_bar_fits :: "stored_bar \<Rightarrow> bool" where
  "pg_bar_fits b \<longleftrightarrow> pg_fits 20 8 (b_open b) \<and> pg_fits 20 8 (b_high b) \<and> pg_fits 20 8 (b_low b) \<and>
     pg_fits 20 8 (b_close b) \<and> pg_fits 20 0 (b_volume b) \<and> pg_fits 20 8 (b_adj_close b)"

record pg_ticker = universe_row +
  u_class_code :: "string option"
  u_complete :: bool

record pg_db =
  p_universe :: "(string \<times> pg_ticker) list"
  p_ohlcv :: "(bar_key \<times> stored_bar) list"
  p_adj :: "((string \<times> int) \<times> stored_bar) list"
  p_actions :: "((string \<times> int \<times> action_kind \<times> source_type) \<times> rat) list"
  p_delisting_log :: "(string \<times> int \<times> string) list"

definition pg_empty :: pg_db where
  "pg_empty = \<lparr>p_universe = [], p_ohlcv = [], p_adj = [], p_actions = [], p_delisting_log = []\<rparr>"

definition pg_error :: py_exc where "pg_error = OtherError ''psycopg.Error''"

definition pg_batch :: "bool \<Rightarrow> ('r \<Rightarrow> 'd \<Rightarrow> 'd option) \<Rightarrow> 'r list \<Rightarrow> 'd \<Rightarrow> nat result \<times> 'd" where
  "pg_batch atomic f rows d =
     (if rows = [] then (Inr 0, d)
      else (case execute_many f rows d of (True, d') \<Rightarrow> (Inr (length rows), d')
            | (False, d') \<Rightarrow> (Inl pg_error, if atomic then d else d')))"

section \<open>Tickers\<close>

text \<open>\<open>class_code\<close> is not among the columns written; a conflict keeps \<open>delisted_at\<close>, the class
  code and the completion flag.\<close>

definition pg_new_ticker :: "ticker_meta \<Rightarrow> pg_ticker" where
  "pg_new_ticker m = \<lparr>u_figi = tm_figi m, u_name = tm_name m, u_lot = tm_lot m, u_isin = tm_isin m,
     u_currency = tm_currency m, u_delisted = tm_delisted m, u_delisted_at = tm_delisted_at m,
     u_listed_at = tm_listed_at m, u_source = tm_source m, u_class_code = None, u_complete = False\<rparr>"

definition pg_update_ticker :: "ticker_meta \<Rightarrow> pg_ticker \<Rightarrow> pg_ticker" where
  "pg_update_ticker m u = u\<lparr>u_figi := tm_figi m, u_name := tm_name m, u_lot := tm_lot m, u_isin := tm_isin m,
     u_currency := tm_currency m, u_delisted := tm_delisted m, u_listed_at := tm_listed_at m,
     u_source := tm_source m\<rparr>"

definition pg_ticker_fits :: "ticker_meta \<Rightarrow> bool" where
  "pg_ticker_fits m \<longleftrightarrow> 0 < tm_lot m \<and> tm_lot m < 2 ^ 31 \<and> length (tm_ticker m) \<le> 12 \<and>
     length (tm_currency m) \<le> 3 \<and> pred_option (\<lambda>f. length f \<le> 12) (tm_figi m) \<and>
     pred_option (\<lambda>i. length i \<le> 12) (tm_isin m)"

definition pg_insert_ticker :: "ticker_meta \<Rightarrow> pg_db \<Rightarrow> pg_db option" where
  "pg_insert_ticker m d =
     (if \<not> pg_ticker_fits m then None
      else Some (d\<lparr>p_universe := AList.map_default (py_upper (tm_ticker m)) (pg_new_ticker m)
                                  (pg_update_ticker m) (p_universe d)\<rparr>))"

definition pg_upsert_tickers :: "bool \<Rightarrow> ticker_meta list \<Rightarrow> pg_db \<Rightarrow> unit result \<times> pg_db" where
  "pg_upsert_tickers atomic metas d =
     (case pg_batch atomic pg_insert_ticker metas d of (r, d) \<Rightarrow> (map_sum id (\<lambda>_. ()) r, d))"

definition pg_ticker_of_row :: "string \<times> pg_ticker \<Rightarrow> ticker_meta result" where
  "pg_ticker_of_row = (\<lambda>(t, u). mk_ticker_meta \<lparr>tm_ticker = t, tm_figi = u_figi u, tm_name = u_name u,
     tm_lot = u_lot u, tm_isin = u_isin u, tm_currency = (if u_currency u = [] then ''RUB'' else u_currency u),
     tm_class_code = u_class_code u, tm_delisted = u_delisted u, tm_delisted_at = u_delisted_at u,
     tm_listed_at = u_listed_at u, tm_source = u_source u\<rparr>)"

definition pg_list_tickers :: "bool \<Rightarrow> pg_db \<Rightarrow> ticker_meta list result" where
  "pg_list_tickers include_delisted d =
     map_result pg_ticker_of_row (select_by id (\<lambda>_ u. include_delisted \<or> \<not> u_delisted u) (p_universe d))"

definition pg_mark_delisted :: "string \<Rightarrow> int \<Rightarrow> string \<Rightarrow> pg_db \<Rightarrow> pg_db" where
  "pg_mark_delisted ticker day why d =
     d\<lparr>p_universe := AList.map_entry (py_upper ticker) (\<lambda>u. u\<lparr>u_delisted := True, u_delisted_at := Some day\<rparr>) (p_universe d),
       p_delisting_log := p_delisting_log d @ [(py_upper ticker, day, why)]\<rparr>"

text \<open>\<open>COALESCE(new, old)\<close>; only the state is modelled, not the row count the driver reports.\<close>

definition coalesce :: "'a option \<Rightarrow> 'a option \<Rightarrow> 'a option" where
  "coalesce new old = (case new of None \<Rightarrow> old | Some x \<Rightarrow> Some x)"

definition pg_sync_universe_delisted ::
  "(string \<times> int option \<times> int option) list \<Rightarrow> pg_db \<Rightarrow> pg_db" where
  "pg_sync_universe_delisted dates d =
     d\<lparr>p_universe := fold (\<lambda>(t, listed, delisted). AList.map_entry (py_upper t)
         (\<lambda>u. u\<lparr>u_listed_at := coalesce listed (u_listed_at u), u_delisted_at := coalesce delisted (u_delisted_at u)\<rparr>))
       dates (p_universe d)\<rparr>"

definition pg_mark_backfill_complete :: "string \<Rightarrow> bool \<Rightarrow> pg_db \<Rightarrow> pg_db" where
  "pg_mark_backfill_complete ticker flag d =
     d\<lparr>p_universe := AList.map_entry (py_upper ticker) (\<lambda>u. u\<lparr>u_complete := flag\<rparr>) (p_universe d)\<rparr>"

definition pg_is_backfill_complete :: "string \<Rightarrow> pg_db \<Rightarrow> bool" where
  "pg_is_backfill_complete ticker d =
     (case map_of (p_universe d) (py_upper ticker) of None \<Rightarrow> False | Some u \<Rightarrow> u_complete u)"

definition pg_backfill_complete_tickers :: "pg_db \<Rightarrow> string list" where
  "pg_backfill_complete_tickers d = map fst (select_by id (\<lambda>_ u. u_complete u) (p_universe d))"

definition pg_list_complete_universe :: "pg_db \<Rightarrow> ticker_meta list result" where
  "pg_list_complete_universe d = map_result pg_ticker_of_row (select_by id (\<lambda>_ u. u_complete u) (p_universe d))"

definition pg_ticker_meta :: "string \<Rightarrow> pg_db \<Rightarrow> (int option \<times> int option) option" where
  "pg_ticker_meta ticker d =
     map_option (\<lambda>u. (u_listed_at u, u_delisted_at u)) (map_of (p_universe d) (py_upper ticker))"

section \<open>Bars\<close>

definition pg_insert_bar :: "ohlcv_row \<Rightarrow> pg_db \<Rightarrow> pg_db option" where
  "pg_insert_bar r d =
     (if \<not> pg_bar_fits (row_bar_of r) then None
      else if map_of (p_ohlcv d) (row_key r) = None \<and> map_of (p_universe d) (py_upper (r_ticker r)) = None then None
      else Some (d\<lparr>p_ohlcv := AList.map_default (row_key r) (pg_column (row_bar_of r)) id (p_ohlcv d)\<rparr>))"

definition pg_upsert_ohlcv :: "bool \<Rightarrow> ohlcv_row list \<Rightarrow> pg_db \<Rightarrow> nat result \<times> pg_db" where
  "pg_upsert_ohlcv atomic = pg_batch atomic pg_insert_bar"

definition pg_query_ohlcv ::
  "string \<Rightarrow> int \<Rightarrow> int \<Rightarrow> source_type option \<Rightarrow> pg_db \<Rightarrow> ohlcv_row list result" where
  "pg_query_ohlcv ticker start end src d = map_result row_of_bar (select_bars ticker start end src (p_ohlcv d))"

record dedup_stats =
  inserted :: nat
  skipped :: nat

definition day_key :: "ohlcv_row \<Rightarrow> string \<times> int" where
  "day_key r = (py_upper (r_ticker r), r_ts r)"

definition pg_covered :: "pg_db \<Rightarrow> (string \<times> int) list" where
  "pg_covered d = map (\<lambda>((t, ts, s), b). (t, ts)) (p_ohlcv d)"

definition pg_backfill_with_dedup :: "bool \<Rightarrow> ohlcv_row list \<Rightarrow> pg_db \<Rightarrow> dedup_stats result \<times> pg_db" where
  "pg_backfill_with_dedup atomic new_bars d =
     (if new_bars = [] then (Inr \<lparr>inserted = 0, skipped = 0\<rparr>, d)
      else let covered = filter (\<lambda>p. p \<in> set (map day_key new_bars)) (pg_covered d);
               filtered = filter (\<lambda>r. day_key r \<notin> set covered) new_bars;
               stats = \<lparr>inserted = length filtered, skipped = length new_bars - length filtered\<rparr>
           in if filtered = [] then (Inr stats, d)
              else (case pg_upsert_ohlcv atomic filtered d of (Inl e, d) \<Rightarrow> (Inl e, d) | (Inr n, d) \<Rightarrow> (Inr stats, d)))"

text \<open>\<open>migrate_deduplicate\<close> works on a table that may have lost its primary key: the first row of
  every key stays.\<close>

definition pg_migrate_deduplicate :: "pg_db \<Rightarrow> nat \<times> pg_db" where
  "pg_migrate_deduplicate d =
     (let t = AList.clearjunk (p_ohlcv d) in (length (p_ohlcv d) - length t, d\<lparr>p_ohlcv := t\<rparr>))"

definition pg_insert_adj :: "ohlcv_row \<Rightarrow> pg_db \<Rightarrow> pg_db option" where
  "pg_insert_adj r d =
     (if \<not> pg_bar_fits (row_bar_of r) then None
      else if map_of (p_adj d) (adj_key r) = None \<and> map_of (p_universe d) (py_upper (r_ticker r)) = None then None
      else Some (d\<lparr>p_adj := AList.update (adj_key r) (pg_column (row_bar_of r)) (p_adj d)\<rparr>))"

definition pg_upsert_ohlcv_adj :: "bool \<Rightarrow> ohlcv_row list \<Rightarrow> pg_db \<Rightarrow> nat result \<times> pg_db" where
  "pg_upsert_ohlcv_adj atomic = pg_batch atomic pg_insert_adj"

definition pg_query_ohlcv_adj :: "string \<Rightarrow> int \<Rightarrow> int \<Rightarrow> pg_db \<Rightarrow> ohlcv_row list result" where
  "pg_query_ohlcv_adj ticker start end d =
     map_result (\<lambda>((t, ts), b). row_of_bar ((t, ts, Tkf), b))
       (select_by snd (\<lambda>(t, ts) _. t = py_upper ticker \<and> start \<le> ts \<and> ts \<le> end) (p_adj d))"

definition pg_insert_action :: "corporate_action \<Rightarrow> pg_db \<Rightarrow> pg_db option" where
  "pg_insert_action a d =
     (if \<not> pg_fits 18 8 (ca_value a) then None
      else Some (d\<lparr>p_actions := AList.update (action_key a) (pg_round 8 (ca_value a)) (p_actions d)\<rparr>))"

definition pg_upsert_actions :: "bool \<Rightarrow> corporate_action list \<Rightarrow> pg_db \<Rightarrow> nat result \<times> pg_db" where
  "pg_upsert_actions atomic = pg_batch atomic pg_insert_action"

definition pg_query_actions :: "string \<Rightarrow> int \<Rightarrow> int \<Rightarrow> pg_db \<Rightarrow> corporate_action list result" where
  "pg_query_actions ticker start end d =
     map_result action_of_row
       (select_by (\<lambda>(t, ts, k, s). ts) (\<lambda>(t, ts, k, s) _. t = py_upper ticker \<and> start \<le> ts \<and> ts \<le> end) (p_actions d))"

definition pg_bars_of :: "string \<Rightarrow> pg_db \<Rightarrow> int list" where
  "pg_bars_of ticker d = map (\<lambda>((t, ts, s), b). ts) (filter (\<lambda>((t, ts, s), b). t = py_upper ticker) (p_ohlcv d))"

definition pg_count_ohlcv :: "string option \<Rightarrow> pg_db \<Rightarrow> nat" where
  "pg_count_ohlcv ticker d =
     (case ticker of None \<Rightarrow> length (p_ohlcv d)
      | Some t \<Rightarrow> if t = [] then length (p_ohlcv d) else length (pg_bars_of t d))"

definition pg_earliest_ts :: "string \<Rightarrow> pg_db \<Rightarrow> int option" where
  "pg_earliest_ts ticker d = (let ts = pg_bars_of ticker d in if ts = [] then None else Some (Min (set ts)))"

definition pg_latest_ts :: "string \<Rightarrow> pg_db \<Rightarrow> int option" where
  "pg_latest_ts ticker d = (let ts = pg_bars_of ticker d in if ts = [] then None else Some (Max (set ts)))"

section \<open>The invariant\<close>

definition pg_ok :: "pg_db \<Rightarrow> bool" where
  "pg_ok d \<longleftrightarrow> keyed (p_universe d) \<and> keyed (p_ohlcv d) \<and>
     refers (map_of (p_ohlcv d)) fst (map_of (p_universe d))"

lemma pg_insert_bar_ok: "pg_ok d \<Longrightarrow> pg_insert_bar r d = Some d' \<Longrightarrow> pg_ok d'"
  by (auto simp: pg_insert_bar_def pg_ok_def keyed_map_default map_default_id row_key_def domIff
      intro!: refers_intros(1) split: if_splits option.splits)

lemma pg_insert_bar_bars:
  "pg_insert_bar r d = Some d' \<Longrightarrow> map_of (p_ohlcv d') = keep_first pg_column r (map_of (p_ohlcv d)) \<and>
     p_universe d' = p_universe d"
  by (auto simp: pg_insert_bar_def keep_first_def map_default_id split: if_splits option.splits)

lemma pg_execute_bars:
  "execute_many pg_insert_bar rows d = (b, d') \<Longrightarrow> p_universe d' = p_universe d \<and>
   map_of (p_ohlcv d) \<subseteq>\<^sub>m map_of (p_ohlcv d') \<and>
   (b \<longrightarrow> map_of (p_ohlcv d') = fold (keep_first pg_column) rows (map_of (p_ohlcv d)))"
proof (induction rows arbitrary: d)
  case (Cons r rows)
  show ?case
  proof (cases "pg_insert_bar r d")
    case (Some d1)
    note i = pg_insert_bar_bars [OF Some]
    have "map_of (p_ohlcv d) \<subseteq>\<^sub>m map_of (p_ohlcv d1)"
      using i by (simp add: keep_first_mono)
    moreover have "execute_many pg_insert_bar rows d1 = (b, d')" using Cons.prems Some by simp
    ultimately show ?thesis
      using Cons.IH [of d1] i by (auto intro: map_le_trans)
  qed (use Cons.prems in auto)
qed simp

section \<open>Rounding of the columns keeps a bar valid\<close>

lemma away_mono: "x \<le> y \<Longrightarrow> away x \<le> away y"
proof -
  assume xy: "x \<le> y"
  have 1: "0 \<le> \<lfloor>z + 1 / 2\<rfloor>" if "0 \<le> z" for z :: rat using that by simp
  show ?thesis
  proof (cases "0 \<le> x")
    case True
    then show ?thesis using xy by (simp add: away_def floor_mono)
  next
    case x: False
    show ?thesis
    proof (cases "0 \<le> y")
      case True
      have "0 \<le> \<lfloor>- x + 1 / 2\<rfloor>" "0 \<le> \<lfloor>y + 1 / 2\<rfloor>" using x True 1 by simp_all
      then have "- \<lfloor>- x + 1 / 2\<rfloor> \<le> \<lfloor>y + 1 / 2\<rfloor>" by linarith
      then show ?thesis using x True by (simp add: away_def)
    next
      case False
      then show ?thesis using x xy by (simp add: away_def floor_mono)
    qed
  qed
qed

lemma pg_round_mono: "x \<le> y \<Longrightarrow> pg_round s x \<le> pg_round s y"
  unfolding pg_round_def by (intro divide_right_mono) (simp_all add: away_mono mult_right_mono)

lemma pg_round_nonneg: "0 \<le> x \<Longrightarrow> 0 \<le> pg_round s x"
  using pg_round_mono [of 0 x s] by (simp add: pg_round_def away_def)

lemma pg_round_exact: "x * 10 ^ s = of_int m \<Longrightarrow> pg_round s x = x"
proof -
  assume m: "x * 10 ^ s = of_int m"
  have "away (of_int m) = m"
  proof (cases "0 \<le> m")
    case True
    then show ?thesis by (simp add: away_def) linarith
  next
    case False
    then show ?thesis by (simp add: away_def) linarith
  qed
  moreover have "of_int m / 10 ^ s = x" by (simp only: m [symmetric]) simp
  ultimately show ?thesis by (simp only: pg_round_def m)
qed

definition column_row :: "ohlcv_row \<Rightarrow> ohlcv_row" where
  "column_row r = r\<lparr>r_open := pg_round 8 (r_open r), r_high := pg_round 8 (r_high r),
     r_low := pg_round 8 (r_low r), r_close := pg_round 8 (r_close r),
     r_volume := pg_round 0 (r_volume r), r_adj_close := pg_round 8 (r_adj_close r)\<rparr>"

lemma column_row_wf: "wf_row r \<Longrightarrow> wf_row (column_row r)"
  by (auto simp: wf_row_def row_nonneg_def ohlc_consistent_def column_row_def intro: pg_round_mono pg_round_nonneg)

lemma row_of_column:
  assumes "wf_row r"
  shows "row_of_bar (row_key r, pg_column (row_bar_of r)) = Inr (column_row r)"
proof -
  have "row_key (column_row r) = row_key r" by (simp add: row_key_def column_row_def)
  moreover have "row_bar_of (column_row r) = pg_column (row_bar_of r)"
    by (simp add: row_bar_of_def pg_column_def column_row_def)
  ultimately show ?thesis using row_of_stored [OF column_row_wf [OF assms]] by (simp only:)
qed

lemma pg_upsert_cases:
  assumes "pg_upsert_ohlcv atomic rows d = (r, d')"
  obtains b d1 where "execute_many pg_insert_bar rows d = (b, d1)"
    "b \<Longrightarrow> r = Inr (length rows) \<and> d' = d1" "\<not> b \<Longrightarrow> r = Inl pg_error \<and> d' = (if atomic then d else d1)"
  using assms
  by (cases "execute_many pg_insert_bar rows d")
    (auto simp: pg_upsert_ohlcv_def pg_batch_def split: if_splits bool.splits)

interpretation pg: bar_store "pg_upsert_ohlcv atomic" pg_query_ohlcv p_ohlcv pg_ok pg_column
  for atomic :: bool
proof unfold_locales
  fix s s' rows and r :: "nat result"
  show "pg_ok s \<Longrightarrow> keyed (p_ohlcv s)" by (simp add: pg_ok_def)
  show "pg_ok s'" if ok: "pg_ok s" "pg_upsert_ohlcv atomic rows s = (r, s')"
  proof -
    obtain b d1 where "execute_many pg_insert_bar rows s = (b, d1)" "s' = s \<or> s' = d1"
      using pg_upsert_cases [OF ok(2)] by metis
    then show ?thesis
      using execute_many_inv [of pg_ok pg_insert_bar s rows, OF pg_insert_bar_ok ok(1)] ok(1) by auto
  qed
next
  fix s s' rows n
  assume "pg_upsert_ohlcv atomic rows s = (Inr n, s')"
  then show "n = length rows \<and> map_of (p_ohlcv s') = fold (keep_first pg_column) rows (map_of (p_ohlcv s))"
    by (rule pg_upsert_cases) (auto dest: pg_execute_bars split: if_splits)
next
  fix s s' rows e
  assume "pg_upsert_ohlcv atomic rows s = (Inl e, s')"
  then obtain b d1 where "execute_many pg_insert_bar rows s = (b, d1)" "s' = s \<or> s' = d1"
    using pg_upsert_cases by metis
  then show "map_of (p_ohlcv s) \<subseteq>\<^sub>m map_of (p_ohlcv s')"
    by (auto dest: pg_execute_bars)
next
  show "wf_row x \<Longrightarrow> \<exists>y. row_of_bar (row_key x, pg_column (row_bar_of x)) = Inr y" for x
    by (simp add: row_of_column)
qed (simp add: pg_query_ohlcv_def)


section \<open>Stored bars survive\<close>

fun pg_run :: "bool \<Rightarrow> ohlcv_row list list \<Rightarrow> pg_db \<Rightarrow> pg_db" where
  "pg_run atomic [] d = d"
| "pg_run atomic (rows # ws) d = pg_run atomic ws (snd (pg_upsert_ohlcv atomic rows d))"

lemma pg_run_put: "pg.put_run atomic ws d = pg_run atomic ws d"
  by (induction ws arbitrary: d) simp_all

text \<open>
  Survivorship: a bar that a query of the production store has returned is returned by the
  same query after any sequence of OHLCV writes, successful or failed, atomic or not: no
  write deletes, replaces or alters a stored bar.
\<close>

theorem stored_bars_survive:
  assumes "pg_ok d" "pg_query_ohlcv ticker start end src d = Inr rows" "r \<in> set rows"
    and "pg_query_ohlcv ticker start end src (pg_run atomic ws d) = Inr rows'"
  shows "r \<in> set rows'"
  using assms pg.query_stable [of d ticker start "end" src rows r atomic ws rows'] by (simp add: pg_run_put)

text \<open>All tickers known and all numbers in range: the batch succeeds.\<close>

lemma pg_execute_succeeds:
  assumes "\<forall>r \<in> set rows. pg_bar_fits (row_bar_of r) \<and> map_of (p_universe d) (py_upper (r_ticker r)) \<noteq> None"
  shows "fst (execute_many pg_insert_bar rows d)"
  using assms
proof (induction rows arbitrary: d)
  case (Cons r rows)
  then obtain d1 where d1: "pg_insert_bar r d = Some d1" by (auto simp: pg_insert_bar_def)
  show ?case using Cons.IH [of d1] Cons.prems d1 pg_insert_bar_bars [OF d1] by auto
qed simp

lemma pg_upsert_succeeds:
  assumes "\<forall>r \<in> set rows. pg_bar_fits (row_bar_of r) \<and> map_of (p_universe d) (py_upper (r_ticker r)) \<noteq> None"
  shows "\<exists>d'. pg_upsert_ohlcv atomic rows d = (Inr (length rows), d')"
  using pg_execute_succeeds [OF assms]
  by (cases "execute_many pg_insert_bar rows d") (simp add: pg_upsert_ohlcv_def pg_batch_def)

text \<open>
  C16. Write, then read: valid rows of known tickers whose numbers fit the columns are all
  accepted, and each one whose key is new comes back from every query whose window
  contains it, rounded to the scale of the columns (so exactly, if it has at most eight
  decimals and a whole volume). No query raises a validation error.
\<close>

theorem written_bars_read_back:
  assumes "pg_ok d" "pg.readable d" "\<forall>r \<in> set rows. wf_row r"
    and "\<forall>r \<in> set rows. pg_bar_fits (row_bar_of r) \<and> map_of (p_universe d) (py_upper (r_ticker r)) \<noteq> None"
    and "r \<in> set rows" "map_of (p_ohlcv d) (row_key r) = None" "\<forall>x \<in> set rows. row_key x = row_key r \<longrightarrow> x = r"
    and "in_window ticker start end src (row_key r)"
  shows "\<exists>d' out. pg_upsert_ohlcv atomic rows d = (Inr (length rows), d') \<and>
     pg_query_ohlcv ticker start end src d' = Inr out \<and> column_row r \<in> set out \<and>
     (pg_column (row_bar_of r) = row_bar_of r \<longrightarrow> r \<in> set out)"
proof -
  obtain d' where p: "pg_upsert_ohlcv atomic rows d = (Inr (length rows), d')"
    using pg_upsert_succeeds [OF assms(4)] by blast
  obtain out r' where o: "pg_query_ohlcv ticker start end src d' = Inr out" "r' \<in> set out"
    "row_of_bar (row_key r, pg_column (row_bar_of r)) = Inr r'"
    using pg.put_get [OF assms(1-3) p assms(5) _ assms(7,8)] assms(6) by (auto simp: pg.bars_def)
  have w: "wf_row r" using assms(3,5) by blast
  have "r' = column_row r" using row_of_column [OF w] o(3) by simp
  moreover have "pg_column (row_bar_of r) = row_bar_of r \<longrightarrow> r' = r" using row_of_stored [OF w] o(3) by auto
  ultimately show ?thesis using p o by (intro exI [of _ d'] exI [of _ out]) auto
qed

section \<open>The two stores agree\<close>

fun sqlite_run :: "ohlcv_row list list \<Rightarrow> sqlite_db \<Rightarrow> sqlite_db" where
  "sqlite_run [] d = d"
| "sqlite_run (rows # ws) d = sqlite_run ws (snd (sqlite_upsert_ohlcv rows d))"

definition same_bars :: "sqlite_db \<Rightarrow> pg_db \<Rightarrow> bool" where
  "same_bars s p \<longleftrightarrow> map_of (s_ohlcv s) = map_of (p_ohlcv p) \<and>
     dom (map_of (s_universe s)) = dom (map_of (p_universe p))"

definition exact_row :: "ohlcv_row \<Rightarrow> bool" where
  "exact_row r \<longleftrightarrow> pg_column (row_bar_of r) = row_bar_of r \<and> pg_bar_fits (row_bar_of r)"

lemma insert_sim:
  assumes "same_bars s p" "exact_row r"
  shows "insert_bar r s = None \<longleftrightarrow> pg_insert_bar r p = None"
    and "insert_bar r s = Some s' \<Longrightarrow> pg_insert_bar r p = Some p' \<Longrightarrow> same_bars s' p'"
proof -
  have "sqlite_known (py_upper (r_ticker r)) s \<longleftrightarrow> map_of (p_universe p) (py_upper (r_ticker r)) \<noteq> None"
    using assms(1) by (simp add: known_dom same_bars_def domIff)
  then show "insert_bar r s = None \<longleftrightarrow> pg_insert_bar r p = None"
    using assms by (simp add: insert_bar_def pg_insert_bar_def same_bars_def exact_row_def)
  assume i: "insert_bar r s = Some s'" "pg_insert_bar r p = Some p'"
  have "pg_column (row_bar_of r) = row_bar_of r" using assms(2) by (simp add: exact_row_def)
  then have "keep_first id r m = keep_first pg_column r m" for m
    by (simp add: keep_first_def split: option.split)
  then show "same_bars s' p'"
    using assms(1) insert_bar_bars [OF i(1)] insert_bar_universe [OF i(1)] pg_insert_bar_bars [OF i(2)]
    by (simp add: same_bars_def)
qed

lemma execute_sim:
  "same_bars s p \<Longrightarrow> \<forall>r \<in> set rows. exact_row r \<Longrightarrow>
   execute_many insert_bar rows s = (b, s') \<Longrightarrow> execute_many pg_insert_bar rows p = (b', p') \<Longrightarrow>
   b = b' \<and> same_bars s' p'"
proof (induction rows arbitrary: s p)
  case (Cons r rows)
  have ex: "exact_row r" using Cons.prems(2) by simp
  show ?case
  proof (cases "insert_bar r s")
    case None
    then show ?thesis using insert_sim(1) [OF Cons.prems(1) ex] Cons.prems by simp
  next
    case (Some s1)
    then obtain p1 where p1: "pg_insert_bar r p = Some p1"
      using insert_sim(1) [OF Cons.prems(1) ex] by auto
    show ?thesis
      using Cons.IH [OF insert_sim(2) [OF Cons.prems(1) ex Some p1]] Cons.prems Some p1 by simp
  qed
qed simp

text \<open>A batch on both: the same outcome, unless the server rolls back what SQLite leaves.\<close>

lemma batch_sim:
  assumes "same_bars s p" "\<forall>r \<in> set rows. exact_row r"
    and "atomic \<longrightarrow> (\<forall>r \<in> set rows. map_of (p_universe p) (py_upper (r_ticker r)) \<noteq> None)"
  shows "(\<exists>n. fst (sqlite_upsert_ohlcv rows s) = Inr n \<and> fst (pg_upsert_ohlcv atomic rows p) = Inr n \<or>
       fst (sqlite_upsert_ohlcv rows s) = Inl store_error \<and> fst (pg_upsert_ohlcv atomic rows p) = Inl pg_error) \<and>
     same_bars (snd (sqlite_upsert_ohlcv rows s)) (snd (pg_upsert_ohlcv atomic rows p))"
proof -
  obtain b s' where e: "execute_many insert_bar rows s = (b, s')" by fastforce
  obtain b' p' where e': "execute_many pg_insert_bar rows p = (b', p')" by fastforce
  note sim = execute_sim [OF assms(1,2) e e']
  have "b'" if atomic
    using pg_execute_succeeds [of rows p] assms(2,3) that e' by (auto simp: exact_row_def)
  then show ?thesis
    using sim e e' assms(1)
    by (cases b) (auto simp: sqlite_upsert_ohlcv_def batch_def pg_upsert_ohlcv_def pg_batch_def)
qed

lemma run_universe: "p_universe (pg_run atomic ws p) = p_universe p"
proof (induction ws arbitrary: p)
  case (Cons rows ws)
  obtain r p' where u: "pg_upsert_ohlcv atomic rows p = (r, p')" by fastforce
  obtain b p1 where "execute_many pg_insert_bar rows p = (b, p1)" "p' = p \<or> p' = p1"
    using pg_upsert_cases [OF u] by metis
  then have "p_universe (snd (pg_upsert_ohlcv atomic rows p)) = p_universe p"
    using pg_execute_bars u by auto
  then show ?case using Cons by simp
qed simp

lemma run_sim:
  assumes "same_bars s p" "\<forall>rows \<in> set ws. \<forall>r \<in> set rows. exact_row r"
    and "atomic \<longrightarrow> (\<forall>rows \<in> set ws. \<forall>r \<in> set rows. map_of (p_universe p) (py_upper (r_ticker r)) \<noteq> None)"
  shows "same_bars (sqlite_run ws s) (pg_run atomic ws p)"
  using assms
proof (induction ws arbitrary: s p)
  case (Cons rows ws)
  have b: "same_bars (snd (sqlite_upsert_ohlcv rows s)) (snd (pg_upsert_ohlcv atomic rows p))"
    using batch_sim [OF Cons.prems(1), of rows atomic] Cons.prems(2,3) by simp
  have u: "p_universe (snd (pg_upsert_ohlcv atomic rows p)) = p_universe p"
    using run_universe [of atomic "[rows]" p] by simp
  show ?case
    unfolding sqlite_run.simps pg_run.simps
  proof (rule Cons.IH [OF b])
    show "\<forall>rows \<in> set ws. \<forall>r \<in> set rows. exact_row r" using Cons.prems(2) by simp
    show "atomic \<longrightarrow> (\<forall>rws \<in> set ws. \<forall>r \<in> set rws.
        map_of (p_universe (snd (pg_upsert_ohlcv atomic rows p))) (py_upper (r_ticker r)) \<noteq> None)"
      unfolding u using Cons.prems(3) by simp
  qed
qed simp

text \<open>
  C17. The in-memory store that the tests run on is a faithful stand-in: on bars that the
  columns hold exactly, every sequence of batches leaves both stores with the same answer
  to every range query, failed batches included when the server keeps what SQLite keeps,
  or when every ticker is known.
\<close>

theorem stores_refine_each_other:
  assumes "sqlite_ok s" "pg_ok p" "same_bars s p" "\<forall>rows \<in> set ws. \<forall>r \<in> set rows. exact_row r"
    and "atomic \<longrightarrow> (\<forall>rows \<in> set ws. \<forall>r \<in> set rows. map_of (p_universe p) (py_upper (r_ticker r)) \<noteq> None)"
  shows "sqlite_query_ohlcv ticker start end src (sqlite_run ws s) =
         pg_query_ohlcv ticker start end src (pg_run atomic ws p)"
proof -
  have "sq.put_run ws d = sqlite_run ws d" for d by (induction ws arbitrary: d) simp_all
  then have "sqlite_ok (sqlite_run ws s)" using sq.put_run_ok [OF assms(1), of ws] by simp
  moreover have "pg_ok (pg_run atomic ws p)" using pg.put_run_ok [OF assms(2), of atomic ws] by (simp add: pg_run_put)
  moreover have "same_bars (sqlite_run ws s) (pg_run atomic ws p)" by (rule run_sim [OF assms(3-5)])
  ultimately show ?thesis
    unfolding sqlite_query_ohlcv_def pg_query_ohlcv_def
    by (metis same_bars_def select_bars_cong sq.keyed pg.keyed)
qed


section \<open>Backfill and the universe\<close>

lemma pg_covered_iff: "p \<in> set (pg_covered d) \<longleftrightarrow> (\<exists>s b. ((fst p, snd p, s), b) \<in> set (p_ohlcv d))"
  by (cases p) (force simp: pg_covered_def image_iff)

lemma covered_key: "keyed (p_ohlcv d) \<Longrightarrow> (t, ts) \<in> set (pg_covered d) \<longleftrightarrow> (\<exists>s. map_of (p_ohlcv d) (t, ts, s) \<noteq> None)"
  by (auto simp: pg_covered_iff keyed_set)

lemma fold_keep_first_untouched:
  "\<forall>r \<in> set rows. row_key r \<noteq> k \<Longrightarrow> fold (keep_first c) rows m k = m k"
  by (induction rows arbitrary: m) (auto simp: keep_first_def split: option.splits)

lemma dedup_cases:
  assumes "pg_backfill_with_dedup atomic new_bars d = (Inr st, d')"
    and "fil = filter (\<lambda>r. day_key r \<notin> set (pg_covered d)) new_bars"
  shows "inserted st + skipped st = length new_bars \<and>
    (fil = [] \<and> d' = d \<or> (\<exists>n. pg_upsert_ohlcv atomic fil d = (Inr n, d')))"
proof (cases "new_bars = []")
  case True
  then show ?thesis using assms by (auto simp: pg_backfill_with_dedup_def)
next
  case ne: False
  have f: "filter (\<lambda>r. day_key r \<notin> set (filter (\<lambda>p. p \<in> set (map day_key new_bars)) (pg_covered d))) new_bars = fil"
    unfolding assms(2) by (rule filter_cong) auto
  have len: "length fil \<le> length new_bars" by (simp add: assms(2))
  show ?thesis
  proof (cases "fil = []")
    case True
    then show ?thesis using assms(1) ne unfolding pg_backfill_with_dedup_def Let_def f by auto
  next
    case False
    obtain r d1 where u: "pg_upsert_ohlcv atomic fil d = (r, d1)" by fastforce
    then show ?thesis
      using assms(1) ne False len unfolding pg_backfill_with_dedup_def Let_def f by (cases r) auto
  qed
qed

text \<open>
  The backfill fills gaps and nothing else: every bar offered is counted as inserted or
  skipped; a day that any source already covers is left exactly as it was, so a second source
  never adds a divergent bar to it; and afterwards every offered day is covered.
\<close>

theorem backfill_fills_gaps_only:
  assumes "pg_ok d" "pg_backfill_with_dedup atomic new_bars d = (Inr st, d')"
  shows "inserted st + skipped st = length new_bars \<and>
    (\<forall>t ts. (t, ts) \<in> set (pg_covered d) \<longrightarrow> (\<forall>s. map_of (p_ohlcv d') (t, ts, s) = map_of (p_ohlcv d) (t, ts, s))) \<and>
    (\<forall>r \<in> set new_bars. day_key r \<in> set (pg_covered d'))"
proof -
  note kd = pg.keyed [OF assms(1)]
  define fil where "fil = filter (\<lambda>r. day_key r \<notin> set (pg_covered d)) new_bars"
  have fil_iff: "r \<in> set fil \<longleftrightarrow> r \<in> set new_bars \<and> day_key r \<notin> set (pg_covered d)" for r
    by (simp add: fil_def)
  have len: "length fil \<le> length new_bars" by (simp add: fil_def)
  have cases: "inserted st + skipped st = length new_bars \<and>
      (fil = [] \<and> d' = d \<or> (\<exists>n. pg_upsert_ohlcv atomic fil d = (Inr n, d')))"
    by (rule dedup_cases [OF assms(2) fil_def])
  then have st: "inserted st + skipped st = length new_bars" by blast
  have "fil = [] \<and> d' = d \<or> (\<exists>n. pg_upsert_ohlcv atomic fil d = (Inr n, d'))" using cases by blast
  then have fold: "map_of (p_ohlcv d') = fold (keep_first pg_column) fil (map_of (p_ohlcv d))" and ok: "pg_ok d'"
    using pg.put_all [OF assms(1)] pg.put_ok [OF assms(1)] assms(1) by auto
  have un: "map_of (p_ohlcv d') (t, ts, s) = map_of (p_ohlcv d) (t, ts, s)" if "(t, ts) \<in> set (pg_covered d)" for t ts s
    unfolding fold using that fil_iff by (intro fold_keep_first_untouched) (auto simp: row_key_def day_key_def)
  have "day_key r \<in> set (pg_covered d')" if r: "r \<in> set new_bars" for r
  proof (cases "day_key r \<in> set (pg_covered d)")
    case True
    then have "\<exists>s. map_of (p_ohlcv d) (py_upper (r_ticker r), r_ts r, s) \<noteq> None"
      unfolding day_key_def covered_key [OF kd] .
    then obtain s where "map_of (p_ohlcv d) (py_upper (r_ticker r), r_ts r, s) \<noteq> None" ..
    moreover have "map_of (p_ohlcv d') (py_upper (r_ticker r), r_ts r, s) = map_of (p_ohlcv d) (py_upper (r_ticker r), r_ts r, s)" for s
      using True by (intro un) (simp add: day_key_def)
    ultimately have "\<exists>s. map_of (p_ohlcv d') (py_upper (r_ticker r), r_ts r, s) \<noteq> None" by metis
    then show ?thesis unfolding day_key_def covered_key [OF pg.keyed [OF ok]] .
  next
    case False
    then have "map_of (p_ohlcv d') (row_key r) \<noteq> None"
      unfolding fold using r fil_iff by (intro fold_keep_first_covers) simp
    then show ?thesis unfolding day_key_def row_key_def covered_key [OF pg.keyed [OF ok]] by blast
  qed
  with st un show ?thesis by blast
qed

text \<open>A listing or delisting date once known never becomes unknown again.\<close>

definition dates_kept :: "pg_ticker \<Rightarrow> pg_ticker \<Rightarrow> bool" where
  "dates_kept u u' \<longleftrightarrow> (u_delisted_at u \<noteq> None \<longrightarrow> u_delisted_at u' \<noteq> None) \<and>
     (u_listed_at u \<noteq> None \<longrightarrow> u_listed_at u' \<noteq> None) \<and> u_delisted u' = u_delisted u"

lemma sync_dates:
  "map_of (p_universe (pg_sync_universe_delisted dates d)) t = Some u' \<Longrightarrow>
   \<exists>u. map_of (p_universe d) t = Some u \<and> dates_kept u u'"
proof (induction dates arbitrary: d)
  case Nil
  then show ?case by (simp add: pg_sync_universe_delisted_def dates_kept_def)
next
  case (Cons x dates)
  obtain k l e where x: "x = (k, l, e)" by (metis surj_pair)
  let ?d = "pg_sync_universe_delisted [x] d"
  have "pg_sync_universe_delisted (x # dates) d = pg_sync_universe_delisted dates ?d"
    by (simp add: pg_sync_universe_delisted_def)
  with Cons obtain u1 where u1: "map_of (p_universe ?d) t = Some u1" "dates_kept u1 u'" by auto
  then obtain u where "map_of (p_universe d) t = Some u" "dates_kept u u1"
    by (auto simp: pg_sync_universe_delisted_def x map_of_map_entry dates_kept_def coalesce_def
        split: option.splits if_splits)
  with u1(2) show ?case by (auto simp: dates_kept_def)
qed

text \<open>
  A sync with MOEX never forgets: after \<open>sync_universe_delisted\<close> the universe has the same
  tickers, no known listing or delisting date has become unknown, and the flag \<open>delisted\<close> of
  every ticker is what it was (so a ticker that only the sync knows to be delisted stays in
  \<open>list_tickers(include_delisted=False)\<close>); a later re-sync of the ticker list keeps the
  delisting date as well.
\<close>

theorem delisting_dates_never_forgotten:
  "(map_of (p_universe (pg_sync_universe_delisted dates d)) t = None \<longleftrightarrow> map_of (p_universe d) t = None) \<and>
   (\<forall>u u'. map_of (p_universe d) t = Some u \<and> map_of (p_universe (pg_sync_universe_delisted dates d)) t = Some u' \<longrightarrow>
      (u_delisted_at u \<noteq> None \<longrightarrow> u_delisted_at u' \<noteq> None) \<and>
      (u_listed_at u \<noteq> None \<longrightarrow> u_listed_at u' \<noteq> None) \<and> u_delisted u' = u_delisted u) \<and>
   (\<forall>u m d'. map_of (p_universe d) t = Some u \<and> pg_insert_ticker m d = Some d' \<longrightarrow>
      (\<exists>u'. map_of (p_universe d') t = Some u' \<and> u_delisted_at u' = u_delisted_at u))"
proof (intro conjI allI impI)
  have "dom (map_of (p_universe (pg_sync_universe_delisted dates d))) = dom (map_of (p_universe d))"
  proof (induction dates arbitrary: d)
    case (Cons x dates)
    have "pg_sync_universe_delisted (x # dates) d = pg_sync_universe_delisted dates (pg_sync_universe_delisted [x] d)"
      by (simp add: pg_sync_universe_delisted_def)
    moreover have "dom (map_of (p_universe (pg_sync_universe_delisted [x] d))) = dom (map_of (p_universe d))"
      by (cases x) (auto simp: pg_sync_universe_delisted_def dom_map_of_conv_image_fst dom_map_entry)
    ultimately show ?case using Cons by simp
  qed (simp add: pg_sync_universe_delisted_def)
  then show "map_of (p_universe (pg_sync_universe_delisted dates d)) t = None \<longleftrightarrow> map_of (p_universe d) t = None"
    by (metis domIff)
next
  fix u m d'
  assume "map_of (p_universe d) t = Some u \<and> pg_insert_ticker m d = Some d'"
  then show "\<exists>u'. map_of (p_universe d') t = Some u' \<and> u_delisted_at u' = u_delisted_at u"
    by (auto simp: pg_insert_ticker_def map_of_map_default pg_update_ticker_def split: if_splits)
qed (use sync_dates [of dates d t] in \<open>auto simp: dates_kept_def\<close>)

text \<open>The class code is read but never written: it is lost on the way through the store.\<close>

lemma class_code_lost:
  assumes "map_of (p_universe d) (py_upper (tm_ticker m)) = None" "pg_insert_ticker m d = Some d'"
  shows "\<exists>u. map_of (p_universe d') (py_upper (tm_ticker m)) = Some u \<and> u_class_code u = None"
  using assms by (auto simp: pg_insert_ticker_def map_of_map_default pg_new_ticker_def split: if_splits)

text \<open>The migration removes exactly the later duplicates, and nothing from a table with its key.\<close>

lemma migrate_deduplicate_spec:
  "keyed (p_ohlcv (snd (pg_migrate_deduplicate d))) \<and>
   map_of (p_ohlcv (snd (pg_migrate_deduplicate d))) = map_of (p_ohlcv d) \<and>
   (keyed (p_ohlcv d) \<longrightarrow> pg_migrate_deduplicate d = (0, d))"
  by (auto simp: pg_migrate_deduplicate_def Let_def keyed_def distinct_clearjunk map_of_clearjunk distinct_clearjunk_id)


section \<open>Concrete runs\<close>

definition ex_pg :: pg_db where
  "ex_pg = pg_empty\<lparr>p_universe := [(''SBER'', pg_new_ticker ex_meta)]\<rparr>"

definition ex_pg1 :: pg_db where
  "ex_pg1 = ex_pg\<lparr>p_ohlcv := [((''SBER'', 10, Tkf), row_bar_of ex_bar_row)]\<rparr>"

lemma pg_round_numeral [simp]: "pg_round s (numeral n) = numeral n"
  by (rule pg_round_exact [of _ s "numeral n * 10 ^ s"]) simp

lemma ex_exact: "exact_row ex_bar_row"
  by (simp add: exact_row_def pg_column_def pg_bar_fits_def pg_fits_def row_bar_of_def ex_bar_row_def)

lemma ex_key: "row_key ex_bar_row = (''SBER'', 10, Tkf)"
  by (simp add: row_key_def ex_bar_row_def)

lemma ex_bar_wf: "wf_row ex_bar_row"
  by (simp add: wf_row_def row_nonneg_def ohlc_consistent_def ex_bar_row_def valid_ticker_def Let_def
      py_strip_def is_space_def ticker_regex_def ticker_char_def)

lemma ex_pg_ok: "pg_ok ex_pg" "pg_ok ex_pg1"
  by (simp_all add: pg_ok_def ex_pg_def ex_pg1_def pg_empty_def keyed_def refers_def)

lemma ex_pg_readable: "pg.readable ex_pg"
  by (simp add: pg.readable_def pg.bars_def ex_pg_def pg_empty_def)

lemma ex_put: "pg_upsert_ohlcv atomic [ex_bar_row] ex_pg = (Inr 1, ex_pg1)"
  using ex_exact
  by (simp add: pg_upsert_ohlcv_def pg_batch_def pg_insert_bar_def ex_key exact_row_def)
    (simp add: ex_pg_def ex_pg1_def pg_empty_def ex_bar_row_def)

lemma ex_put_again: "pg_upsert_ohlcv atomic [ex_bar_row] ex_pg1 = (Inr 1, ex_pg1)"
  using ex_exact
  by (simp add: pg_upsert_ohlcv_def pg_batch_def pg_insert_bar_def ex_key exact_row_def)
    (simp add: ex_pg_def ex_pg1_def pg_empty_def ex_bar_row_def)

lemma ex_query: "pg_query_ohlcv ''SBER'' 1 20 None ex_pg1 = Inr [ex_bar_row]"
  using row_of_stored [OF ex_bar_wf] unfolding ex_key
  by (simp add: pg_query_ohlcv_def select_bars_def select_by_def in_window_def ex_pg1_def)

theorem stored_bars_survive_witness:
  "pg_query_ohlcv ''SBER'' 1 20 None ex_pg1 = Inr [ex_bar_row] \<and> pg_run False [[ex_bar_row]] ex_pg1 = ex_pg1 \<and>
   ex_bar_row \<in> set [ex_bar_row]"
proof -
  have r: "pg_run False [[ex_bar_row]] ex_pg1 = ex_pg1" by (simp add: ex_put_again)
  have "ex_bar_row \<in> set [ex_bar_row]"
    by (rule stored_bars_survive [OF ex_pg_ok(2) ex_query, of ex_bar_row False "[[ex_bar_row]]"])
      (simp_all add: r ex_query del: pg_run.simps)
  with r ex_query show ?thesis by blast
qed

theorem written_bars_read_back_witness:
  "\<exists>d' out. pg_upsert_ohlcv True [ex_bar_row] ex_pg = (Inr 1, d') \<and>
     pg_query_ohlcv ''SBER'' 1 20 (Some Tkf) d' = Inr out \<and> ex_bar_row \<in> set out"
proof -
  have known: "map_of (p_universe ex_pg) (py_upper (r_ticker ex_bar_row)) \<noteq> None"
    by (simp add: ex_pg_def ex_bar_row_def)
  have "\<exists>d' out. pg_upsert_ohlcv True [ex_bar_row] ex_pg = (Inr (length [ex_bar_row]), d') \<and>
     pg_query_ohlcv ''SBER'' 1 20 (Some Tkf) d' = Inr out \<and> column_row ex_bar_row \<in> set out \<and>
     (pg_column (row_bar_of ex_bar_row) = row_bar_of ex_bar_row \<longrightarrow> ex_bar_row \<in> set out)"
    by (rule written_bars_read_back [OF ex_pg_ok(1) ex_pg_readable])
      (use known ex_bar_wf ex_exact in \<open>simp_all add: exact_row_def ex_key in_window_def, simp_all add: ex_pg_def pg_empty_def\<close>)
  with ex_exact show ?thesis by (auto simp: exact_row_def)
qed

lemma ex_same: "same_bars ex_db ex_pg"
  by (simp add: same_bars_def ex_db_def ex_pg_def pg_empty_def sqlite_empty_def)

theorem stores_refine_each_other_witness:
  "sqlite_query_ohlcv ''SBER'' 1 20 None (sqlite_run [[ex_bar_row], [ex_bar_row\<lparr>r_ticker := ''GAZP''\<rparr>]] ex_db) =
   pg_query_ohlcv ''SBER'' 1 20 None (pg_run False [[ex_bar_row], [ex_bar_row\<lparr>r_ticker := ''GAZP''\<rparr>]] ex_pg)"
  by (rule stores_refine_each_other [OF ex_db_ok ex_pg_ok(1) ex_same])
    (use ex_exact in \<open>simp_all add: exact_row_def row_bar_of_def\<close>)

theorem backfill_fills_gaps_only_witness:
  "\<exists>st d'. pg_backfill_with_dedup True [ex_bar_row\<lparr>r_source := Moex\<rparr>] ex_pg1 = (Inr st, d') \<and>
     inserted st = 0 \<and> skipped st = 1 \<and> map_of (p_ohlcv d') (''SBER'', 10, Moex) = None"
proof -
  have b: "pg_backfill_with_dedup True [ex_bar_row\<lparr>r_source := Moex\<rparr>] ex_pg1 = (Inr \<lparr>inserted = 0, skipped = 1\<rparr>, ex_pg1)"
    by (simp add: pg_backfill_with_dedup_def pg_covered_def day_key_def ex_pg1_def ex_bar_row_def)
  have c: "(''SBER'', 10) \<in> set (pg_covered ex_pg1)" by (simp add: pg_covered_def ex_pg1_def)
  have "map_of (p_ohlcv ex_pg1) (''SBER'', 10, Moex) = None" by (simp add: ex_pg1_def)
  then show ?thesis using backfill_fills_gaps_only [OF ex_pg_ok(2) b] c b by auto
qed

theorem delisting_dates_never_forgotten_witness:
  "map_of (p_universe (pg_sync_universe_delisted [(''SBER'', None, None)] ex_pg)) ''SBER'' \<noteq> None"
  using delisting_dates_never_forgotten [of "[(''SBER'', None, None)]" ex_pg "''SBER''"]
  by (simp add: ex_pg_def)

end
