(* ===== verification/AdvProvider.thy ===== *)
theory AdvProvider
  imports PgStore PyFloat OrderFlow
begin

text \<open>
  \<open>src/data/adv_provider.py\<close>: the average daily volume for the slicer, read from a bar store,
  and the cache in front of it. The provider is a client of the \<open>bar_store\<close> contract. The cache
  is called by many threads: a call is a locked look-up, the computation outside the lock, and a
  locked store, and the step relation interleaves them freely.
\<close>

section \<open>The provider\<close>

definition adv_error :: py_exc where "adv_error = OtherError ''AdvProviderError''"

record adv_conf =
  lookback_days :: int
  adv_source :: "source_type option"

definition mk_adv_conf :: "int \<Rightarrow> source_type option \<Rightarrow> adv_conf result" where
  "mk_adv_conf n src = (if n \<le> 0 then Inl ValueError else Inr \<lparr>lookback_days = n, adv_source = src\<rparr>)"

text \<open>\<open>get\<close> is \<open>store.query_ohlcv\<close>; a validation error of a stored row is not a \<open>StoreError\<close>.\<close>

definition adv_call ::
  "(string \<Rightarrow> int \<Rightarrow> int \<Rightarrow> source_type option \<Rightarrow> 'd \<Rightarrow> ohlcv_row list result) \<Rightarrow>
   adv_conf \<Rightarrow> int \<Rightarrow> string \<Rightarrow> 'd \<Rightarrow> rat result" where
  "adv_call get p today ticker d =
     (let ticker = py_strip (py_upper ticker);
          start = today - lookback_days p
      in case get ticker start today (adv_source p) d of
           Inl e \<Rightarrow> Inl (if e = store_error then adv_error else e)
         | Inr rows \<Rightarrow>
             (if rows = [] then Inl adv_error
              else let total = dsum (map r_volume rows)
                   in if total \<le> 0 then Inl adv_error else Inr total))"

lemma adv_call_Inr:
  assumes "adv_call get p today ticker d = Inr v"
  shows "\<exists>rows. get (py_strip (py_upper ticker)) (today - lookback_days p) today (adv_source p) d = Inr rows \<and>
    rows \<noteq> [] \<and> v = dsum (map r_volume rows) \<and> 0 < v"
  using assms by (auto simp: adv_call_def Let_def split: sum.splits if_splits)

lemma foldl_dadd_ge: "drnd a = a \<Longrightarrow> \<forall>x \<in> set xs. 0 \<le> x \<Longrightarrow> a \<le> foldl dadd a xs"
proof (induction xs arbitrary: a)
  case (Cons x xs)
  have "a \<le> dadd a x" unfolding dadd_def using Cons.prems by (intro dec.ge_fixed) auto
  also have "\<dots> \<le> foldl dadd (dadd a x) xs" using Cons.prems by (intro Cons.IH) (auto simp: dadd_def dec.idem)
  finally show ?case by simp
qed simp

text \<open>The sum is at least every summand: it is no average.\<close>

lemma dsum_ge: "\<forall>x \<in> set xs. 0 \<le> x \<Longrightarrow> y \<in> set xs \<Longrightarrow> drnd y \<le> dsum xs"
proof -
  assume pos: "\<forall>x \<in> set xs. 0 \<le> x" and "y \<in> set xs"
  then obtain us vs where xs: "xs = us @ y # vs" by (meson split_list)
  have "drnd y \<le> dadd (foldl dadd 0 us) y"
    using foldl_dadd_nonneg [of 0 us] pos by (simp add: dadd_def xs dec.mono)
  also have "\<dots> \<le> foldl dadd (dadd (foldl dadd 0 us) y) vs"
    using pos by (intro foldl_dadd_ge) (auto simp: xs dadd_def dec.idem)
  finally show ?thesis by (simp add: dsum_def xs)
qed

text \<open>Any store of the contract: the bars counted are the stored ones in the window, no others.\<close>

context bar_store
begin

lemma adv_counts_stored:
  assumes "ok s" "adv_call get p today ticker s = Inr v"
    and "bars s k = Some b" "in_window (py_strip (py_upper ticker)) (today - lookback_days p) today (adv_source p) k"
    and "row_of_bar (k, b) = Inr r" "readable s"
  shows "drnd (r_volume r) \<le> v"
proof -
  obtain rows where g: "get (py_strip (py_upper ticker)) (today - lookback_days p) today (adv_source p) s = Inr rows"
    and v: "v = dsum (map r_volume rows)" using adv_call_Inr [OF assms(2)] by blast
  have "r \<in> set rows" using get_mem [OF assms(1) g assms(3,4)] assms(5) by auto
  moreover have "\<forall>r \<in> set rows. 0 \<le> r_volume r"
  proof
    fix r assume "r \<in> set rows"
    have "\<forall>r \<in> set rows. wf_row r"
    proof (rule map_result_all)
      show "map_result row_of_bar (select_bars (py_strip (py_upper ticker)) (today - lookback_days p) today
          (adv_source p) (table s)) = Inr rows" using g get [OF assms(1)] by simp
      show "wf_row y" if "row_of_bar x = Inr y" for x y
        using that by (auto simp: row_of_bar_def split: prod.splits dest: mk_row_wf)
    qed
    then show "0 \<le> r_volume r" using \<open>r \<in> set rows\<close> by (auto simp: wf_row_def row_nonneg_def)
  qed
  ultimately show ?thesis unfolding v by (intro dsum_ge) auto
qed

end

section \<open>The cache\<close>

type_synonym adv_entry = "rat \<times> rat option \<times> py_exc option"

definition assertion_error :: py_exc where "assertion_error = OtherError ''AssertionError''"

text \<open>The first locked section: an answer, or a miss.\<close>

definition cache_lookup ::
  "rat \<Rightarrow> rat \<Rightarrow> string \<Rightarrow> (string \<rightharpoonup> adv_entry) \<Rightarrow> rat result option \<times> (string \<rightharpoonup> adv_entry)" where
  "cache_lookup ttl now key c =
     (case c key of
        None \<Rightarrow> (None, c)
      | Some (ts, value, err) \<Rightarrow>
          (if frnd (now - ts) < ttl
           then (case err of Some e \<Rightarrow> (Some (Inl e), c)
                 | None \<Rightarrow> (case value of None \<Rightarrow> (Some (Inl assertion_error), c) | Some v \<Rightarrow> (Some (Inr v), c)))
           else (None, c(key := None))))"

text \<open>The second: only an \<open>AdvProviderError\<close> is cached as a failure.\<close>

definition cache_store ::
  "rat \<Rightarrow> string \<Rightarrow> rat result \<Rightarrow> (string \<rightharpoonup> adv_entry) \<Rightarrow> (string \<rightharpoonup> adv_entry)" where
  "cache_store now key r c =
     (case r of Inr v \<Rightarrow> c(key \<mapsto> (now, Some v, None))
      | Inl e \<Rightarrow> if e = adv_error then c(key \<mapsto> (now, None, Some e)) else c)"

definition cache_call ::
  "rat \<Rightarrow> (string \<Rightarrow> 'w \<Rightarrow> rat result \<times> 'w) \<Rightarrow> rat \<Rightarrow> string \<Rightarrow> (string \<rightharpoonup> adv_entry) \<times> 'w \<Rightarrow>
   rat result \<times> (string \<rightharpoonup> adv_entry) \<times> 'w" where
  "cache_call ttl inner now ticker = (\<lambda>(c, w).
     let key = py_upper ticker
     in case cache_lookup ttl now key c of
          (Some r, c) \<Rightarrow> (r, c, w)
        | (None, c) \<Rightarrow> (case inner key w of (r, w) \<Rightarrow> (r, cache_store now key r c, w)))"

definition cache_invalidate :: "string option \<Rightarrow> (string \<rightharpoonup> adv_entry) \<Rightarrow> (string \<rightharpoonup> adv_entry)" where
  "cache_invalidate ticker c = (case ticker of None \<Rightarrow> Map.empty | Some t \<Rightarrow> c(py_upper t := None))"

lemma cache_call_fresh:
  assumes "c (py_upper ticker) = Some (ts, value, err)" "frnd (now - ts) < ttl" "value = None \<longleftrightarrow> err \<noteq> None"
  shows "cache_call ttl inner now ticker (c, w) =
    (case err of Some e \<Rightarrow> Inl e | None \<Rightarrow> Inr (the value), c, w)"
  using assms by (auto simp: cache_call_def cache_lookup_def split: option.splits)

section \<open>Concurrent calls\<close>

text \<open>Calls in flight are (key, time of the call); the history lists the inner answers with
  the time of the call that asked, and what the callers got.\<close>

record adv_sys =
  as_cache :: "string \<rightharpoonup> adv_entry"
  as_flying :: "(string \<times> rat) set"
  as_asked :: "(string \<times> rat \<times> rat result) set"
  as_answers :: "(string \<times> rat \<times> rat result) set"

inductive adv_step :: "rat \<Rightarrow> adv_sys \<Rightarrow> adv_sys \<Rightarrow> bool" for ttl where
  hit: "cache_lookup ttl now (py_upper t) (as_cache s) = (Some r, c) \<Longrightarrow>
    adv_step ttl s (s\<lparr>as_cache := c, as_answers := insert (py_upper t, now, r) (as_answers s)\<rparr>)"
| miss: "cache_lookup ttl now (py_upper t) (as_cache s) = (None, c) \<Longrightarrow>
    adv_step ttl s (s\<lparr>as_cache := c, as_flying := insert (py_upper t, now) (as_flying s)\<rparr>)"
| finish: "(key, now) \<in> as_flying s \<Longrightarrow>
    adv_step ttl s (s\<lparr>as_cache := cache_store now key r (as_cache s),
      as_asked := insert (key, now, r) (as_asked s), as_answers := insert (key, now, r) (as_answers s)\<rparr>)"
| invalidate: "adv_step ttl s (s\<lparr>as_cache := cache_invalidate t (as_cache s)\<rparr>)"

inductive adv_reaches :: "rat \<Rightarrow> adv_sys \<Rightarrow> bool" for ttl where
  start: "adv_reaches ttl \<lparr>as_cache = Map.empty, as_flying = {}, as_asked = {}, as_answers = {}\<rparr>"
| step: "adv_reaches ttl s \<Longrightarrow> adv_step ttl s s' \<Longrightarrow> adv_reaches ttl s'"

text \<open>An entry is an inner answer for its key; an answer is one that was asked for the same
  key less than \<open>ttl\<close> before.\<close>

definition entry_ok :: "(string \<times> rat \<times> rat result) set \<Rightarrow> string \<Rightarrow> adv_entry \<Rightarrow> bool" where
  "entry_ok asked key = (\<lambda>(ts, value, err).
     case (value, err) of (Some v, None) \<Rightarrow> (key, ts, Inr v) \<in> asked
     | (None, Some e) \<Rightarrow> e = adv_error \<and> (key, ts, Inl e) \<in> asked
     | _ \<Rightarrow> False)"

definition answer_ok :: "rat \<Rightarrow> (string \<times> rat \<times> rat result) set \<Rightarrow> string \<times> rat \<times> rat result \<Rightarrow> bool" where
  "answer_ok ttl asked = (\<lambda>(key, now, r).
     (key, now, r) \<in> asked \<or> (\<exists>ts. (key, ts, r) \<in> asked \<and> now - ts < ttl \<and> (\<forall>e. r = Inl e \<longrightarrow> e = adv_error)))"

definition adv_inv :: "rat \<Rightarrow> adv_sys \<Rightarrow> bool" where
  "adv_inv ttl s \<longleftrightarrow> (\<forall>key x. as_cache s key = Some x \<longrightarrow> entry_ok (as_asked s) key x) \<and>
     (\<forall>a \<in> as_answers s. answer_ok ttl (as_asked s) a)"

lemma entry_ok_mono: "entry_ok A key x \<Longrightarrow> A \<subseteq> B \<Longrightarrow> entry_ok B key x"
  by (auto simp: entry_ok_def split: prod.splits option.splits)

lemma answer_ok_mono: "answer_ok ttl A a \<Longrightarrow> A \<subseteq> B \<Longrightarrow> answer_ok ttl B a"
  by (auto simp: answer_ok_def split: prod.splits)

lemma lookup_only_drops:
  "cache_lookup ttl now key c = (r, c') \<Longrightarrow> c' k = Some x \<Longrightarrow> c k = Some x"
  by (auto simp: cache_lookup_def split: option.splits prod.splits if_splits)

lemma lookup_answer:
  assumes "cache_lookup ttl now key c = (Some r, c')" "\<forall>x. c key = Some x \<longrightarrow> entry_ok A key x" "frnd ttl = ttl"
  shows "\<exists>ts. (key, ts, r) \<in> A \<and> now - ts < ttl \<and> (\<forall>e. r = Inl e \<longrightarrow> e = adv_error)"
proof -
  obtain ts v err where c: "c key = Some (ts, v, err)" using assms(1)
    by (cases "c key") (auto simp: cache_lookup_def)
  then have f: "frnd (now - ts) < ttl" using assms(1) by (auto simp: cache_lookup_def split: if_splits)
  then have "now - ts < ttl" using assms(3) flt.mono [of ttl "now - ts"] by (cases "now - ts < ttl") auto
  moreover have "entry_ok A key (ts, v, err)" using assms(2) c by blast
  ultimately show ?thesis using c assms(1) f
    by (intro exI [of _ ts]) (auto simp: cache_lookup_def entry_ok_def split: option.splits)
qed

lemma store_entry:
  "cache_store now key r c k = Some x \<Longrightarrow> c k = Some x \<or> k = key \<and> entry_ok (insert (key, now, r) A) key x"
  by (auto simp: cache_store_def entry_ok_def split: sum.splits if_splits)

lemma invalidate_only_drops: "cache_invalidate t c k = Some x \<Longrightarrow> c k = Some x"
  by (auto simp: cache_invalidate_def split: option.splits if_splits)

lemma adv_inv_step:
  assumes "adv_step ttl s s'" "adv_inv ttl s" "frnd ttl = ttl"
  shows "adv_inv ttl s'"
  using assms(1)
proof (cases rule: adv_step.cases)
  case (hit now t r c)
  have "\<exists>ts. (py_upper t, ts, r) \<in> as_asked s \<and> now - ts < ttl \<and> (\<forall>e. r = Inl e \<longrightarrow> e = adv_error)"
    using hit(2) assms(2,3) by (intro lookup_answer) (auto simp: adv_inv_def)
  then have "answer_ok ttl (as_asked s) (py_upper t, now, r)" by (auto simp: answer_ok_def)
  with hit assms(2) show ?thesis by (auto simp: adv_inv_def dest: lookup_only_drops)
next
  case (miss now t c)
  with assms(2) show ?thesis by (auto simp: adv_inv_def dest: lookup_only_drops)
next
  case (finish key now r)
  have "entry_ok (insert (key, now, r) (as_asked s)) k x"
    if c: "cache_store now key r (as_cache s) k = Some x" for k x
  proof -
    consider "as_cache s k = Some x" | "k = key" "entry_ok (insert (key, now, r) (as_asked s)) key x"
      using store_entry [OF c] by blast
    then show ?thesis
    proof cases
      case 1
      then have "entry_ok (as_asked s) k x" using assms(2) unfolding adv_inv_def by blast
      then show ?thesis by (rule entry_ok_mono) blast
    qed simp
  qed
  moreover have "answer_ok ttl (insert (key, now, r) (as_asked s)) a" if "a \<in> as_answers s" for a
    using that assms(2) by (auto simp: adv_inv_def intro: answer_ok_mono)
  moreover have "answer_ok ttl (insert (key, now, r) (as_asked s)) (key, now, r)" by (simp add: answer_ok_def)
  ultimately show ?thesis using finish by (auto simp: adv_inv_def)
next
  case (invalidate t)
  with assms(2) show ?thesis by (auto simp: adv_inv_def dest: invalidate_only_drops)
qed

lemma adv_reaches_inv: "adv_reaches ttl s \<Longrightarrow> frnd ttl = ttl \<Longrightarrow> adv_inv ttl s"
proof (induction rule: adv_reaches.induct)
  case (step s s')
  then show ?case using adv_inv_step by blast
qed (simp add: adv_inv_def)

section \<open>Properties\<close>

text \<open>
  Whatever calls and invalidations interleave, a caller of the cache gets an answer the store
  gave for that very ticker, asked less than \<open>ttl_seconds\<close> before the call; a cached failure is
  always an unavailable volume, never another exception.
\<close>

theorem cached_volume_is_recent:
  assumes "adv_reaches ttl s" "frnd ttl = ttl" "(key, now, r) \<in> as_answers s"
  shows "(key, now, r) \<in> as_asked s \<or>
    (\<exists>ts. (key, ts, r) \<in> as_asked s \<and> now - ts < ttl \<and> (\<forall>e. r = Inl e \<longrightarrow> e = adv_error))"
  using adv_reaches_inv [OF assms(1,2)] assms(3) by (auto simp: adv_inv_def answer_ok_def)

text \<open>A miss at time 10, its answer, and a hit at time 20.\<close>

definition adv_ex1 :: adv_sys where
  "adv_ex1 = \<lparr>as_cache = Map.empty, as_flying = {(''SBER'', 10)}, as_asked = {}, as_answers = {}\<rparr>"

definition adv_ex2 :: adv_sys where
  "adv_ex2 = \<lparr>as_cache = [''SBER'' \<mapsto> (10, Some 500, None)], as_flying = {(''SBER'', 10)},
     as_asked = {(''SBER'', 10, Inr 500)}, as_answers = {(''SBER'', 10, Inr 500)}\<rparr>"

definition adv_ex3 :: adv_sys where
  "adv_ex3 = adv_ex2\<lparr>as_answers := {(''SBER'', 20, Inr 500), (''SBER'', 10, Inr 500)}\<rparr>"

lemma adv_ex3_reached: "adv_reaches 300 adv_ex3"
proof -
  have "adv_reaches 300 adv_ex1"
    using adv_step.miss [of 300 10 "''SBER''" "\<lparr>as_cache = Map.empty, as_flying = {}, as_asked = {}, as_answers = {}\<rparr>"]
    by (intro adv_reaches.step [OF adv_reaches.start])
      (simp add: adv_ex1_def cache_lookup_def py_upper_def upper_char_def)
  moreover have "adv_step 300 adv_ex1 adv_ex2"
    using adv_step.finish [of "''SBER''" 10 adv_ex1 300 "Inr 500"]
    by (simp add: adv_ex1_def adv_ex2_def cache_store_def)
  moreover have "adv_step 300 adv_ex2 adv_ex3"
    using adv_step.hit [of 300 20 "''SBER''" adv_ex2 "Inr 500" "as_cache adv_ex2"]
    by (simp add: adv_ex2_def adv_ex3_def cache_lookup_def py_upper_def upper_char_def)
  ultimately show ?thesis by (meson adv_reaches.step)
qed

theorem cached_volume_is_recent_witness:
  "\<exists>ts. (''SBER'', ts, Inr 500) \<in> as_asked adv_ex3 \<and> 20 - ts < 300"
  using cached_volume_is_recent [OF adv_ex3_reached, of "''SBER''" 20 "Inr 500"]
  by (auto simp: adv_ex3_def adv_ex2_def)

text \<open>
  The provider answers with the sum of the daily volumes of the window, not with their
  average, so the five percent participation of the slicer is five percent of about twenty days:
  when every one of \<open>n\<close> bars of the store has the volume \<open>V\<close>, an order of up to \<open>n * V / 20\<close>
  shares, a whole day's volume with twenty bars, goes out as one order.
\<close>

theorem slicer_volume_is_a_sum:
  assumes "adv_call (pg_query_ohlcv) p today ticker d = Inr adv"
    and "pg_query_ohlcv (py_strip (py_upper ticker)) (today - lookback_days p) today (adv_source p) d = Inr rows"
    and "\<forall>r \<in> set rows. r_volume r = of_int V" "0 < V" "int (length rows) * V * 5 \<le> 10 ^ 28"
    and "0 < qty" "20 * qty \<le> of_int (int (length rows) * V)"
  shows "adv = of_int (int (length rows) * V) \<and> plan_slices adv qty now = [qty]"
proof -
  have v: "adv = dsum (map r_volume rows)" "0 < adv" using adv_call_Inr [OF assms(1)] assms(2) by auto
  have le: "int (length rows) * V \<le> 10 ^ 28" using assms(4,5) by (simp add: mult.commute)
  have "map r_volume rows = replicate (length rows) (of_int V)"
    using assms(3) by (simp add: map_eq_conv flip: map_replicate_const)
  then have adv: "adv = of_int (int (length rows) * V)"
    using dsum_replicate [of V "length rows"] assms(4) le v(1) by (simp only:)
  let ?n = "int (length rows) * V"
  have "dmul adv CHUNK_PCT = of_int (?n * 5)"
    using assms(4,5) drnd_of_int [of "?n * 5"] by (simp add: dmul_def adv CHUNK_PCT_def)
  moreover have "drnd (of_int (?n * 5) / 100) = of_int (?n * 5) / 100"
    using assms(4,5) by (intro drnd_exactI [of _ 2 "?n * 5"]) auto
  ultimately have c: "chunk_size \<lparr>adv_shares = adv, parent_qty = qty\<rparr> = of_int (?n * 5) / 100"
    by (simp add: chunk_size_def ddiv_def)
  have "mk_slicer adv qty = Inr \<lparr>adv_shares = adv, parent_qty = qty\<rparr>"
    using v(2) assms(6) by (simp add: mk_slicer_def)
  moreover have "qty \<le> of_int (?n * 5) / 100" using assms(7) by (simp add: mult.commute)
  ultimately show ?thesis using c adv by (simp add: plan_slices_def slices_def)
qed

text \<open>Twenty days of ten shares each: an order of ten shares is one slice.\<close>

definition ex_month :: pg_db where
  "ex_month = ex_pg\<lparr>p_ohlcv := map (\<lambda>i. ((''SBER'', i, Tkf), row_bar_of ex_bar_row)) [1..20]\<rparr>"

lemma ex_month_query:
  "pg_query_ohlcv ''SBER'' 0 20 (Some Tkf) ex_month = Inr (map (\<lambda>i. ex_bar_row\<lparr>r_ts := i\<rparr>) [1..20])"
proof -
  have e: "row_of_bar ((''SBER'', i, Tkf), row_bar_of ex_bar_row) = Inr (ex_bar_row\<lparr>r_ts := i\<rparr>)" for i
  proof -
    have "wf_row (ex_bar_row\<lparr>r_ts := i\<rparr>)"
      using ex_bar_wf by (simp add: wf_row_def row_nonneg_def ohlc_consistent_def)
    from row_of_stored [OF this] show ?thesis by (simp add: row_key_def row_bar_of_def ex_bar_row_def)
  qed
  have m: "map_result row_of_bar (map (\<lambda>i. ((''SBER'', i, Tkf), row_bar_of ex_bar_row)) xs) =
      Inr (map (\<lambda>i. ex_bar_row\<lparr>r_ts := i\<rparr>) xs)" for xs
    by (induction xs) (simp_all add: e)
  have "select_bars ''SBER'' 0 20 (Some Tkf) (p_ohlcv ex_month) = p_ohlcv ex_month"
    by (simp add: select_bars_def select_by_def in_window_def ex_month_def upto.simps)
  then show ?thesis by (simp add: pg_query_ohlcv_def ex_month_def m)
qed

definition ex_adv_conf :: adv_conf where
  "ex_adv_conf = \<lparr>lookback_days = 20, adv_source = Some Tkf\<rparr>"

theorem slicer_volume_is_a_sum_witness:
  "adv_call pg_query_ohlcv ex_adv_conf 20 ''SBER'' ex_month = Inr 200 \<and> plan_slices 200 10 0 = [10]"
proof -
  let ?rows = "map (\<lambda>i. ex_bar_row\<lparr>r_ts := i\<rparr>) [1..20]"
  have t: "py_strip ''SBER'' = ''SBER''"
    by (simp add: py_strip_def is_space_def)
  have "map r_volume ?rows = replicate 20 (of_int 10)"
    by (simp add: ex_bar_row_def comp_def map_replicate_const)
  then have "dsum (map r_volume ?rows) = 200" using dsum_replicate [of 10 20] by simp
  then have a: "adv_call pg_query_ohlcv ex_adv_conf 20 ''SBER'' ex_month = Inr 200"
    using ex_month_query by (simp add: adv_call_def ex_adv_conf_def t del: map_map)
  have "200 = (of_int (int (length ?rows) * 10) :: rat) \<and> plan_slices 200 10 0 = [10]"
    by (rule slicer_volume_is_a_sum [OF a])
      (use ex_month_query in \<open>simp_all add: t ex_adv_conf_def, simp_all add: ex_bar_row_def\<close>)
  with a show ?thesis by blast
qed

end
