(* ===== verification/Adjustment.thy ===== *)
theory Adjustment
  imports DataModels
begin

text \<open>
  \<open>src/data/adjustment.py\<close>: split and dividend adjustment of the stored bars. Every product and
  quotient is rounded to 28 digits; the adjusted rows are copies that no validator sees again,
  so that they are still well formed is a theorem here, not a check of the code.
\<close>

section \<open>Splits\<close>

definition split_factor :: "corporate_action \<Rightarrow> rat result" where
  "split_factor a =
     (if ca_kind a \<noteq> Split then Inl ValueError
      else if ca_value a \<le> 0 then Inl ValueError
      else Inr (ca_value a))"

definition scale_row :: "rat \<Rightarrow> rat \<Rightarrow> ohlcv_row \<Rightarrow> ohlcv_row" where
  "scale_row p v r = r\<lparr>r_open := dmul (r_open r) p, r_high := dmul (r_high r) p,
     r_low := dmul (r_low r) p, r_close := dmul (r_close r) p,
     r_adj_close := dmul (r_adj_close r) p, r_volume := dmul (r_volume r) v\<rparr>"

definition apply_one :: "ohlcv_row \<Rightarrow> rat \<Rightarrow> ohlcv_row" where
  "apply_one r factor = scale_row (ddiv 1 factor) factor r"

text \<open>\<open>sorted(..., key=lambda a: a.ts)\<close> is stable, as \<open>sort_key\<close> is.\<close>

definition actions_of :: "action_kind \<Rightarrow> corporate_action list \<Rightarrow> corporate_action list" where
  "actions_of k acts = sort_key ca_ts (filter (\<lambda>a. ca_kind a = k) acts)"

fun cumulative_split :: "int \<Rightarrow> rat \<times> rat \<Rightarrow> corporate_action list \<Rightarrow> (rat \<times> rat) result" where
  "cumulative_split ts pv [] = Inr pv"
| "cumulative_split ts (p, v) (a # as) =
     (if ca_ts a \<le> ts then cumulative_split ts (p, v) as
      else bindR (split_factor a) (\<lambda>f. cumulative_split ts (ddiv p f, dmul v f) as))"

definition split_row :: "corporate_action list \<Rightarrow> ohlcv_row \<Rightarrow> ohlcv_row result" where
  "split_row splits r =
     bindR (cumulative_split (r_ts r) (1, 1) splits) (\<lambda>(p, v).
       Inr (if p = 1 then r else scale_row p v r))"

definition apply_split_adjustment ::
  "ohlcv_row list \<Rightarrow> corporate_action list \<Rightarrow> ohlcv_row list result" where
  "apply_split_adjustment rows acts =
     (let splits = actions_of Split acts
      in if splits = [] then Inr rows else map_result (split_row splits) rows)"

section \<open>Dividends\<close>

definition dividend_amount :: "corporate_action \<Rightarrow> rat result" where
  "dividend_amount a =
     (if ca_kind a \<noteq> Dividend then Inl ValueError
      else if ca_value a < 0 then Inl ValueError
      else Inr (ca_value a))"

fun cumulative_dividend :: "int \<Rightarrow> rat \<Rightarrow> corporate_action list \<Rightarrow> rat result" where
  "cumulative_dividend ts s [] = Inr s"
| "cumulative_dividend ts s (a # as) =
     (if ca_ts a \<le> ts then cumulative_dividend ts s as
      else bindR (dividend_amount a) (\<lambda>d. cumulative_dividend ts (dadd s d) as))"

definition dividend_row :: "corporate_action list \<Rightarrow> ohlcv_row \<Rightarrow> ohlcv_row result" where
  "dividend_row divs r =
     bindR (cumulative_dividend (r_ts r) 0 divs) (\<lambda>d.
       if d = 0 then Inr r
       else let new_adj_close = dsub (r_adj_close r) d
            in if new_adj_close < 0 then Inl ValueError
               else Inr (r\<lparr>r_adj_close := new_adj_close\<rparr>))"

definition apply_dividend_adjustment ::
  "ohlcv_row list \<Rightarrow> corporate_action list \<Rightarrow> ohlcv_row list result" where
  "apply_dividend_adjustment rows acts =
     (let divs = actions_of Dividend acts
      in if divs = [] then Inr rows else map_result (dividend_row divs) rows)"

definition apply_adjustment ::
  "ohlcv_row list \<Rightarrow> corporate_action list \<Rightarrow> ohlcv_row list result" where
  "apply_adjustment rows acts =
     bindR (apply_split_adjustment rows acts) (\<lambda>after. apply_dividend_adjustment after acts)"

section \<open>Factors\<close>

lemma pow2_step: "(x :: rat) ^ (2 * Suc n) * a = x ^ (2 * n) * (x ^ 2 * a)"
  by (simp add: power2_eq_square mult_ac)

lemma cumulative_split_bounds:
  assumes "cumulative_split ts (p, v) as = Inr (p', v')" "0 < p" "0 < v"
  shows "0 < p' \<and> 0 < v' \<and>
    (1 - dec_u) ^ (2 * length as) * (p * v) \<le> p' * v' \<and> p' * v' \<le> (1 + dec_u) ^ (2 * length as) * (p * v)"
  using assms
proof (induction as arbitrary: p v)
  case (Cons a as)
  have w: "0 \<le> 1 - dec_u" "1 - dec_u \<le> 1" "1 \<le> 1 + dec_u" by (simp_all add: dec_u_def)
  have pv: "0 < p * v" using Cons.prems by simp
  show ?case
  proof (cases "ca_ts a \<le> ts")
    case True
    have "(1 - dec_u) ^ (2 * length (a # as)) * (p * v) \<le> (1 - dec_u) ^ (2 * length as) * (p * v)"
      using w pv by (intro mult_right_mono power_decreasing) simp_all
    moreover have "(1 + dec_u) ^ (2 * length as) * (p * v) \<le> (1 + dec_u) ^ (2 * length (a # as)) * (p * v)"
      using w pv by (intro mult_right_mono power_increasing) simp_all
    moreover have "0 < p' \<and> 0 < v' \<and> (1 - dec_u) ^ (2 * length as) * (p * v) \<le> p' * v' \<and>
        p' * v' \<le> (1 + dec_u) ^ (2 * length as) * (p * v)"
      using Cons.IH Cons.prems True by simp
    ultimately show ?thesis by linarith
  next
    case False
    then obtain f where f: "split_factor a = Inr f" and c: "cumulative_split ts (ddiv p f, dmul v f) as = Inr (p', v')"
      using Cons.prems by (auto simp: bindR_Inr_iff)
    have f0: "0 < f" using f by (auto simp: split_factor_def split: if_splits)
    have pos: "0 < ddiv p f" "0 < dmul v f"
      using Cons.prems f0 by (simp_all add: ddiv_def dmul_def drnd_pos)
    have lo: "(1 - dec_u) * (p / f) \<le> ddiv p f" "(1 - dec_u) * (v * f) \<le> dmul v f"
      unfolding ddiv_def dmul_def using Cons.prems f0 by (intro dec.lower; simp)+
    have hi: "ddiv p f \<le> (1 + dec_u) * (p / f)" "dmul v f \<le> (1 + dec_u) * (v * f)"
      unfolding ddiv_def dmul_def using Cons.prems f0 by (intro dec.upper; simp)+
    have e: "(x * (p / f)) * (x * (v * f)) = x ^ 2 * (p * v)" for x
      using f0 by (simp add: power2_eq_square)
    have "(1 - dec_u) ^ 2 * (p * v) \<le> ddiv p f * dmul v f"
      unfolding e [symmetric] using lo w pos Cons.prems f0 by (intro mult_mono) simp_all
    then have l: "(1 - dec_u) ^ (2 * length (a # as)) * (p * v) \<le> (1 - dec_u) ^ (2 * length as) * (ddiv p f * dmul v f)"
      unfolding length_Cons pow2_step using w by (intro mult_left_mono) simp_all
    have "ddiv p f * dmul v f \<le> (1 + dec_u) ^ 2 * (p * v)"
      unfolding e [symmetric] using hi w pos Cons.prems f0 by (intro mult_mono) simp_all
    then have u: "(1 + dec_u) ^ (2 * length as) * (ddiv p f * dmul v f) \<le> (1 + dec_u) ^ (2 * length (a # as)) * (p * v)"
      unfolding length_Cons pow2_step using w by (intro mult_left_mono) simp_all
    show ?thesis using Cons.IH [OF c pos] l u by linarith
  qed
qed simp

text \<open>The result does not depend on the starting factors being a value; it fails exactly on a
  later action with an invalid ratio.\<close>

lemma cumulative_split_ok:
  "(\<exists>pv. cumulative_split ts (p, v) as = Inr pv) \<longleftrightarrow>
   (\<forall>a \<in> set as. ts < ca_ts a \<longrightarrow> ca_kind a = Split \<and> 0 < ca_value a)"
  by (induction as arbitrary: p v) (auto simp: bindR_Inr_iff split_factor_def split: if_splits)

lemma cumulative_split_old: "\<forall>a \<in> set as. ca_ts a \<le> ts \<Longrightarrow> cumulative_split ts pv as = Inr pv"
  by (induction as arbitrary: pv) (auto split: prod.splits)

lemma cumulative_dividend_nonneg:
  "cumulative_dividend ts s as = Inr d \<Longrightarrow> 0 \<le> s \<Longrightarrow> s = drnd s \<Longrightarrow> s \<le> d \<and> d = drnd d"
proof (induction as arbitrary: s)
  case (Cons a as)
  show ?case
  proof (cases "ca_ts a \<le> ts")
    case False
    then obtain x where x: "dividend_amount a = Inr x" "cumulative_dividend ts (dadd s x) as = Inr d"
      using Cons.prems by (auto simp: bindR_Inr_iff)
    have x0: "0 \<le> x" using x(1) by (auto simp: dividend_amount_def split: if_splits)
    have "s \<le> dadd s x" unfolding dadd_def using Cons.prems x0 by (intro dec.ge_fixed) simp_all
    moreover have "dadd s x = drnd (dadd s x)" by (simp add: dadd_def dec.idem)
    ultimately show ?thesis using Cons.IH [OF x(2)] Cons.prems by linarith
  qed (use Cons in auto)
qed simp

section \<open>What the adjusted rows are\<close>

lemma scale_row_wf: "wf_row r \<Longrightarrow> 0 \<le> p \<Longrightarrow> 0 \<le> v \<Longrightarrow> wf_row (scale_row p v r)"
  by (auto simp: wf_row_def row_nonneg_def ohlc_consistent_def scale_row_def intro: dmul_mono dmul_nonneg)

lemma split_row_cases:
  assumes "split_row splits r = Inr r'"
  obtains p v where "cumulative_split (r_ts r) (1, 1) splits = Inr (p, v)" "0 < p" "0 < v"
    "r' = (if p = 1 then r else scale_row p v r)"
proof -
  obtain p v where c: "cumulative_split (r_ts r) (1, 1) splits = Inr (p, v)"
    "r' = (if p = 1 then r else scale_row p v r)"
    using assms by (auto simp: split_row_def bindR_Inr_iff)
  from that [OF c(1) _ _ c(2)] cumulative_split_bounds [OF c(1)] show ?thesis by simp
qed

definition same_bar :: "ohlcv_row \<Rightarrow> ohlcv_row \<Rightarrow> bool" where
  "same_bar r r' \<longleftrightarrow> r_ticker r' = r_ticker r \<and> r_ts r' = r_ts r \<and> r_source r' = r_source r"

lemma same_bar_simps [simp]: "same_bar r (scale_row p v r)" "same_bar r r"
  by (simp_all add: same_bar_def scale_row_def)

lemma split_row_keeps: "split_row splits r = Inr r' \<Longrightarrow> same_bar r r' \<and> (wf_row r \<longrightarrow> wf_row r')"
  by (elim split_row_cases) (auto intro: scale_row_wf)

lemma dividend_row_cases:
  assumes "dividend_row divs r = Inr r'"
  obtains d where "cumulative_dividend (r_ts r) 0 divs = Inr d" "0 \<le> d"
    "r' = r \<or> r' = r\<lparr>r_adj_close := dsub (r_adj_close r) d\<rparr> \<and> 0 \<le> dsub (r_adj_close r) d"
proof -
  obtain d where d: "cumulative_dividend (r_ts r) 0 divs = Inr d"
    "r' = r \<or> r' = r\<lparr>r_adj_close := dsub (r_adj_close r) d\<rparr> \<and> 0 \<le> dsub (r_adj_close r) d"
    using assms by (auto simp: dividend_row_def bindR_Inr_iff Let_def not_less split: if_splits)
  from that [OF d(1) _ d(2)] cumulative_dividend_nonneg [OF d(1)] show ?thesis by simp
qed

lemma dividend_row_keeps: "dividend_row divs r = Inr r' \<Longrightarrow> same_bar r r' \<and> (wf_row r \<longrightarrow> wf_row r')"
  by (elim dividend_row_cases) (auto simp: same_bar_def wf_row_def row_nonneg_def ohlc_consistent_def)

lemma stage_keeps:
  assumes "\<And>r r'. f r = Inr r' \<Longrightarrow> same_bar r r' \<and> (wf_row r \<longrightarrow> wf_row r')"
    and "(if c then Inr rows else map_result f rows) = Inr rows'"
  shows "list_all2 (\<lambda>r r'. same_bar r r' \<and> (wf_row r \<longrightarrow> wf_row r')) rows rows'"
proof (cases c)
  case True
  then show ?thesis using assms(2) by (auto simp: same_bar_def intro!: list_all2_refl)
next
  case False
  then have "map_result f rows = Inr rows'" using assms(2) by simp
  from map_result_Inr [OF this] show ?thesis by (rule list_all2_mono) (rule assms(1))
qed

lemma splits_keep:
  "apply_split_adjustment rows acts = Inr rows' \<Longrightarrow>
   list_all2 (\<lambda>r r'. same_bar r r' \<and> (wf_row r \<longrightarrow> wf_row r')) rows rows'"
  unfolding apply_split_adjustment_def Let_def by (rule stage_keeps [OF split_row_keeps])

lemma dividends_keep:
  "apply_dividend_adjustment rows acts = Inr rows' \<Longrightarrow>
   list_all2 (\<lambda>r r'. same_bar r r' \<and> (wf_row r \<longrightarrow> wf_row r')) rows rows'"
  unfolding apply_dividend_adjustment_def Let_def by (rule stage_keeps [OF dividend_row_keeps])

text \<open>
  C20. Adjustment is type correct although no validator runs on the copies: every output row is
  a valid \<open>OHLCVRow\<close> if its input row was (low at most open and close, both at most high, no
  negative field), with the same ticker, date and source, one output per input in the same order.
\<close>

theorem adjusted_rows_well_formed:
  assumes "apply_adjustment rows acts = Inr rows'"
  shows "list_all2 (\<lambda>r r'. same_bar r r' \<and> (wf_row r \<longrightarrow> wf_row r')) rows rows'"
proof -
  obtain mid where m: "apply_split_adjustment rows acts = Inr mid" "apply_dividend_adjustment mid acts = Inr rows'"
    using assms by (auto simp: apply_adjustment_def bindR_Inr_iff)
  show ?thesis
    by (rule list_all2_trans [OF _ splits_keep [OF m(1)] dividends_keep [OF m(2)]]) (auto simp: same_bar_def)
qed

lemma length_actions_of: "length (actions_of k acts) = length (filter (\<lambda>a. ca_kind a = k) acts)"
  by (simp add: actions_of_def)

lemma scaled_turnover:
  assumes "0 \<le> c" "0 \<le> v" "0 \<le> p" "0 \<le> q"
  shows "(1 - dec_u) ^ 2 * (p * q * (c * v)) \<le> dmul c p * dmul v q" "dmul c p * dmul v q \<le> (1 + dec_u) ^ 2 * (p * q * (c * v))"
proof -
  have w: "0 \<le> 1 - dec_u" "0 \<le> 1 + dec_u" by (simp_all add: dec_u_def)
  have e: "(x * (c * p)) * (x * (v * q)) = x ^ 2 * (p * q * (c * v))" for x
    by (simp add: power2_eq_square)
  have "(1 - dec_u) * (c * p) \<le> dmul c p" "(1 - dec_u) * (v * q) \<le> dmul v q"
    unfolding dmul_def using assms by (intro dec.lower; simp)+
  then show "(1 - dec_u) ^ 2 * (p * q * (c * v)) \<le> dmul c p * dmul v q"
    unfolding e [symmetric] using w assms by (intro mult_mono) (simp_all add: dmul_nonneg)
  have "dmul c p \<le> (1 + dec_u) * (c * p)" "dmul v q \<le> (1 + dec_u) * (v * q)"
    unfolding dmul_def using assms by (intro dec.upper; simp)+
  then show "dmul c p * dmul v q \<le> (1 + dec_u) ^ 2 * (p * q * (c * v))"
    unfolding e [symmetric] using w assms by (intro mult_mono) (simp_all add: dmul_nonneg)
qed

text \<open>
  Splits keep the traded value: for every row, price times volume after the adjustment
  is the one before, up to two roundings per split and two for the row itself, whatever
  ratios are chained.
\<close>

theorem splits_keep_turnover:
  assumes "apply_split_adjustment rows acts = Inr rows'" "i < length rows" "row_nonneg (rows ! i)"
  shows "(1 - dec_u) ^ (2 * length acts + 2) * (r_close (rows ! i) * r_volume (rows ! i))
           \<le> r_close (rows' ! i) * r_volume (rows' ! i) \<and>
         r_close (rows' ! i) * r_volume (rows' ! i)
           \<le> (1 + dec_u) ^ (2 * length acts + 2) * (r_close (rows ! i) * r_volume (rows ! i))"
proof -
  let ?r = "rows ! i" and ?n = "length acts"
  let ?t = "r_close ?r * r_volume ?r"
  have w: "0 \<le> 1 - dec_u" "1 - dec_u \<le> 1" "1 \<le> 1 + dec_u" by (simp_all add: dec_u_def)
  have t0: "0 \<le> r_close ?r" "0 \<le> r_volume ?r" "0 \<le> ?t" using assms(3) by (simp_all add: row_nonneg_def)
  have id: "(1 - dec_u) ^ (2 * ?n + 2) * ?t \<le> ?t" "?t \<le> (1 + dec_u) ^ (2 * ?n + 2) * ?t"
    using t0 w mult_right_mono [of "(1 - dec_u) ^ (2 * ?n + 2)" 1 ?t] mult_right_mono [of 1 "(1 + dec_u) ^ (2 * ?n + 2)" ?t]
    by (simp_all add: power_le_one one_le_power del: power_Suc)
  show ?thesis
  proof (cases "actions_of Split acts = []")
    case True
    then show ?thesis using assms(1) id by (simp add: apply_split_adjustment_def Let_def)
  next
    case False
    then have "map_result (split_row (actions_of Split acts)) rows = Inr rows'"
      using assms(1) by (simp add: apply_split_adjustment_def Let_def)
    then have "split_row (actions_of Split acts) ?r = Inr (rows' ! i)"
      using assms(2) by (auto dest!: map_result_Inr list_all2_nthD)
    then obtain p v where c: "cumulative_split (r_ts ?r) (1, 1) (actions_of Split acts) = Inr (p, v)"
      "0 < p" "0 < v" "rows' ! i = (if p = 1 then ?r else scale_row p v ?r)"
      by (rule split_row_cases)
    have len: "length (actions_of Split acts) \<le> ?n" by (simp add: length_actions_of)
    have "(1 - dec_u) ^ (2 * ?n) \<le> (1 - dec_u) ^ (2 * length (actions_of Split acts))"
      using w len by (intro power_decreasing) simp_all
    moreover have "(1 + dec_u) ^ (2 * length (actions_of Split acts)) \<le> (1 + dec_u) ^ (2 * ?n)"
      using w len by (intro power_increasing) simp_all
    ultimately have pv: "(1 - dec_u) ^ (2 * ?n) \<le> p * v" "p * v \<le> (1 + dec_u) ^ (2 * ?n)"
      using cumulative_split_bounds [OF c(1)] by auto
    show ?thesis
    proof (cases "p = 1")
      case True
      then show ?thesis using c(4) id by simp
    next
      case False
      have out: "r_close (rows' ! i) * r_volume (rows' ! i) = dmul (r_close ?r) p * dmul (r_volume ?r) v"
        using c(4) False by (simp add: scale_row_def)
      note b = scaled_turnover [of "r_close ?r" "r_volume ?r" p v]
      have "(1 - dec_u) ^ (2 * ?n + 2) * ?t = (1 - dec_u) ^ 2 * ((1 - dec_u) ^ (2 * ?n) * ?t)"
        "(1 + dec_u) ^ (2 * ?n + 2) * ?t = (1 + dec_u) ^ 2 * ((1 + dec_u) ^ (2 * ?n) * ?t)"
        by (simp_all only: power_add mult_ac)
      moreover have "(1 - dec_u) ^ 2 * ((1 - dec_u) ^ (2 * ?n) * ?t) \<le> (1 - dec_u) ^ 2 * (p * v * ?t)"
        "(1 + dec_u) ^ 2 * (p * v * ?t) \<le> (1 + dec_u) ^ 2 * ((1 + dec_u) ^ (2 * ?n) * ?t)"
        using pv t0 by (intro mult_left_mono mult_right_mono; simp)+
      ultimately show ?thesis unfolding out using b t0 c(2,3) by linarith
    qed
  qed
qed


definition adj_ex_row :: ohlcv_row where
  "adj_ex_row = \<lparr>r_ticker = ''SBER'', r_ts = 10, r_open = 100, r_high = 100, r_low = 100, r_close = 100,
     r_volume = 10, r_adj_close = 100, r_source = Tkf\<rparr>"

definition ex_split :: corporate_action where
  "ex_split = \<lparr>ca_ticker = ''SBER'', ca_ts = 20, ca_kind = Split, ca_value = 2, ca_source = Tkf\<rparr>"

definition ex_halved :: ohlcv_row where
  "ex_halved = adj_ex_row\<lparr>r_open := 50, r_high := 50, r_low := 50, r_close := 50, r_volume := 20, r_adj_close := 50\<rparr>"

lemma drnd_half: "drnd (1 / 2) = 1 / 2"
  by (rule drnd_exactI [of _ 1 5]) simp_all

lemma ex_adjusted: "apply_split_adjustment [adj_ex_row] [ex_split] = Inr [ex_halved]"
  by (simp add: apply_split_adjustment_def actions_of_def ex_split_def split_row_def adj_ex_row_def
      split_factor_def scale_row_def ddiv_def dmul_def drnd_half ex_halved_def)

lemma ex_no_dividends: "apply_dividend_adjustment rows [ex_split] = Inr rows"
  by (simp add: apply_dividend_adjustment_def actions_of_def ex_split_def)

theorem adjusted_rows_well_formed_witness:
  "apply_adjustment [adj_ex_row] [ex_split] = Inr [ex_halved] \<and> same_bar adj_ex_row ex_halved"
proof -
  have a: "apply_adjustment [adj_ex_row] [ex_split] = Inr [ex_halved]"
    by (simp add: apply_adjustment_def ex_adjusted ex_no_dividends)
  from adjusted_rows_well_formed [OF a] a show ?thesis by simp
qed

theorem splits_keep_turnover_witness:
  "(1 - dec_u) ^ 4 * (100 * 10) \<le> 50 * 20 \<and> (50 :: rat) * 20 \<le> (1 + dec_u) ^ 4 * (100 * 10)"
  using splits_keep_turnover [OF ex_adjusted, of 0]
  by (simp add: adj_ex_row_def ex_halved_def row_nonneg_def)

section \<open>Which rows change, and when it fails\<close>

lemma split_row_ok:
  "(\<exists>r'. split_row splits r = Inr r') \<longleftrightarrow>
   (\<forall>a \<in> set splits. r_ts r < ca_ts a \<longrightarrow> ca_kind a = Split \<and> 0 < ca_value a)"
proof -
  have "(\<exists>r'. split_row splits r = Inr r') \<longleftrightarrow> (\<exists>pv. cumulative_split (r_ts r) (1, 1) splits = Inr pv)"
    by (auto simp: split_row_def bindR_Inr_iff)
  then show ?thesis by (simp only: cumulative_split_ok)
qed

lemma map_result_ok: "(\<exists>ys. map_result f xs = Inr ys) \<longleftrightarrow> (\<forall>x \<in> set xs. \<exists>y. f x = Inr y)"
  by (induction xs) (auto simp: bindR_Inr_iff)

lemma set_actions_of [simp]: "set (actions_of k acts) = {a \<in> set acts. ca_kind a = k}"
  by (auto simp: actions_of_def)

text \<open>
  Look-ahead: a row is only adjusted by splits that take effect strictly after it. On or
  after the last split every row is returned as it is; the call fails if and only if some
  row precedes a split with a ratio that is not positive.
\<close>

theorem only_later_splits_count:
  "((\<exists>rows'. apply_split_adjustment rows acts = Inr rows') \<longleftrightarrow>
      (\<forall>r \<in> set rows. \<forall>a \<in> set acts. ca_kind a = Split \<and> r_ts r < ca_ts a \<longrightarrow> 0 < ca_value a)) \<and>
   (apply_split_adjustment rows acts = Inr rows' \<and> i < length rows \<and>
      (\<forall>a \<in> set acts. ca_kind a = Split \<longrightarrow> ca_ts a \<le> r_ts (rows ! i)) \<longrightarrow> rows' ! i = rows ! i)"
proof (intro conjI impI)
  show "(\<exists>rows'. apply_split_adjustment rows acts = Inr rows') \<longleftrightarrow>
      (\<forall>r \<in> set rows. \<forall>a \<in> set acts. ca_kind a = Split \<and> r_ts r < ca_ts a \<longrightarrow> 0 < ca_value a)"
  proof (cases "actions_of Split acts = []")
    case True
    then have "{a \<in> set acts. ca_kind a = Split} = {}" by (metis set_actions_of empty_set)
    then show ?thesis using True by (auto simp: apply_split_adjustment_def)
  next
    case False
    then show ?thesis
      by (auto simp: apply_split_adjustment_def map_result_ok split_row_ok)
  qed
next
  assume a: "apply_split_adjustment rows acts = Inr rows' \<and> i < length rows \<and>
      (\<forall>a \<in> set acts. ca_kind a = Split \<longrightarrow> ca_ts a \<le> r_ts (rows ! i))"
  show "rows' ! i = rows ! i"
  proof (cases "actions_of Split acts = []")
    case True
    then show ?thesis using a by (simp add: apply_split_adjustment_def)
  next
    case False
    then have "map_result (split_row (actions_of Split acts)) rows = Inr rows'"
      using a by (simp add: apply_split_adjustment_def)
    then have "split_row (actions_of Split acts) (rows ! i) = Inr (rows' ! i)"
      using a by (auto dest!: map_result_Inr list_all2_nthD)
    then show ?thesis using a by (simp add: split_row_def cumulative_split_old)
  qed
qed

theorem only_later_splits_count_witness:
  "\<exists>rows'. apply_split_adjustment [adj_ex_row\<lparr>r_ts := 20\<rparr>] [ex_split] = Inr rows' \<and> rows' ! 0 = adj_ex_row\<lparr>r_ts := 20\<rparr>"
  using only_later_splits_count [of "[adj_ex_row\<lparr>r_ts := 20\<rparr>]" "[ex_split]" _ 0]
  by (auto simp: ex_split_def)

text \<open>The documented idempotency does not hold: the second run halves the price again.\<close>

lemma adjustment_not_idempotent:
  "apply_split_adjustment [adj_ex_row] [ex_split] = Inr [ex_halved] \<and>
   apply_split_adjustment [ex_halved] [ex_split] \<noteq> Inr [ex_halved]"
  by (simp add: ex_adjusted)
    (simp add: apply_split_adjustment_def actions_of_def ex_split_def split_row_def adj_ex_row_def ex_halved_def
      split_factor_def scale_row_def ddiv_def dmul_def drnd_half)

end
