(* ===== verification/CorpActions.thy ===== *)
theory CorpActions
  imports Adjustment PgStore PyFloat
begin

text \<open>
  \<open>scripts/apply_corporate_actions.py\<close>: the weekly job that reads the splits and dividends of the
  whole market, adjusts the raw bars of every listed ticker and stores the adjusted bars in
  their own table. The two fetch functions of \<open>scripts/fetch_moex_corporate_actions.py\<close> are HTTP
  calls and enter as state-passing functions; the store is any store with the contract
  \<open>adj_store\<close>, which both stores of the program satisfy. Instants are microseconds.
\<close>

section \<open>The feed\<close>

text \<open>A date cell is absent or empty, not an ISO date, or a day. A number is a \<open>float\<close> for a split
  ratio and a \<open>Decimal\<close> for a dividend, either of which may be infinite or NaN.\<close>

datatype feed_date = No_Date | Bad_Date | Day int

record feed_entry =
  fe_ticker :: string
  fe_ts :: feed_date
  fe_value :: "pyfloat option"

text \<open>\<open>Decimal(str(x))\<close>: the shortest decimal that rounds back to the double.\<close>

definition decimal_of_float :: "rat \<Rightarrow> rat" where
  "decimal_of_float x =
     (case find (\<lambda>n. frnd (rnd 10 n None x) = x) [1..<18] of Some n \<Rightarrow> rnd 10 n None x | None \<Rightarrow> x)"

definition decimal_error :: py_exc where "decimal_error = OtherError ''InvalidOperation''"

text \<open>\<open>Decimal(v) <= 0\<close> and \<open>Decimal(v) < 0\<close> raise on NaN; an infinite value does not validate.\<close>

definition split_of :: "string \<Rightarrow> feed_entry \<Rightarrow> corporate_action option result" where
  "split_of ticker e =
     (if fe_ticker e \<noteq> ticker then Inr None
      else (case (fe_ts e, fe_value e) of
          (No_Date, _) \<Rightarrow> Inr None
        | (_, None) \<Rightarrow> Inr None
        | (Bad_Date, _) \<Rightarrow> Inr None
        | (Day ts, Some (Fin x)) \<Rightarrow>
            (if decimal_of_float x \<le> 0 then Inr None
             else map_sum id Some (mk_action \<lparr>ca_ticker = ticker, ca_ts = ts, ca_kind = Split,
                    ca_value = decimal_of_float x, ca_source = Moex\<rparr>))
        | (Day ts, Some (Inf neg)) \<Rightarrow> (if neg then Inr None else Inl ValidationError)
        | (Day ts, Some NaN) \<Rightarrow> Inl decimal_error))"

definition parse_dividend_entry :: "string \<Rightarrow> feed_entry \<Rightarrow> corporate_action option result" where
  "parse_dividend_entry ticker e =
     (if fe_ticker e \<noteq> ticker then Inr None
      else (case (fe_ts e, fe_value e) of
          (No_Date, _) \<Rightarrow> Inr None
        | (_, None) \<Rightarrow> Inr None
        | (Bad_Date, _) \<Rightarrow> Inr None
        | (Day ts, Some (Fin x)) \<Rightarrow>
            (if x < 0 then Inr None
             else map_sum id Some (mk_action \<lparr>ca_ticker = ticker, ca_ts = ts, ca_kind = Dividend,
                    ca_value = x, ca_source = Moex\<rparr>))
        | (Day ts, Some (Inf neg)) \<Rightarrow> (if neg then Inr None else Inl ValidationError)
        | (Day ts, Some NaN) \<Rightarrow> Inl decimal_error))"

text \<open>The cache of a run: one successful answer per endpoint.\<close>

record 'w feed =
  cached_splits :: "feed_entry list option"
  cached_dividends :: "feed_entry list option"
  feed_world :: 'w

type_synonym 'w fetch_all_rows = "'w \<Rightarrow> feed_entry list result \<times> 'w"

definition all_splits :: "'w fetch_all_rows \<Rightarrow> 'w feed \<Rightarrow> feed_entry list result \<times> 'w feed" where
  "all_splits fetch f =
     (case cached_splits f of Some xs \<Rightarrow> (Inr xs, f)
      | None \<Rightarrow> (case fetch (feed_world f) of
          (Inr xs, w) \<Rightarrow> (Inr xs, f\<lparr>cached_splits := Some xs, feed_world := w\<rparr>)
        | (Inl e, w) \<Rightarrow> (Inl e, f\<lparr>feed_world := w\<rparr>)))"

definition all_dividends :: "'w fetch_all_rows \<Rightarrow> 'w feed \<Rightarrow> feed_entry list result \<times> 'w feed" where
  "all_dividends fetch f =
     (case cached_dividends f of Some xs \<Rightarrow> (Inr xs, f)
      | None \<Rightarrow> (case fetch (feed_world f) of
          (Inr xs, w) \<Rightarrow> (Inr xs, f\<lparr>cached_dividends := Some xs, feed_world := w\<rparr>)
        | (Inl e, w) \<Rightarrow> (Inl e, f\<lparr>feed_world := w\<rparr>)))"

definition splits_for_ticker :: "'w fetch_all_rows \<Rightarrow> string \<Rightarrow> 'w feed \<Rightarrow> corporate_action list result \<times> 'w feed" where
  "splits_for_ticker fetch ticker = bindW (all_splits fetch) (\<lambda>raw. liftW (collect (split_of ticker) raw))"

definition dividends_for_ticker :: "'w fetch_all_rows \<Rightarrow> string \<Rightarrow> 'w feed \<Rightarrow> corporate_action list result \<times> 'w feed" where
  "dividends_for_ticker fetch ticker =
     bindW (all_dividends fetch) (\<lambda>raw. liftW (collect (parse_dividend_entry ticker) raw))"

definition actions_for_ticker ::
  "'w fetch_all_rows \<Rightarrow> 'w fetch_all_rows \<Rightarrow> string \<Rightarrow> 'w feed \<Rightarrow> corporate_action list result \<times> 'w feed" where
  "actions_for_ticker fs fd ticker =
     bindW (splits_for_ticker fs ticker) (\<lambda>ss. bindW (dividends_for_ticker fd ticker) (\<lambda>ds. liftW (Inr (ss @ ds))))"

section \<open>One ticker\<close>

definition DAY_1990 :: int where "DAY_1990 = 726468"
definition DAY_2100 :: int where "DAY_2100 = 766645"

definition apply_for_ticker ::
  "(string \<Rightarrow> int \<Rightarrow> int \<Rightarrow> source_type option \<Rightarrow> 'd \<Rightarrow> ohlcv_row list result) \<Rightarrow>
   (ohlcv_row list \<Rightarrow> 'd \<Rightarrow> nat result \<times> 'd) \<Rightarrow> string \<Rightarrow> corporate_action list \<Rightarrow> bool \<Rightarrow> 'd \<Rightarrow> nat result \<times> 'd" where
  "apply_for_ticker get put ticker actions dry d =
     (if actions = [] then (Inr 0, d)
      else (case get ticker DAY_1990 DAY_2100 (Some Tkf) d of
          Inl e \<Rightarrow> (Inl e, d)
        | Inr raw \<Rightarrow>
            (if raw = [] then (Inr 0, d)
             else (case apply_adjustment raw actions of
                 Inl e \<Rightarrow> (Inl e, d)
               | Inr adjusted \<Rightarrow> (if dry then (Inr (length adjusted), d) else put adjusted d)))))"

section \<open>The run\<close>

text \<open>An entry of the cache file is a usable stamp or not; naive stamps are UTC.\<close>

datatype stamp = Bad_Stamp | Stamp int

definition is_fresh :: "stamp option \<Rightarrow> int \<Rightarrow> int \<Rightarrow> bool" where
  "is_fresh entry days now =
     (case entry of Some (Stamp t) \<Rightarrow> now - t < days * 86400000000 | _ \<Rightarrow> False)"

record job_args =
  ja_only :: "string list option"
  ja_dry :: bool
  ja_force :: bool
  ja_skip_days :: int

text \<open>\<open>je_clock i\<close> is the time at the \<open>i\<close>-th ticker, \<open>je_applied_at\<close> the stamp of the run.\<close>

record ('d, 'w) job_env =
  je_list :: "'d \<Rightarrow> ticker_meta list result"
  je_get :: "string \<Rightarrow> int \<Rightarrow> int \<Rightarrow> source_type option \<Rightarrow> 'd \<Rightarrow> ohlcv_row list result"
  je_put :: "ohlcv_row list \<Rightarrow> 'd \<Rightarrow> nat result \<times> 'd"
  je_splits :: "'w fetch_all_rows"
  je_dividends :: "'w fetch_all_rows"
  je_clock :: "nat \<Rightarrow> int"
  je_applied_at :: int

record ('d, 'w) job =
  jb_store :: 'd
  jb_feed :: "'w feed"
  jb_cache :: "string \<rightharpoonup> stamp"
  n_applied :: nat
  n_fresh :: nat
  n_no_actions :: nat
  n_error :: nat
  n_rows :: nat

definition tickers_in_scope :: "string list option \<Rightarrow> ticker_meta list \<Rightarrow> ticker_meta list" where
  "tickers_in_scope only all_metas =
     (let listed = filter (\<lambda>m. tm_listed_at m \<noteq> None) all_metas
      in case only of None \<Rightarrow> listed
         | Some ts \<Rightarrow> filter (\<lambda>m. tm_ticker m \<in> set (map norm_ticker ts)) listed)"

definition stamp_ticker :: "int \<Rightarrow> string \<Rightarrow> ('d, 'w) job \<Rightarrow> ('d, 'w) job" where
  "stamp_ticker at1 t j = j\<lparr>jb_cache := (jb_cache j)(t \<mapsto> Stamp at1)\<rparr>"

definition job_step :: "('d, 'w) job_env \<Rightarrow> job_args \<Rightarrow> nat \<Rightarrow> string \<Rightarrow> ('d, 'w) job \<Rightarrow> ('d, 'w) job" where
  "job_step env args i ticker j =
     (if \<not> ja_force args \<and> is_fresh (jb_cache j ticker) (ja_skip_days args) (je_clock env i)
      then j\<lparr>n_fresh := n_fresh j + 1\<rparr>
      else (case actions_for_ticker (je_splits env) (je_dividends env) ticker (jb_feed j) of
          (Inl e, f) \<Rightarrow> j\<lparr>jb_feed := f, n_error := n_error j + 1\<rparr>
        | (Inr actions, f) \<Rightarrow>
            (let j = j\<lparr>jb_feed := f\<rparr> in
             if actions = [] then (stamp_ticker (je_applied_at env) ticker j)\<lparr>n_no_actions := n_no_actions j + 1\<rparr>
             else (case apply_for_ticker (je_get env) (je_put env) ticker actions (ja_dry args) (jb_store j) of
                 (Inl e, d) \<Rightarrow> j\<lparr>jb_store := d, n_error := n_error j + 1\<rparr>
               | (Inr n, d) \<Rightarrow> (stamp_ticker (je_applied_at env) ticker j)\<lparr>jb_store := d,
                     n_applied := n_applied j + 1, n_rows := n_rows j + n\<rparr>))))"

fun job_loop :: "('d, 'w) job_env \<Rightarrow> job_args \<Rightarrow> nat \<Rightarrow> string list \<Rightarrow> ('d, 'w) job \<Rightarrow> ('d, 'w) job" where
  "job_loop env args i [] j = j"
| "job_loop env args i (t # ts) j = job_loop env args (Suc i) ts (job_step env args i t j)"

text \<open>The cache file is missing, unreadable or a dictionary; a write that fails leaves it.\<close>

datatype cache_file = Missing | Unreadable | Cache "string \<rightharpoonup> stamp"

definition load_cache :: "cache_file \<Rightarrow> (string \<rightharpoonup> stamp)" where
  "load_cache c = (case c of Cache m \<Rightarrow> m | _ \<Rightarrow> Map.empty)"

definition save_cache :: "bool \<Rightarrow> (string \<rightharpoonup> stamp) \<Rightarrow> cache_file \<Rightarrow> cache_file" where
  "save_cache writable m c = (if writable then Cache m else c)"

definition EXIT_OK :: int where "EXIT_OK = 0"
definition EXIT_FATAL :: int where "EXIT_FATAL = 1"

definition start_job :: "'d \<Rightarrow> 'w \<Rightarrow> (string \<rightharpoonup> stamp) \<Rightarrow> ('d, 'w) job" where
  "start_job d w m = \<lparr>jb_store = d, jb_feed = \<lparr>cached_splits = None, cached_dividends = None, feed_world = w\<rparr>,
     jb_cache = m, n_applied = 0, n_fresh = 0, n_no_actions = 0, n_error = 0, n_rows = 0\<rparr>"

definition exit_code :: "('d, 'w) job \<Rightarrow> int" where
  "exit_code j = (if n_applied j = 0 \<and> n_no_actions j = 0 \<and> 0 < n_error j then EXIT_FATAL else EXIT_OK)"

text \<open>\<open>main\<close> with an injected store: the exit code or the exception that escapes, the final job
  state if the loop ran, and the cache file.\<close>

definition corp_main ::
  "('d, 'w) job_env \<Rightarrow> job_args \<Rightarrow> bool \<Rightarrow> 'd \<Rightarrow> 'w \<Rightarrow> cache_file \<Rightarrow> int result \<times> ('d, 'w) job option \<times> cache_file" where
  "corp_main env args writable d w file =
     (case je_list env d of
        Inl e \<Rightarrow> (if e = store_error then Inr EXIT_FATAL else Inl e, None, file)
      | Inr metas \<Rightarrow>
          (let tickers = map tm_ticker (tickers_in_scope (ja_only args) metas);
               cache = (if ja_force args then Map.empty else load_cache file);
               j = job_loop env args 1 tickers (start_job d w cache)
           in (Inr (exit_code j), Some j, if ja_dry args then file else save_cache writable (jb_cache j) file)))"

definition pg_env :: "bool \<Rightarrow> 'w fetch_all_rows \<Rightarrow> 'w fetch_all_rows \<Rightarrow> (nat \<Rightarrow> int) \<Rightarrow> int \<Rightarrow> (pg_db, 'w) job_env" where
  "pg_env atomic fs fd clock at1 = \<lparr>je_list = pg_list_tickers True, je_get = pg_query_ohlcv,
     je_put = pg_upsert_ohlcv_adj atomic, je_splits = fs, je_dividends = fd, je_clock = clock, je_applied_at = at1\<rparr>"

section \<open>The contract of the adjusted bars\<close>

definition upserted :: "(stored_bar \<Rightarrow> stored_bar) \<Rightarrow> ohlcv_row \<Rightarrow> (string \<times> int \<rightharpoonup> stored_bar) \<Rightarrow> (string \<times> int \<rightharpoonup> stored_bar)" where
  "upserted c r m = m(adj_key r \<mapsto> c (row_bar_of r))"

lemma fold_upserted_split: "fold (upserted c) rows m k = (case fold (upserted c) rows Map.empty k of None \<Rightarrow> m k | Some b \<Rightarrow> Some b)"
  by (induction rows rule: rev_induct) (auto simp: upserted_def)

lemma fold_upserted_idem: "fold (upserted c) rows (fold (upserted c) rows m) = fold (upserted c) rows m"
proof
  fix k
  show "fold (upserted c) rows (fold (upserted c) rows m) k = fold (upserted c) rows m k"
    using fold_upserted_split [of c rows m k] fold_upserted_split [of c rows "fold (upserted c) rows m" k]
    by (auto split: option.splits)
qed

lemma fold_upserted_dom: "r \<in> set rows \<Longrightarrow> fold (upserted c) rows m (adj_key r) \<noteq> None"
  by (induction rows rule: rev_induct) (auto simp: upserted_def)

locale adj_store =
  fixes get :: "string \<Rightarrow> int \<Rightarrow> int \<Rightarrow> source_type option \<Rightarrow> 's \<Rightarrow> ohlcv_row list result"
    and put :: "ohlcv_row list \<Rightarrow> 's \<Rightarrow> nat result \<times> 's"
    and table :: "'s \<Rightarrow> (string \<times> int \<rightharpoonup> stored_bar)"
    and column :: "stored_bar \<Rightarrow> stored_bar"
  assumes raw_kept: "put rows s = (r, s') \<Longrightarrow> get t a b src s' = get t a b src s"
    and put_all: "put rows s = (Inr n, s') \<Longrightarrow> n = length rows \<and> table s' = fold (upserted column) rows (table s)"
    and put_again: "put rows s = (Inr n, s') \<Longrightarrow> \<exists>s''. put rows s' = (Inr n, s'')"
begin

lemma apply_raw_kept:
  "apply_for_ticker get put ticker acts dry s = (r, s') \<Longrightarrow> get t a b src s' = get t a b src s"
  by (auto simp: apply_for_ticker_def split: if_splits sum.splits intro: raw_kept)

text \<open>Applying the same actions again works and leaves the adjusted bars as they are, because the
  input is the raw table.\<close>

lemma apply_twice:
  assumes "apply_for_ticker get put ticker acts False s = (Inr n, s')"
  shows "\<exists>s''. apply_for_ticker get put ticker acts False s' = (Inr n, s'') \<and> table s'' = table s'"
proof -
  have g: "get ticker DAY_1990 DAY_2100 (Some Tkf) s' = get ticker DAY_1990 DAY_2100 (Some Tkf) s"
    by (rule apply_raw_kept [OF assms])
  consider "s' = s" | raw adj where "acts \<noteq> []" "get ticker DAY_1990 DAY_2100 (Some Tkf) s = Inr raw" "raw \<noteq> []"
      "apply_adjustment raw acts = Inr adj" "put adj s = (Inr n, s')"
    using assms by (auto simp: apply_for_ticker_def split: if_splits sum.splits)
  then show ?thesis
  proof cases
    case 1
    then show ?thesis using assms by auto
  next
    case (2 raw adj)
    obtain s'' where s'': "put adj s' = (Inr n, s'')" using put_again [OF 2(5)] by blast
    have "table s'' = table s'"
      using put_all [OF s''] put_all [OF 2(5)] by (simp add: fold_upserted_idem)
    then show ?thesis using 2 s'' g by (simp add: apply_for_ticker_def)
  qed
qed

end

text \<open>A row-by-row upsert has the contract if a stored key can always be overwritten.\<close>

lemma execute_upserts:
  assumes ins: "\<And>r d d'. ins r d = Some d' \<Longrightarrow> tab d' = upserted c r (tab d) \<and> good r"
    and again: "\<And>r d. good r \<Longrightarrow> tab d (adj_key r) \<noteq> None \<Longrightarrow> \<exists>d'. ins r d = Some d'"
    and run: "execute_many ins rows d = (True, d')"
  shows "tab d' = fold (upserted c) rows (tab d) \<and> (\<exists>d''. execute_many ins rows d' = (True, d''))"
proof -
  have 1: "tab d' = fold (upserted c) rs (tab d) \<and> (\<forall>r \<in> set rs. good r)"
    if "execute_many ins rs d = (True, d')" for rs d d'
    using that
  proof (induction rs arbitrary: d)
    case (Cons r rs)
    obtain d1 where d1: "ins r d = Some d1" "execute_many ins rs d1 = (True, d')"
      using Cons.prems by (auto split: option.splits)
    show ?case using Cons.IH [OF d1(2)] ins [OF d1(1)] by simp
  qed simp
  have 2: "\<exists>d''. execute_many ins rs d = (True, d'')" if "\<forall>r \<in> set rs. good r \<and> tab d (adj_key r) \<noteq> None" for rs d
    using that
  proof (induction rs arbitrary: d)
    case (Cons r rs)
    obtain d1 where d1: "ins r d = Some d1" using again [of r d] Cons.prems by auto
    have "\<forall>x \<in> set rs. good x \<and> tab d1 (adj_key x) \<noteq> None"
      using ins [OF d1] Cons.prems by (simp add: upserted_def)
    from Cons.IH [OF this] show ?case using d1 by simp
  qed simp
  show ?thesis using 1 [OF run] fold_upserted_dom [of _ rows c "tab d"] by (intro conjI 2) auto
qed

lemma execute_keeps:
  assumes "\<And>r d d'. ins r d = Some d' \<Longrightarrow> f d' = f d"
  shows "execute_many ins rows d = (b, d') \<Longrightarrow> f d' = f d"
proof (induction rows arbitrary: d)
  case (Cons r rows)
  show ?case
  proof (cases "ins r d")
    case (Some d1)
    have "f d' = f d1" using Cons Some by (intro Cons.IH) simp
    then show ?thesis using assms [OF Some] by simp
  qed (use Cons in simp)
qed simp

lemma insert_adj_upserts:
  "insert_adj r d = Some d' \<Longrightarrow> map_of (s_adj d') = upserted id r (map_of (s_adj d)) \<and> True"
  "pg_insert_adj r p = Some p' \<Longrightarrow> map_of (p_adj p') = upserted pg_column r (map_of (p_adj p)) \<and> pg_bar_fits (row_bar_of r)"
  by (auto simp: insert_adj_def pg_insert_adj_def upserted_def update_conv' split: if_splits)

lemma insert_adj_ohlcv:
  "insert_adj r d = Some d' \<Longrightarrow> s_ohlcv d' = s_ohlcv d \<and> s_universe d' = s_universe d"
  "pg_insert_adj r p = Some p' \<Longrightarrow> p_ohlcv p' = p_ohlcv p \<and> p_universe p' = p_universe p"
  by (auto simp: insert_adj_def pg_insert_adj_def split: if_splits)

lemma insert_adj_again:
  "map_of (s_adj d) (adj_key r) \<noteq> None \<Longrightarrow> \<exists>d'. insert_adj r d = Some d'"
  "pg_bar_fits (row_bar_of r) \<Longrightarrow> map_of (p_adj p) (adj_key r) \<noteq> None \<Longrightarrow> \<exists>p'. pg_insert_adj r p = Some p'"
  by (auto simp: insert_adj_def pg_insert_adj_def)

lemmas sqlite_adj_upserts =
  execute_upserts [of insert_adj "\<lambda>d. map_of (s_adj d)" id "\<lambda>r. True", OF insert_adj_upserts(1) insert_adj_again(1)]

lemmas pg_adj_upserts =
  execute_upserts [of pg_insert_adj "\<lambda>d. map_of (p_adj d)" pg_column "\<lambda>r. pg_bar_fits (row_bar_of r)",
    OF insert_adj_upserts(2) insert_adj_again(2)]

interpretation sqa: adj_store sqlite_query_ohlcv sqlite_upsert_ohlcv_adj "\<lambda>d. map_of (s_adj d)" id
proof unfold_locales
  fix rows s s' n and r :: "nat result"
  show "sqlite_query_ohlcv t a b src s' = sqlite_query_ohlcv t a b src s"
    if "sqlite_upsert_ohlcv_adj rows s = (r, s')" for t a b src
    using execute_keeps [of insert_adj s_ohlcv rows s _ s'] insert_adj_ohlcv(1) that
    by (auto simp: sqlite_upsert_ohlcv_adj_def batch_def sqlite_query_ohlcv_def split: if_splits prod.splits bool.splits)
  assume p: "sqlite_upsert_ohlcv_adj rows s = (Inr n, s')"
  have "rows = [] \<and> n = 0 \<and> s' = s \<or> rows \<noteq> [] \<and> n = length rows \<and> execute_many insert_adj rows s = (True, s')"
    using p by (auto simp: sqlite_upsert_ohlcv_adj_def batch_def split: if_splits prod.splits bool.splits)
  then show "n = length rows \<and> map_of (s_adj s') = fold (upserted id) rows (map_of (s_adj s))"
    "\<exists>s''. sqlite_upsert_ohlcv_adj rows s' = (Inr n, s'')"
    using sqlite_adj_upserts [of rows s s'] by (auto simp: sqlite_upsert_ohlcv_adj_def batch_def)
qed

interpretation pga: adj_store pg_query_ohlcv "pg_upsert_ohlcv_adj atomic" "\<lambda>d. map_of (p_adj d)" pg_column
  for atomic
proof unfold_locales
  fix rows s s' n and r :: "nat result"
  show "pg_query_ohlcv t a b src s' = pg_query_ohlcv t a b src s"
    if "pg_upsert_ohlcv_adj atomic rows s = (r, s')" for t a b src
    using execute_keeps [of pg_insert_adj p_ohlcv rows s _ s'] insert_adj_ohlcv(2) that
    by (auto simp: pg_upsert_ohlcv_adj_def pg_batch_def pg_query_ohlcv_def split: if_splits prod.splits bool.splits)
  assume p: "pg_upsert_ohlcv_adj atomic rows s = (Inr n, s')"
  have "rows = [] \<and> n = 0 \<and> s' = s \<or> rows \<noteq> [] \<and> n = length rows \<and> execute_many pg_insert_adj rows s = (True, s')"
    using p by (auto simp: pg_upsert_ohlcv_adj_def pg_batch_def split: if_splits prod.splits bool.splits)
  then show "n = length rows \<and> map_of (p_adj s') = fold (upserted pg_column) rows (map_of (p_adj s))"
    "\<exists>s''. pg_upsert_ohlcv_adj atomic rows s' = (Inr n, s'')"
    using pg_adj_upserts [of rows s s'] by (auto simp: pg_upsert_ohlcv_adj_def pg_batch_def)
qed

section \<open>The run\<close>

lemma job_step_cases:
  assumes "job_step env args i t j = j'"
  obtains "\<not> ja_force args" "is_fresh (jb_cache j t) (ja_skip_days args) (je_clock env i)"
      "j' = j\<lparr>n_fresh := n_fresh j + 1\<rparr>"
  | e f where "actions_for_ticker (je_splits env) (je_dividends env) t (jb_feed j) = (Inl e, f)"
      "j' = j\<lparr>jb_feed := f, n_error := n_error j + 1\<rparr>"
  | f where "actions_for_ticker (je_splits env) (je_dividends env) t (jb_feed j) = (Inr [], f)"
      "j' = j\<lparr>jb_feed := f, jb_cache := (jb_cache j)(t \<mapsto> Stamp (je_applied_at env)), n_no_actions := n_no_actions j + 1\<rparr>"
  | acts f e d where "actions_for_ticker (je_splits env) (je_dividends env) t (jb_feed j) = (Inr acts, f)" "acts \<noteq> []"
      "apply_for_ticker (je_get env) (je_put env) t acts (ja_dry args) (jb_store j) = (Inl e, d)"
      "j' = j\<lparr>jb_feed := f, jb_store := d, n_error := n_error j + 1\<rparr>"
  | acts f n d where "actions_for_ticker (je_splits env) (je_dividends env) t (jb_feed j) = (Inr acts, f)" "acts \<noteq> []"
      "apply_for_ticker (je_get env) (je_put env) t acts (ja_dry args) (jb_store j) = (Inr n, d)"
      "j' = j\<lparr>jb_feed := f, jb_cache := (jb_cache j)(t \<mapsto> Stamp (je_applied_at env)), jb_store := d,
         n_applied := n_applied j + 1, n_rows := n_rows j + n\<rparr>"
  using assms
  by (auto simp: job_step_def stamp_ticker_def Let_def split: if_splits prod.splits sum.splits)

text \<open>What the counters and the cache say after the tickers \<open>ts\<close>.\<close>

definition job_counts :: "('d, 'w) job \<Rightarrow> nat" where
  "job_counts j = n_applied j + n_fresh j + n_no_actions j + n_error j"

definition done_tickers :: "('d, 'w) job_env \<Rightarrow> ('d, 'w) job \<Rightarrow> string set" where
  "done_tickers env j = {t. jb_cache j t = Some (Stamp (je_applied_at env))}"

lemma job_step_counts: "job_counts (job_step env args i t j) = job_counts j + 1"
  by (rule job_step_cases [OF refl, where env = env and args = args and i = i and t = t and j = j]) (simp_all add: job_counts_def)

lemma job_loop_counts: "job_counts (job_loop env args i ts j) = job_counts j + length ts"
  by (induction ts arbitrary: i j) (simp_all add: job_step_counts)

text \<open>A ticker loses no stamp, and gets one only with a counted success.\<close>

lemma job_step_cache:
  "jb_cache (job_step env args i t j) = jb_cache j \<and>
     n_applied (job_step env args i t j) + n_no_actions (job_step env args i t j) = n_applied j + n_no_actions j \<or>
   jb_cache (job_step env args i t j) = (jb_cache j)(t \<mapsto> Stamp (je_applied_at env)) \<and>
     n_applied (job_step env args i t j) + n_no_actions (job_step env args i t j) = n_applied j + n_no_actions j + 1"
  by (rule job_step_cases [OF refl, where env = env and args = args and i = i and t = t and j = j]) simp_all

definition successes :: "('d, 'w) job \<Rightarrow> nat" where
  "successes j = n_applied j + n_no_actions j"

lemma job_step_successes:
  "jb_cache (job_step env args i t j) = jb_cache j \<and> successes (job_step env args i t j) = successes j \<or>
   jb_cache (job_step env args i t j) = (jb_cache j)(t \<mapsto> Stamp (je_applied_at env)) \<and>
     successes (job_step env args i t j) = successes j + 1"
  using job_step_cache [of env args i t j] by (simp add: successes_def)

lemma job_loop_cache:
  "distinct ts \<Longrightarrow> \<exists>S \<subseteq> set ts.
     jb_cache (job_loop env args i ts j) = (\<lambda>t. if t \<in> S then Some (Stamp (je_applied_at env)) else jb_cache j t) \<and>
     successes (job_loop env args i ts j) = successes j + card S"
proof (induction ts arbitrary: i j)
  case Nil
  then show ?case by (intro exI [of _ "{}"]) simp
next
  case (Cons t ts)
  define j1 where "j1 = job_step env args i t j"
  obtain S where S: "S \<subseteq> set ts"
    "jb_cache (job_loop env args (Suc i) ts j1) = (\<lambda>x. if x \<in> S then Some (Stamp (je_applied_at env)) else jb_cache j1 x)"
    "successes (job_loop env args (Suc i) ts j1) = successes j1 + card S"
    using Cons.IH [of "Suc i" j1] Cons.prems by auto
  have t: "t \<notin> S" "finite S" using S(1) Cons.prems finite_subset [OF S(1)] by auto
  from job_step_successes [of env args i t j] show ?case unfolding j1_def [symmetric]
  proof
    assume "jb_cache j1 = jb_cache j \<and> successes j1 = successes j"
    then show ?thesis using S by (intro exI [of _ S]) (auto simp: j1_def)
  next
    assume "jb_cache j1 = (jb_cache j)(t \<mapsto> Stamp (je_applied_at env)) \<and> successes j1 = successes j + 1"
    then show ?thesis using S t by (intro exI [of _ "insert t S"]) (auto simp: j1_def [symmetric])
  qed
qed

text \<open>The feed of the run: once an endpoint has answered, it is not asked again.\<close>

lemma all_splits_once:
  "all_splits fetch f = (r, f') \<Longrightarrow> cached_splits f = Some xs \<Longrightarrow> r = Inr xs \<and> f' = f"
  "all_splits fetch f = (Inr xs, f') \<Longrightarrow> cached_splits f' = Some xs"
  by (auto simp: all_splits_def split: option.splits prod.splits sum.splits)

text \<open>Every store operation of the run leaves what \<open>P\<close> says of the store alone.\<close>

lemma job_step_store:
  assumes "\<And>t acts dry d r d'. apply_for_ticker (je_get env) (je_put env) t acts dry d = (r, d') \<Longrightarrow> f d' = f d"
  shows "f (jb_store (job_step env args i t j)) = f (jb_store j)"
  by (rule job_step_cases [OF refl, where env = env and args = args and i = i and t = t and j = j])
    (auto dest: assms)

lemma job_loop_store:
  assumes "\<And>t acts dry d r d'. apply_for_ticker (je_get env) (je_put env) t acts dry d = (r, d') \<Longrightarrow> f d' = f d"
  shows "f (jb_store (job_loop env args i ts j)) = f (jb_store j)"
proof (induction ts arbitrary: i j)
  case (Cons t ts)
  have "f (jb_store (job_step env args i t j)) = f (jb_store j)" by (rule job_step_store) (rule assms)
  then show ?case by (simp add: Cons)
qed simp

lemma pg_apply_keeps:
  "apply_for_ticker pg_query_ohlcv (pg_upsert_ohlcv_adj atomic) t acts dry d = (r, d') \<Longrightarrow>
   (p_universe d', p_ohlcv d', p_actions d', p_delisting_log d') = (p_universe d, p_ohlcv d, p_actions d, p_delisting_log d)"
proof -
  have k: "(p_universe d', p_ohlcv d', p_actions d', p_delisting_log d') = (p_universe d, p_ohlcv d, p_actions d, p_delisting_log d)"
    if "execute_many pg_insert_adj rows d = (b, d')" for rows b d d'
    by (rule execute_keeps [OF _ that]) (auto simp: pg_insert_adj_def split: if_splits)
  show "apply_for_ticker pg_query_ohlcv (pg_upsert_ohlcv_adj atomic) t acts dry d = (r, d') \<Longrightarrow> ?thesis"
    by (auto simp: apply_for_ticker_def pg_upsert_ohlcv_adj_def pg_batch_def split: if_splits sum.splits prod.splits bool.splits
        dest!: k)
qed

lemma dry_apply: "apply_for_ticker get put t acts True d = (r, d') \<Longrightarrow> d' = d"
  by (auto simp: apply_for_ticker_def split: if_splits sum.splits)

section \<open>Properties\<close>

text \<open>
  C22. The job is idempotent although \<open>apply_adjustment\<close> is not: on the PostgreSQL store, applying
  the actions of a ticker a second time succeeds, writes the same number of bars and leaves the
  table of adjusted bars as the first run left it, because it starts from the raw bars.
\<close>

theorem reapplying_actions_is_idempotent:
  assumes "apply_for_ticker pg_query_ohlcv (pg_upsert_ohlcv_adj atomic) ticker acts False d = (Inr n, d')"
  shows "\<exists>d''. apply_for_ticker pg_query_ohlcv (pg_upsert_ohlcv_adj atomic) ticker acts False d' = (Inr n, d'') \<and>
    map_of (p_adj d'') = map_of (p_adj d') \<and> p_ohlcv d' = p_ohlcv d \<and> p_ohlcv d'' = p_ohlcv d"
proof -
  obtain d'' where d: "apply_for_ticker pg_query_ohlcv (pg_upsert_ohlcv_adj atomic) ticker acts False d' = (Inr n, d'')"
    "map_of (p_adj d'') = map_of (p_adj d')" using pga.apply_twice [OF assms] by blast
  show ?thesis using d pg_apply_keeps [OF assms] pg_apply_keeps [OF d(1)] by (intro exI [of _ d'']) simp
qed

text \<open>
  A run over the PostgreSQL store accounts for every ticker in scope exactly once, exits with
  failure exactly when tickers failed and none succeeded, stamps in the cache exactly as many
  tickers as succeeded (a failed ticker keeps its old stamp), and touches no table but the
  adjusted bars; a dry run touches nothing.
\<close>

theorem job_accounts_for_every_ticker:
  assumes "corp_main (pg_env atomic fs fd clock at1) args True d w file = (Inr code, Some j, file')"
    and "pg_list_tickers True d = Inr metas" "distinct (map tm_ticker metas)"
  shows "n_applied j + n_fresh j + n_no_actions j + n_error j = length (tickers_in_scope (ja_only args) metas) \<and>
    (code = EXIT_FATAL \<longleftrightarrow> n_applied j + n_no_actions j = 0 \<and> 0 < n_error j) \<and>
    (\<exists>S \<subseteq> tm_ticker ` set metas. card S = n_applied j + n_no_actions j \<and>
      jb_cache j = (\<lambda>t. if t \<in> S then Some (Stamp at1) else if ja_force args then None else load_cache file t)) \<and>
    p_ohlcv (jb_store j) = p_ohlcv d \<and> p_universe (jb_store j) = p_universe d \<and>
    (ja_dry args \<longrightarrow> jb_store j = d \<and> file' = file)"
proof -
  let ?env = "pg_env atomic fs fd clock at1"
  let ?ts = "map tm_ticker (tickers_in_scope (ja_only args) metas)"
  let ?s = "start_job d w (if ja_force args then Map.empty else load_cache file)"
  have j: "j = job_loop ?env args 1 ?ts ?s" "code = exit_code j"
    and f: "file' = (if ja_dry args then file else save_cache True (jb_cache j) file)"
    using assms(1,2) by (auto simp: corp_main_def pg_env_def Let_def)
  have 1: "n_applied j + n_fresh j + n_no_actions j + n_error j = length (tickers_in_scope (ja_only args) metas)"
    using job_loop_counts [of ?env args 1 ?ts ?s] by (simp add: j job_counts_def start_job_def)
  have 2: "code = EXIT_FATAL \<longleftrightarrow> n_applied j + n_no_actions j = 0 \<and> 0 < n_error j"
    by (auto simp: j(2) exit_code_def EXIT_FATAL_def EXIT_OK_def)
  have "distinct ?ts"
    using assms(3) by (auto simp: tickers_in_scope_def Let_def distinct_map_filter split: option.splits)
  then obtain S where S: "S \<subseteq> set ?ts" "successes j = successes ?s + card S"
    "jb_cache j = (\<lambda>t. if t \<in> S then Some (Stamp (je_applied_at ?env)) else jb_cache ?s t)"
    using job_loop_cache [of ?ts ?env args 1 ?s] unfolding j(1) by blast
  have "set ?ts \<subseteq> tm_ticker ` set metas" by (auto simp: tickers_in_scope_def Let_def split: option.splits)
  then have 3: "\<exists>S \<subseteq> tm_ticker ` set metas. card S = n_applied j + n_no_actions j \<and>
      jb_cache j = (\<lambda>t. if t \<in> S then Some (Stamp at1) else if ja_force args then None else load_cache file t)"
    using S by (intro exI [of _ S]) (auto simp: start_job_def successes_def pg_env_def)
  have "(p_universe (jb_store j), p_ohlcv (jb_store j)) = (p_universe d, p_ohlcv d)"
    using job_loop_store [of ?env "\<lambda>d. (p_universe d, p_ohlcv d)" args 1 ?ts ?s] pg_apply_keeps
    unfolding j(1) by (auto simp: pg_env_def start_job_def)
  then have 4: "p_ohlcv (jb_store j) = p_ohlcv d" "p_universe (jb_store j) = p_universe d" by simp_all
  have 5: "jb_store j = d \<and> file' = file" if dry: "ja_dry args"
  proof -
    have "jb_store (job_loop ?env args i ts s) = jb_store s" for i ts and s :: "(pg_db, 'a) job"
    proof (induction ts arbitrary: i s)
      case (Cons t ts)
      have "jb_store (job_step ?env args i t s) = jb_store s"
        by (rule job_step_cases [OF refl, where env = ?env and args = args and i = i and t = t and j = s])
          (auto simp: dry dest: dry_apply)
      then show ?case by (simp add: Cons)
    qed simp
    then show ?thesis using f dry by (simp add: j(1) start_job_def)
  qed
  show ?thesis using 1 2 3 4 5 by blast
qed

section \<open>A concrete run\<close>

definition ex_listed :: ticker_meta where
  "ex_listed = ex_meta\<lparr>tm_listed_at := Some 700000, tm_class_code := None\<rparr>"

definition ex_div_row :: ohlcv_row where
  "ex_div_row = ex_bar_row\<lparr>r_ts := 730000\<rparr>"

definition ex_div_db :: pg_db where
  "ex_div_db = pg_empty\<lparr>p_universe := [(''SBER'', pg_new_ticker ex_listed)],
     p_ohlcv := [((''SBER'', 730000, Tkf), row_bar_of ex_div_row)]\<rparr>"

definition ex_dividend :: corporate_action where
  "ex_dividend = \<lparr>ca_ticker = ''SBER'', ca_ts = 730001, ca_kind = Dividend, ca_value = 10, ca_source = Moex\<rparr>"

definition ex_adjusted_row :: ohlcv_row where
  "ex_adjusted_row = ex_div_row\<lparr>r_adj_close := 90\<rparr>"

lemma ex_div_query: "pg_query_ohlcv ''SBER'' DAY_1990 DAY_2100 (Some Tkf) ex_div_db = Inr [ex_div_row]"
proof -
  have "wf_row ex_div_row" using ex_bar_wf by (simp add: wf_row_def row_nonneg_def ohlc_consistent_def ex_div_row_def)
  from row_of_stored [OF this]
  have "row_of_bar ((''SBER'', 730000, Tkf), row_bar_of ex_div_row) = Inr ex_div_row"
    by (simp add: row_key_def ex_div_row_def ex_bar_row_def)
  then show ?thesis
    by (simp add: pg_query_ohlcv_def select_bars_def select_by_def in_window_def ex_div_db_def DAY_1990_def DAY_2100_def)
qed

lemma ex_div_adjusted: "apply_adjustment [ex_div_row] [ex_dividend] = Inr [ex_adjusted_row]"
  by (simp add: apply_adjustment_def apply_split_adjustment_def apply_dividend_adjustment_def actions_of_def
      ex_dividend_def dividend_row_def ex_adjusted_row_def ex_div_row_def dividend_amount_def dadd_def dsub_def)
    (simp add: ex_bar_row_def dsub_def)

definition ex_adj_db :: pg_db where
  "ex_adj_db = ex_div_db\<lparr>p_adj := [((''SBER'', 730000), row_bar_of ex_adjusted_row)]\<rparr>"

lemma ex_adj_put: "pg_upsert_ohlcv_adj False [ex_adjusted_row] ex_div_db = (Inr 1, ex_adj_db)"
proof -
  have c: "pg_column (row_bar_of ex_adjusted_row) = row_bar_of ex_adjusted_row" "pg_bar_fits (row_bar_of ex_adjusted_row)"
    by (simp_all add: pg_column_def pg_bar_fits_def pg_fits_def row_bar_of_def ex_adjusted_row_def ex_div_row_def ex_bar_row_def)
  have k: "adj_key ex_adjusted_row = (''SBER'', 730000)" "py_upper (r_ticker ex_adjusted_row) = ''SBER''"
    by (simp_all add: adj_key_def ex_adjusted_row_def ex_div_row_def ex_bar_row_def)
  show ?thesis
    by (simp add: pg_upsert_ohlcv_adj_def pg_batch_def pg_insert_adj_def c k ex_adj_db_def)
      (simp add: ex_div_db_def pg_empty_def)
qed

lemma ex_apply: "apply_for_ticker pg_query_ohlcv (pg_upsert_ohlcv_adj False) ''SBER'' [ex_dividend] False ex_div_db = (Inr 1, ex_adj_db)"
  by (simp add: apply_for_ticker_def ex_div_query ex_div_adjusted ex_adj_put)

theorem reapplying_actions_is_idempotent_witness:
  "\<exists>d''. apply_for_ticker pg_query_ohlcv (pg_upsert_ohlcv_adj False) ''SBER'' [ex_dividend] False ex_adj_db = (Inr 1, d'') \<and>
    map_of (p_adj d'') = map_of (p_adj ex_adj_db)"
  using reapplying_actions_is_idempotent [OF ex_apply] by blast

definition ex_feed_dividends :: "unit fetch_all_rows" where
  "ex_feed_dividends w = (Inr [\<lparr>fe_ticker = ''SBER'', fe_ts = Day 730001, fe_value = Some (Fin 10)\<rparr>], w)"

definition ex_args :: job_args where
  "ex_args = \<lparr>ja_only = None, ja_dry = False, ja_force = False, ja_skip_days = 7\<rparr>"

lemma ex_scope: "pg_list_tickers True ex_div_db = Inr [ex_listed]"
  by (simp add: pg_list_tickers_def select_by_def ex_div_db_def pg_ticker_of_row_def pg_new_ticker_def
      ex_listed_def ex_meta_def mk_ticker_meta_def valid_ticker_def Let_def py_strip_def is_space_def
      ticker_regex_def ticker_char_def)

lemma ex_run_main:
  "\<exists>j. corp_main (pg_env False (\<lambda>w. (Inr [], w)) ex_feed_dividends (\<lambda>i. 0) 5) ex_args True ex_div_db () Missing =
     (Inr EXIT_OK, Some j, Cache [''SBER'' \<mapsto> Stamp 5]) \<and> jb_store j = ex_adj_db \<and> n_applied j = 1"
proof -
  have t: "map tm_ticker (tickers_in_scope (ja_only ex_args) [ex_listed]) = [''SBER'']"
    by (simp add: tickers_in_scope_def ex_args_def ex_listed_def ex_meta_def)
  have a: "actions_for_ticker (\<lambda>w. (Inr [], w)) ex_feed_dividends ''SBER'' \<lparr>cached_splits = None, cached_dividends = None, feed_world = ()\<rparr> =
      (Inr [ex_dividend], \<lparr>cached_splits = Some [], cached_dividends = Some [\<lparr>fe_ticker = ''SBER'', fe_ts = Day 730001, fe_value = Some (Fin 10)\<rparr>], feed_world = ()\<rparr>)"
    by (simp add: actions_for_ticker_def splits_for_ticker_def dividends_for_ticker_def all_splits_def all_dividends_def
        bindW_def ex_feed_dividends_def collect_def parse_dividend_entry_def mk_action_def valid_ticker_def Let_def
        py_strip_def is_space_def ticker_regex_def ticker_char_def ex_dividend_def List.map_filter_def)
  show ?thesis
    unfolding corp_main_def
    by (simp add: pg_env_def ex_scope t Let_def del: map_map)
      (simp add: job_step_def start_job_def load_cache_def is_fresh_def ex_args_def a ex_apply stamp_ticker_def
        exit_code_def save_cache_def)
qed

theorem job_accounts_for_every_ticker_witness:
  "\<exists>j file'. corp_main (pg_env False (\<lambda>w. (Inr [], w)) ex_feed_dividends (\<lambda>i. 0) 5) ex_args True ex_div_db () Missing =
     (Inr EXIT_OK, Some j, file') \<and> n_applied j + n_fresh j + n_no_actions j + n_error j = 1 \<and>
     p_ohlcv (jb_store j) = p_ohlcv ex_div_db"
proof -
  obtain j where j: "corp_main (pg_env False (\<lambda>w. (Inr [], w)) ex_feed_dividends (\<lambda>i. 0) 5) ex_args True ex_div_db () Missing =
     (Inr EXIT_OK, Some j, Cache [''SBER'' \<mapsto> Stamp 5])" using ex_run_main by blast
  have "distinct (map tm_ticker [ex_listed])" by simp
  from job_accounts_for_every_ticker [OF j ex_scope this] j show ?thesis
    by (auto simp: tickers_in_scope_def ex_args_def ex_listed_def)
qed

end
