(* ===== verification/CrossSource.thy ===== *)
theory CrossSource
  imports Quality
begin

text \<open>
  \<open>src/data/quality/cross_source.py\<close>: the Level-2 gate, which compares the closes of one ticker from
  two sources. A close may be any double; a return is a double of its own, NaN for a gap.
  \<open>math.log\<close>, \<open>math.sqrt\<close> and the summation of a list of doubles, whose algorithm depends on the
  version of the interpreter, are parameters. The sums of squares of logarithms of doubles
  cannot overflow, so they are kept as finite doubles.
\<close>

section \<open>Parameters and series\<close>

record xs_params =
  correlation_min :: rat
  min_aligned_points :: nat
  rolling_window :: nat
  max_mean_divergence :: rat

definition default_xs_params :: xs_params where
  "default_xs_params = \<lparr>correlation_min = frnd (99 / 100), min_aligned_points = 5, rolling_window = 5,
     max_mean_divergence = frnd (1 / 100)\<rparr>"

record xs_lib =
  xs_log :: "rat \<Rightarrow> rat"
  xs_sqrt :: "rat \<Rightarrow> rat"
  xs_sum :: "rat list \<Rightarrow> rat"

type_synonym series = "(int \<times> pyfloat) list"

definition good_close :: "pyfloat \<Rightarrow> bool" where
  "good_close c = (case c of Fin x \<Rightarrow> 0 < x | _ \<Rightarrow> False)"

section \<open>Log-returns\<close>

text \<open>\<open>math.log(cur / last_valid)\<close>: an underflowed quotient raises, an overflowed one is infinite.\<close>

definition log_ratio :: "xs_lib \<Rightarrow> rat \<Rightarrow> rat \<Rightarrow> pyfloat result" where
  "log_ratio lib cur prev =
     (case float_of (cur / prev) of
        Fin q \<Rightarrow> (if q = 0 then Inl ValueError else Inr (Fin (xs_log lib q)))
      | x \<Rightarrow> Inr x)"

text \<open>The loop, with \<open>last_valid\<close> and whether the bar is the first one.\<close>

fun xs_returns_from :: "xs_lib \<Rightarrow> rat option \<Rightarrow> bool \<Rightarrow> pyfloat list \<Rightarrow> pyfloat list result" where
  "xs_returns_from lib last_valid first [] = Inr []"
| "xs_returns_from lib last_valid first (cur # cs) =
     (if \<not> good_close cur then
        (if last_valid = None \<and> first then xs_returns_from lib None False cs
         else bindR (xs_returns_from lib last_valid False cs) (\<lambda>rs. Inr (NaN # rs)))
      else (case last_valid of
          None \<Rightarrow> (if first then xs_returns_from lib (Some (fin cur)) False cs
                   else bindR (xs_returns_from lib (Some (fin cur)) False cs) (\<lambda>rs. Inr (NaN # rs)))
        | Some p \<Rightarrow> bindR (log_ratio lib (fin cur) p) (\<lambda>r.
            bindR (xs_returns_from lib (Some (fin cur)) False cs) (\<lambda>rs. Inr (r # rs)))))"

definition xs_log_returns :: "xs_lib \<Rightarrow> pyfloat list \<Rightarrow> pyfloat list result" where
  "xs_log_returns lib closes = (if length closes < 2 then Inr [] else xs_returns_from lib None True closes)"

section \<open>Correlation\<close>

datatype corr_reason = Length_Mismatch | Nan_Gap nat | Zero_Variance

definition xs_mean :: "xs_lib \<Rightarrow> rat list \<Rightarrow> rat" where
  "xs_mean lib xs = frnd (xs_sum lib xs / of_nat (length xs))"

text \<open>\<open>acc += dx * dy\<close> over the pairs.\<close>

definition co_moment :: "rat \<Rightarrow> rat \<Rightarrow> (rat \<times> rat) list \<Rightarrow> rat" where
  "co_moment mx my ps = fold (\<lambda>(x, y) acc. frnd (acc + frnd (frnd (x - mx) * frnd (y - my)))) ps 0"

definition pearson_with_reason :: "xs_lib \<Rightarrow> pyfloat list \<Rightarrow> pyfloat list \<Rightarrow> (corr_reason + rat) result" where
  "pearson_with_reason lib xs ys =
     (let n = length xs in
      if n < 2 \<or> n \<noteq> length ys then Inr (Inl Length_Mismatch)
      else let bad = filter (\<lambda>(x, y). \<not> (is_finite x \<and> is_finite y)) (zip xs ys) in
        if bad \<noteq> [] then Inr (Inl (Nan_Gap (length bad)))
        else let xs = map fin xs; ys = map fin ys;
                 mx = xs_mean lib xs; my = xs_mean lib ys;
                 cov = co_moment mx my (zip xs ys);
                 varx = co_moment mx mx (zip xs xs); vary = co_moment my my (zip ys ys)
             in if varx = 0 \<or> vary = 0 then Inr (Inl Zero_Variance)
                else let s = xs_sqrt lib (frnd (varx * vary))
                     in if s = 0 then Inl (OtherError ''ZeroDivisionError'') else Inr (Inr (frnd (cov / s))))"

section \<open>Alignment\<close>

text \<open>A dictionary keeps the last close of a date.\<close>

definition by_date :: "series \<Rightarrow> int \<Rightarrow> pyfloat option" where
  "by_date s = map_of (rev s)"

definition dates_of :: "series \<Rightarrow> int list" where
  "dates_of s = remdups (map fst s)"

definition common_dates :: "series \<Rightarrow> series \<Rightarrow> int list" where
  "common_dates a b = sort (filter (\<lambda>d. d \<in> set (dates_of b)) (dates_of a))"

definition closes_on :: "series \<Rightarrow> int list \<Rightarrow> pyfloat list" where
  "closes_on s ds = map (\<lambda>d. the (by_date s d)) ds"

definition dropped :: "series \<Rightarrow> series \<Rightarrow> nat" where
  "dropped s t = length (dates_of s) - length (common_dates s t)"

section \<open>The gate\<close>

definition cross_source :: string where "cross_source = ''cross_source''"

definition xs_flag :: "bool \<Rightarrow> issue_kind \<Rightarrow> int \<Rightarrow> issue list result" where
  "xs_flag c kind n = (if c then bindR (mk_issue cross_source kind n) (\<lambda>i. Inr [i]) else Inr [])"

text \<open>The mean divergence of one window, \<open>None\<close> if it holds a bad close.\<close>

definition window_divergence :: "xs_lib \<Rightarrow> nat \<Rightarrow> pyfloat list \<Rightarrow> pyfloat list \<Rightarrow> rat option" where
  "window_divergence lib win wa wb =
     (if \<not> (list_all good_close wa \<and> list_all good_close wb) then None
      else Some (frnd (xs_sum lib (map2 (\<lambda>a b. \<bar>frnd (xs_log lib (fin a) - xs_log lib (fin b))\<bar>) wa wb) / of_nat win)))"

definition slice :: "nat \<Rightarrow> nat \<Rightarrow> 'a list \<Rightarrow> 'a list" where
  "slice i n xs = take n (drop i xs)"

definition max_divergence :: "xs_lib \<Rightarrow> nat \<Rightarrow> pyfloat list \<Rightarrow> pyfloat list \<Rightarrow> rat" where
  "max_divergence lib win ca cb =
     fold (\<lambda>i m. case window_divergence lib win (slice i win ca) (slice i win cb) of
         None \<Rightarrow> m | Some d \<Rightarrow> if m < d then d else m)
       [0..<length ca - win + 1] 0"

text \<open>What follows a correlation, and the gate on two aligned lists of closes; \<open>i1\<close> are the issues of
  the alignment.\<close>

definition xs_verdict ::
  "xs_lib \<Rightarrow> xs_params \<Rightarrow> string \<Rightarrow> issue list \<Rightarrow> pyfloat list \<Rightarrow> pyfloat list \<Rightarrow> corr_reason + rat \<Rightarrow>
   quality_report result" where
  "xs_verdict lib p ticker i1 ca cb c =
     (case c of
        Inl reason \<Rightarrow> bindR (xs_flag True XSC_SOURCE_MISSING 0) (\<lambda>i2. mk_report ticker cross_source (i1 @ i2))
      | Inr corr \<Rightarrow>
          bindR (xs_flag (corr < correlation_min p) XSC_CORRELATION_LOW 1) (\<lambda>i2.
          bindR (xs_flag (rolling_window p \<le> length ca \<and>
                   max_mean_divergence p < max_divergence lib (rolling_window p) ca cb) XSC_DIVERGENCE_HIGH 1) (\<lambda>i3.
            mk_report ticker cross_source (i1 @ i2 @ i3))))"

definition xs_compare ::
  "xs_lib \<Rightarrow> xs_params \<Rightarrow> string \<Rightarrow> issue list \<Rightarrow> pyfloat list \<Rightarrow> pyfloat list \<Rightarrow> quality_report result" where
  "xs_compare lib p ticker i1 ca cb =
     (if length ca < min_aligned_points p
      then bindR (xs_flag True XSC_SOURCE_MISSING (int (min_aligned_points p) - int (length ca))) (\<lambda>i2.
             mk_report ticker cross_source (i1 @ i2))
      else bindR (xs_log_returns lib ca) (\<lambda>ra. bindR (xs_log_returns lib cb) (\<lambda>rb.
             bindR (pearson_with_reason lib ra rb) (xs_verdict lib p ticker i1 ca cb))))"

definition check_cross_source ::
  "xs_lib \<Rightarrow> xs_params \<Rightarrow> string \<Rightarrow> series \<Rightarrow> series \<Rightarrow> quality_report result" where
  "check_cross_source lib p ticker a b =
     (let ds = common_dates a b; da = dropped a b; db = dropped b a
      in bindR (xs_flag (da \<noteq> 0 \<or> db \<noteq> 0) XSC_SOURCE_MISSING (int (da + db))) (\<lambda>i1.
           xs_compare lib p ticker i1 (closes_on a ds) (closes_on b ds)))"

section \<open>Returns keep their length\<close>

lemma returns_from_length:
  "xs_returns_from lib lv first cs = Inr rs \<Longrightarrow>
   length rs = (if first \<and> lv = None then length cs - 1 else length cs)"
  by (induction lib lv first cs arbitrary: rs rule: xs_returns_from.induct)
    (auto simp: bindR_Inr_iff split: if_splits option.splits)

lemma xs_log_returns_length: "xs_log_returns lib cs = Inr rs \<Longrightarrow> length rs = length cs - 1"
  using returns_from_length [of lib None True cs rs] by (auto simp: xs_log_returns_def split: if_splits)

text \<open>A bad close leaves a gap: finite returns mean good closes.\<close>

lemma returns_from_good:
  "xs_returns_from lib lv first cs = Inr rs \<Longrightarrow> list_all is_finite rs \<Longrightarrow> lv \<noteq> None \<or> \<not> first \<Longrightarrow>
   list_all good_close cs \<and> (lv = None \<longrightarrow> cs = [])"
  by (induction lib lv first cs arbitrary: rs rule: xs_returns_from.induct)
    (auto simp: bindR_Inr_iff split: if_splits option.splits)

lemma xs_log_returns_good:
  assumes "xs_log_returns lib cs = Inr rs" "list_all is_finite rs" "2 \<le> length cs"
  shows "list_all good_close cs"
proof -
  obtain c cs' where cs: "cs = c # cs'" "cs' \<noteq> []" using assms(3) by (cases cs; cases "tl cs") auto
  have r: "xs_returns_from lib None True (c # cs') = Inr rs"
    using assms(1,3) by (simp add: xs_log_returns_def cs)
  show ?thesis
  proof (cases "good_close c")
    case True
    then have "xs_returns_from lib (Some (fin c)) False cs' = Inr rs" using r by simp
    from returns_from_good [OF this assms(2)] True show ?thesis by (simp add: cs)
  next
    case False
    then have "xs_returns_from lib None False cs' = Inr rs" using r by simp
    from returns_from_good [OF this assms(2)] cs(2) show ?thesis by simp
  qed
qed

section \<open>Symmetry\<close>

lemma distinct_common: "distinct (common_dates a b)"
  by (simp add: common_dates_def dates_of_def)

lemma set_common: "set (common_dates a b) = fst ` set a \<inter> fst ` set b"
  by (auto simp: common_dates_def dates_of_def)

lemma common_dates_sym: "common_dates a b = common_dates b a"
  by (rule sorted_distinct_set_unique) (auto simp: distinct_common set_common, simp_all add: common_dates_def)

lemma fold_pairs_swap: "fold (\<lambda>(x, y). f x y) (zip xs ys) z = fold (\<lambda>(y, x). f x y) (zip ys xs) z"
proof (induction xs arbitrary: ys z)
  case (Cons x xs)
  then show ?case by (cases ys) auto
qed simp

lemma co_moment_sym: "co_moment mx my (zip xs ys) = co_moment my mx (zip ys xs)"
  unfolding co_moment_def by (subst fold_pairs_swap) (simp add: mult.commute)

lemma filter_zip_swap:
  "length (filter (\<lambda>(x, y). \<not> (P x \<and> P y)) (zip xs ys)) = length (filter (\<lambda>(x, y). \<not> (P x \<and> P y)) (zip ys xs))"
proof (induction xs arbitrary: ys)
  case (Cons x xs)
  then show ?case by (cases ys) auto
qed simp

lemma pearson_sym: "pearson_with_reason lib xs ys = pearson_with_reason lib ys xs"
proof -
  have n: "(length xs < 2 \<or> length xs \<noteq> length ys) = (length ys < 2 \<or> length ys \<noteq> length xs)" by auto
  have f: "(filter (\<lambda>(x, y). \<not> (is_finite x \<and> is_finite y)) (zip xs ys) \<noteq> []) =
      (filter (\<lambda>(x, y). \<not> (is_finite x \<and> is_finite y)) (zip ys xs) \<noteq> [])"
    using filter_zip_swap [of is_finite xs ys] by (metis length_0_conv)
  show ?thesis
    unfolding pearson_with_reason_def Let_def n f filter_zip_swap [of is_finite xs ys]
      co_moment_sym [of "xs_mean lib (map fin xs)" "xs_mean lib (map fin ys)" "map fin xs" "map fin ys"]
    by (simp add: mult.commute disj_commute)
qed

lemma map2_abs_swap: "map2 (\<lambda>a b. \<bar>frnd (f a - f b)\<bar>) xs ys = map2 (\<lambda>a b. \<bar>frnd (f a - f b)\<bar>) ys xs"
proof -
  have e: "\<bar>frnd (u - v)\<bar> = \<bar>frnd (v - u)\<bar>" for u v :: rat
    by (metis abs_minus_cancel flt.odd minus_diff_eq)
  show ?thesis
  proof (induction xs arbitrary: ys)
    case (Cons x xs)
    then show ?case using e by (cases ys) auto
  qed simp
qed

lemma window_divergence_sym: "window_divergence lib win xs ys = window_divergence lib win ys xs"
  using map2_abs_swap [of "\<lambda>c. xs_log lib (fin c)" xs ys] by (auto simp: window_divergence_def)

lemma max_divergence_sym: "length xs = length ys \<Longrightarrow> max_divergence lib win xs ys = max_divergence lib win ys xs"
  unfolding max_divergence_def by (simp add: window_divergence_sym [of lib win "slice _ win xs"])

lemma log_ratio_error: "log_ratio lib c p = Inl e \<Longrightarrow> e = ValueError"
  by (auto simp: log_ratio_def split: pyfloat.splits if_splits)

lemma returns_from_error: "xs_returns_from lib lv first cs = Inl e \<Longrightarrow> e = ValueError"
proof (induction lib lv first cs rule: xs_returns_from.induct)
  case (2 lib lv first c cs)
  have b: "bindR m f = Inl e \<Longrightarrow> m = Inl e \<or> (\<exists>x. m = Inr x \<and> f x = Inl e)" for m :: "'x result" and f :: "'x \<Rightarrow> 'y result"
    by (cases m) auto
  show ?case using 2 by (auto split: if_splits option.splits dest!: b dest: log_ratio_error)
qed simp

lemma xs_log_returns_error: "xs_log_returns lib cs = Inl e \<Longrightarrow> e = ValueError"
  by (auto simp: xs_log_returns_def split: if_splits dest: returns_from_error)

lemma correlate_swap:
  assumes "\<And>e. m = Inl e \<Longrightarrow> e = ValueError" "\<And>e. n = Inl e \<Longrightarrow> e = ValueError"
  shows "bindR m (\<lambda>x. bindR n (\<lambda>y. bindR (pearson_with_reason lib x y) g)) =
    bindR n (\<lambda>x. bindR m (\<lambda>y. bindR (pearson_with_reason lib x y) g))"
proof (cases m; cases n)
  fix x y assume "m = Inr x" "n = Inr y"
  then show ?thesis using pearson_sym [of lib x y] by simp
qed (use assms in auto)

lemma verdict_sym: "length ca = length cb \<Longrightarrow> xs_verdict lib p ticker i1 ca cb = xs_verdict lib p ticker i1 cb ca"
  by (simp add: fun_eq_iff xs_verdict_def max_divergence_sym [of ca cb] split: sum.split)

lemma compare_sym:
  assumes "length ca = length cb"
  shows "xs_compare lib p ticker i1 ca cb = xs_compare lib p ticker i1 cb ca"
proof -
  have "bindR (xs_log_returns lib ca) (\<lambda>ra. bindR (xs_log_returns lib cb) (\<lambda>rb.
      bindR (pearson_with_reason lib ra rb) (xs_verdict lib p ticker i1 ca cb))) =
    bindR (xs_log_returns lib cb) (\<lambda>ra. bindR (xs_log_returns lib ca) (\<lambda>rb.
      bindR (pearson_with_reason lib ra rb) (xs_verdict lib p ticker i1 ca cb)))"
    by (rule correlate_swap) (rule xs_log_returns_error; assumption)+
  then show ?thesis using assms by (simp add: xs_compare_def verdict_sym [OF assms])
qed

text \<open>
  The gate treats its two sources alike: exchanging them gives the same report, with the same
  issues and counts (or the same exception), whatever the two series hold.
\<close>

theorem cross_source_symmetric: "check_cross_source lib p ticker a b = check_cross_source lib p ticker b a"
proof -
  have c: "xs_compare lib p ticker i1 (closes_on a ds) (closes_on b ds) =
      xs_compare lib p ticker i1 (closes_on b ds) (closes_on a ds)" for i1 ds
    by (rule compare_sym) (simp add: closes_on_def)
  have d: "(dropped a b \<noteq> 0 \<or> dropped b a \<noteq> 0) = (dropped b a \<noteq> 0 \<or> dropped a b \<noteq> 0)"
    "dropped a b + dropped b a = dropped b a + dropped a b" by auto
  show ?thesis
    by (simp only: check_cross_source_def Let_def common_dates_sym [of a b] c [of _ "common_dates b a"] d)
qed

lemma fold_max_ge:
  fixes f :: "'a \<Rightarrow> rat option"
  shows "m \<le> fold (\<lambda>i m. case f i of None \<Rightarrow> m | Some d \<Rightarrow> if m < d then d else m) xs m \<and>
    (x \<in> set xs \<longrightarrow> f x = Some d \<longrightarrow> d \<le> fold (\<lambda>i m. case f i of None \<Rightarrow> m | Some d \<Rightarrow> if m < d then d else m) xs m)"
proof (induction xs arbitrary: m)
  case (Cons y ys)
  let ?m = "case f y of None \<Rightarrow> m | Some d \<Rightarrow> if m < d then d else m"
  have "m \<le> ?m" "f y = Some d \<longrightarrow> d \<le> ?m" by (auto split: option.splits)
  then show ?case using Cons [of ?m] by fastforce
qed simp

lemma max_divergence_ge:
  "i + win \<le> length ca \<Longrightarrow> window_divergence lib win (slice i win ca) (slice i win cb) = Some d \<Longrightarrow>
   d \<le> max_divergence lib win ca cb"
  unfolding max_divergence_def
  by (rule fold_max_ge [THEN conjunct2, rule_format, of i]) auto

lemma dropped_zero:
  assumes "dropped x y = 0"
  shows "fst ` set x \<subseteq> set (common_dates x y)"
proof -
  have "set (common_dates x y) \<subseteq> set (dates_of x)" by (auto simp: set_common dates_of_def)
  moreover have "card (set (dates_of x)) \<le> card (set (common_dates x y))"
    using assms distinct_card [OF distinct_common, of x y] distinct_card [of "dates_of x"]
    by (simp add: dropped_def dates_of_def)
  ultimately have "set (common_dates x y) = set (dates_of x)" by (intro card_seteq) simp_all
  then show ?thesis by (simp add: dates_of_def)
qed

lemma pearson_ok_finite:
  assumes "pearson_with_reason lib xs ys = Inr (Inr c)"
  shows "list_all is_finite xs \<and> list_all is_finite ys"
proof -
  have z: "length xs = length ys" "filter (\<lambda>(x, y). \<not> (is_finite x \<and> is_finite y)) (zip xs ys) = []"
    using assms by (auto simp: pearson_with_reason_def Let_def split: if_splits)
  have "is_finite (xs ! i) \<and> is_finite (ys ! i)" if "i < length xs" for i
  proof -
    have "(xs ! i, ys ! i) \<in> set (zip xs ys)" using that z(1) by (auto simp: set_zip)
    then show ?thesis using z(2) unfolding filter_empty_conv by fastforce
  qed
  then show ?thesis using z(1) by (simp add: list_all_length)
qed

lemma xs_flag_Nil: "xs_flag c k n = Inr [] \<longleftrightarrow> \<not> c"
  by (auto simp: xs_flag_def bindR_Inr_iff)

text \<open>What an empty report says of the stages.\<close>

lemma compare_clean:
  assumes "xs_compare lib p ticker i1 ca cb = Inr r" "qr_issues r = []"
  shows "i1 = [] \<and> min_aligned_points p \<le> length ca \<and>
    (rolling_window p \<le> length ca \<longrightarrow> max_divergence lib (rolling_window p) ca cb \<le> max_mean_divergence p) \<and>
    (\<exists>ra rb corr. xs_log_returns lib ca = Inr ra \<and> xs_log_returns lib cb = Inr rb \<and>
       pearson_with_reason lib ra rb = Inr (Inr corr) \<and> correlation_min p \<le> corr)"
proof (cases "length ca < min_aligned_points p")
  case True
  then show ?thesis using assms by (auto simp: xs_compare_def bindR_Inr_iff xs_flag_Nil dest!: mk_report_Inr)
next
  case False
  then obtain ra rb q where q: "xs_log_returns lib ca = Inr ra" "xs_log_returns lib cb = Inr rb"
    "pearson_with_reason lib ra rb = Inr q" "xs_verdict lib p ticker i1 ca cb q = Inr r"
    using assms(1) by (auto simp: xs_compare_def bindR_Inr_iff)
  obtain corr where "q = Inr corr"
    using q(4) assms(2) by (cases q) (auto simp: xs_verdict_def bindR_Inr_iff xs_flag_Nil dest!: mk_report_Inr)
  then show ?thesis
    using q(1-3) q(4) [unfolded \<open>q = Inr corr\<close>] False assms(2)
    by (auto simp: xs_verdict_def bindR_Inr_iff xs_flag_Nil dest!: mk_report_Inr)
qed

text \<open>
  C23. Fail closed: a report without an issue means that the series have the same dates, at least
  the required number of them, that every close of both is a positive number, that the
  correlation of the log-returns is at least the minimum, and that no window of the required
  length diverges by more than the maximum.
\<close>

theorem cross_source_pass_means_agreement:
  assumes "check_cross_source lib p ticker a b = Inr r" "passed r" "2 \<le> min_aligned_points p"
  defines "ca \<equiv> closes_on a (common_dates a b)" and "cb \<equiv> closes_on b (common_dates a b)"
  shows "fst ` set a = fst ` set b \<and> min_aligned_points p \<le> card (fst ` set a) \<and>
    (\<forall>d \<in> fst ` set a. \<exists>x y. by_date a d = Some (Fin x) \<and> by_date b d = Some (Fin y) \<and> 0 < x \<and> 0 < y) \<and>
    (\<exists>ra rb corr. xs_log_returns lib ca = Inr ra \<and> xs_log_returns lib cb = Inr rb \<and>
       pearson_with_reason lib ra rb = Inr (Inr corr) \<and> correlation_min p \<le> corr) \<and>
    (\<forall>i m. i + rolling_window p \<le> length ca \<and>
       window_divergence lib (rolling_window p) (slice i (rolling_window p) ca) (slice i (rolling_window p) cb) = Some m \<longrightarrow>
       m \<le> max_mean_divergence p)"
proof -
  let ?ds = "common_dates a b"
  have len: "length ca = length ?ds" "length cb = length ?ds" by (simp_all add: ca_def cb_def closes_on_def)
  obtain i1 where i1: "xs_flag (dropped a b \<noteq> 0 \<or> dropped b a \<noteq> 0) XSC_SOURCE_MISSING (int (dropped a b + dropped b a)) = Inr i1"
    and c: "xs_compare lib p ticker i1 ca cb = Inr r"
    using assms(1) by (auto simp: check_cross_source_def Let_def bindR_Inr_iff ca_def cb_def)
  have "qr_issues r = []" using assms(2) by (simp add: passed_def)
  note cl = compare_clean [OF c this]
  then obtain ra rb corr where q: "xs_log_returns lib ca = Inr ra" "xs_log_returns lib cb = Inr rb"
    "pearson_with_reason lib ra rb = Inr (Inr corr)" by blast
  have "dropped a b = 0" "dropped b a = 0" using i1 cl by (simp_all add: xs_flag_Nil)
  then have eq: "fst ` set a = fst ` set b" "set ?ds = fst ` set a"
    using dropped_zero [of a b] dropped_zero [of b a] by (auto simp: set_common)
  have n: "length ?ds = card (fst ` set a)" using distinct_card [OF distinct_common, of a b] eq(2) by simp
  have good: "list_all good_close ca" "list_all good_close cb"
    using xs_log_returns_good [OF q(1)] xs_log_returns_good [OF q(2)] pearson_ok_finite [OF q(3)] cl assms(3) len
    by simp_all
  have "\<exists>x y. by_date a d = Some (Fin x) \<and> by_date b d = Some (Fin y) \<and> 0 < x \<and> 0 < y" if "d \<in> fst ` set a" for d
  proof -
    have "by_date a d \<noteq> None" "by_date b d \<noteq> None"
      using that eq(1) by (auto simp: by_date_def map_of_eq_None_iff)
    moreover have "good_close (the (by_date a d))" "good_close (the (by_date b d))"
      using good that eq(2) by (auto simp: ca_def cb_def closes_on_def list_all_iff)
    ultimately show ?thesis by (auto simp: good_close_def split: pyfloat.splits)
  qed
  moreover have "m \<le> max_mean_divergence p" if "i + rolling_window p \<le> length ca"
    "window_divergence lib (rolling_window p) (slice i (rolling_window p) ca) (slice i (rolling_window p) cb) = Some m" for i m
    using max_divergence_ge [OF that] cl that(1) by linarith
  ultimately show ?thesis using eq(1) n cl len(1) by auto
qed

section \<open>A concrete pair of series\<close>

text \<open>Three dates with the closes 1, 2, 1 in both sources, and a library in which \<open>log\<close> is \<open>x - 1\<close>.\<close>

definition ex_xs_lib :: xs_lib where
  "ex_xs_lib = \<lparr>xs_log = (\<lambda>x. x - 1), xs_sqrt = (\<lambda>x. 9 / 8), xs_sum = sum_list\<rparr>"

definition ex_xs_params :: xs_params where
  "ex_xs_params = default_xs_params\<lparr>min_aligned_points := 3, rolling_window := 2\<rparr>"

definition ex_series :: series where
  "ex_series = [(1, Fin 1), (2, Fin 2), (3, Fin 1)]"

lemma frnd_fractions:
  "frnd (1 / 2) = 1 / 2" "frnd (1 / 4) = 1 / 4" "frnd (3 / 4) = 3 / 4"
  "frnd (9 / 16) = 9 / 16" "frnd (9 / 8) = 9 / 8" "frnd (81 / 64) = 81 / 64"
proof -
  show "frnd (1 / 2) = 1 / 2" by (rule frnd_exactI [of _ 1 "- 1"]) (simp_all add: power_int_def power_one_over)
  show "frnd (1 / 4) = 1 / 4" by (rule frnd_exactI [of _ 1 "- 2"]) (simp_all add: power_int_def power_one_over)
  show "frnd (3 / 4) = 3 / 4" by (rule frnd_exactI [of _ 3 "- 2"]) (simp_all add: power_int_def power_one_over)
  show "frnd (9 / 16) = 9 / 16" by (rule frnd_exactI [of _ 9 "- 4"]) (simp_all add: power_int_def power_one_over)
  show "frnd (9 / 8) = 9 / 8" by (rule frnd_exactI [of _ 9 "- 3"]) (simp_all add: power_int_def power_one_over)
  show "frnd (81 / 64) = 81 / 64" by (rule frnd_exactI [of _ 81 "- 6"]) (simp_all add: power_int_def power_one_over)
qed

lemma frnd_minus: "frnd (- (1 / 2)) = - (1 / 2)" "frnd (- (3 / 4)) = - (3 / 4)"
  by (simp_all add: flt.odd frnd_fractions)

lemma ex_xs_closes: "common_dates ex_series ex_series = [1, 2, 3]" "closes_on ex_series [1, 2, 3] = [Fin 1, Fin 2, Fin 1]"
  "dropped ex_series ex_series = 0"
  by (simp_all add: common_dates_def dates_of_def ex_series_def closes_on_def by_date_def dropped_def)

lemma ex_xs_returns: "xs_log_returns ex_xs_lib [Fin 1, Fin 2, Fin 1] = Inr [Fin 1, Fin (- (1 / 2))]"
  by (simp add: xs_log_returns_def good_close_def log_ratio_def float_of_small frnd_fractions ex_xs_lib_def)

lemma ex_pearson: "pearson_with_reason ex_xs_lib [Fin 1, Fin (- (1 / 2))] [Fin 1, Fin (- (1 / 2))] = Inr (Inr 1)"
  by (simp add: pearson_with_reason_def Let_def xs_mean_def co_moment_def ex_xs_lib_def frnd_fractions frnd_minus)

lemma ex_xs_report:
  "check_cross_source ex_xs_lib ex_xs_params ''SBER'' ex_series ex_series =
     Inr \<lparr>qr_ticker = ''SBER'', qr_gate = cross_source, qr_issues = []\<rparr>"
proof -
  have c: "\<not> 1 < correlation_min ex_xs_params"
    using flt.le_fixed [of 1 "99 / 100"] by (simp add: ex_xs_params_def default_xs_params_def)
  have "0 \<le> frnd (1 / 100)" by (rule flt.nonneg) simp
  moreover have "max_divergence ex_xs_lib 2 [Fin 1, Fin 2, Fin 1] [Fin 1, Fin 2, Fin 1] = 0"
    by (simp add: max_divergence_def window_divergence_def slice_def good_close_def ex_xs_lib_def numeral_2_eq_2)
  ultimately have d: "\<not> max_mean_divergence ex_xs_params < max_divergence ex_xs_lib 2 [Fin 1, Fin 2, Fin 1] [Fin 1, Fin 2, Fin 1]"
    by (simp add: ex_xs_params_def default_xs_params_def)
  show ?thesis using c d
    by (simp add: check_cross_source_def Let_def ex_xs_closes xs_flag_def xs_compare_def ex_xs_returns ex_pearson xs_verdict_def
        ex_xs_params_def mk_report_def cross_source_def)
qed

theorem cross_source_pass_means_agreement_witness:
  "check_cross_source ex_xs_lib ex_xs_params ''SBER'' ex_series ex_series =
     Inr \<lparr>qr_ticker = ''SBER'', qr_gate = cross_source, qr_issues = []\<rparr> \<and>
   min_aligned_points ex_xs_params \<le> card (fst ` set ex_series)"
  using cross_source_pass_means_agreement [OF ex_xs_report] ex_xs_report
  by (simp add: passed_def ex_xs_params_def)

end
