(* ===== verification/Historical.thy ===== *)
theory Historical
  imports Quality
begin

text \<open>
  \<open>src/data/quality/historical.py\<close>: the Level-3 gate, which looks for splits the source did not
  apply, for bars dated in the future and for bars after a delisting. Prices are doubles; a
  quotient that overflows is infinite, \<open>round\<close> of an infinity raises. Bars have dates.
\<close>

section \<open>Events and parameters\<close>

record split_event =
  sp_date :: int
  sp_ratio :: rat
  sp_confirmed :: bool
  sp_agreeing :: "string set"

definition is_reverse :: "split_event \<Rightarrow> bool" where
  "is_reverse e \<longleftrightarrow> 0 < sp_ratio e \<and> sp_ratio e < 1"

record hist_params =
  split_min_ratio :: rat
  split_max_ratio :: rat
  split_min_agreeing_fields :: nat
  future_row_max_date :: "int option"
  hp_delisted_at :: "int option"

definition default_hist_params :: hist_params where
  "default_hist_params = \<lparr>split_min_ratio = 2, split_max_ratio = 10, split_min_agreeing_fields = 2,
     future_row_max_date = None, hp_delisted_at = None\<rparr>"

section \<open>Split detection\<close>

text \<open>\<open>x <= 0\<close>, false for NaN, and the quotient of two positive doubles.\<close>

definition f_nonpos :: "pyfloat \<Rightarrow> bool" where
  "f_nonpos x = (case x of Fin v \<Rightarrow> v \<le> 0 | Inf neg \<Rightarrow> neg | NaN \<Rightarrow> False)"

fun f_div :: "pyfloat \<Rightarrow> pyfloat \<Rightarrow> pyfloat" where
  "f_div (Fin x) (Fin y) = float_of (x / y)"
| "f_div (Fin x) (Inf n) = Fin 0"
| "f_div (Inf n) (Fin y) = Inf n"
| "f_div _ _ = NaN"

definition SPLIT_TOLERANCE :: rat where "SPLIT_TOLERANCE = frnd (2 / 100)"

text \<open>The nearest integer to a finite double at a relative distance within the tolerance.\<close>

definition near_integer :: "rat \<Rightarrow> int option" where
  "near_integer x =
     (let n = rhe x
      in if n < 2 then None
         else if SPLIT_TOLERANCE < frnd (\<bar>frnd (x - of_int n)\<bar> / of_int n) then None
         else Some n)"

text \<open>\<open>_nearest_integer\<close>: positive for a forward split, negative for a reverse one.\<close>

definition nearest_integer :: "pyfloat \<Rightarrow> int option result" where
  "nearest_integer ratio =
     (case ratio of
        Fin r \<Rightarrow>
          (if r \<le> 0 then Inr None
           else if r < 1 then
             (case float_of (1 / r) of Fin iv \<Rightarrow> Inr (near_integer iv) | _ \<Rightarrow> Inl (OtherError ''OverflowError''))
           else Inr (map_option uminus (near_integer r)))
      | _ \<Rightarrow> Inr None)"

definition field_of :: "string \<Rightarrow> bar \<Rightarrow> pyfloat" where
  "field_of f b = (if f = ''open'' then b_open b else if f = ''high'' then b_high b else b_low b)"

text \<open>Whether one field of the pair shows the same integer.\<close>

definition field_agrees :: "nat \<Rightarrow> bar \<Rightarrow> bar \<Rightarrow> string \<Rightarrow> bool result" where
  "field_agrees n_abs prev cur f =
     (if f_nonpos (field_of f prev) \<or> f_nonpos (field_of f cur) then Inr False
      else bindR (nearest_integer (f_div (field_of f cur) (field_of f prev))) (\<lambda>m.
        Inr (case m of None \<Rightarrow> False | Some k \<Rightarrow> nat \<bar>k\<bar> = n_abs)))"

definition agreeing_fields :: "nat \<Rightarrow> bar \<Rightarrow> bar \<Rightarrow> string list result" where
  "agreeing_fields n_abs prev cur =
     collect (\<lambda>f. bindR (field_agrees n_abs prev cur f) (\<lambda>b. Inr (if b then Some f else None)))
       [''open'', ''high'', ''low'']"

definition split_between :: "hist_params \<Rightarrow> bar \<times> bar \<Rightarrow> split_event option result" where
  "split_between p = (\<lambda>(prev, cur).
     if f_nonpos (b_close prev) \<or> f_nonpos (b_close cur) then Inr None
     else bindR (nearest_integer (f_div (b_close cur) (b_close prev))) (\<lambda>m.
       case m of None \<Rightarrow> Inr None
       | Some n_signed \<Rightarrow>
           let n_abs = nat \<bar>n_signed\<bar> in
           if \<not> (split_min_ratio p \<le> of_nat n_abs \<and> of_nat n_abs \<le> split_max_ratio p) then Inr None
           else bindR (agreeing_fields n_abs prev cur) (\<lambda>agreeing.
             if split_min_agreeing_fields p \<le> length agreeing
             then Inr (Some \<lparr>sp_date = date_key cur,
                    sp_ratio = (if 0 < n_signed then of_nat n_abs else frnd (1 / of_nat n_abs)),
                    sp_confirmed = True, sp_agreeing = insert ''close'' (set agreeing)\<rparr>)
             else Inr None)))"

definition detect_splits :: "hist_params \<Rightarrow> bar list \<Rightarrow> split_event list result" where
  "detect_splits p bars =
     (let bl = sort_key date_key bars
      in bindR (collect (split_between p) (zip bl (tl bl))) (\<lambda>evs. Inr (sort_key sp_date evs)))"

section \<open>Adjustment of bars\<close>

definition f_scale :: "rat \<Rightarrow> pyfloat \<Rightarrow> pyfloat" where
  "f_scale k x = (case x of Fin v \<Rightarrow> float_of (v * k) | y \<Rightarrow> y)"

definition adjust_bar :: "split_event \<Rightarrow> bar \<Rightarrow> bar" where
  "adjust_bar s b =
     (if date_key b < sp_date s
      then let iv = frnd (1 / sp_ratio s)
           in b\<lparr>b_open := f_scale iv (b_open b), b_high := f_scale iv (b_high b),
                b_low := f_scale iv (b_low b), b_close := f_scale iv (b_close b),
                b_volume := rhe (frnd (frnd (of_int (b_volume b)) * sp_ratio s))\<rparr>
      else b)"

definition apply_splits_to_bars :: "bar list \<Rightarrow> split_event list \<Rightarrow> bar list" where
  "apply_splits_to_bars bars splits =
     (if splits = [] then bars else map (fold adjust_bar (sort_key sp_date splits)) bars)"

section \<open>The gate\<close>

definition historical :: string where "historical = ''historical''"

definition hst_flag :: "nat \<Rightarrow> issue_kind \<Rightarrow> issue list result" where
  "hst_flag n kind = (if n = 0 then Inr [] else bindR (mk_issue historical kind (int n)) (\<lambda>i. Inr [i]))"

definition check_historical :: "hist_params \<Rightarrow> int \<Rightarrow> string \<Rightarrow> bar list \<Rightarrow> quality_report result" where
  "check_historical p now_day ticker bars =
     (let bl = sort_key date_key bars;
          today = (case future_row_max_date p of None \<Rightarrow> now_day | Some d \<Rightarrow> d);
          future = filter (\<lambda>b. today < date_key b) bl;
          bl = (if future \<noteq> [] then filter (\<lambda>b. date_key b \<le> today) bl else bl);
          after = (case hp_delisted_at p of None \<Rightarrow> [] | Some d \<Rightarrow> filter (\<lambda>b. d < date_key b) bl);
          bl = (case hp_delisted_at p of None \<Rightarrow> bl
                | Some d \<Rightarrow> if after \<noteq> [] then filter (\<lambda>b. date_key b \<le> d) bl else bl)
      in bindR (hst_flag (length future) HST_FUTURE_ROW) (\<lambda>i1.
         bindR (hst_flag (length after) HST_DELISTED) (\<lambda>i2.
         bindR (detect_splits p bl) (\<lambda>evs.
         bindR (hst_flag (length evs) HST_SPLIT_DETECTED) (\<lambda>i3.
           mk_report ticker historical (i1 @ i2 @ i3))))))"

section \<open>What a detected split is\<close>

lemma tolerance_bounds: "19 / 1000 \<le> SPLIT_TOLERANCE" "SPLIT_TOLERANCE \<le> 21 / 1000"
proof -
  have e: "\<bar>frnd (2 / 100) - 2 / 100\<bar> \<le> 1 / 2 ^ 32" by (rule frnd_error_small) simp_all
  show "19 / 1000 \<le> SPLIT_TOLERANCE" "SPLIT_TOLERANCE \<le> 21 / 1000"
    using e unfolding SPLIT_TOLERANCE_def abs_le_iff by simp_all
qed

text \<open>Below \<open>2^20\<close> the tolerance test is the exact one up to a millionth.\<close>

lemma near_integer_Some:
  assumes "near_integer x = Some n" "0 \<le> x" "x \<le> 2 ^ 20"
  shows "2 \<le> n \<and> \<bar>x - of_int n\<bar> \<le> 22 / 1000 * of_int n"
proof -
  have n: "n = rhe x" "2 \<le> n" and t: "frnd (\<bar>frnd (x - of_int n)\<bar> / of_int n) \<le> SPLIT_TOLERANCE"
    using assms(1) by (auto simp: near_integer_def Let_def split: if_splits)
  let ?d = "\<bar>x - of_int n\<bar>" and ?f = "\<bar>frnd (x - of_int n)\<bar>"
  have half: "?d \<le> 1 / 2" using rhe_error [of x] by (simp add: n(1) abs_minus_commute)
  have f: "?f = frnd ?d" using flt.odd [of "x - of_int n"] flt.nonneg [of "x - of_int n"] flt.nonneg [of "of_int n - x"]
    by (cases "0 \<le> x - of_int n") (auto simp: abs_if)
  have e1: "\<bar>frnd ?d - ?d\<bar> \<le> 1 / 2 ^ 32" using half by (intro frnd_error_small) simp_all
  have n0: "(0 :: rat) < of_int n" using n(2) by simp
  have "1 / 2 ^ 32 \<le> (1 / 2 :: rat)" by simp
  then have "frnd ?d \<le> 1" using half abs_le_D1 [OF e1] by linarith
  also have "1 \<le> (of_int n :: rat)" using n(2) by simp
  finally have "?f / of_int n \<le> 1" using n0 unfolding f by simp
  then have e2: "\<bar>frnd (?f / of_int n) - ?f / of_int n\<bar> \<le> 1 / 2 ^ 32"
    using n0 by (intro frnd_error_small) (simp_all add: divide_nonneg_pos order.trans [of _ 1])
  have "?f / of_int n \<le> SPLIT_TOLERANCE + 1 / 2 ^ 32" using e2 t unfolding abs_le_iff by linarith
  then have "?f / of_int n \<le> 215 / 10000" using tolerance_bounds(2) by simp
  then have "?f \<le> 215 / 10000 * of_int n" using n0 by (simp add: divide_le_eq)
  then have "?d \<le> 215 / 10000 * of_int n + 1 / 2 ^ 32" using e1 unfolding f abs_le_iff by linarith
  moreover have "1 / 2 ^ 32 \<le> 5 / 10000 * (of_int n :: rat)" using n(2) by simp
  ultimately show ?thesis using n(2) by linarith
qed

lemma near_integer_exact:
  assumes "\<bar>x - of_int n\<bar> \<le> 1 / 100" "2 \<le> n"
  shows "near_integer x = Some n"
proof -
  have r: "rhe x = n" using assms(1) by (intro rhe_unique) linarith
  let ?f = "\<bar>frnd (x - of_int n)\<bar>"
  have "frnd (x - of_int n) \<le> frnd (1 / 100)" "frnd (- (1 / 100)) \<le> frnd (x - of_int n)"
    using assms(1) unfolding abs_le_iff by (auto intro!: flt.mono)
  then have f: "?f \<le> frnd (1 / 100)" by (simp add: flt.odd abs_le_iff)
  also have "\<dots> \<le> 11 / 1000" using frnd_error_small [of "1 / 100"] unfolding abs_le_iff by simp
  finally have f1: "?f \<le> 11 / 1000" .
  have "(1 :: rat) \<le> of_int n" using assms(2) by simp
  then have "?f / of_int n \<le> ?f / 1" by (intro divide_left_mono) simp_all
  then have "?f / of_int n \<le> 2 / 100" using f1 by linarith
  then have "frnd (?f / of_int n) \<le> frnd (2 / 100)" by (rule flt.mono)
  then show ?thesis using assms(2) by (simp add: near_integer_def r Let_def SPLIT_TOLERANCE_def)
qed

text \<open>A quotient of consecutive prices that shows the integer \<open>n\<close> at the relative distance \<open>t\<close>,
  downwards (forward split) or upwards (reverse split).\<close>

definition shows_forward :: "rat \<Rightarrow> nat \<Rightarrow> pyfloat \<Rightarrow> bool" where
  "shows_forward t n q \<longleftrightarrow> (\<exists>r. q = Fin r \<and> 0 < r \<and> r < 1 \<and> \<bar>fin (float_of (1 / r)) - of_nat n\<bar> \<le> t * of_nat n)"

definition shows_reverse :: "rat \<Rightarrow> nat \<Rightarrow> pyfloat \<Rightarrow> bool" where
  "shows_reverse t n q \<longleftrightarrow> (\<exists>r. q = Fin r \<and> 1 \<le> r \<and> \<bar>r - of_nat n\<bar> \<le> t * of_nat n)"

lemma near_integer_small:
  assumes "near_integer x = Some n" "0 \<le> x" "n \<le> 1000"
  shows "2 \<le> n \<and> \<bar>x - of_int n\<bar> \<le> 22 / 1000 * of_int n"
proof (rule near_integer_Some [OF assms(1,2)])
  have "n = rhe x" using assms(1) by (auto simp: near_integer_def Let_def split: if_splits)
  then have "x \<le> of_int n + 1 / 2" using rhe_error [of x] unfolding abs_le_iff by linarith
  moreover have "(of_int n :: rat) \<le> 1000" using assms(3) by (simp only: of_int_le_numeral_iff)
  ultimately show "x \<le> 2 ^ 20" by simp
qed

lemma nearest_integer_sound:
  assumes "nearest_integer q = Inr (Some k)" "\<bar>k\<bar> \<le> 1000"
  shows "0 < k \<and> shows_forward (22 / 1000) (nat k) q \<or> k < 0 \<and> shows_reverse (22 / 1000) (nat (- k)) q"
proof -
  obtain r where q: "q = Fin r" "0 < r" using assms(1) by (cases q) (auto simp: nearest_integer_def split: if_splits)
  show ?thesis
  proof (cases "r < 1")
    case True
    then obtain x where x: "float_of (1 / r) = Fin x" "near_integer x = Some k"
      using assms(1) q by (auto simp: nearest_integer_def split: pyfloat.splits)
    have "0 \<le> x" using x(1) flt.nonneg [of "1 / r"] q(2) by (auto simp: float_of_def Let_def split: if_splits)
    then have "2 \<le> k \<and> \<bar>x - of_int k\<bar> \<le> 22 / 1000 * of_int k"
      using assms(2) by (intro near_integer_small [OF x(2)]) linarith+
    then show ?thesis using q True x(1) by (auto simp: shows_forward_def)
  next
    case False
    then obtain n where n: "near_integer r = Some n" "k = - n"
      using assms(1) q by (auto simp: nearest_integer_def)
    have "2 \<le> n \<and> \<bar>r - of_int n\<bar> \<le> 22 / 1000 * of_int n"
      using assms(2) q(2) n(2) by (intro near_integer_small [OF n(1)]) linarith+
    then show ?thesis using q False n(2) by (auto simp: shows_reverse_def)
  qed
qed

lemma nearest_integer_forward:
  assumes "q = Fin r" "0 < r" "r < 1" "float_of (1 / r) = Fin x" "\<bar>x - of_nat n\<bar> \<le> 1 / 100" "2 \<le> n"
  shows "nearest_integer q = Inr (Some (int n))"
  using near_integer_exact [of x "int n"] assms by (simp add: nearest_integer_def)

definition OHL :: "string list" where "OHL = [''open'', ''high'', ''low'']"

lemma field_agrees_sound:
  assumes "field_agrees n prev cur f = Inr True" "n \<le> 10"
  shows "shows_forward (22 / 1000) n (f_div (field_of f cur) (field_of f prev)) \<or>
    shows_reverse (22 / 1000) n (f_div (field_of f cur) (field_of f prev))"
proof -
  obtain k where "nearest_integer (f_div (field_of f cur) (field_of f prev)) = Inr (Some k)" "nat \<bar>k\<bar> = n"
    using assms(1) by (auto simp: field_agrees_def bindR_Inr_iff split: if_splits option.splits)
  with nearest_integer_sound [OF this(1)] assms(2) show ?thesis by (cases "0 < k") auto
qed

lemma agreeing_fields_mem:
  "agreeing_fields n prev cur = Inr fs \<Longrightarrow> f \<in> set fs \<longleftrightarrow> f \<in> set OHL \<and> field_agrees n prev cur f = Inr True"
  unfolding agreeing_fields_def OHL_def
  by (subst collect_Inr_mem) (auto simp: bindR_Inr_iff split: if_splits)

lemma detect_mem:
  assumes "detect_splits p bars = Inr evs"
  shows "e \<in> set evs \<longleftrightarrow> (\<exists>pc \<in> set (zip (sort_key date_key bars) (tl (sort_key date_key bars))). split_between p pc = Inr (Some e))"
proof -
  obtain evs0 where e: "collect (split_between p) (zip (sort_key date_key bars) (tl (sort_key date_key bars))) = Inr evs0"
    "evs = sort_key sp_date evs0"
    using assms by (auto simp: detect_splits_def Let_def bindR_Inr_iff)
  show ?thesis unfolding e(2) set_sort by (rule collect_Inr_mem [OF e(1)])
qed

lemma split_between_Some:
  assumes "split_between p (prev, cur) = Inr (Some e)"
  obtains k n fs where "n = nat \<bar>k\<bar>" "nearest_integer (f_div (b_close cur) (b_close prev)) = Inr (Some k)"
    "split_min_ratio p \<le> of_nat n" "of_nat n \<le> split_max_ratio p"
    "agreeing_fields n prev cur = Inr fs" "split_min_agreeing_fields p \<le> length fs"
    "sp_date e = date_key cur" "sp_ratio e = (if 0 < k then of_nat n else frnd (1 / of_nat n))"
proof -
  obtain m where m: "nearest_integer (f_div (b_close cur) (b_close prev)) = Inr m"
    using assms by (auto simp: split_between_def bindR_Inr_iff split: if_splits)
  obtain k where k: "m = Some k" using assms m by (cases m) (auto simp: split_between_def split: if_splits)
  have g: "split_min_ratio p \<le> of_nat (nat \<bar>k\<bar>) \<and> of_nat (nat \<bar>k\<bar>) \<le> split_max_ratio p"
    using assms m unfolding k by (auto simp: split_between_def Let_def split: if_splits)
  obtain fs where fs: "agreeing_fields (nat \<bar>k\<bar>) prev cur = Inr fs"
    using assms m g unfolding k by (auto simp: split_between_def Let_def bindR_Inr_iff split: if_splits)
  have "split_min_agreeing_fields p \<le> length fs \<and> e = \<lparr>sp_date = date_key cur,
      sp_ratio = (if 0 < k then of_nat (nat \<bar>k\<bar>) else frnd (1 / of_nat (nat \<bar>k\<bar>))),
      sp_confirmed = True, sp_agreeing = insert ''close'' (set fs)\<rparr>"
    using assms m g fs unfolding k by (simp add: split_between_def Let_def split: if_splits)
  then show thesis using that [of "nat \<bar>k\<bar>" k fs] m g fs unfolding k by simp
qed

text \<open>
  What the detector reports is a split: with the default parameters every event lies between
  two bars consecutive by date whose closes are in the ratio of an integer from 2 to 10 within 2.2
  percent, downwards for a forward split of that ratio, upwards for a reverse split of its
  inverse, and at least two of open, high and low show the same integer.
\<close>

theorem detected_splits_are_splits:
  assumes "detect_splits default_hist_params bars = Inr evs" "e \<in> set evs"
  shows "\<exists>prev cur n. (prev, cur) \<in> set (zip (sort_key date_key bars) (tl (sort_key date_key bars))) \<and>
    sp_date e = date_key cur \<and> 2 \<le> n \<and> n \<le> 10 \<and>
    (sp_ratio e = of_nat n \<and> shows_forward (22 / 1000) n (f_div (b_close cur) (b_close prev)) \<or>
     sp_ratio e = frnd (1 / of_nat n) \<and> shows_reverse (22 / 1000) n (f_div (b_close cur) (b_close prev))) \<and>
    2 \<le> card {f \<in> set OHL. shows_forward (22 / 1000) n (f_div (field_of f cur) (field_of f prev)) \<or>
                           shows_reverse (22 / 1000) n (f_div (field_of f cur) (field_of f prev))}"
proof -
  obtain prev cur where pc: "(prev, cur) \<in> set (zip (sort_key date_key bars) (tl (sort_key date_key bars)))"
    and s: "split_between default_hist_params (prev, cur) = Inr (Some e)"
    using assms detect_mem by (metis surj_pair)
  obtain k n fs where nk: "n = nat \<bar>k\<bar>" and k: "nearest_integer (f_div (b_close cur) (b_close prev)) = Inr (Some k)"
    and nr: "2 \<le> (of_nat n :: rat)" "of_nat n \<le> (10 :: rat)" and fs: "agreeing_fields n prev cur = Inr fs" "2 \<le> length fs"
    and e: "sp_date e = date_key cur" "sp_ratio e = (if 0 < k then of_nat n else frnd (1 / of_nat n))"
    by (rule split_between_Some [OF s]) (simp_all add: default_hist_params_def del: of_nat_nat)
  have n: "2 \<le> n" "n \<le> 10" using nr by (metis of_nat_le_iff of_nat_numeral)+
  let ?S = "{f \<in> set OHL. shows_forward (22 / 1000) n (f_div (field_of f cur) (field_of f prev)) \<or>
     shows_reverse (22 / 1000) n (f_div (field_of f cur) (field_of f prev))}"
  have "set fs \<subseteq> ?S" using agreeing_fields_mem [OF fs(1)] field_agrees_sound n(2) by blast
  moreover have "distinct fs" "finite ?S"
    using fs(1) by (auto simp: agreeing_fields_def collect_def bindR_Inr_iff List.map_filter_def split: if_splits option.splits)
  ultimately have "2 \<le> card ?S" using card_mono [of ?S "set fs"] distinct_card [of fs] fs(2) by simp
  moreover have "0 < k \<and> shows_forward (22 / 1000) n (f_div (b_close cur) (b_close prev)) \<or>
      k < 0 \<and> shows_reverse (22 / 1000) n (f_div (b_close cur) (b_close prev))"
  proof -
    have "\<bar>k\<bar> \<le> 1000" using n(2) nk by linarith
    from nearest_integer_sound [OF k this] show ?thesis using nk by (cases "0 < k") auto
  qed
  ultimately show ?thesis using pc n e
    by (intro exI [of _ prev] exI [of _ cur] exI [of _ n]) auto
qed

text \<open>A price that fell to a clean \<open>n\<close>-th: the double quotient inverts to \<open>n\<close> within a hundredth.\<close>

definition clean_step :: "nat \<Rightarrow> pyfloat \<Rightarrow> pyfloat \<Rightarrow> bool" where
  "clean_step n before now \<longleftrightarrow> \<not> f_nonpos before \<and> \<not> f_nonpos now \<and>
     (\<exists>r x. f_div now before = Fin r \<and> 0 < r \<and> r < 1 \<and> float_of (1 / r) = Fin x \<and> \<bar>x - of_nat n\<bar> \<le> 1 / 100)"

lemma clean_step_nearest: "clean_step n before now \<Longrightarrow> 2 \<le> n \<Longrightarrow> nearest_integer (f_div now before) = Inr (Some (int n))"
  unfolding clean_step_def using nearest_integer_forward by blast

lemma clean_fields_agree:
  assumes "2 \<le> n" "\<forall>f \<in> set OHL. clean_step n (field_of f prev) (field_of f cur)"
  shows "agreeing_fields n prev cur = Inr OHL"
proof -
  have "field_agrees n prev cur f = Inr True" if "f \<in> set OHL" for f
    using assms that clean_step_nearest [of n "field_of f prev" "field_of f cur"]
    by (auto simp: field_agrees_def clean_step_def)
  then show ?thesis by (simp add: agreeing_fields_def collect_def OHL_def List.map_filter_def)
qed

text \<open>
  No clean split is missed: whenever two bars consecutive by date show the same integer
  \<open>n\<close> from 2 to 10 in all four prices, within a hundredth, the detector reports a forward split
  of ratio \<open>n\<close> on the date of the later one.
\<close>

theorem clean_split_detected:
  assumes "detect_splits default_hist_params bars = Inr evs"
    and "(prev, cur) \<in> set (zip (sort_key date_key bars) (tl (sort_key date_key bars)))"
    and "2 \<le> n" "n \<le> 10" "clean_step n (b_close prev) (b_close cur)"
    and "\<forall>f \<in> set OHL. clean_step n (field_of f prev) (field_of f cur)"
  shows "\<exists>e \<in> set evs. sp_date e = date_key cur \<and> sp_ratio e = of_nat n"
proof -
  have g: "(2 :: rat) \<le> of_nat n" "of_nat n \<le> (10 :: rat)"
    using assms(3,4) by (metis of_nat_le_iff of_nat_numeral)+
  have "split_between default_hist_params (prev, cur) = Inr (Some \<lparr>sp_date = date_key cur, sp_ratio = of_nat n,
      sp_confirmed = True, sp_agreeing = insert ''close'' (set OHL)\<rparr>)"
    using clean_step_nearest [OF assms(5,3)] clean_fields_agree [OF assms(3,6)] assms(3,5) g
    by (auto simp: split_between_def default_hist_params_def clean_step_def Let_def OHL_def)
  then show ?thesis using assms(2) detect_mem [OF assms(1)] by force
qed

lemma hst_flag_Inr: "hst_flag n k = Inr i \<Longrightarrow>
   i = (if n = 0 then [] else [\<lparr>is_gate = historical, is_kind = k, is_severity = severity_for k, is_count = int n\<rparr>])"
  by (auto simp: hst_flag_def mk_issue_def historical_def bindR_Inr_iff split: if_splits)

lemma worst_three:
  "worst_severity r = Some CRITICAL \<longleftrightarrow> CRITICAL \<in> is_severity ` set (qr_issues r)"
proof
  assume c: "CRITICAL \<in> is_severity ` set (qr_issues r)"
  from worst_severity_ge [OF c] obtain w where "worst_severity r = Some w" "CRITICAL \<le> w" by blast
  then show "worst_severity r = Some CRITICAL" by (cases w) (simp_all add: less_eq_severity_def)
next
  assume w: "worst_severity r = Some CRITICAL"
  then have "qr_issues r \<noteq> []" "Max (is_severity ` set (qr_issues r)) = CRITICAL"
    by (auto simp: worst_severity_def worst_eq split: if_splits)
  then show "CRITICAL \<in> is_severity ` set (qr_issues r)"
    using Max_in [of "is_severity ` set (qr_issues r)"] by auto
qed

text \<open>
  The gate rejects (\<open>CRITICAL\<close>) exactly the series with a bar after today, and a series that
  passes has no bar after today or after the delisting and shows no split.
\<close>

theorem historical_gate_spec:
  assumes "check_historical p now_day ticker bars = Inr r"
  defines "today \<equiv> (case future_row_max_date p of None \<Rightarrow> now_day | Some d \<Rightarrow> d)"
  shows "(rejected r \<longleftrightarrow> (\<exists>b \<in> set bars. today < date_key b)) \<and>
    (passed r \<longrightarrow> (\<forall>b \<in> set bars. date_key b \<le> today \<and> (\<forall>d. hp_delisted_at p = Some d \<longrightarrow> date_key b \<le> d)) \<and>
       detect_splits p bars = Inr [])"
proof -
  define bl where "bl = sort_key date_key bars"
  define future where "future = filter (\<lambda>b. today < date_key b) bl"
  define bl1 where "bl1 = (if future \<noteq> [] then filter (\<lambda>b. date_key b \<le> today) bl else bl)"
  define after where "after = (case hp_delisted_at p of None \<Rightarrow> [] | Some d \<Rightarrow> filter (\<lambda>b. d < date_key b) bl1)"
  define bl2 where "bl2 = (case hp_delisted_at p of None \<Rightarrow> bl1
    | Some d \<Rightarrow> if after \<noteq> [] then filter (\<lambda>b. date_key b \<le> d) bl1 else bl1)"
  obtain i1 i2 evs i3 where i: "hst_flag (length future) HST_FUTURE_ROW = Inr i1"
    "hst_flag (length after) HST_DELISTED = Inr i2" "detect_splits p bl2 = Inr evs"
    "hst_flag (length evs) HST_SPLIT_DETECTED = Inr i3" "qr_issues r = i1 @ i2 @ i3"
    using assms(1) mk_report_Inr
    unfolding check_historical_def Let_def bl_def future_def bl1_def after_def bl2_def today_def bindR_Inr_iff by blast
  note f = hst_flag_Inr [OF i(1)] hst_flag_Inr [OF i(2)] hst_flag_Inr [OF i(4)]
  have "rejected r \<longleftrightarrow> future \<noteq> []"
    unfolding rejected_def worst_three i(5) f by auto
  moreover have "future \<noteq> [] \<longleftrightarrow> (\<exists>b \<in> set bars. today < date_key b)"
    by (auto simp: future_def bl_def filter_empty_conv)
  moreover have "(\<forall>b \<in> set bars. date_key b \<le> today \<and> (\<forall>d. hp_delisted_at p = Some d \<longrightarrow> date_key b \<le> d)) \<and>
      detect_splits p bars = Inr []" if "passed r"
  proof -
    have e: "future = []" "after = []" "evs = []"
      using that unfolding passed_def i(5) f by (auto split: if_splits)
    have b: "bl1 = bl" "bl2 = bl" using e by (auto simp: bl1_def bl2_def split: option.splits)
    have "detect_splits p bl2 = detect_splits p bars"
      unfolding b by (simp add: detect_splits_def bl_def sort_key_id_if_sorted)
    moreover have "\<forall>b \<in> set bl. \<not> today < date_key b" using e(1) by (simp add: future_def filter_empty_conv)
    moreover have "\<forall>b \<in> set bl. \<forall>d. hp_delisted_at p = Some d \<longrightarrow> \<not> d < date_key b"
      using e(2) b(1) by (auto simp: after_def filter_empty_conv)
    ultimately show ?thesis using i(3) e(3) by (auto simp: bl_def not_less)
  qed
  ultimately show ?thesis by blast
qed

section \<open>A concrete split\<close>

definition ex_split_before :: bar where
  "ex_split_before = \<lparr>primary_key = Some 10, b_open = Fin 96, b_high = Fin 104, b_low = Fin 88, b_close = Fin 100, b_volume = 5\<rparr>"

definition ex_split_after :: bar where
  "ex_split_after = \<lparr>primary_key = Some 11, b_open = Fin 48, b_high = Fin 52, b_low = Fin 44, b_close = Fin 50, b_volume = 9\<rparr>"

definition ex_event :: split_event where
  "ex_event = \<lparr>sp_date = 11, sp_ratio = 2, sp_confirmed = True, sp_agreeing = {''open'', ''high'', ''low'', ''close''}\<rparr>"

lemma frnd_half: "frnd (1 / 2) = 1 / 2"
  by (rule frnd_exactI [of _ 1 "- 1"]) (simp_all add: power_int_def)

lemma halved: "clean_step 2 (Fin (2 * x)) (Fin x)" if "0 < x"
proof -
  have "f_div (Fin x) (Fin (2 * x)) = Fin (1 / 2)" using that by (simp add: float_of_small frnd_half)
  moreover have "float_of (1 / (1 / 2)) = Fin 2" by (simp add: float_of_small)
  ultimately show ?thesis using that unfolding clean_step_def f_nonpos_def
    by (intro conjI exI [of _ "1 / 2"] exI [of _ 2]) simp_all
qed

lemma ex_clean_step: "clean_step 2 (b_close ex_split_before) (b_close ex_split_after)"
  "\<forall>f \<in> set OHL. clean_step 2 (field_of f ex_split_before) (field_of f ex_split_after)"
  using halved [of 50] halved [of 48] halved [of 52] halved [of 44]
  by (simp_all add: OHL_def field_of_def ex_split_before_def ex_split_after_def)

lemma ex_dates_split [simp]: "date_key ex_split_before = 10" "date_key ex_split_after = 11"
  by (simp_all add: date_key_def ex_split_before_def ex_split_after_def)

lemma ex_sorted: "sort_key date_key [ex_split_before, ex_split_after] = [ex_split_before, ex_split_after]"
  by simp

lemma ex_detected: "detect_splits default_hist_params [ex_split_before, ex_split_after] = Inr [ex_event]"
proof -
  have "split_between default_hist_params (ex_split_before, ex_split_after) = Inr (Some ex_event)"
    using clean_step_nearest [OF ex_clean_step(1)] clean_fields_agree [OF _ ex_clean_step(2)] ex_clean_step(1)
    by (simp add: split_between_def default_hist_params_def clean_step_def OHL_def ex_event_def) auto
  then show ?thesis by (simp add: detect_splits_def Let_def ex_sorted collect_def List.map_filter_def)
qed

theorem detected_splits_are_splits_witness:
  "\<exists>prev cur. (prev, cur) \<in> set (zip [ex_split_before, ex_split_after] [ex_split_after]) \<and> date_key cur = 11"
  using detected_splits_are_splits [OF ex_detected, of ex_event] by (auto simp: ex_sorted ex_event_def)

theorem clean_split_detected_witness: "\<exists>e \<in> set [ex_event]. sp_date e = date_key ex_split_after \<and> sp_ratio e = of_nat 2"
  by (rule clean_split_detected [OF ex_detected _ _ _ ex_clean_step]) (simp_all add: ex_sorted)

theorem historical_gate_spec_witness:
  "\<exists>r. check_historical default_hist_params 10 ''SBER'' [ex_split_before, ex_split_after] = Inr r \<and> rejected r"
proof -
  have "\<exists>r. check_historical default_hist_params 10 ''SBER'' [ex_split_before, ex_split_after] = Inr r"
    by (simp add: check_historical_def Let_def default_hist_params_def)
      (simp add: detect_splits_def collect_def List.map_filter_def hst_flag_def mk_issue_def historical_def mk_report_def)
  then obtain r where r: "check_historical default_hist_params 10 ''SBER'' [ex_split_before, ex_split_after] = Inr r" by blast
  have "rejected r"
    using historical_gate_spec [OF r] by (auto simp: default_hist_params_def)
  with r show ?thesis by blast
qed

end
