(* ===== verification/QualityFlow.thy ===== *)
theory QualityFlow
  imports CrossSource Historical
begin

text \<open>
  \<open>src/data/quality/integration.py\<close> and \<open>src/data/quality/audit.py\<close>: the gates around a write and a
  load, and the audit log of their issues. The store (a state \<open>'d\<close> with its upsert) and an external
  audit sink (a state \<open>'a\<close> with its write) are parameters.
\<close>

section \<open>Audit logs\<close>

record audit_event =
  ev_ticker :: string
  ev_gate :: string
  ev_issue :: issue

text \<open>A log is the in-memory list or an external sink.\<close>

datatype 'a audit_log = Memory "audit_event list" | External 'a

definition write_event ::
  "(audit_event \<Rightarrow> 'a \<Rightarrow> unit result \<times> 'a) \<Rightarrow> audit_event \<Rightarrow> 'a audit_log \<Rightarrow> unit result \<times> 'a audit_log" where
  "write_event sink ev lg =
     (case lg of Memory evs \<Rightarrow> (Inr (), Memory (evs @ [ev]))
      | External a \<Rightarrow> (case sink ev a of (r, a') \<Rightarrow> (r, External a')))"

fun write_events ::
  "(audit_event \<Rightarrow> 'a \<Rightarrow> unit result \<times> 'a) \<Rightarrow> audit_event list \<Rightarrow> 'a audit_log \<Rightarrow> unit result \<times> 'a audit_log" where
  "write_events sink [] = liftW (Inr ())"
| "write_events sink (ev # evs) = bindW (write_event sink ev) (\<lambda>_. write_events sink evs)"

definition events_of :: "quality_report \<Rightarrow> audit_event list" where
  "events_of r = map (\<lambda>i. \<lparr>ev_ticker = qr_ticker r, ev_gate = qr_gate r, ev_issue = i\<rparr>) (qr_issues r)"

definition write_report ::
  "(audit_event \<Rightarrow> 'a \<Rightarrow> unit result \<times> 'a) \<Rightarrow> quality_report \<Rightarrow> 'a audit_log \<Rightarrow> unit result \<times> 'a audit_log" where
  "write_report sink r = write_events sink (events_of r)"

text \<open>\<open>audit or InMemoryAuditLog()\<close>: an in-memory log has a length, so an empty one is false and a
  fresh log is used in its place; what is written there the caller never sees.\<close>

definition truthy_log :: "'a audit_log option \<Rightarrow> bool" where
  "truthy_log lg = (case lg of None \<Rightarrow> False | Some (Memory evs) \<Rightarrow> evs \<noteq> [] | Some (External a) \<Rightarrow> True)"

definition with_audit ::
  "('a audit_log \<Rightarrow> 'x result \<times> 'a audit_log) \<Rightarrow> 'a audit_log option \<Rightarrow> 'x result \<times> 'a audit_log option" where
  "with_audit m lg =
     (if truthy_log lg then (case m (the lg) of (r, l) \<Rightarrow> (r, Some l))
      else (fst (m (Memory [])), lg))"

text \<open>The PostgreSQL log: nothing is committed before \<open>close\<close>. \<open>connect\<close>, \<open>commit\<close> and the
  \<open>close\<close> of the connection are the driver's: whether they raise is a parameter.\<close>

record pg_audit =
  au_dsn :: "string option"
  au_open :: bool
  au_pending :: "audit_event list"
  au_committed :: "audit_event list"

text \<open>\<open>_TABLE_NAME_RE\<close>: \<open>^[a-z_][a-z0-9_]*$\<close>; \<open>$\<close> also matches before a final newline.\<close>

definition name_start :: "char \<Rightarrow> bool" where
  "name_start c = (let n = of_char c :: nat in 97 \<le> n \<and> n \<le> 122 \<or> n = 95)"

definition name_char :: "char \<Rightarrow> bool" where
  "name_char c = (let n = of_char c :: nat in name_start c \<or> 48 \<le> n \<and> n \<le> 57)"

definition valid_name :: "string \<Rightarrow> bool" where
  "valid_name s =
     (let s = (if s \<noteq> [] \<and> last s = CHR 0x0A then butlast s else s)
      in case s of [] \<Rightarrow> False | c # cs \<Rightarrow> name_start c \<and> list_all name_char cs)"

definition mk_pg_audit :: "string option \<Rightarrow> string option \<Rightarrow> string \<Rightarrow> string option \<Rightarrow> pg_audit result" where
  "mk_pg_audit env_dsn dsn table schema =
     (if \<not> valid_name table then Inl ValueError
      else if \<not> (case schema of None \<Rightarrow> True | Some s \<Rightarrow> valid_name s) then Inl ValueError
      else Inr \<lparr>au_dsn = (case dsn of Some (c # cs) \<Rightarrow> dsn | _ \<Rightarrow> env_dsn), au_open = False,
                au_pending = [], au_committed = []\<rparr>)"


definition ensure_conn :: "py_exc option \<Rightarrow> pg_audit \<Rightarrow> unit result \<times> pg_audit" where
  "ensure_conn connect_error a =
     (if au_open a then (Inr (), a)
      else if au_dsn a = None \<or> au_dsn a = Some [] then (Inl RuntimeError, a)
      else (case connect_error of Some e \<Rightarrow> (Inl e, a) | None \<Rightarrow> (Inr (), a\<lparr>au_open := True\<rparr>)))"

definition pg_write_event :: "py_exc option \<Rightarrow> py_exc option \<Rightarrow> audit_event \<Rightarrow> pg_audit \<Rightarrow> unit result \<times> pg_audit" where
  "pg_write_event connect_error insert_error ev =
     bindW (ensure_conn connect_error) (\<lambda>_ a.
       case insert_error of Some e \<Rightarrow> (Inl e, a) | None \<Rightarrow> (Inr (), a\<lparr>au_pending := au_pending a @ [ev]\<rparr>))"

definition pg_audit_close :: "py_exc option \<Rightarrow> py_exc option \<Rightarrow> pg_audit \<Rightarrow> unit result \<times> pg_audit" where
  "pg_audit_close commit_error close_error a =
     (if \<not> au_open a then (Inr (), a)
      else (case commit_error of
          None \<Rightarrow> (Inr (), a\<lparr>au_open := False, au_pending := [], au_committed := au_committed a @ au_pending a\<rparr>)
        | Some e \<Rightarrow> (Inl e, a\<lparr>au_open := False, au_pending := []\<rparr>)))"

section \<open>The gates\<close>

definition quality_critical :: py_exc where "quality_critical = OtherError ''DataQualityCritical''"

text \<open>The part of \<open>gate_then_upsert\<close> before the write, on the chosen log.\<close>

definition gated_report ::
  "(audit_event \<Rightarrow> 'a \<Rightarrow> unit result \<times> 'a) \<Rightarrow> quality_report result \<Rightarrow> 'a audit_log \<Rightarrow> quality_report result \<times> 'a audit_log" where
  "gated_report sink check =
     bindW (liftW check) (\<lambda>report. bindW (write_report sink report) (\<lambda>_.
       if rejected report then raiseW quality_critical else liftW (Inr report)))"

definition gate_then_upsert ::
  "math_lib \<Rightarrow> ingestion_params \<Rightarrow> int \<Rightarrow> (audit_event \<Rightarrow> 'a \<Rightarrow> unit result \<times> 'a) \<Rightarrow>
   (bar list \<Rightarrow> 'd \<Rightarrow> nat result \<times> 'd) \<Rightarrow> string \<Rightarrow> bar list \<Rightarrow> bool \<Rightarrow> 'a audit_log option \<times> 'd \<Rightarrow>
   (nat \<times> quality_report) result \<times> 'a audit_log option \<times> 'd" where
  "gate_then_upsert lib p now sink upsert ticker bars enabled = (\<lambda>(lg, d).
     if enabled
     then (case with_audit (gated_report sink (check_ingestion lib p now ticker None bars)) lg of
         (Inl e, lg) \<Rightarrow> (Inl e, lg, d)
       | (Inr report, lg) \<Rightarrow> (case upsert bars d of
             (Inl e, d) \<Rightarrow> (Inl e, lg, d) | (Inr n, d) \<Rightarrow> (Inr (n, report), lg, d)))
     else (case upsert bars d of
         (Inl e, d) \<Rightarrow> (Inl e, lg, d)
       | (Inr n, d) \<Rightarrow> (map_sum id (Pair n) (mk_report ticker ingestion []), lg, d)))"

definition series_of_bars :: "bar list \<Rightarrow> series" where
  "series_of_bars bars = map (\<lambda>b. (date_key b, b_close b)) bars"

definition gate_then_load_ohlcv ::
  "xs_lib \<Rightarrow> xs_params \<Rightarrow> (audit_event \<Rightarrow> 'a \<Rightarrow> unit result \<times> 'a) \<Rightarrow> (string \<Rightarrow> int \<Rightarrow> int \<Rightarrow> bar list result) \<Rightarrow>
   string \<Rightarrow> int \<Rightarrow> int \<Rightarrow> series option \<Rightarrow> bool \<Rightarrow> 'a audit_log option \<Rightarrow>
   (bar list \<times> quality_report option) result \<times> 'a audit_log option" where
  "gate_then_load_ohlcv lib p sink load ticker start end second enabled lg =
     (case load ticker start end of
        Inl e \<Rightarrow> (Inl e, lg)
      | Inr bars \<Rightarrow>
          (case second of
             Some s2 \<Rightarrow>
               (if enabled
                then with_audit (bindW (liftW (check_cross_source lib p ticker (series_of_bars bars) s2)) (\<lambda>report.
                       bindW (write_report sink report) (\<lambda>_. liftW (Inr (bars, Some report))))) lg
                else (Inr (bars, None), lg))
           | None \<Rightarrow> (Inr (bars, None), lg)))"

definition gate_then_audit ::
  "math_lib \<Rightarrow> ingestion_params \<Rightarrow> hist_params \<Rightarrow> int \<Rightarrow> int \<Rightarrow> (audit_event \<Rightarrow> 'a \<Rightarrow> unit result \<times> 'a) \<Rightarrow>
   bar list \<Rightarrow> string \<Rightarrow> 'a audit_log option \<Rightarrow> (quality_report \<times> quality_report) result \<times> 'a audit_log option" where
  "gate_then_audit lib ip hp now today sink bars ticker =
     with_audit (bindW (liftW (check_ingestion lib ip now ticker None bars)) (\<lambda>ing.
       bindW (liftW (check_historical hp today ticker bars)) (\<lambda>hist.
       bindW (write_report sink ing) (\<lambda>_.
       bindW (write_report sink hist) (\<lambda>_. liftW (Inr (ing, hist)))))))"

section \<open>Lemmas\<close>

lemma write_events_memory: "write_events sink evs (Memory es) = (Inr (), Memory (es @ evs))"
  by (induction evs arbitrary: es) (simp_all add: write_event_def)

lemma write_report_memory: "write_report sink r (Memory es) = (Inr (), Memory (es @ events_of r))"
  by (simp add: write_report_def write_events_memory)

lemma gated_report_Inr:
  "gated_report sink check lg = (Inr report, lg') \<Longrightarrow> check = Inr report \<and> \<not> rejected report"
  by (auto simp: gated_report_def bindW_Inr split: if_splits)

lemma with_audit_Inr: "with_audit m lg = (Inr x, lg') \<Longrightarrow> \<exists>l l'. m l = (Inr x, l')"
  by (auto simp: with_audit_def split: if_splits prod.splits) (metis prod.collapse)

text \<open>
  C24. No series the Level-1 gate rejects, or fails on, reaches the store: with the gate enabled,
  if the state of the store changes, or the call succeeds, then the gate made a report that is not
  \<open>CRITICAL\<close>, and the store was handed exactly the bars checked.
\<close>

theorem critical_bars_never_written:
  assumes "gate_then_upsert lib p now sink upsert ticker bars True (lg, d) = (r, lg', d')"
    and "d' \<noteq> d \<or> (\<exists>x. r = Inr x)"
  shows "\<exists>report rr. check_ingestion lib p now ticker None bars = Inr report \<and> \<not> rejected report \<and>
    upsert bars d = (rr, d') \<and> (\<forall>n rep. r = Inr (n, rep) \<longrightarrow> rr = Inr n \<and> rep = report)"
proof -
  obtain g log1 where g: "with_audit (gated_report sink (check_ingestion lib p now ticker None bars)) lg = (g, log1)"
    by fastforce
  obtain rr d1 where u: "upsert bars d = (rr, d1)" by fastforce
  obtain report where "g = Inr report"
    using assms g by (cases g) (auto simp: gate_then_upsert_def)
  moreover from with_audit_Inr [OF g [unfolded this]] gated_report_Inr
  have "check_ingestion lib p now ticker None bars = Inr report \<and> \<not> rejected report" by blast
  ultimately show ?thesis
    using assms(1) g u by (intro exI [of _ report] exI [of _ rr]) (auto simp: gate_then_upsert_def split: sum.splits)
qed

text \<open>The issues of a rejected series are in the caller's log, unless that log was empty.\<close>

lemma rejection_is_audited:
  assumes "check_ingestion lib p now ticker None bars = Inr report" "rejected report" "es \<noteq> []"
  shows "gate_then_upsert lib p now sink upsert ticker bars True (Some (Memory es), d) =
    (Inl quality_critical, Some (Memory (es @ events_of report)), d)"
  using assms by (simp add: gate_then_upsert_def with_audit_def truthy_log_def gated_report_def write_report_memory)

lemma empty_log_stays_empty:
  "fst (snd (gate_then_upsert lib p now sink upsert ticker bars enabled (Some (Memory []), d))) = Some (Memory [])"
  by (auto simp: gate_then_upsert_def with_audit_def truthy_log_def split: sum.splits prod.splits)

text \<open>A commit error is never masked by a close error, and the connection is given up in any case.\<close>

lemma audit_close_spec:
  "pg_audit_close ce xe a = (r, a') \<Longrightarrow> au_open a' = False \<and>
   (au_open a \<longrightarrow> (r = Inr () \<longleftrightarrow> ce = None) \<and> (\<forall>e. ce = Some e \<longrightarrow> r = Inl e) \<and>
      au_committed a' = au_committed a @ (if ce = None then au_pending a else []))"
  by (auto simp: pg_audit_close_def split: if_splits option.splits)

section \<open>A concrete run\<close>

definition ex_sink :: "audit_event \<Rightarrow> unit \<Rightarrow> unit result \<times> unit" where
  "ex_sink ev a = (Inr (), a)"

definition ex_upsert :: "bar list \<Rightarrow> nat \<Rightarrow> nat result \<times> nat" where
  "ex_upsert bars d = (Inr (length bars), d + 1)"

definition ex_empty_report :: quality_report where
  "ex_empty_report = \<lparr>qr_ticker = ''SBER'', qr_gate = ingestion, qr_issues =
     [\<lparr>is_gate = ingestion, is_kind = ING_INSUFFICIENT_HISTORY, is_severity = HIGH, is_count = 252\<rparr>]\<rparr>"

lemma ex_empty_series: "check_ingestion ex_lib default_params 0 ''SBER'' None [] = Inr ex_empty_report"
proof -
  have "check_ingestion ex_lib default_params 0 ''SBER'' None [] =
      bindR (map_result id (data_checks ex_lib default_params 0 [])) (\<lambda>iss. mk_report ''SBER'' ingestion (concat iss))"
    by (simp add: check_ingestion_def count_bars_def bindR_def split: sum.split)
  also have "data_checks ex_lib default_params 0 [] =
      [Inr [], Inr [], Inr [], Inr [], Inr [\<lparr>is_gate = ingestion, is_kind = ING_INSUFFICIENT_HISTORY, is_severity = HIGH, is_count = 252\<rparr>],
       Inr [], Inr [], Inr []]"
    by (simp add: data_checks_def check_range_def check_zero_def check_outliers_def log_returns_def zscore_filter_def
        check_coverage_def check_history_def check_stale_def check_gap_def check_volume_def count_bars_def flag_def
        mk_issue_def ingestion_def default_params_def)
  finally show ?thesis by (simp add: mk_report_def ingestion_def ex_empty_report_def)
qed

lemma ex_gate_run: "gate_then_upsert ex_lib default_params 0 ex_sink ex_upsert ''SBER'' [] True (None, 0) =
   (Inr (0, ex_empty_report), None, 1)"
  by (simp add: gate_then_upsert_def with_audit_def truthy_log_def gated_report_def write_report_memory ex_empty_series
      rejected_def worst_severity_def worst_def worst_step_def ex_empty_report_def ex_upsert_def)

theorem critical_bars_never_written_witness:
  "\<exists>report. check_ingestion ex_lib default_params 0 ''SBER'' None [] = Inr report \<and> \<not> rejected report \<and>
     ex_upsert [] 0 = (Inr 0, 1)"
  using critical_bars_never_written [OF ex_gate_run] by auto

end
