(* ===== verification/Calendar.thy ===== *)
theory Calendar
  imports Prelude
begin

text \<open>
  Python's \<open>date\<close>: a day is its proleptic Gregorian ordinal (1 January of year 1 is day 1), and
  \<open>year_of\<close> is the computation of \<open>date.fromordinal(n).year\<close>.
\<close>

definition jan1 :: "int \<Rightarrow> int" where
  "jan1 y = (let p = y - 1 in p * 365 + p div 4 - p div 100 + p div 400 + 1)"

definition year_of :: "int \<Rightarrow> int" where
  "year_of day =
     (let n = day - 1;
          n400 = n div 146097; n = n mod 146097;
          n100 = n div 36524; n = n mod 36524;
          n4 = n div 1461; n = n mod 1461;
          n1 = n div 365;
          y = n400 * 400 + n100 * 100 + n4 * 4 + n1 + 1
      in if n1 = 4 \<or> n100 = 4 then y - 1 else y)"

lemma jan1_parts:
  assumes "0 \<le> b" "b < 4" "0 \<le> c" "c < 25" "0 \<le> e" "e < 4"
  shows "jan1 (400 * a + 100 * b + 4 * c + e + 1) = 146097 * a + 36524 * b + 1461 * c + 365 * e + 1"
proof -
  have "(400 * a + 100 * b + 4 * c + e) div 4 = 100 * a + 25 * b + c"
    "(400 * a + 100 * b + 4 * c + e) div 100 = 4 * a + b"
    "(400 * a + 100 * b + 4 * c + e) div 400 = a"
    using assms by simp_all
  then show ?thesis by (simp add: jan1_def Let_def)
qed

lemma jan1_next: "jan1 y + 365 \<le> jan1 (y + 1)"
proof -
  define p where "p = y - 1"
  have "(p + 1) div 100 - p div 100 \<le> (p + 1) div 4 - p div 4"
  proof (cases "(p + 1) mod 100 = 0")
    case True
    then obtain k where k: "p + 1 = 100 * k" by (auto elim: dvdE simp: dvd_eq_mod_eq_0 [symmetric])
    then have p: "p = 100 * k - 1" by simp
    show ?thesis unfolding p by simp
  next
    case False
    define q w where "q = p div 100" and "w = p mod 100"
    have p: "p = 100 * q + w" "0 \<le> w" "w < 100" by (simp_all add: q_def w_def)
    have "w \<noteq> 99" using False p by auto
    then have "(p + 1) div 100 = q" using p by (intro int_div_pos_eq [where r = "w + 1"]) auto
    then have "(p + 1) div 100 = p div 100" by (simp add: q_def)
    moreover have "p div 4 \<le> (p + 1) div 4" by (rule zdiv_mono1) simp_all
    ultimately show ?thesis by linarith
  qed
  moreover have "p div 400 \<le> (p + 1) div 400" by (rule zdiv_mono1) simp_all
  ultimately show ?thesis by (simp add: jan1_def Let_def p_def)
qed

lemma jan1_mono: "y \<le> z \<Longrightarrow> jan1 y \<le> jan1 z"
proof (induction z rule: int_ge_induct)
  case (step z)
  then show ?case using jan1_next [of z] by linarith
qed simp

text \<open>The day lies in the year computed for it, and no other year contains it.\<close>

lemma year_of_bounds: "jan1 (year_of d) \<le> d \<and> d < jan1 (year_of d + 1)"
proof -
  define a m where "a = (d - 1) div 146097" and "m = (d - 1) mod 146097"
  define b r where "b = m div 36524" and "r = m mod 36524"
  define c s where "c = r div 1461" and "s = r mod 1461"
  define e t where "e = s div 365" and "t = s mod 365"
  have d: "d = 146097 * a + m + 1" "m = 36524 * b + r" "r = 1461 * c + s" "s = 365 * e + t"
    by (simp_all add: a_def m_def b_def r_def c_def s_def e_def t_def)
  have lo: "0 \<le> m" "m < 146097" "0 \<le> r" "r < 36524" "0 \<le> s" "s < 1461" "0 \<le> t" "t < 365"
    by (simp_all add: m_def r_def s_def t_def)
  have hi: "0 \<le> b" "b \<le> 4" "0 \<le> c" "c < 25" "0 \<le> e" "e \<le> 4" using d lo by linarith+
  have y: "year_of d = (if e = 4 \<or> b = 4 then 400 * a + 100 * b + 4 * c + e else 400 * a + 100 * b + 4 * c + e + 1)"
    by (simp add: year_of_def Let_def a_def m_def b_def r_def c_def s_def e_def t_def algebra_simps)
  consider "b = 4" | "b < 4" "e = 4" | "b < 4" "e < 4" using hi by linarith
  then show ?thesis
  proof cases
    case 1
    have "r = 0" using d lo 1 by linarith
    then have z: "c = 0" "e = 0" "t = 0" using d lo hi by linarith+
    have "jan1 (400 * a + 100 * 3 + 4 * 24 + 3 + 1) = 146097 * a + 36524 * 3 + 1461 * 24 + 365 * 3 + 1"
      "jan1 (400 * (a + 1) + 100 * 0 + 4 * 0 + 0 + 1) = 146097 * (a + 1) + 36524 * 0 + 1461 * 0 + 365 * 0 + 1"
      by (rule jan1_parts; simp)+
    then show ?thesis using d y 1 z by (simp add: ac_simps)
  next
    case 2
    have t: "t = 0" using d lo 2 by linarith
    have c: "c < 24" using d lo 2 t by linarith
    have "jan1 (400 * a + 100 * b + 4 * c + 3 + 1) = 146097 * a + 36524 * b + 1461 * c + 365 * 3 + 1"
      "jan1 (400 * a + 100 * b + 4 * (c + 1) + 0 + 1) = 146097 * a + 36524 * b + 1461 * (c + 1) + 365 * 0 + 1"
      using hi 2 c by (intro jan1_parts; simp)+
    then show ?thesis using d y 2 t by (simp add: algebra_simps)
  next
    case 3
    have "jan1 (400 * a + 100 * b + 4 * c + e + 1) = 146097 * a + 36524 * b + 1461 * c + 365 * e + 1"
      using hi 3 by (intro jan1_parts; simp)
    then show ?thesis using d y 3 lo jan1_next [of "400 * a + 100 * b + 4 * c + e + 1"] by simp
  qed
qed

lemma year_of_unique: "jan1 y \<le> d \<Longrightarrow> d < jan1 (y + 1) \<Longrightarrow> year_of d = y"
  using year_of_bounds [of d] jan1_mono [of "year_of d + 1" y] jan1_mono [of "y + 1" "year_of d"] by linarith

lemma year_of_jan1 [simp]: "year_of (jan1 y) = y"
  by (rule year_of_unique) (use jan1_next [of y] in simp_all)

lemma year_of_mono: "d \<le> d' \<Longrightarrow> year_of d \<le> year_of d'"
  using year_of_bounds [of d] year_of_bounds [of d'] jan1_mono [of "year_of d' + 1" "year_of d"] by linarith

end
