(* ===== verification/Validate.thy ===== *)
theory Validate
  imports DataModels
begin

text \<open>
  \<open>src/data/quality/validate.py\<close>: the structural validators that run before every upsert of the
  backfill and in the standalone health check. The text of an issue is left out.
\<close>

datatype v_severity = V_CRITICAL | V_WARNING | V_INFO

datatype v_code =
    High_Lt_Low | Low_Gt_Open | Low_Gt_Close | High_Lt_Open | High_Lt_Close | Neg_Volume
  | Non_Positive_Open | Non_Positive_High | Non_Positive_Low | Non_Positive_Close
  | Return_Gt_50pct | Long_Gap

record v_issue =
  vi_severity :: v_severity
  vi_ticker :: string
  vi_ts :: int
  vi_code :: v_code

definition is_blocking :: "v_issue \<Rightarrow> bool" where
  "is_blocking i \<longleftrightarrow> vi_severity i = V_CRITICAL"

definition v_flag :: "bool \<Rightarrow> v_severity \<Rightarrow> v_code \<Rightarrow> ohlcv_row \<Rightarrow> v_issue list" where
  "v_flag b s c r = (if b then [\<lparr>vi_severity = s, vi_ticker = r_ticker r, vi_ts = r_ts r, vi_code = c\<rparr>] else [])"

definition validate_bar :: "ohlcv_row \<Rightarrow> v_issue list" where
  "validate_bar r =
     v_flag (r_high r < r_low r) V_CRITICAL High_Lt_Low r @
     v_flag (r_open r < r_low r) V_CRITICAL Low_Gt_Open r @
     v_flag (r_close r < r_low r) V_CRITICAL Low_Gt_Close r @
     v_flag (r_high r < r_open r) V_CRITICAL High_Lt_Open r @
     v_flag (r_high r < r_close r) V_CRITICAL High_Lt_Close r @
     v_flag (r_volume r < 0) V_CRITICAL Neg_Volume r @
     v_flag (r_open r \<le> 0) V_CRITICAL Non_Positive_Open r @
     v_flag (r_high r \<le> 0) V_CRITICAL Non_Positive_High r @
     v_flag (r_low r \<le> 0) V_CRITICAL Non_Positive_Low r @
     v_flag (r_close r \<le> 0) V_CRITICAL Non_Positive_Close r"

definition big_move :: "ohlcv_row \<times> ohlcv_row \<Rightarrow> v_issue list" where
  "big_move = (\<lambda>(prev, cur).
     if r_close prev \<le> 0 \<or> r_ts cur \<le> r_ts prev then []
     else v_flag (1 / 2 < dabs (ddiv (dsub (r_close cur) (r_close prev)) (r_close prev))) V_WARNING Return_Gt_50pct cur)"

fun long_gaps :: "int \<Rightarrow> ohlcv_row list \<Rightarrow> v_issue list" where
  "long_gaps prev_ts [] = []"
| "long_gaps prev_ts (cur # rs) = v_flag (14 < r_ts cur - prev_ts) V_WARNING Long_Gap cur @ long_gaps (r_ts cur) rs"

definition validate_series :: "ohlcv_row list \<Rightarrow> v_issue list" where
  "validate_series rows =
     (case rows of [] \<Rightarrow> []
      | r # rs \<Rightarrow> concat (map big_move (zip rows rs)) @ long_gaps (r_ts r) rs)"

definition v_summarize :: "v_issue list \<Rightarrow> v_severity \<Rightarrow> nat" where
  "v_summarize issues s = length (filter (\<lambda>i. vi_severity i = s) issues)"

definition v_blocking :: "v_issue list \<Rightarrow> v_issue list" where
  "v_blocking issues = filter is_blocking issues"

text \<open>The counts in the order of the first issue of a ticker, then sorted by a stable sort.\<close>

definition worst_tickers :: "nat \<Rightarrow> v_issue list \<Rightarrow> (string \<times> nat) list" where
  "worst_tickers limit issues =
     (let ts = rev (remdups (rev (map vi_ticker issues)));
          counts = map (\<lambda>t. (t, length (filter (\<lambda>i. vi_ticker i = t) issues))) ts
      in take limit (sort_key (\<lambda>(t, n). - int n) counts))"

lemma v_flag_Nil [simp]: "v_flag b s c r = [] \<longleftrightarrow> \<not> b"
  by (simp add: v_flag_def)

lemma v_flag_severity: "i \<in> set (v_flag b s c r) \<Longrightarrow> vi_severity i = s"
  by (auto simp: v_flag_def split: if_splits)

text \<open>Every issue of a bar blocks the upsert; no issue of a series does.\<close>

lemma bar_issues_block: "v_blocking (validate_bar r) = validate_bar r"
  by (auto simp: v_blocking_def validate_bar_def is_blocking_def v_flag_def)

lemma long_gaps_warn: "i \<in> set (long_gaps t rs) \<Longrightarrow> vi_severity i = V_WARNING"
  by (induction t rs rule: long_gaps.induct) (auto dest: v_flag_severity)

lemma series_issues_never_block: "v_blocking (validate_series rows) = []"
proof -
  have "vi_severity i = V_WARNING" if "i \<in> set (validate_series rows)" for i
    using that by (auto simp: validate_series_def big_move_def split: list.splits if_splits
        dest: v_flag_severity long_gaps_warn)
  then show ?thesis by (auto simp: v_blocking_def is_blocking_def filter_empty_conv)
qed

text \<open>
  The validator agrees with the model class: a row has no issue exactly when it satisfies the
  constraints of \<open>OHLCVRow\<close> and all four prices are positive, so a row that was validated on
  construction is blocked for nothing but a zero price.
\<close>

theorem validators_agree:
  "(validate_bar r = [] \<longleftrightarrow> ohlc_consistent r \<and> 0 \<le> r_volume r \<and> 0 < r_open r \<and> 0 < r_high r \<and> 0 < r_low r \<and> 0 < r_close r) \<and>
   (wf_row r \<longrightarrow> (\<forall>i \<in> set (v_blocking (validate_bar r)).
      vi_code i \<in> {Non_Positive_Open, Non_Positive_High, Non_Positive_Low, Non_Positive_Close} \<and>
      0 \<in> {r_open r, r_high r, r_low r, r_close r}))"
proof
  show "validate_bar r = [] \<longleftrightarrow> ohlc_consistent r \<and> 0 \<le> r_volume r \<and> 0 < r_open r \<and> 0 < r_high r \<and> 0 < r_low r \<and> 0 < r_close r"
    by (auto simp: validate_bar_def ohlc_consistent_def not_less not_le)
  show "wf_row r \<longrightarrow> (\<forall>i \<in> set (v_blocking (validate_bar r)).
      vi_code i \<in> {Non_Positive_Open, Non_Positive_High, Non_Positive_Low, Non_Positive_Close} \<and>
      0 \<in> {r_open r, r_high r, r_low r, r_close r})"
    unfolding bar_issues_block
    by (auto simp: validate_bar_def wf_row_def row_nonneg_def ohlc_consistent_def v_flag_def split: if_splits)
qed

definition ex_zero_row :: ohlcv_row where
  "ex_zero_row = \<lparr>r_ticker = ''SBER'', r_ts = 1, r_open = 1, r_high = 2, r_low = 0, r_close = 1, r_volume = 0,
     r_adj_close = 1, r_source = Tkf\<rparr>"

theorem validators_agree_witness:
  "validate_bar (ex_zero_row\<lparr>r_low := 1\<rparr>) = [] \<and> validate_bar ex_zero_row \<noteq> []"
proof
  show "validate_bar (ex_zero_row\<lparr>r_low := 1\<rparr>) = []"
    using validators_agree [of "ex_zero_row\<lparr>r_low := 1\<rparr>"] by (simp add: ex_zero_row_def ohlc_consistent_def)
  show "validate_bar ex_zero_row \<noteq> []"
    using validators_agree [of ex_zero_row] by (simp add: ex_zero_row_def)
qed

end
