(* ===== verification/Supervisor.thy ===== *)
theory Supervisor
  imports Prelude PyFloat "HOL-Library.Multiset"
begin

text \<open>
  \<open>src/main.py\<close>: the process that keeps the data jobs alive: the supervisor of the backfill child
  with its circuit breaker and crash cap, the schedules of the daemon threads, the watchdog over
  the daily sync, and the heartbeat that ends the process. Children, files and clocks are inputs.
\<close>

section \<open>Strings\<close>

text \<open>\<open>p in s\<close>, \<open>str.split()\<close> and \<open>int(s)\<close> for digits with an optional sign.\<close>

definition contains :: "string \<Rightarrow> string \<Rightarrow> bool" where
  "contains p s \<longleftrightarrow> list_ex (\<lambda>i. take (length p) (drop i s) = p) [0..<length s + 1]"

fun words_from :: "string \<Rightarrow> string \<Rightarrow> string list" where
  "words_from acc [] = (if acc = [] then [] else [acc])"
| "words_from acc (c # cs) =
     (if is_space c then (if acc = [] then words_from [] cs else acc # words_from [] cs)
      else words_from (acc @ [c]) cs)"

definition py_split :: "string \<Rightarrow> string list" where
  "py_split s = words_from [] s"

definition digit :: "char \<Rightarrow> int option" where
  "digit c = (let n = int (of_char c :: nat) in if 48 \<le> n \<and> n \<le> 57 then Some (n - 48) else None)"

fun digits_from :: "int \<Rightarrow> string \<Rightarrow> int option" where
  "digits_from acc [] = Some acc"
| "digits_from acc (c # cs) = (case digit c of None \<Rightarrow> None | Some d \<Rightarrow> digits_from (10 * acc + d) cs)"

definition parse_int :: "string \<Rightarrow> int result" where
  "parse_int s =
     (let s = py_strip s;
          (neg, ds) = (case s of CHR ''-'' # cs \<Rightarrow> (True, cs) | CHR ''+'' # cs \<Rightarrow> (False, cs) | _ \<Rightarrow> (False, s))
      in if ds = [] then Inl ValueError
         else (case digits_from 0 ds of None \<Rightarrow> Inl ValueError | Some n \<Rightarrow> Inr (if neg then - n else n)))"

section \<open>The age of the container\<close>

definition index_err :: py_exc where "index_err = OtherError ''IndexError''"

text \<open>The text after the last closing parenthesis.\<close>

definition after_comm :: "string \<Rightarrow> string option" where
  "after_comm s = (if CHR '')'' \<in> set s then Some (rev (takeWhile (\<lambda>c. c \<noteq> CHR '')'') (rev s))) else None)"

definition starttime_jiffies :: "string \<Rightarrow> int result" where
  "starttime_jiffies content =
     (case after_comm content of None \<Rightarrow> Inl RuntimeError
      | Some t \<Rightarrow> let tail = py_split t in if length tail < 20 then Inl RuntimeError else parse_int (tail ! 19))"

fun boot_time :: "string list \<Rightarrow> int result" where
  "boot_time [] = Inl RuntimeError"
| "boot_time (l # ls) =
     (if take 6 l = ''btime '' then (let ws = py_split l in if length ws < 2 then Inl index_err else parse_int (ws ! 1))
      else boot_time ls)"

text \<open>The files of \<open>/proc\<close>; \<open>None\<close> is an \<open>OSError\<close>.\<close>

record proc_fs =
  pf_init :: "string option"
  pf_self :: "string option"
  pf_stat :: "string list option"

definition age_from :: "string option \<Rightarrow> string list option \<Rightarrow> (int \<times> int) result option" where
  "age_from pid_stat stat =
     (case pid_stat of None \<Rightarrow> None
      | Some c \<Rightarrow> (case starttime_jiffies c of Inl e \<Rightarrow> Some (Inl e)
          | Inr j \<Rightarrow> (case stat of None \<Rightarrow> None | Some ls \<Rightarrow> Some (bindR (boot_time ls) (\<lambda>b. Inr (j, b))))))"

definition container_uptime :: "proc_fs \<Rightarrow> int \<Rightarrow> rat \<Rightarrow> rat result" where
  "container_uptime fs clk_tck now =
     bindR (case age_from (pf_init fs) (pf_stat fs) of
         Some r \<Rightarrow> r
       | None \<Rightarrow> (case age_from (pf_self fs) (pf_stat fs) of Some (Inr jb) \<Rightarrow> Inr jb | _ \<Rightarrow> Inl RuntimeError))
       (\<lambda>(j, b). Inr (frnd (frnd (now - of_int b) - frnd (of_int j / of_int clk_tck))))"

section \<open>The watchdog\<close>

definition WATCHDOG_STALE_SECONDS :: rat where "WATCHDOG_STALE_SECONDS = 26 * 3600"

datatype verdict = Skipped | Healthy | Restart

text \<open>\<open>init\<close> is the outcome of building the store, \<open>last_run\<close> of reading the health row (an instant
  in microseconds), \<open>close_ok\<close> whether the store closes; every exception but \<open>SystemExit\<close> is logged
  and swallowed.\<close>

definition watchdog :: "unit result \<Rightarrow> int option result \<Rightarrow> rat result \<Rightarrow> bool \<Rightarrow> int \<Rightarrow> verdict" where
  "watchdog init last_run uptime close_ok now =
     (case init of Inl e \<Rightarrow> Skipped
      | Inr _ \<Rightarrow> (case last_run of
          Inl e \<Rightarrow> Skipped
        | Inr None \<Rightarrow> (case uptime of Inl e \<Rightarrow> Skipped
            | Inr u \<Rightarrow> if u < 24 * 3600 then Skipped else if close_ok then Restart else Skipped)
        | Inr (Some t) \<Rightarrow>
            if WATCHDOG_STALE_SECONDS < frnd (of_int (now - t) / 1000000) then (if close_ok then Restart else Skipped)
            else Healthy))"

section \<open>The heartbeat and the exit code\<close>

definition WATCHDOG_INTERVAL_SECONDS :: nat where "WATCHDOG_INTERVAL_SECONDS = 1800"

text \<open>One tick of the heartbeat: what a watchdog check would say now, or an interrupt. The result
  is the exception that leaves the loop (\<open>SystemExit\<close> with its code, \<open>None\<close> for an interrupt),
  and the verdicts of the checks that ran.\<close>

datatype tick = Tick verdict | Interrupt

fun heartbeat :: "nat \<Rightarrow> tick list \<Rightarrow> int option option \<times> verdict list" where
  "heartbeat n [] = (None, [])"
| "heartbeat n (Interrupt # ts) = (Some None, [])"
| "heartbeat n (Tick v # ts) =
     (if WATCHDOG_INTERVAL_SECONDS \<le> (n + 1) * 60
      then if v = Restart then (Some (Some 1), [v])
           else (case heartbeat 0 ts of (r, vs) \<Rightarrow> (r, v # vs))
      else heartbeat (n + 1) ts)"

text \<open>The \<open>finally\<close> block of \<open>main\<close> ends in \<open>sys.exit(0)\<close>, which replaces a pending
  \<open>SystemExit\<close>.\<close>

definition main_exit :: "tick list \<Rightarrow> int option" where
  "main_exit ts = (case heartbeat 0 ts of (None, _) \<Rightarrow> None | (Some pending, _) \<Rightarrow> Some 0)"

section \<open>Schedules\<close>

definition DAY_SECONDS :: int where "DAY_SECONDS = 24 * 3600"

text \<open>Microseconds until the next \<open>hour:minute\<close> of a fixed zone; \<open>now\<close> counts from a midnight there.\<close>

definition next_target_us :: "int \<Rightarrow> int \<Rightarrow> int \<Rightarrow> int" where
  "next_target_us hour minute now =
     (let day = DAY_SECONDS * 1000000;
          target = now div day * day + (hour * 3600 + minute * 60) * 1000000;
          target = (if target \<le> now then target + day else target)
      in max 0 (target - now))"

datatype run_outcome = Returned int | Timed_Out | Failed_To_Run
datatype log_level = INFO | WARNING | ERROR

definition run_level :: "run_outcome \<Rightarrow> log_level" where
  "run_level r = (case r of Returned rc \<Rightarrow> if rc = 0 then INFO else WARNING | Timed_Out \<Rightarrow> WARNING | Failed_To_Run \<Rightarrow> ERROR)"

text \<open>A daemon: the start and the log level of each run. A run is its outcome, its duration, and
  whether shutdown was requested by its end.\<close>

fun daemon_loop :: "int \<Rightarrow> int \<Rightarrow> (run_outcome \<times> int \<times> bool) list \<Rightarrow> (int \<times> log_level) list" where
  "daemon_loop t cadence [] = []"
| "daemon_loop t cadence ((r, dur, stop) # rs) =
     (t, run_level r) # (if stop then [] else daemon_loop (t + dur + cadence) cadence rs)"

text \<open>Times in seconds; \<open>first\<close> is the wait until the next target hour.\<close>

definition daily_sync_loop where "daily_sync_loop launch first runs = daemon_loop (launch + first) (24 * 3600) runs"
definition daily_incremental_loop where "daily_incremental_loop launch first runs = daemon_loop (launch + first) (24 * 3600) runs"
definition delisted_sync_loop where "delisted_sync_loop launch runs = daemon_loop (launch + 24 * 3600) (7 * 24 * 3600) runs"
definition corp_actions_apply_loop where "corp_actions_apply_loop launch runs = daemon_loop (launch + 24 * 3600) (7 * 24 * 3600) runs"
definition macro_sync_loop where "macro_sync_loop launch runs = daemon_loop (launch + 5 * 60) 3600 runs"

section \<open>The backfill supervisor\<close>

definition BACKOFF :: int where "BACKOFF = 30"
definition MAX_RESPAWNS_PER_HOUR :: nat where "MAX_RESPAWNS_PER_HOUR = 10"
definition CB_UNAVAILABLE_THRESHOLD :: int where "CB_UNAVAILABLE_THRESHOLD = 3"
definition CB_BACKOFF :: int where "CB_BACKOFF = 300"

definition network_patterns :: "string list" where
  "network_patterns = [''UNAVAILABLE'', ''TimeoutError'', ''connect() timed out'', ''tcp handshaker shutdown'', ''Max retries exceeded'']"

text \<open>The log of the child, \<open>None\<close> if it cannot be read.\<close>

definition network_outage :: "string list option \<Rightarrow> bool" where
  "network_outage lg =
     (case lg of None \<Rightarrow> False
      | Some lines \<Rightarrow>
          3 \<le> length (filter (\<lambda>l. list_ex (\<lambda>p. contains p l) network_patterns) (drop (length lines - 50) lines)))"

text \<open>What one child did: its return code (0 if something else reaped it), its log, whether the
  state file can be written, and the monotonic clock after the backoff.\<close>

record child =
  ch_rc :: int
  ch_log :: "string list option"
  ch_disk :: bool
  ch_now :: rat

record supervisor =
  sv_deaths :: "rat list"
  sv_streak :: "int option" \<comment> \<open>the state file; \<open>None\<close> is missing or unreadable\<close>

definition read_streak :: "supervisor \<Rightarrow> int" where
  "read_streak s = (case sv_streak s of None \<Rightarrow> 0 | Some n \<Rightarrow> n)"

definition write_streak :: "bool \<Rightarrow> int \<Rightarrow> supervisor \<Rightarrow> supervisor" where
  "write_streak ok n s = (if ok then s\<lparr>sv_streak := Some n\<rparr> else s)"

definition breaker :: "child \<Rightarrow> supervisor \<Rightarrow> int \<times> supervisor" where
  "breaker c s =
     (if ch_rc c \<noteq> 0 \<and> network_outage (ch_log c)
      then let k = read_streak s + 1 in (if CB_UNAVAILABLE_THRESHOLD \<le> k then CB_BACKOFF else BACKOFF, write_streak (ch_disk c) k s)
      else (BACKOFF, if 0 < read_streak s then write_streak (ch_disk c) 0 s else s))"

text \<open>After the child: the backoff, and whether the process is aborted with \<open>os._exit(1)\<close>.\<close>

definition after_child :: "child \<Rightarrow> supervisor \<Rightarrow> int \<times> bool \<times> supervisor" where
  "after_child c s =
     (let (backoff, s) = breaker c s;
          deaths = filter (\<lambda>t. frnd (ch_now c - t) < 3600) (sv_deaths s);
          deaths = (if ch_rc c \<noteq> 0 then deaths @ [ch_now c] else deaths)
      in (backoff, ch_rc c \<noteq> 0 \<and> MAX_RESPAWNS_PER_HOUR < length deaths, s\<lparr>sv_deaths := deaths\<rparr>))"

fun supervise :: "child list \<Rightarrow> supervisor \<Rightarrow> bool \<times> supervisor" where
  "supervise [] s = (False, s)"
| "supervise (c # cs) s = (case after_child c s of (b, True, s) \<Rightarrow> (True, s) | (b, False, s) \<Rightarrow> supervise cs s)"


section \<open>Splitting\<close>

lemma words_from_word:
  "(\<And>c. c \<in> set w \<Longrightarrow> \<not> is_space c) \<Longrightarrow> words_from acc (w @ s) = words_from (acc @ w) s"
  by (induction w arbitrary: acc) auto

definition spaced :: "string list \<Rightarrow> string" where
  "spaced ws = concat (map (\<lambda>w. CHR '' '' # w) ws)"

definition word :: "string \<Rightarrow> bool" where
  "word w \<longleftrightarrow> w \<noteq> [] \<and> list_all (\<lambda>c. \<not> is_space c) w"

lemma space_is_space [simp]: "is_space (CHR '' '')"
  by (simp add: is_space_def)

lemma words_from_spaced:
  "acc \<noteq> [] \<Longrightarrow> list_all word ws \<Longrightarrow> words_from acc (spaced ws) = acc # ws"
proof (induction ws arbitrary: acc)
  case (Cons w ws)
  then show ?case
    using words_from_word [of w "[]" "spaced ws"]
    by (simp add: spaced_def word_def list_all_iff)
qed (simp add: spaced_def)

lemma split_spaced: "list_all word ws \<Longrightarrow> py_split (spaced ws) = ws"
proof (cases ws)
  case (Cons w vs)
  assume "list_all word ws"
  with Cons show ?thesis
    using words_from_word [of w "[]" "spaced vs"] words_from_spaced [of w vs]
    by (simp add: spaced_def word_def list_all_iff py_split_def)
qed (simp add: spaced_def py_split_def)

lemma after_comm_last:
  assumes "CHR '')'' \<notin> set t"
  shows "after_comm (s @ CHR '')'' # t) = Some t"
proof -
  have "takeWhile (\<lambda>c. c \<noteq> CHR '')'') (rev t @ CHR '')'' # rev s) = rev t"
    by (subst takeWhile_append2) (use assms in auto)
  then show ?thesis by (simp add: after_comm_def)
qed

text \<open>
  The start time is read from the right field whatever the command name holds (spaces,
  parentheses, digits): the text before the last \<open>)\<close> does not matter.
\<close>

theorem starttime_ignores_comm:
  assumes "list_all word fds" "20 \<le> length fds" "CHR '')'' \<notin> set (spaced fds)"
  shows "starttime_jiffies (pre @ '')'' @ spaced fds) = parse_int (fds ! 19)"
  using assms by (simp add: starttime_jiffies_def after_comm_last split_spaced)

theorem starttime_ignores_comm_witness:
  "starttime_jiffies (''1 (run ) 7 (x'' @ '')'' @ spaced (replicate 19 ''0'' @ [''4711'', ''9''])) = Inr 4711"
proof -
  have "CHR '')'' \<notin> set (spaced (replicate 19 ''0'' @ [''4711'', ''9'']))"
    by (simp add: spaced_def)
  then have "starttime_jiffies (''1 (run ) 7 (x'' @ '')'' @ spaced (replicate 19 ''0'' @ [''4711'', ''9'']))
      = parse_int ((replicate 19 ''0'' @ [''4711'', ''9'']) ! 19)"
    by (intro starttime_ignores_comm) (simp_all add: word_def is_space_def list_all_iff)
  also have "\<dots> = Inr 4711"
    by code_simp
  finally show ?thesis .
qed

section \<open>The watchdog and the exit code\<close>

theorem watchdog_restart_iff:
  "watchdog init last_run uptime close_ok now = Restart \<longleftrightarrow>
     init = Inr () \<and> close_ok \<and>
     ((\<exists>t. last_run = Inr (Some t) \<and> 26 * 3600 < frnd (of_int (now - t) / 1000000)) \<or>
      last_run = Inr None \<and> (\<exists>u. uptime = Inr u \<and> 24 * 3600 \<le> u))"
  by (auto simp: watchdog_def WATCHDOG_STALE_SECONDS_def not_less split: sum.splits option.splits if_splits)

text \<open>A stale daily sync makes the watchdog ask for exit code 1 at the thirtieth heartbeat; the
  process still exits with 0.\<close>

lemma heartbeat_ticks:
  "n + k < 30 \<Longrightarrow> heartbeat n (map Tick (replicate k v) @ ts) = heartbeat (n + k) ts"
  by (induction k arbitrary: n) (auto simp: WATCHDOG_INTERVAL_SECONDS_def)

lemma restart_exits_zero:
  "heartbeat 0 (map Tick (replicate 29 Healthy) @ [Tick Restart]) = (Some (Some 1), [Restart])"
  "main_exit (map Tick (replicate 29 Healthy) @ [Tick Restart]) = Some 0"
  unfolding main_exit_def by (subst heartbeat_ticks, simp, simp add: WATCHDOG_INTERVAL_SECONDS_def)+

section \<open>Schedules\<close>

text \<open>
  The wait until \<open>hour:minute\<close> is positive, at most a day, and ends exactly at that time of day.
\<close>

theorem next_target_hits:
  assumes "0 \<le> hour" "hour < 24" "0 \<le> minute" "minute < 60"
  shows "0 < next_target_us hour minute now \<and> next_target_us hour minute now \<le> 86400000000 \<and>
         (now + next_target_us hour minute now) mod 86400000000 = (hour * 3600 + minute * 60) * 1000000"
proof -
  define d where "d = (86400000000 :: int)"
  define h where "h = (hour * 3600 + minute * 60) * 1000000"
  define x where "x = now div d * d + h"
  have h: "0 \<le> h" "h < d" using assms by (auto simp: h_def d_def)
  have now: "now = now div d * d + now mod d" by simp
  have m: "0 \<le> now mod d" "now mod d < d" by (simp_all add: d_def)
  have xm: "x mod d = h" using h by (simp add: x_def)
  have n: "next_target_us hour minute now = max 0 ((if x \<le> now then x + d else x) - now)"
    by (simp add: next_target_us_def DAY_SECONDS_def x_def h_def d_def Let_def)
  have b: "now < x + d" "x - now < d" using h m now unfolding x_def by linarith+
  have "0 < next_target_us hour minute now \<and> next_target_us hour minute now \<le> d
      \<and> (now + next_target_us hour minute now) mod d = h"
    using b xm unfolding n by (cases "x \<le> now") auto
  then show ?thesis unfolding h_def d_def .
qed

theorem next_target_hits_witness:
  "0 < next_target_us 20 0 75600000000 \<and> next_target_us 20 0 75600000000 \<le> 86400000000 \<and>
   (75600000000 + next_target_us 20 0 75600000000) mod 86400000000 = (20 * 3600 + 0 * 60) * 1000000"
  by (rule next_target_hits) simp_all

text \<open>A failed run never stops a daemon: every run happens, and the next starts one cadence after
  the end of the last. The start times drift by the time the runs take.\<close>

lemma daemon_length:
  "list_all (\<lambda>r. \<not> snd (snd r)) runs \<Longrightarrow> length (daemon_loop t cadence runs) = length runs"
  by (induction t cadence runs rule: daemon_loop.induct) auto

lemma daemon_starts:
  "list_all (\<lambda>r. \<not> snd (snd r)) runs \<Longrightarrow> i < length runs \<Longrightarrow> daemon_loop t cadence runs ! i =
     (t + int i * cadence + sum_list (map (fst \<circ> snd) (take i runs)), run_level (fst (runs ! i)))"
proof (induction t cadence runs arbitrary: i rule: daemon_loop.induct)
  case (2 t cadence r dur stop rs)
  then show ?case by (cases i) (auto simp: algebra_simps)
qed simp

text \<open>
  The hourly macro job keeps running whatever its runs return: the \<open>i\<close>-th start is five minutes
  after launch, plus \<open>i\<close> hours, plus the time the earlier runs took.
\<close>

theorem macro_sync_never_stops:
  assumes "list_all (\<lambda>r. \<not> snd (snd r)) runs" "i < length runs"
  shows "map fst (macro_sync_loop launch runs) ! i
         = launch + 300 + int i * 3600 + sum_list (map (fst \<circ> snd) (take i runs)) \<and>
         length (macro_sync_loop launch runs) = length runs"
  using assms by (simp add: macro_sync_loop_def daemon_length daemon_starts)

theorem macro_sync_never_stops_witness:
  "map fst (macro_sync_loop 0 [(Returned 1, 7, False), (Timed_Out, 300, False), (Returned 0, 4, False)]) ! 2
     = 0 + 300 + int 2 * 3600 + sum_list (map (fst \<circ> snd) (take 2
         [(Returned 1, 7, False), (Timed_Out, 300, False), (Returned 0, 4, False)])) \<and>
   length (macro_sync_loop 0 [(Returned 1, 7, False), (Timed_Out, 300, False), (Returned 0, 4, False)])
     = length [(Returned 1, 7, False), (Timed_Out, 300 :: int, False), (Returned 0, 4, False)]"
  by (rule macro_sync_never_stops) simp_all

section \<open>The crash cap\<close>

text \<open>The crashes of the hour before \<open>now\<close>.\<close>

definition recent_crashes :: "rat \<Rightarrow> child list \<Rightarrow> child list" where
  "recent_crashes now cs = filter (\<lambda>c. ch_rc c \<noteq> 0 \<and> frnd (now - ch_now c) < 3600) cs"

definition crash_loop :: "child list \<Rightarrow> child \<Rightarrow> bool" where
  "crash_loop cs c \<longleftrightarrow> ch_rc c \<noteq> 0 \<and> 10 < length (recent_crashes (ch_now c) (cs @ [c]))"

lemma breaker_keeps_deaths: "sv_deaths (snd (breaker c s)) = sv_deaths s"
  by (simp add: breaker_def write_streak_def Let_def)

lemma recent_prune:
  assumes "now \<le> now'"
  shows "filter (\<lambda>t. frnd (now' - t) < 3600) (map ch_now (recent_crashes now cs)) = map ch_now (recent_crashes now' cs)"
proof -
  have "frnd (now - t) < 3600" if "frnd (now' - t) < 3600" for t
    using flt.mono [of "now - t" "now' - t"] assms that by simp
  then show ?thesis
    by (auto simp: recent_crashes_def filter_map o_def intro!: arg_cong [where f = "map ch_now"] filter_cong)
qed

lemma recent_snoc:
  "recent_crashes (ch_now c) (cs @ [c]) = recent_crashes (ch_now c) cs @ (if ch_rc c \<noteq> 0 then [c] else [])"
  by (simp add: recent_crashes_def)

text \<open>The supervisor's list is the crashes of the last hour, and it aborts exactly when one more
  than the cap is in it.\<close>

lemma after_child_deaths:
  assumes "sv_deaths s = map ch_now (recent_crashes now ps)" "now \<le> ch_now c"
    and "after_child c s = (b, stop, s')"
  shows "sv_deaths s' = map ch_now (recent_crashes (ch_now c) (ps @ [c]))"
    and "stop \<longleftrightarrow> crash_loop ps c"
proof -
  have d: "sv_deaths s' = map ch_now (recent_crashes (ch_now c) (ps @ [c]))
      \<and> (stop \<longleftrightarrow> ch_rc c \<noteq> 0 \<and> 10 < length (sv_deaths s'))"
    using assms breaker_keeps_deaths [of c s]
    by (auto simp: after_child_def Let_def recent_prune recent_snoc MAX_RESPAWNS_PER_HOUR_def split: prod.splits)
  then show "sv_deaths s' = map ch_now (recent_crashes (ch_now c) (ps @ [c]))" "stop \<longleftrightarrow> crash_loop ps c"
    by (auto simp: crash_loop_def)
qed

lemma supervise_aborts:
  assumes "sv_deaths s = map ch_now (recent_crashes now ps)" "sorted (now # map ch_now cs)"
  shows "fst (supervise cs s) \<longleftrightarrow> (\<exists>k < length cs. crash_loop (ps @ take k cs) (cs ! k))"
  using assms
proof (induction cs arbitrary: s now ps)
  case (Cons c cs)
  obtain b stop s' where a: "after_child c s = (b, stop, s')" by (cases "after_child c s")
  note d = after_child_deaths [OF Cons.prems(1) _ a]
  have le: "now \<le> ch_now c" using Cons.prems(2) by simp
  have e: "(\<exists>k < length (c # cs). crash_loop (ps @ take k (c # cs)) ((c # cs) ! k)) \<longleftrightarrow>
      crash_loop ps c \<or> (\<exists>k < length cs. crash_loop ((ps @ [c]) @ take k cs) (cs ! k))"
    by (simp add: Ex_less_Suc2)
  show ?case
  proof (cases stop)
    case True
    then show ?thesis using d(2) [OF le] unfolding e by (simp add: a)
  next
    case False
    then show ?thesis using d [OF le] Cons.IH [of s' "ch_now c" "ps @ [c]"] Cons.prems(2) unfolding e
      by (simp add: a)
  qed
qed simp

text \<open>
  C25. The container is aborted exactly when some child crashed and it was at least the eleventh
  crash within one hour of the monotonic clock; clean exits never count.
\<close>

theorem aborts_iff_crash_loop:
  assumes "sv_deaths s = []" "sorted (map ch_now cs)"
  shows "fst (supervise cs s) \<longleftrightarrow> (\<exists>k < length cs. crash_loop (take k cs) (cs ! k))"
proof (cases cs)
  case (Cons c ds)
  have "fst (supervise cs s) \<longleftrightarrow> (\<exists>k < length cs. crash_loop ([] @ take k cs) (cs ! k))"
    by (rule supervise_aborts [where now = "ch_now c"]) (use assms Cons in \<open>auto simp: recent_crashes_def\<close>)
  then show ?thesis by simp
qed simp

text \<open>Children that die of a network outage once every 301 seconds: the breaker is open (a backoff of
  300 seconds), and the eleventh still aborts the container.\<close>

definition outage :: "nat \<Rightarrow> child" where
  "outage k = \<lparr>ch_rc = 1, ch_log = Some (replicate 3 ''UNAVAILABLE''), ch_disk = True, ch_now = of_nat k * 301\<rparr>"

lemma outages_crash_loop: "crash_loop (map outage [0..<10]) (outage 10)"
  by (simp add: crash_loop_def recent_crashes_def outage_def upt_rec)

theorem aborts_iff_crash_loop_witness:
  "fst (supervise (map outage [0..<11]) \<lparr>sv_deaths = [], sv_streak = None\<rparr>)"
proof -
  have "\<exists>k < length (map outage [0..<11]). crash_loop (take k (map outage [0..<11])) (map outage [0..<11] ! k)"
    by (rule exI [of _ 10]) (use outages_crash_loop in \<open>simp add: take_map\<close>)
  moreover have "sorted (map ch_now (map outage [0..<11]))"
    by (simp add: outage_def upt_rec)
  ultimately show ?thesis
    using aborts_iff_crash_loop [of "\<lparr>sv_deaths = [], sv_streak = None\<rparr>" "map outage [0..<11]"] by simp
qed

lemma outage_backoff:
  "fst (after_child (outage k) s) = (if 2 \<le> read_streak s then 300 else 30)"
proof -
  have "network_outage (ch_log (outage k))" by code_simp
  then show ?thesis
    by (auto simp: after_child_def breaker_def Let_def CB_UNAVAILABLE_THRESHOLD_def CB_BACKOFF_def BACKOFF_def
        outage_def split: prod.splits)
qed

end
