(* ===== verification/Backfill.thy ===== *)
theory Backfill
  imports Calendar FallbackLoader PgStore Validate Supervisor
begin

text \<open>
  \<open>scripts/backfill_history_md.py\<close>: the job the supervisor keeps running. It resolves the universe,
  pulls the bars of every ticker that is not complete through the fallback chain, validates them and
  stores what passes. The chain is the one of \<open>FallbackLoader\<close>, the store that of
  \<open>PgStore\<close>; the archive loader's list of tickers is a parameter. Log lines, sleeps and the
  24-hour alarm are left out.
\<close>

section \<open>Completeness\<close>

definition CIRCUIT_BREAKER_THRESHOLD :: nat where "CIRCUIT_BREAKER_THRESHOLD = 50"
definition TRADING_DAYS_PER_YEAR :: int where "TRADING_DAYS_PER_YEAR = 252"
definition HALTS_PCT :: rat where "HALTS_PCT = frnd (15 / 100)"
definition MIN_YEAR :: int where "MIN_YEAR = 2018"
definition MOEX_MAX_LOOKBACK_DAYS :: int where "MOEX_MAX_LOOKBACK_DAYS = 1825"

definition earliest_expected_ts :: "int \<Rightarrow> (int option \<times> int option) option \<Rightarrow> bool \<Rightarrow> int" where
  "earliest_expected_ts today meta moex_clamped =
     (let lookback_floor = (if moex_clamped then today - MOEX_MAX_LOOKBACK_DAYS else jan1 MIN_YEAR)
      in case meta of
           Some (Some listed_at, _) \<Rightarrow> max (max (jan1 (year_of listed_at)) (jan1 MIN_YEAR)) lookback_floor
         | _ \<Rightarrow> max (jan1 MIN_YEAR) lookback_floor)"

text \<open>\<open>int(int(days * 252 / 365.25) * (1.0 - 0.15))\<close> in doubles.\<close>

definition expected_bars :: "int \<Rightarrow> nat" where
  "expected_bars calendar_days =
     (let trading_days = \<lfloor>frnd (of_int (calendar_days * TRADING_DAYS_PER_YEAR) / (365 + 1 / 4))\<rfloor>
      in nat \<lfloor>frnd (of_int trading_days * frnd (1 - HALTS_PCT))\<rfloor>)"

definition complete_since :: "int \<Rightarrow> int option \<Rightarrow> nat \<Rightarrow> int \<Rightarrow> bool" where
  "complete_since today delisted_at n listed_at =
     (let end = (case delisted_at of Some x \<Rightarrow> x | None \<Rightarrow> today)
      in if end \<le> listed_at then 0 < n else expected_bars (end - listed_at) \<le> n)"

definition is_complete :: "int \<Rightarrow> int \<Rightarrow> string \<Rightarrow> pg_db \<Rightarrow> bool" where
  "is_complete today min_bars ticker d =
     (let n = pg_count_ohlcv (Some ticker) d
      in case pg_ticker_meta ticker d of
           None \<Rightarrow> min_bars \<le> int n
         | Some (Some listed_at, delisted_at) \<Rightarrow> complete_since today delisted_at n listed_at
         | Some (None, delisted_at) \<Rightarrow>
             (case pg_earliest_ts ticker d of None \<Rightarrow> False
              | Some earliest \<Rightarrow> complete_since today delisted_at n earliest))"

section \<open>The universe\<close>

definition loader_error :: py_exc where "loader_error = OtherError ''LoaderError''"

text \<open>\<open>{m.ticker: m for m in metas}\<close> in insertion order.\<close>

definition metas_map :: "ticker_meta list \<Rightarrow> (string \<times> ticker_meta) list" where
  "metas_map metas = fold (\<lambda>m. AList.update (tm_ticker m) m) metas []"

definition of_classes :: "string list option \<Rightarrow> ticker_meta list \<Rightarrow> ticker_meta list" where
  "of_classes classes metas =
     (case classes of
        Some (c # cs) \<Rightarrow> filter (\<lambda>m. py_upper (case tm_class_code m of None \<Rightarrow> '''' | Some k \<Rightarrow> k) \<in> set (map py_upper (c # cs))) metas
      | _ \<Rightarrow> metas)"

definition resolve_universe ::
  "('w \<Rightarrow> ticker_meta list result \<times> 'w) \<Rightarrow> (ohlcv_row, 'a, ticker_meta, 'w) chain \<Rightarrow> string list option \<Rightarrow> int \<Rightarrow>
   'w loader \<Rightarrow> (string list \<times> ticker_meta list) result \<times> 'w loader" where
  "resolve_universe md c classes limit l =
     (let (metas, l) = (case on_world md l of (Inr ms, l) \<Rightarrow> (ms, l) | (Inl e, l) \<Rightarrow> ([], l));
          (metas, l) = (if metas = [] then list_tickers c l else (metas, l))
      in if metas = [] then (Inl loader_error, l)
         else let metas = of_classes classes metas;
                  metas = (if 0 < limit then take (nat limit) metas else metas)
              in (Inr (map tm_ticker metas, map snd (metas_map metas)), l))"

section \<open>One ticker\<close>

text \<open>The numbers of fetched and written rows; \<open>-1\<close> is an error.\<close>

definition backfill_one ::
  "(ohlcv_row, 'a, ticker_meta, 'w) chain \<Rightarrow> bool \<Rightarrow> string \<Rightarrow> int \<Rightarrow> int \<Rightarrow> 'w loader \<Rightarrow> pg_db \<Rightarrow>
   (nat \<times> int) \<times> 'w loader \<times> pg_db" where
  "backfill_one c atomic ticker start end l d =
     (case iter_ohlcv c ticker start end l of (rows, l) \<Rightarrow>
        if rows = [] then ((0, 0), l, d)
        else if v_blocking (concat (map validate_bar rows)) \<noteq> [] then ((length rows, 0), l, d)
        else (case pg_upsert_ohlcv atomic rows d of
            (Inl e, d) \<Rightarrow> ((0, -1), l, d) | (Inr n, d) \<Rightarrow> ((length rows, int n), l, d)))"

section \<open>The pass\<close>

record bf_args =
  ba_start_year :: int
  ba_end_year :: int
  ba_classes :: "string list option"
  ba_limit :: int
  ba_min_bars :: int
  ba_force :: bool
  ba_skip_known_bad :: bool

text \<open>\<open>be_dsn\<close>, \<open>be_loaders\<close>, \<open>be_auth\<close>: the DSN is set, the loaders were built, the database
  probe passed; \<open>be_md\<close>: the tickers of the archive loader.\<close>

record ('a, 'w) bf_env =
  be_dsn :: bool
  be_loaders :: bool
  be_auth :: bool
  be_md :: "'w \<Rightarrow> ticker_meta list result \<times> 'w"
  be_chain :: "(ohlcv_row, 'a, ticker_meta, 'w) chain"
  be_atomic :: bool
  be_today :: int

record 'w bf_state =
  bf_loader :: "'w loader"
  bf_db :: pg_db
  bf_fetched :: int
  bf_written :: int
  bf_skipped :: nat
  bf_errors :: "string list"
  bf_streak :: nat

text \<open>One ticker of the loop, and whether the iteration reaches the circuit breaker.\<close>

definition bf_skip :: "bool \<Rightarrow> 'w bf_state \<Rightarrow> 'w bf_state" where
  "bf_skip reset s = s\<lparr>bf_skipped := bf_skipped s + 1, bf_streak := (if reset then 0 else bf_streak s)\<rparr>"

definition bf_mark :: "string \<Rightarrow> 'w bf_state \<Rightarrow> 'w bf_state" where
  "bf_mark ticker s = s\<lparr>bf_db := pg_mark_backfill_complete ticker True (bf_db s)\<rparr>"

definition bf_fetch :: "('a, 'w) bf_env \<Rightarrow> bf_args \<Rightarrow> string \<Rightarrow> int \<Rightarrow> int \<Rightarrow> 'w bf_state \<Rightarrow> 'w bf_state" where
  "bf_fetch env args ticker start end s =
     (case backfill_one (be_chain env) (be_atomic env) ticker start end (bf_loader s) (bf_db s) of
        ((fetched, written), l, d) \<Rightarrow>
          let s = s\<lparr>bf_loader := l, bf_db := d, bf_fetched := bf_fetched s + int fetched,
                    bf_written := bf_written s + max written 0\<rparr>
          in if written < 0 then s\<lparr>bf_errors := bf_errors s @ [ticker], bf_streak := bf_streak s + 1\<rparr>
             else let s = s\<lparr>bf_streak := 0\<rparr>
                  in if is_complete (be_today env) (ba_min_bars args) ticker (bf_db s) then bf_mark ticker s else s)"

definition bf_step :: "('a, 'w) bf_env \<Rightarrow> bf_args \<Rightarrow> string \<Rightarrow> 'w bf_state \<Rightarrow> bool \<times> 'w bf_state" where
  "bf_step env args ticker s =
     (let meta = pg_ticker_meta ticker (bf_db s);
          end = jan1 (ba_end_year args + 1) - 1;
          effective_start = max (jan1 (ba_start_year args)) (earliest_expected_ts (be_today env) meta False)
      in if ba_skip_known_bad args \<and> Option.bind meta snd \<noteq> None then (False, bf_skip True s)
         else if end < effective_start then (False, bf_skip False s)
         else if \<not> ba_force args \<and> is_complete (be_today env) (ba_min_bars args) ticker (bf_db s)
         then (False, bf_mark ticker (bf_skip True s))
         else (True, bf_fetch env args ticker effective_start end s))"

fun bf_loop :: "('a, 'w) bf_env \<Rightarrow> bf_args \<Rightarrow> string list \<Rightarrow> 'w bf_state \<Rightarrow> int option \<times> 'w bf_state" where
  "bf_loop env args [] s = (None, s)"
| "bf_loop env args (t # ts) s =
     (case bf_step env args t s of (reached, s) \<Rightarrow>
        if reached \<and> CIRCUIT_BREAKER_THRESHOLD \<le> bf_streak s then (Some 3, s) else bf_loop env args ts s)"

section \<open>The script\<close>

text \<open>The closing log line reads \<open>stats[src]\<close> for three source names; the loader has two.\<close>

definition stat_of :: "'w loader \<Rightarrow> string \<Rightarrow> source_stat result" where
  "stat_of l n = (if n \<in> {tinkoff_name, moex_name} then Inr (stats l n) else Inl KeyError)"

definition source_summary :: "'w loader \<Rightarrow> source_stat list result" where
  "source_summary l = map_result (stat_of l) [''tinkoff_md'', ''tinkoff_grpc'', ''moex_iss'']"

definition bf_start :: "'w loader \<Rightarrow> pg_db \<Rightarrow> 'w bf_state" where
  "bf_start l d = \<lparr>bf_loader = l, bf_db = d, bf_fetched = 0, bf_written = 0, bf_skipped = 0, bf_errors = [], bf_streak = 0\<rparr>"

definition valid_year :: "int \<Rightarrow> bool" where "valid_year y \<longleftrightarrow> 1 \<le> y \<and> y \<le> 9999"

text \<open>The tickers are stored first, so that the bars can refer to them.\<close>

definition backfill_pass ::
  "('a, 'w) bf_env \<Rightarrow> bf_args \<Rightarrow> string list \<Rightarrow> ticker_meta list \<Rightarrow> 'w loader \<Rightarrow> pg_db \<Rightarrow> int result \<times> pg_db" where
  "backfill_pass env args tickers metas l d =
     (case pg_upsert_tickers (be_atomic env) metas d of
        (Inl e, d) \<Rightarrow> (Inr 1, d)
      | (Inr _, d) \<Rightarrow>
          (case bf_loop env args tickers (bf_start l d) of
             (Some code, s) \<Rightarrow> (Inr code, bf_db s)
           | (None, s) \<Rightarrow> (bindR (source_summary (bf_loader s)) (\<lambda>_. Inr (if bf_errors s = [] then 0 else 2)), bf_db s)))"

text \<open>The exit code or the exception that ends the script, and the database.\<close>

definition backfill_main :: "('a, 'w) bf_env \<Rightarrow> bf_args \<Rightarrow> 'w \<Rightarrow> pg_db \<Rightarrow> int result \<times> pg_db" where
  "backfill_main env args w d =
     (if \<not> be_dsn env then (Inr 1, d)
      else if \<not> valid_year (ba_start_year args) \<or> \<not> valid_year (ba_end_year args) then (Inl ValueError, d)
      else if \<not> be_loaders env then (Inr 2, d)
      else if \<not> be_auth env then (Inr 1, d)
      else (case pg_list_tickers True d of
          Inl e \<Rightarrow> (Inr 1, d)
        | Inr _ \<Rightarrow>
            (case resolve_universe (be_md env) (be_chain env) (ba_classes args) (ba_limit args) (fresh_loader w) of
               (Inl e, l) \<Rightarrow> (Inl e, d)
             | (Inr (tickers, metas), l) \<Rightarrow> backfill_pass env args tickers metas l d)))"

text \<open>An exception that leaves \<open>main\<close> ends the process with status 1.\<close>

definition exit_status :: "int result \<Rightarrow> int" where
  "exit_status r = (case r of Inl e \<Rightarrow> 1 | Inr code \<Rightarrow> code)"


section \<open>What a pass does to the database\<close>

text \<open>Bars are only added, each of them a validated row; the metadata of the tickers stays.\<close>

definition grown :: "pg_db \<Rightarrow> pg_db \<Rightarrow> bool" where
  "grown d d' \<longleftrightarrow> map_of (p_ohlcv d) \<subseteq>\<^sub>m map_of (p_ohlcv d') \<and>
     (\<forall>k b. map_of (p_ohlcv d') k = Some b \<longrightarrow> map_of (p_ohlcv d) k = Some b \<or>
        (\<exists>r. validate_bar r = [] \<and> k = row_key r \<and> b = pg_column (row_bar_of r)))"

lemma grown_refl: "grown d d"
  by (simp add: grown_def)

lemma grown_trans [trans]: "grown a b \<Longrightarrow> grown b c \<Longrightarrow> grown a c"
  unfolding grown_def using map_le_trans by blast

lemma execute_grown:
  assumes "execute_many pg_insert_bar rows d = (b, d')" "\<forall>r \<in> set rows. validate_bar r = []"
  shows "grown d d'"
  using assms
proof (induction rows arbitrary: d)
  case (Cons r rows)
  show ?case
  proof (cases "pg_insert_bar r d")
    case (Some d1)
    have "grown d d1"
      using pg_insert_bar_bars [OF Some] Cons.prems(2) keep_first_mono [of "map_of (p_ohlcv d)" pg_column r]
      by (auto simp: grown_def keep_first_def split: option.splits if_splits)
    also have "grown d1 d'" using Cons Some by simp
    finally show ?thesis .
  qed (use Cons.prems grown_refl in auto)
qed (simp add: grown_refl)

lemma blocking_Nil: "v_blocking (concat (map validate_bar rows)) = [] \<longleftrightarrow> (\<forall>r \<in> set rows. validate_bar r = [])"
proof -
  have "v_blocking (concat (map validate_bar rows)) = concat (map (\<lambda>r. v_blocking (validate_bar r)) rows)"
    by (induction rows) (simp_all add: v_blocking_def)
  then show ?thesis by (simp add: bar_issues_block)
qed

text \<open>
  One bar without a price discards the whole answer: when the rows the chain returns for a ticker hold a bar
  whose open is not positive, the job counts the rows as fetched, writes none of them and leaves the
  database as it was.
\<close>

theorem zero_price_bar_discards_ticker:
  assumes "iter_ohlcv c t start end l = (rows, l')" "b \<in> set rows" "r_open b \<le> 0"
  shows "backfill_one c atomic t start end l d = ((length rows, 0), l', d)"
proof -
  have "rows \<noteq> []" using assms(2) by auto
  moreover have "v_blocking (concat (map validate_bar rows)) \<noteq> []"
    using assms(2,3) by (auto simp: blocking_Nil validate_bar_def)
  ultimately show ?thesis using assms(1) by (simp add: backfill_one_def)
qed

text \<open>The relation every part of the pass keeps: the invariant of the store, the bars, the metadata
  and the flags already set.\<close>

definition passed_on :: "pg_db \<Rightarrow> pg_db \<Rightarrow> bool" where
  "passed_on d d' \<longleftrightarrow> grown d d' \<and> (\<forall>t. pg_ticker_meta t d' = pg_ticker_meta t d) \<and> (pg_ok d \<longrightarrow> pg_ok d')"

lemma passed_on_refl: "passed_on d d"
  by (simp add: passed_on_def grown_refl)

lemma passed_on_trans [trans]: "passed_on a b \<Longrightarrow> passed_on b c \<Longrightarrow> passed_on a c"
  unfolding passed_on_def using grown_trans by auto

lemma upsert_passed_on:
  assumes "pg_upsert_ohlcv atomic rows d = (r, d')" "\<forall>r \<in> set rows. validate_bar r = []"
  shows "passed_on d d' \<and> p_universe d' = p_universe d"
proof -
  obtain b d1 where x: "execute_many pg_insert_bar rows d = (b, d1)" "d' = d \<or> d' = d1"
    using pg_upsert_cases [OF assms(1)] by metis
  have "pg_ok d1" if "pg_ok d"
    using execute_many_inv [of pg_ok pg_insert_bar d rows, OF pg_insert_bar_ok that] x(1) by simp
  moreover have "p_universe d1 = p_universe d" using pg_execute_bars [OF x(1)] by simp
  ultimately show ?thesis
    using x(2) execute_grown [OF x(1) assms(2)] passed_on_refl by (auto simp: passed_on_def pg_ticker_meta_def)
qed

lemma dom_map_entry_list: "map fst (AList.map_entry k g al) = map fst al"
  by (induction al) auto

lemma mark_universe:
  "map_of (p_universe (pg_mark_backfill_complete u f d)) t =
     (if t = py_upper u then map_option (\<lambda>x. x\<lparr>u_complete := f\<rparr>) (map_of (p_universe d) t) else map_of (p_universe d) t)"
  "map fst (p_universe (pg_mark_backfill_complete u f d)) = map fst (p_universe d)"
  "p_ohlcv (pg_mark_backfill_complete u f d) = p_ohlcv d"
  by (auto simp: pg_mark_backfill_complete_def map_of_map_entry dom_map_entry_list map_option_case
      split: option.splits)

lemma mark_meta: "pg_ticker_meta t (pg_mark_backfill_complete u f d) = pg_ticker_meta t d"
  by (cases "map_of (p_universe d) (py_upper t)") (auto simp: pg_ticker_meta_def mark_universe)

lemma mark_passed_on: "passed_on d (pg_mark_backfill_complete u f d)"
proof -
  have "dom (map_of (p_universe (pg_mark_backfill_complete u f d))) = dom (map_of (p_universe d))"
    by (auto simp: mark_universe(1) dom_def)
  then have "pg_ok d \<Longrightarrow> pg_ok (pg_mark_backfill_complete u f d)"
    by (simp add: pg_ok_def keyed_def mark_universe refers_def)
  then show ?thesis
    by (simp add: passed_on_def mark_meta grown_def mark_universe)
qed

lemma backfill_one_passed_on:
  assumes "backfill_one c atomic ticker start end l d = (fw, l', d')"
  shows "passed_on d d' \<and> p_universe d' = p_universe d"
proof -
  obtain rows l1 where i: "iter_ohlcv c ticker start end l = (rows, l1)" by fastforce
  consider "d' = d" | r where "\<forall>r \<in> set rows. validate_bar r = []" "pg_upsert_ohlcv atomic rows d = (r, d')"
    using assms i by (auto simp: backfill_one_def blocking_Nil split: if_splits prod.splits sum.splits)
  then show ?thesis
    by cases (use upsert_passed_on passed_on_refl in auto)
qed

section \<open>The completion flag\<close>

lemma filter_length_mono:
  assumes "keyed al" "map_of al \<subseteq>\<^sub>m map_of al'"
  shows "length (filter P al) \<le> length (filter P al')"
proof -
  have "set (filter P al) \<subseteq> set (filter P al')"
    using assms by (auto simp: keyed_set dest: map_le_Some intro: map_of_SomeD)
  moreover have "distinct (filter P al)"
    using assms(1) by (simp add: keyed_def distinct_map)
  ultimately show ?thesis
    by (metis card_mono distinct_card card_length finite_set order_trans)
qed

lemma count_mono: "pg_ok d \<Longrightarrow> passed_on d d' \<Longrightarrow> pg_count_ohlcv t d \<le> pg_count_ohlcv t d'"
  using filter_length_mono [of "p_ohlcv d" "p_ohlcv d'"] filter_length_mono [of "p_ohlcv d" "p_ohlcv d'" "\<lambda>_. True"]
  by (auto simp: pg_count_ohlcv_def pg_bars_of_def pg_ok_def passed_on_def grown_def split: option.splits)

lemma complete_since_mono: "complete_since today x n l \<Longrightarrow> n \<le> m \<Longrightarrow> complete_since today x m l"
  by (auto simp: complete_since_def Let_def split: if_splits)

lemma is_complete_mono:
  assumes "pg_ok d" "passed_on d d'" "pg_ticker_meta t d = Some (Some l, x)" "is_complete today m t d"
  shows "is_complete today m t d'"
proof -
  have "pg_ticker_meta t d' = Some (Some l, x)" using assms(2,3) by (simp add: passed_on_def)
  then show ?thesis
    using assms(3,4) count_mono [OF assms(1,2), of "Some t"] by (auto simp: is_complete_def intro: complete_since_mono)
qed

lemma is_complete_eqI:
  assumes "pg_count_ohlcv (Some u) d' = pg_count_ohlcv (Some t) d" "pg_earliest_ts u d' = pg_earliest_ts t d"
    "pg_ticker_meta u d' = pg_ticker_meta t d"
  shows "is_complete today m u d' = is_complete today m t d"
  unfolding is_complete_def assms ..

lemma is_complete_cong:
  assumes "p_ohlcv d' = p_ohlcv d" "pg_ticker_meta t d' = pg_ticker_meta t d"
  shows "is_complete today m t d' = is_complete today m t d"
  using assms by (intro is_complete_eqI) (simp_all add: pg_count_ohlcv_def pg_bars_of_def pg_earliest_ts_def)

lemma is_complete_upper:
  assumes "py_upper u = py_upper t"
  shows "is_complete today m u d = is_complete today m t d"
proof -
  have "u = [] \<longleftrightarrow> t = []" using assms by (metis map_is_Nil_conv py_upper_def)
  then show ?thesis using assms
    by (intro is_complete_eqI) (simp_all add: pg_count_ohlcv_def pg_bars_of_def pg_earliest_ts_def pg_ticker_meta_def)
qed

text \<open>A flag that a part of the pass sets is justified by the bars.\<close>

definition justified :: "int \<Rightarrow> int \<Rightarrow> pg_db \<Rightarrow> pg_db \<Rightarrow> bool" where
  "justified today m d d' \<longleftrightarrow> passed_on d d' \<and> (pg_ok d \<longrightarrow>
     (\<forall>t l x. pg_ticker_meta t d = Some (Some l, x) \<and> pg_is_backfill_complete t d' \<longrightarrow>
        pg_is_backfill_complete t d \<or> is_complete today m t d'))"

lemma justified_refl: "justified today m d d"
  by (simp add: justified_def passed_on_refl)

lemma justified_trans [trans]:
  assumes "justified today m a b" "justified today m b c"
  shows "justified today m a c"
proof -
  have p: "passed_on a b" "passed_on b c" "passed_on a c"
    using assms passed_on_trans by (auto simp: justified_def)
  have "pg_is_backfill_complete t a \<or> is_complete today m t c"
    if "pg_ok a" "pg_ticker_meta t a = Some (Some l, x)" "pg_is_backfill_complete t c" for t l x
  proof -
    have b: "pg_ok b" "pg_ticker_meta t b = Some (Some l, x)" using p(1) that by (simp_all add: passed_on_def)
    then have "pg_is_backfill_complete t b \<or> is_complete today m t c"
      using assms(2) that(3) unfolding justified_def by blast
    moreover have "is_complete today m t c" if "is_complete today m t b"
      using is_complete_mono [OF b(1) p(2) b(2) that] .
    ultimately show ?thesis
      using assms(1) that(1,2) unfolding justified_def by blast
  qed
  then show ?thesis using p(3) unfolding justified_def by blast
qed

lemma mark_justified:
  assumes "is_complete today m u d"
  shows "justified today m d (pg_mark_backfill_complete u True d)"
proof -
  have "pg_is_backfill_complete t d \<or> is_complete today m t (pg_mark_backfill_complete u True d)"
    if "pg_is_backfill_complete t (pg_mark_backfill_complete u True d)" for t
  proof (cases "py_upper t = py_upper u")
    case True
    then show ?thesis
      using assms is_complete_cong [of "pg_mark_backfill_complete u True d" d, OF mark_universe(3) mark_meta]
        is_complete_upper [OF True] by simp
  next
    case False
    then show ?thesis using that by (simp add: pg_is_backfill_complete_def mark_universe)
  qed
  then show ?thesis by (simp add: justified_def mark_passed_on)
qed

lemma bf_step_justified: "justified (be_today env) (ba_min_bars args) (bf_db s) (bf_db (snd (bf_step env args t s)))"
proof -
  have fetch: "justified (be_today env) (ba_min_bars args) (bf_db s) (bf_db (bf_fetch env args t st en s))" for st en
  proof -
    obtain f n l d where b: "backfill_one (be_chain env) (be_atomic env) t st en (bf_loader s) (bf_db s) = ((f, n), l, d)"
      by (metis surj_pair)
    have "justified (be_today env) (ba_min_bars args) (bf_db s) d"
      using backfill_one_passed_on [OF b] by (simp add: justified_def pg_is_backfill_complete_def)
    moreover have "justified (be_today env) (ba_min_bars args) d (bf_db (bf_fetch env args t st en s))"
      using b by (auto simp: bf_fetch_def Let_def bf_mark_def justified_refl mark_justified)
    ultimately show ?thesis by (rule justified_trans)
  qed
  show ?thesis
    by (simp add: bf_step_def Let_def fetch bf_skip_def bf_mark_def justified_refl mark_justified)
qed

lemma bf_loop_justified: "justified (be_today env) (ba_min_bars args) (bf_db s) (bf_db (snd (bf_loop env args ts s)))"
proof (induction ts arbitrary: s)
  case (Cons t ts)
  obtain r s' where b: "bf_step env args t s = (r, s')" by fastforce
  have "justified (be_today env) (ba_min_bars args) (bf_db s) (bf_db s')"
    using bf_step_justified [of env args s t] b by simp
  also have "justified (be_today env) (ba_min_bars args) (bf_db s') (bf_db (snd (bf_loop env args ts s')))"
    by (rule Cons.IH)
  finally show ?case using b Cons bf_step_justified [of env args s t] by simp
qed (simp add: justified_refl)

section \<open>The tickers are stored before the bars\<close>

lemma insert_ticker_keeps:
  assumes "pg_insert_ticker m d = Some d'"
  shows "p_ohlcv d' = p_ohlcv d" "pg_ok d \<Longrightarrow> pg_ok d'" "pg_is_backfill_complete t d' \<Longrightarrow> pg_is_backfill_complete t d"
proof -
  have d': "d' = d\<lparr>p_universe := AList.map_default (py_upper (tm_ticker m)) (pg_new_ticker m) (pg_update_ticker m) (p_universe d)\<rparr>"
    using assms by (auto simp: pg_insert_ticker_def split: if_splits)
  have u: "map_of (p_universe d') = (map_of (p_universe d))(py_upper (tm_ticker m) \<mapsto>
      case map_of (p_universe d) (py_upper (tm_ticker m)) of None \<Rightarrow> pg_new_ticker m | Some x \<Rightarrow> pg_update_ticker m x)"
    by (auto simp: d' map_of_map_default fun_eq_iff split: option.splits)
  show "p_ohlcv d' = p_ohlcv d" by (simp add: d')
  show "pg_ok d \<Longrightarrow> pg_ok d'" using u by (auto simp: pg_ok_def d' keyed_map_default refers_def)
  show "pg_is_backfill_complete t d' \<Longrightarrow> pg_is_backfill_complete t d"
    by (auto simp: pg_is_backfill_complete_def u pg_new_ticker_def pg_update_ticker_def split: if_splits option.splits)
qed

lemma upsert_tickers_keeps:
  assumes "pg_upsert_tickers atomic metas d = (r, d')"
  shows "p_ohlcv d' = p_ohlcv d \<and> (pg_ok d \<longrightarrow> pg_ok d') \<and> (pg_is_backfill_complete t d' \<longrightarrow> pg_is_backfill_complete t d)"
proof -
  let ?P = "\<lambda>x. p_ohlcv x = p_ohlcv d \<and> (pg_ok d \<longrightarrow> pg_ok x) \<and> (pg_is_backfill_complete t x \<longrightarrow> pg_is_backfill_complete t d)"
  obtain b d1 where e: "execute_many pg_insert_ticker metas d = (b, d1)" "d' = d \<or> d' = d1"
    using assms by (cases "execute_many pg_insert_ticker metas d")
      (auto simp: pg_upsert_tickers_def pg_batch_def split: if_splits bool.splits)
  have "?P d1"
    using execute_many_inv [of ?P pg_insert_ticker d metas] insert_ticker_keeps e(1) by fastforce
  then show ?thesis using e(2) by auto
qed

text \<open>A run stops before the pass, or is a pass.\<close>

lemma backfill_main_early_or_pass:
  "backfill_main env args w d = (r, d') \<Longrightarrow>
   d' = d \<and> r \<noteq> Inr 0 \<and> r \<noteq> Inr 3 \<or> (\<exists>tickers metas l. backfill_pass env args tickers metas l d = (r, d'))"
  by (auto simp: backfill_main_def split: if_splits sum.splits prod.splits)

lemma backfill_main_cases:
  assumes "backfill_main env args w d = (r, d')"
  obtains "d' = d" "r \<noteq> Inr 0" "r \<noteq> Inr 3"
  | metas e where "pg_upsert_tickers (be_atomic env) metas d = (Inl e, d')" "r = Inr 1"
  | tickers metas l d1 c s where "pg_upsert_tickers (be_atomic env) metas d = (Inr (), d1)"
      "bf_loop env args tickers (bf_start l d1) = (c, s)" "d' = bf_db s"
      "r = (case c of Some code \<Rightarrow> Inr code | None \<Rightarrow> bindR (source_summary (bf_loader s)) (\<lambda>_. Inr (if bf_errors s = [] then 0 else 2)))"
proof -
  note cases = that
  consider "d' = d" "r \<noteq> Inr 0" "r \<noteq> Inr 3" | tickers metas l where "backfill_pass env args tickers metas l d = (r, d')"
    using backfill_main_early_or_pass [OF assms] by blast
  then show ?thesis
  proof cases
    case (2 tickers metas l)
    obtain p d1 where p: "pg_upsert_tickers (be_atomic env) metas d = (p, d1)" by fastforce
    obtain c s where b: "bf_loop env args tickers (bf_start l d1) = (c, s)" by fastforce
    show ?thesis
    proof (cases p)
      case (Inl e)
      then show ?thesis using 2 p cases(2) [of metas e] by (simp add: backfill_pass_def)
    next
      case (Inr u)
      then show ?thesis using 2 p b cases(3) [of metas d1 tickers l c s] by (cases c) (simp_all add: backfill_pass_def)
    qed
  qed (use cases in blast)
qed

section \<open>Properties\<close>

lemma backfill_main_grown:
  assumes m: "backfill_main env args w d = (r, d')"
  shows "grown d d'"
proof (rule backfill_main_cases [OF m])
  fix metas e assume "pg_upsert_tickers (be_atomic env) metas d = (Inl e, d')"
  then show ?thesis using upsert_tickers_keeps by (fastforce simp: grown_def)
next
  fix tickers metas l d1 c s
  assume u: "pg_upsert_tickers (be_atomic env) metas d = (Inr (), d1)"
    and b: "bf_loop env args tickers (bf_start l d1) = (c, s)" "d' = bf_db s"
  have "p_ohlcv d1 = p_ohlcv d" using upsert_tickers_keeps [OF u] by blast
  then have "grown d d1" by (simp add: grown_def)
  also have "grown d1 d'"
    using bf_loop_justified [of env args "bf_start l d1" tickers] b by (simp add: justified_def passed_on_def bf_start_def)
  finally show ?thesis .
qed (simp add: grown_refl)

text \<open>
  C26. A pass, however it ends, never changes or removes a stored bar, and every bar it adds is a row
  the validator has no complaint about, at the scale of the columns.
\<close>

theorem backfill_only_adds_valid_bars:
  "map_of (p_ohlcv d) \<subseteq>\<^sub>m map_of (p_ohlcv (snd (backfill_main env args w d))) \<and>
   (\<forall>k b. map_of (p_ohlcv (snd (backfill_main env args w d))) k = Some b \<longrightarrow> map_of (p_ohlcv d) k = Some b \<or>
      (\<exists>r. validate_bar r = [] \<and> k = row_key r \<and> b = pg_column (row_bar_of r)))"
proof -
  obtain r d' where m: "backfill_main env args w d = (r, d')" by fastforce
  have "grown d d'" by (rule backfill_main_grown [OF m])
  then show ?thesis by (simp add: m grown_def)
qed

text \<open>
  C27. A completion flag that a pass leaves on a ticker whose listing date is known was on before, or
  the bars stored at the end reach the expected number.
\<close>

theorem completion_flags_justified:
  assumes "pg_ok d" "backfill_main env args w d = (r, d')"
    and "pg_is_backfill_complete t d'" "pg_ticker_meta t d' = Some (Some l, x)"
  shows "pg_is_backfill_complete t d \<or> is_complete (be_today env) (ba_min_bars args) t d'"
proof (rule backfill_main_cases [OF assms(2)])
  fix metas e assume "pg_upsert_tickers (be_atomic env) metas d = (Inl e, d')"
  then show ?thesis using upsert_tickers_keeps assms(3) by blast
next
  fix tickers metas l1 d1 c s
  assume u: "pg_upsert_tickers (be_atomic env) metas d = (Inr (), d1)"
    and b: "bf_loop env args tickers (bf_start l1 d1) = (c, s)" "d' = bf_db s"
  have j: "justified (be_today env) (ba_min_bars args) d1 d'"
    using bf_loop_justified [of env args "bf_start l1 d1" tickers] b by (simp add: bf_start_def)
  have "pg_ok d1" "pg_is_backfill_complete t d1 \<Longrightarrow> pg_is_backfill_complete t d"
    using upsert_tickers_keeps [OF u] assms(1) by blast+
  moreover have "pg_ticker_meta t d1 = Some (Some l, x)"
    using j assms(4) by (simp add: justified_def passed_on_def)
  ultimately show ?thesis using j assms(3) unfolding justified_def by blast
qed (use assms in simp)

text \<open>The script reads the counters of a source the chain does not have, so it never exits with 0.\<close>

lemma source_summary_fails: "source_summary l = Inl KeyError"
  by (simp add: source_summary_def stat_of_def tinkoff_name_def moex_name_def)

lemma bf_loop_code: "bf_loop env args ts s = (Some code, s') \<Longrightarrow> code = 3"
  by (induction ts arbitrary: s) (auto split: if_splits prod.splits)

lemma backfill_never_exits_zero: "exit_status (fst (backfill_main env args w d)) \<noteq> 0"
proof -
  obtain r d' where m: "backfill_main env args w d = (r, d')" by fastforce
  show ?thesis unfolding m
    by (rule backfill_main_cases [OF m])
      (auto simp: exit_status_def source_summary_fails dest: bf_loop_code split: sum.splits option.splits)
qed

text \<open>The error count: a pass that trips the circuit breaker has seen fifty store failures.\<close>

lemma bf_step_streak:
  "bf_streak s \<le> length (bf_errors s) \<Longrightarrow> bf_streak (snd (bf_step env args t s)) \<le> length (bf_errors (snd (bf_step env args t s)))"
  by (auto simp: bf_step_def Let_def bf_skip_def bf_mark_def bf_fetch_def split: prod.splits)

lemma breaker_needs_fifty_errors:
  assumes "bf_loop env args ts s = (Some code, s')" "bf_streak s \<le> length (bf_errors s)"
  shows "50 \<le> length (bf_errors s')"
  using assms
proof (induction ts arbitrary: s)
  case (Cons t ts)
  obtain r s1 where b: "bf_step env args t s = (r, s1)" by fastforce
  have "bf_streak s1 \<le> length (bf_errors s1)" using bf_step_streak [OF Cons.prems(2), of env args t] b by simp
  then show ?case using Cons b by (auto simp: CIRCUIT_BREAKER_THRESHOLD_def split: if_splits)
qed simp

text \<open>An outage of every source is not an error: the chain swallows it, the ticker counts as one without
  data, and the breaker never trips.\<close>

definition sources_down :: "('r, 'a, 'm, 'w) chain \<Rightarrow> bool" where
  "sources_down c \<longleftrightarrow> (\<forall>n s t a b w. resolve c n = Some s \<longrightarrow> isl (fst (src_ohlcv s t a b w)))"

lemma fetch_all_down:
  assumes "\<And>t a b w. isl (fst (f t a b w))" "fetch_all f t ws w = (Inr rows, w')"
  shows "rows = []"
proof (cases ws)
  case (Cons x xs)
  obtain a b where "x = (a, b)" by (cases x)
  then show ?thesis using assms(1) [of t a b w] assms(2) Cons by (auto simp: bindW_Inr)
qed (use assms in simp)

lemma down_ohlcv: "sources_down c \<Longrightarrow> fst (ohlcv_from c t a b ns l) = []"
proof (induction ns arbitrary: l)
  case (Cons n ns)
  show ?case
  proof (cases "resolve c n")
    case (Some s)
    have "isl (fst (src_ohlcv s t a b w))" for t a b w using Cons.prems Some by (simp add: sources_down_def)
    then have "iter_source (src_ohlcv s) t a b cap w = (Inr rows, w') \<Longrightarrow> rows = []" for cap w rows w'
      unfolding iter_source_def by (rule fetch_all_down)
    then show ?thesis using Cons Some
      by (auto simp: on_world_def split: prod.splits sum.splits)
  qed (use Cons in simp)
qed simp

lemma outage_has_no_errors:
  assumes "sources_down (be_chain env)" "bf_errors s = []" "bf_streak s = 0"
  shows "fst (bf_loop env args ts s) = None \<and> bf_errors (snd (bf_loop env args ts s)) = []"
  using assms(2,3)
proof (induction ts arbitrary: s)
  case (Cons t ts)
  obtain r s1 where b: "bf_step env args t s = (r, s1)" by fastforce
  have "fst (iter_ohlcv (be_chain env) t st en l) = []" for st en l
    by (simp add: iter_ohlcv_def down_ohlcv assms(1))
  then have "\<exists>l'. backfill_one (be_chain env) (be_atomic env) t st en l d = ((0, 0), l', d)" for st en l d
    by (cases "iter_ohlcv (be_chain env) t st en l") (simp add: backfill_one_def, metis fst_conv)
  then have "bf_errors (bf_fetch env args t st en s) = [] \<and> bf_streak (bf_fetch env args t st en s) = 0" for st en
    using Cons.prems by (cases "backfill_one (be_chain env) (be_atomic env) t st en (bf_loader s) (bf_db s)")
      (auto simp: bf_fetch_def Let_def bf_mark_def split: prod.splits, (metis prod.inject less_irrefl)+)
  then have "bf_errors s1 = [] \<and> bf_streak s1 = 0"
    using b Cons.prems by (auto simp: bf_step_def Let_def bf_skip_def bf_mark_def split: if_splits)
  then show ?case using Cons.IH [of s1] b by (simp add: CIRCUIT_BREAKER_THRESHOLD_def)
qed simp

text \<open>The archive starts in 2018, but the expected number counts from the listing date: a ticker listed
  by 2008 is not complete in 2026 even with a bar for every calendar day since 2018.\<close>

lemma expected_bars_lower:
  assumes "6575 \<le> days"
  shows "3685 \<le> expected_bars days"
proof -
  define x where "x = frnd (of_int (days * TRADING_DAYS_PER_YEAR) / (365 + 1 / 4))"
  define keep where "keep = frnd (1 - HALTS_PCT)"
  have e: "frnd (3 / 16) = 3 / 16" "frnd (13 / 16) = 13 / 16" "frnd 4536 = 4536" "frnd 3685 = 3685"
    using frnd_exactI [of "3 / 16" 3 "- 4"] frnd_exactI [of "13 / 16" 13 "- 4"] by (simp_all add: power_int_def power_one_over)
  have "frnd (15 / 100) \<le> frnd (3 / 16)" by (rule flt.mono) simp
  then have "frnd (13 / 16) \<le> keep" unfolding keep_def HALTS_PCT_def by (intro flt.mono) (simp add: e)
  then have k: "13 / 16 \<le> keep" by (simp add: e)
  have "(6575 :: rat) \<le> of_int days" using assms by linarith
  then have "frnd 4536 \<le> x" unfolding x_def TRADING_DAYS_PER_YEAR_def by (intro flt.mono) simp
  then have "(4536 :: int) \<le> \<lfloor>x\<rfloor>" by (simp add: e le_floor_iff)
  then have "(4536 :: rat) \<le> of_int \<lfloor>x\<rfloor>" by linarith
  then have "4536 * (13 / 16) \<le> of_int \<lfloor>x\<rfloor> * keep" using k by (intro mult_mono) simp_all
  then have "frnd 3685 \<le> frnd (of_int \<lfloor>x\<rfloor> * keep)" by (intro flt.mono) simp
  then have "3685 \<le> nat \<lfloor>frnd (of_int \<lfloor>x\<rfloor> * keep)\<rfloor>" by (simp add: e le_floor_iff nat_le_iff le_nat_iff)
  then show ?thesis unfolding expected_bars_def Let_def x_def keep_def .
qed

lemma old_listing_never_completes:
  assumes "pg_ticker_meta t d = Some (Some l, None)" "l \<le> jan1 2008" "jan1 2026 \<le> today" "today \<le> jan1 2027"
    and "int (pg_count_ohlcv (Some t) d) \<le> today - jan1 2018 + 1"
  shows "\<not> is_complete today m t d"
proof -
  have j: "jan1 2008 = 733042" "jan1 2026 = 739617" "jan1 2027 = 739982" "jan1 2018 = 736695"
    by (simp_all add: jan1_def)
  have "3685 \<le> expected_bars (today - l)" by (rule expected_bars_lower) (use assms(2,3) j in simp)
  moreover have "\<not> today \<le> l" using assms(2,3) j by simp
  ultimately show ?thesis using assms(1,4,5) j by (simp add: is_complete_def complete_since_def Let_def)
qed

text \<open>
  C28. Supervisor and backfill together: whatever the passes do (the exit code of each child is that of
  some run of the script), eleven passes that end within an hour abort the container; passes over a
  complete universe, which do nothing, are enough.
\<close>

theorem backfill_passes_abort_container:
  fixes env_of :: "child \<Rightarrow> ('a, 'w) bf_env"
  assumes "sv_deaths s = []" "sorted (map ch_now cs)" "length cs = 11"
    and "\<And>c. c \<in> set cs \<Longrightarrow> ch_rc c = exit_status (fst (backfill_main (env_of c) (args_of c) (world_of c) (db_of c)))"
    and "frnd (ch_now (last cs) - ch_now (hd cs)) < 3600"
  shows "fst (supervise cs s)"
proof -
  have c: "ch_rc c \<noteq> 0 \<and> frnd (ch_now (cs ! 10) - ch_now c) < 3600" if "c \<in> set cs" for c
  proof -
    have "ch_now (hd cs) \<le> ch_now c"
      using assms(2) that by (cases cs) auto
    then have "frnd (ch_now (cs ! 10) - ch_now c) \<le> frnd (ch_now (cs ! 10) - ch_now (hd cs))"
      by (intro flt.mono) simp
    moreover have "last cs = cs ! 10" using assms(3) by (subst last_conv_nth) auto
    ultimately show ?thesis using assms(4) [OF that] assms(5)
        backfill_never_exits_zero [of "env_of c" "args_of c" "world_of c" "db_of c"] by auto
  qed
  have cs: "take 10 cs @ [cs ! 10] = cs"
    using assms(3) take_Suc_conv_app_nth [of 10 cs] by simp
  have "recent_crashes (ch_now (cs ! 10)) cs = cs" using c by (simp add: recent_crashes_def)
  then have "crash_loop (take 10 cs) (cs ! 10)"
    using c [of "cs ! 10"] assms(3) unfolding crash_loop_def cs by simp
  moreover obtain c0 ds where "cs = c0 # ds" using assms(3) by (cases cs) auto
  then have so: "sorted (ch_now (hd cs) # map ch_now cs)" using assms(2) by simp
  have "fst (supervise cs s) \<longleftrightarrow> (\<exists>k < length cs. crash_loop ([] @ take k cs) (cs ! k))"
    by (rule supervise_aborts [where now = "ch_now (hd cs)"])
      (use assms(1) so in \<open>simp_all add: recent_crashes_def\<close>)
  ultimately show ?thesis using assms(3) by auto
qed

section \<open>A concrete pass\<close>

text \<open>One ticker, listed on the day of the run, with one bar of that day.\<close>

definition ex_listed_today :: ticker_meta where "ex_listed_today = ex_meta\<lparr>tm_listed_at := Some 739700\<rparr>"
definition ex_today_row :: ohlcv_row where "ex_today_row = ex_bar_row\<lparr>r_ts := 739700\<rparr>"

definition ex_bf_source :: "(ohlcv_row, unit, ticker_meta, unit) data_source" where
  "ex_bf_source = \<lparr>src_ohlcv = (\<lambda>t a b w. (Inr [ex_today_row], w)), src_actions = None, src_tickers = (\<lambda>w. (Inr [], w))\<rparr>"

definition ex_bf_env :: "(unit, unit) bf_env" where
  "ex_bf_env = \<lparr>be_dsn = True, be_loaders = True, be_auth = True, be_md = (\<lambda>w. (Inr [ex_listed_today], w)),
     be_chain = \<lparr>tinkoff_grpc = Some ex_bf_source, moex_iss = None, chain_order = FALLBACK_ORDER\<rparr>,
     be_atomic = True, be_today = 739700\<rparr>"

definition ex_bf_args :: bf_args where
  "ex_bf_args = \<lparr>ba_start_year = 2018, ba_end_year = 2026, ba_classes = None, ba_limit = 0, ba_min_bars = 1300,
     ba_force = False, ba_skip_known_bad = False\<rparr>"

definition ex_bf0 :: pg_db where "ex_bf0 = pg_empty\<lparr>p_universe := [(''SBER'', pg_new_ticker ex_listed_today)]\<rparr>"
definition ex_bf1 :: pg_db where "ex_bf1 = ex_bf0\<lparr>p_ohlcv := [((''SBER'', 739700, Tkf), row_bar_of ex_bar_row)]\<rparr>"
definition ex_bf2 :: pg_db where "ex_bf2 = pg_mark_backfill_complete ''SBER'' True ex_bf1"

lemma ex_today: "row_key ex_today_row = (''SBER'', 739700, Tkf)" "row_bar_of ex_today_row = row_bar_of ex_bar_row"
  "validate_bar ex_today_row = []"
  by (simp_all add: ex_today_row_def ex_bar_row_def row_key_def row_bar_of_def validate_bar_def)

lemma ex_bf_upsert: "pg_upsert_ohlcv True [ex_today_row] ex_bf0 = (Inr 1, ex_bf1)"
  using ex_exact
  by (simp add: pg_upsert_ohlcv_def pg_batch_def pg_insert_bar_def ex_today exact_row_def)
    (simp add: ex_bf0_def ex_bf1_def pg_empty_def ex_bar_row_def ex_today_row_def)

lemma ex_bf_tickers: "pg_upsert_tickers True [ex_listed_today] pg_empty = (Inr (), ex_bf0)"
  by (simp add: pg_upsert_tickers_def pg_batch_def pg_insert_ticker_def pg_ticker_fits_def ex_listed_today_def ex_meta_def
      pg_empty_def ex_bf0_def)

lemma ex_bf_meta: "pg_ticker_meta ''SBER'' ex_bf0 = Some (Some 739700, None)"
  "pg_ticker_meta ''SBER'' ex_bf1 = Some (Some 739700, None)" "pg_ticker_meta ''SBER'' ex_bf2 = Some (Some 739700, None)"
  by (simp_all add: pg_ticker_meta_def ex_bf0_def ex_bf1_def ex_bf2_def pg_mark_backfill_complete_def pg_new_ticker_def
      ex_listed_today_def ex_meta_def)

lemma ex_bf_complete: "\<not> is_complete 739700 m ''SBER'' ex_bf0" "is_complete 739700 m ''SBER'' ex_bf1"
proof -
  have "pg_count_ohlcv (Some ''SBER'') ex_bf0 = 0" "pg_count_ohlcv (Some ''SBER'') ex_bf1 = 1"
    by (simp_all add: pg_count_ohlcv_def pg_bars_of_def ex_bf0_def ex_bf1_def pg_empty_def)
  then show "\<not> is_complete 739700 m ''SBER'' ex_bf0" "is_complete 739700 m ''SBER'' ex_bf1"
    by (simp_all add: is_complete_def ex_bf_meta complete_since_def)
qed

lemma ex_bf_universe: "resolve_universe (be_md ex_bf_env) (be_chain ex_bf_env) None 0 (fresh_loader ()) =
    (Inr ([''SBER''], [ex_listed_today]), fresh_loader ())"
  by (simp add: resolve_universe_def ex_bf_env_def on_world_def fresh_loader_def of_classes_def metas_map_def
      ex_listed_today_def ex_meta_def)

lemma ex_bf_window: "max (jan1 2018) (earliest_expected_ts 739700 (Some (Some 739700, None)) False) \<le> 739982"
  "jan1 2027 - 1 = 739981" "earliest_expected_ts 739700 (Some (Some 739700, None)) False = 739617"
  by (simp_all add: earliest_expected_ts_def jan1_def MIN_YEAR_def year_of_def)

lemma ex_bf_run: "backfill_main ex_bf_env ex_bf_args () pg_empty = (Inl KeyError, ex_bf2)"
proof -
  obtain l where l: "iter_ohlcv (be_chain ex_bf_env) ''SBER'' 739617 739981 (fresh_loader ()) = ([ex_today_row], l)"
    by (simp add: iter_ohlcv_def ex_bf_env_def FALLBACK_ORDER_def resolve_def fresh_loader_def on_world_def
        iter_source_def windows_def source_max_lookback_def tinkoff_name_def moex_name_def ex_bf_source_def)
  have one: "backfill_one (be_chain ex_bf_env) True ''SBER'' 739617 739981 (fresh_loader ()) ex_bf0 = ((1, 1), l, ex_bf1)"
    using ex_bf_upsert by (simp add: backfill_one_def l ex_today v_blocking_def)
  have env: "be_today ex_bf_env = 739700" "be_atomic ex_bf_env" "be_dsn ex_bf_env" "be_loaders ex_bf_env" "be_auth ex_bf_env"
    by (simp_all add: ex_bf_env_def)
  have w: "jan1 2018 = 736695" "jan1 2027 = 739982" by (simp_all add: jan1_def)
  have step: "\<exists>s. bf_step ex_bf_env ex_bf_args ''SBER'' (bf_start (fresh_loader ()) ex_bf0) = (True, s) \<and>
      bf_db s = ex_bf2 \<and> bf_streak s = 0"
    using one by (simp add: bf_step_def bf_start_def ex_bf_args_def ex_bf_meta ex_bf_window env w ex_bf_complete bf_fetch_def
        bf_mark_def ex_bf2_def)
  then have "\<exists>s. bf_loop ex_bf_env ex_bf_args [''SBER''] (bf_start (fresh_loader ()) ex_bf0) = (None, s) \<and> bf_db s = ex_bf2"
    by (auto simp: CIRCUIT_BREAKER_THRESHOLD_def)
  moreover have "pg_list_tickers True pg_empty = Inr []" by (simp add: pg_list_tickers_def pg_empty_def select_by_def)
  ultimately show ?thesis
    using ex_bf_universe by (auto simp: backfill_main_def backfill_pass_def env valid_year_def ex_bf_args_def ex_bf_tickers
        source_summary_fails)
qed

theorem backfill_only_adds_valid_bars_witness:
  "map_of (p_ohlcv ex_bf2) (''SBER'', 739700, Tkf) = Some (row_bar_of ex_bar_row) \<and>
   (\<exists>r. validate_bar r = [] \<and> (''SBER'', 739700, Tkf) = row_key r \<and> row_bar_of ex_bar_row = pg_column (row_bar_of r))"
proof -
  have "map_of (p_ohlcv ex_bf2) (''SBER'', 739700, Tkf) = Some (row_bar_of ex_bar_row)"
    by (simp add: ex_bf2_def mark_universe ex_bf1_def)
  then show ?thesis
    using backfill_only_adds_valid_bars [of pg_empty ex_bf_env ex_bf_args "()"] by (simp add: ex_bf_run) (simp add: pg_empty_def)
qed

theorem completion_flags_justified_witness:
  "pg_is_backfill_complete ''SBER'' ex_bf2 \<and> is_complete 739700 1300 ''SBER'' ex_bf2"
proof -
  have f: "pg_is_backfill_complete ''SBER'' ex_bf2" "\<not> pg_is_backfill_complete ''SBER'' pg_empty" "pg_ok pg_empty"
    by (simp_all add: pg_is_backfill_complete_def ex_bf2_def mark_universe ex_bf1_def ex_bf0_def pg_empty_def pg_ok_def
        keyed_def refers_def)
  have "be_today ex_bf_env = 739700" "ba_min_bars ex_bf_args = 1300" by (simp_all add: ex_bf_env_def ex_bf_args_def)
  then show ?thesis using f completion_flags_justified [OF f(3) ex_bf_run f(1) ex_bf_meta(3)] by simp
qed

text \<open>Eleven such passes, half a minute apart.\<close>

definition ex_pass :: "nat \<Rightarrow> child" where
  "ex_pass k = \<lparr>ch_rc = exit_status (fst (backfill_main ex_bf_env ex_bf_args () pg_empty)), ch_log = None, ch_disk = True,
     ch_now = of_nat k * 30\<rparr>"

theorem backfill_passes_abort_container_witness:
  "fst (supervise (map ex_pass [0..<11]) \<lparr>sv_deaths = [], sv_streak = None\<rparr>)"
  by (rule backfill_passes_abort_container [where env_of = "\<lambda>_. ex_bf_env" and args_of = "\<lambda>_. ex_bf_args"
        and world_of = "\<lambda>_. ()" and db_of = "\<lambda>_. pg_empty"])
    (auto simp: ex_pass_def upt_rec)

end
