(* ===== verification/MdLoader.thy ===== *)
theory MdLoader
  imports Calendar DataModels PyFloat "HOL-Library.Multiset"
begin

text \<open>
  \<open>src/data/tinkoff_md_loader.py\<close>: the loader of the yearly minute archives. The HTTP request, the
  unzipping, the parsing of a CSV row and the ticker lists of the broker are parameters; instants
  are microseconds, counted so that \<open>ts div MINUTE_DAY_US\<close> is the ordinal of the UTC day.
\<close>

section \<open>From minutes to days\<close>

definition MINUTE_DAY_US :: int where "MINUTE_DAY_US = 86400000000"

record minute =
  mn_ts :: int
  mn_open :: rat
  mn_close :: rat
  mn_high :: rat
  mn_low :: rat
  mn_volume :: int

record daily =
  dy_day :: int
  dy_open :: rat
  dy_close :: rat
  dy_high :: rat
  dy_low :: rat
  dy_volume :: int

definition mn_day :: "minute \<Rightarrow> int" where
  "mn_day r = mn_ts r div MINUTE_DAY_US"

definition day_bar :: "minute list \<Rightarrow> int \<Rightarrow> daily" where
  "day_bar rows d =
     (let bars = sort_key mn_ts (filter (\<lambda>r. mn_day r = d) rows)
      in \<lparr>dy_day = d, dy_open = mn_open (hd bars), dy_close = mn_close (last bars),
          dy_high = Max (mn_high ` set bars), dy_low = Min (mn_low ` set bars),
          dy_volume = sum_list (map mn_volume bars)\<rparr>)"

definition aggregate_minutes_to_daily :: "minute list \<Rightarrow> daily list" where
  "aggregate_minutes_to_daily rows = map (day_bar rows) (sorted_list_of_set (mn_day ` set rows))"

section \<open>Archives\<close>

definition auth_error :: py_exc where "auth_error = OtherError ''LoaderAuthError''"
definition rate_limit_error :: py_exc where "rate_limit_error = OtherError ''LoaderRateLimitError''"
definition not_found_error :: py_exc where "not_found_error = OtherError ''LoaderNotFoundError''"
definition md_error :: py_exc where "md_error = OtherError ''LoaderError''"

definition MD_MIN_YEAR :: int where "MD_MIN_YEAR = 2017"
definition MAX_UNCOMPRESSED_BYTES :: nat where "MAX_UNCOMPRESSED_BYTES = 500 * 1024 * 1024"
definition MAX_INFLATE_RATIO :: rat where "MAX_INFLATE_RATIO = 100"

record zip_entry =
  ze_name :: string
  ze_size :: nat
  ze_packed :: nat
  ze_rows :: "string list list"

definition bomb :: "zip_entry \<Rightarrow> bool" where
  "bomb e \<longleftrightarrow> 0 < ze_packed e \<and> MAX_INFLATE_RATIO < frnd (of_nat (ze_size e) / of_nat (ze_packed e))"

definition is_csv :: "string \<Rightarrow> bool" where
  "is_csv s \<longleftrightarrow> 4 \<le> length s \<and> drop (length s - 4) s = ''.csv''"

definition entry_minutes :: "(string list \<Rightarrow> minute option) \<Rightarrow> zip_entry \<Rightarrow> minute list" where
  "entry_minutes parse_row e =
     (if is_csv (ze_name e) then List.map_filter parse_row (filter (\<lambda>row. 7 \<le> length row) (ze_rows e)) else [])"

text \<open>\<open>None\<close> is a file that is not a ZIP archive.\<close>

definition parse_archive :: "(string list \<Rightarrow> minute option) \<Rightarrow> zip_entry list option \<Rightarrow> minute list result" where
  "parse_archive parse_row archive =
     (case archive of None \<Rightarrow> Inl md_error
      | Some es \<Rightarrow>
          (if MAX_UNCOMPRESSED_BYTES < sum_list (map ze_size es) then Inl md_error
           else if list_ex bomb es then Inl md_error
           else Inr (concat (map (entry_minutes parse_row) es))))"

datatype 'b http_reply = Body 'b | Http_Status int | Network_Error

definition reply_result :: "'b http_reply \<Rightarrow> 'b option result" where
  "reply_result r =
     (case r of
        Body b \<Rightarrow> Inr (Some b)
      | Network_Error \<Rightarrow> Inl md_error
      | Http_Status c \<Rightarrow>
          (if c = 404 then Inr None
           else if c = 401 \<or> c = 403 then Inl auth_error
           else if c = 429 then Inl rate_limit_error
           else Inl md_error))"

record ('b, 'w) md_state =
  md_archives :: "string \<times> int \<rightharpoonup> 'b option"
  md_universe :: "ticker_meta list option"
  md_requests :: "(string \<times> int) list" \<comment> \<open>the requests made, one token of the bucket each\<close>
  md_world :: 'w

definition download_year ::
  "(string \<Rightarrow> int \<Rightarrow> 'w \<Rightarrow> 'b http_reply \<times> 'w) \<Rightarrow> int \<Rightarrow> string \<Rightarrow> int \<Rightarrow> ('b, 'w) md_state \<Rightarrow>
   'b option result \<times> ('b, 'w) md_state" where
  "download_year http min_year figi year s =
     (if year < min_year then (Inr None, s)
      else (case md_archives s (figi, year) of
          Some r \<Rightarrow> (Inr r, s)
        | None \<Rightarrow>
            (case http figi year (md_world s) of (reply, w) \<Rightarrow>
               let s = s\<lparr>md_world := w, md_requests := md_requests s @ [(figi, year)]\<rparr>
               in (case reply_result reply of
                     Inl e \<Rightarrow> (Inl e, s)
                   | Inr r \<Rightarrow> (Inr r, s\<lparr>md_archives := (md_archives s)((figi, year) \<mapsto> r)\<rparr>)))))"

text \<open>The checks of the constructor.\<close>

definition md_init :: "string option \<Rightarrow> int \<Rightarrow> unit result" where
  "md_init token min_year =
     (case token of None \<Rightarrow> Inl auth_error
      | Some t \<Rightarrow> (if t = [] \<or> length t < 16 then Inl auth_error else if min_year < MD_MIN_YEAR then Inl md_error else Inr ()))"

section \<open>The universe\<close>

record 'w broker_lists =
  bl_shares :: "string \<Rightarrow> 'w \<Rightarrow> ticker_meta list result \<times> 'w"
  bl_bonds :: "'w \<Rightarrow> ticker_meta list result \<times> 'w"
  bl_etfs :: "'w \<Rightarrow> ticker_meta list result \<times> 'w"

definition TRADABLE_CLASS_CODES :: "string list" where
  "TRADABLE_CLASS_CODES = [''SPBXM'', ''TQBR'', ''TQBS'', ''TQCB'', ''TQDE'', ''TQLV'', ''TQNO'', ''TQOB'', ''TQPI'', ''TQTE'']"
definition BOND_CLASS_CODES :: "string list" where "BOND_CLASS_CODES = [''TQOB'', ''TQCB'']"
definition ETF_CLASS_CODE :: string where "ETF_CLASS_CODE = ''TQTE''"

text \<open>Sorted, as in the source.\<close>

definition target_classes :: "string list" where
  "target_classes = filter (\<lambda>c. c \<notin> set BOND_CLASS_CODES \<and> c \<noteq> ETF_CLASS_CODE) TRADABLE_CLASS_CODES"

definition has_figi :: "ticker_meta \<Rightarrow> bool" where
  "has_figi m \<longleftrightarrow> (case tm_figi m of None \<Rightarrow> False | Some f \<Rightarrow> f \<noteq> [])"

definition us_isin :: "ticker_meta \<Rightarrow> bool" where
  "us_isin m \<longleftrightarrow> (case tm_isin m of None \<Rightarrow> False | Some i \<Rightarrow> take 2 i = ''US'')"

definition see :: "ticker_meta \<Rightarrow> ticker_meta list \<Rightarrow> ticker_meta list" where
  "see m seen = (if has_figi m \<and> tm_ticker m \<notin> tm_ticker ` set seen then seen @ [m] else seen)"

text \<open>The calls in order, each with its filter; the number of failures and what was seen.\<close>

fun harvest ::
  "(('w \<Rightarrow> ticker_meta list result \<times> 'w) \<times> (ticker_meta \<Rightarrow> bool)) list \<Rightarrow> nat \<Rightarrow> ticker_meta list \<Rightarrow> 'w \<Rightarrow>
   (nat \<times> ticker_meta list) \<times> 'w" where
  "harvest [] failures seen w = ((failures, seen), w)"
| "harvest ((call, keep) # calls) failures seen w =
     (case call w of
        (Inl e, w) \<Rightarrow> harvest calls (failures + 1) seen w
      | (Inr metas, w) \<Rightarrow> harvest calls failures (fold see (filter keep metas) seen) w)"

definition universe_calls ::
  "'w broker_lists \<Rightarrow> (('w \<Rightarrow> ticker_meta list result \<times> 'w) \<times> (ticker_meta \<Rightarrow> bool)) list" where
  "universe_calls b = map (\<lambda>c. (bl_shares b c, \<lambda>m. \<not> us_isin m)) target_classes @
     [(bl_bonds b, \<lambda>m. True), (bl_etfs b, \<lambda>m. True)]"

definition fill_universe_cache :: "'w broker_lists \<Rightarrow> 'w \<Rightarrow> ticker_meta list result \<times> 'w" where
  "fill_universe_cache b w =
     (case harvest (universe_calls b) 0 [] w of ((failures, seen), w) \<Rightarrow>
        (if failures = length (universe_calls b) then Inl md_error else Inr seen, w))"

definition md_list_tickers :: "'w broker_lists \<Rightarrow> ('b, 'w) md_state \<Rightarrow> ticker_meta list result \<times> ('b, 'w) md_state" where
  "md_list_tickers b s =
     (case md_universe s of Some ms \<Rightarrow> (Inr ms, s)
      | None \<Rightarrow> (case fill_universe_cache b (md_world s) of
          (Inl e, w) \<Rightarrow> (Inl e, s\<lparr>md_world := w\<rparr>)
        | (Inr ms, w) \<Rightarrow> (Inr ms, s\<lparr>md_world := w, md_universe := Some ms\<rparr>)))"

definition list_tickers_with_figi :: "'w broker_lists \<Rightarrow> ('b, 'w) md_state \<Rightarrow> ticker_meta list result \<times> ('b, 'w) md_state" where
  "list_tickers_with_figi b = bindW (md_list_tickers b) (\<lambda>ms. liftW (Inr (filter has_figi ms)))"

definition figi_for :: "'w broker_lists \<Rightarrow> string \<Rightarrow> ('b, 'w) md_state \<Rightarrow> ticker_meta option result \<times> ('b, 'w) md_state" where
  "figi_for b ticker =
     bindW (md_list_tickers b) (\<lambda>ms. liftW (Inr (find (\<lambda>m. py_upper (tm_ticker m) = py_upper ticker) ms)))"

section \<open>The bars of a window\<close>

text \<open>A generator: the rows yielded, and the exception that ended it.\<close>

definition md_row :: "string \<Rightarrow> daily \<Rightarrow> ohlcv_row result" where
  "md_row ticker b = mk_row \<lparr>r_ticker = py_upper ticker, r_ts = dy_day b, r_open = dy_open b, r_high = dy_high b,
     r_low = dy_low b, r_close = dy_close b, r_volume = of_int (dy_volume b), r_adj_close = dy_close b, r_source = Tkf\<rparr>"

fun yield_rows :: "string \<Rightarrow> daily list \<Rightarrow> ohlcv_row list \<times> py_exc option" where
  "yield_rows ticker [] = ([], None)"
| "yield_rows ticker (b # bs) =
     (case md_row ticker b of Inl e \<Rightarrow> ([], Some e)
      | Inr r \<Rightarrow> (case yield_rows ticker bs of (rs, err) \<Rightarrow> (r # rs, err)))"

record ('b, 'w) md_lib =
  ml_http :: "string \<Rightarrow> int \<Rightarrow> 'w \<Rightarrow> 'b http_reply \<times> 'w"
  ml_unzip :: "'b \<Rightarrow> zip_entry list option"
  ml_row :: "string list \<Rightarrow> minute option"
  ml_lists :: "'w broker_lists"
  ml_min_year :: int

definition year_rows :: "('b, 'w) md_lib \<Rightarrow> string \<Rightarrow> int \<Rightarrow> int \<Rightarrow> 'b \<Rightarrow> ohlcv_row list \<times> py_exc option" where
  "year_rows lib ticker start end body =
     (case parse_archive (ml_row lib) (ml_unzip lib body) of
        Inl e \<Rightarrow> ([], Some e)
      | Inr minutes \<Rightarrow>
          yield_rows ticker (filter (\<lambda>b. start \<le> dy_day b \<and> dy_day b \<le> end) (aggregate_minutes_to_daily minutes)))"

fun md_years ::
  "('b, 'w) md_lib \<Rightarrow> string \<Rightarrow> string \<Rightarrow> int \<Rightarrow> int \<Rightarrow> int list \<Rightarrow> ('b, 'w) md_state \<Rightarrow>
   ohlcv_row list \<times> py_exc option \<times> ('b, 'w) md_state" where
  "md_years lib ticker figi start end [] s = ([], None, s)"
| "md_years lib ticker figi start end (y # ys) s =
     (case download_year (ml_http lib) (ml_min_year lib) figi y s of
        (Inl e, s) \<Rightarrow> ([], Some e, s)
      | (Inr None, s) \<Rightarrow> md_years lib ticker figi start end ys s
      | (Inr (Some body), s) \<Rightarrow>
          (case year_rows lib ticker start end body of
             (rs, Some e) \<Rightarrow> (rs, Some e, s)
           | (rs, None) \<Rightarrow> (case md_years lib ticker figi start end ys s of (rs', err, s) \<Rightarrow> (rs @ rs', err, s))))"

definition md_iter_ohlcv ::
  "('b, 'w) md_lib \<Rightarrow> string \<Rightarrow> int \<Rightarrow> int \<Rightarrow> ('b, 'w) md_state \<Rightarrow> ohlcv_row list \<times> py_exc option \<times> ('b, 'w) md_state" where
  "md_iter_ohlcv lib ticker start end s =
     (if end < start then ([], None, s)
      else let start = max start (jan1 MD_MIN_YEAR)
           in (case figi_for (ml_lists lib) ticker s of
                 (Inl e, s) \<Rightarrow> ([], Some e, s)
               | (Inr m, s) \<Rightarrow>
                   (case Option.bind m tm_figi of
                      Some (c # cs) \<Rightarrow> md_years lib ticker (c # cs) start end [max (ml_min_year lib) (year_of start)..year_of end] s
                    | _ \<Rightarrow> ([], Some not_found_error, s))))"

section \<open>The daily bars\<close>

lemma day_bar_day [simp]: "dy_day (day_bar rows d) = d"
  by (simp add: day_bar_def Let_def)

lemma aggregate_days: "map dy_day (aggregate_minutes_to_daily rows) = sorted_list_of_set (mn_day ` set rows)"
  by (simp add: aggregate_minutes_to_daily_def o_def)

lemma aggregate_mem: "b \<in> set (aggregate_minutes_to_daily rows) \<Longrightarrow> b = day_bar rows (dy_day b) \<and> dy_day b \<in> mn_day ` set rows"
  by (auto simp: aggregate_minutes_to_daily_def)

lemma sum_sorted: "sum_list (map v (sort_key f xs)) = sum_list (map (v :: 'a \<Rightarrow> int) xs)"
  by (metis mset_map mset_sort sum_mset_sum_list)

lemma sum_by_day:
  assumes "distinct ds" "f ` set rows \<subseteq> set ds"
  shows "sum_list (map (\<lambda>d. sum_list (map v (filter (\<lambda>r. f r = d) rows))) ds) = sum_list (map (v :: 'a \<Rightarrow> int) rows)"
  using assms(2)
proof (induction rows)
  case (Cons r rows)
  have "sum_list (map (\<lambda>d. if f r = d then v r else 0) ds) = v r"
    using assms(1) Cons.prems by (simp add: sum_list_distinct_conv_sum_set)
  moreover have "(\<lambda>d. sum_list (map v (filter (\<lambda>x. f x = d) (r # rows)))) =
      (\<lambda>d. (if f r = d then v r else 0) + sum_list (map v (filter (\<lambda>x. f x = d) rows)))"
    by auto
  ultimately show ?case using Cons by (simp add: sum_list_addf)
qed simp

lemma aggregate_volume: "sum_list (map dy_volume (aggregate_minutes_to_daily rows)) = sum_list (map mn_volume rows)"
  using sum_by_day [of "sorted_list_of_set (mn_day ` set rows)" mn_day rows mn_volume]
  by (simp add: aggregate_minutes_to_daily_def o_def day_bar_def Let_def sum_sorted)

definition minute_ok :: "minute \<Rightarrow> bool" where
  "minute_ok r \<longleftrightarrow> mn_low r \<le> mn_open r \<and> mn_low r \<le> mn_close r \<and> mn_open r \<le> mn_high r \<and> mn_close r \<le> mn_high r \<and> 0 \<le> mn_volume r"

lemma day_bar_ok:
  assumes "d \<in> mn_day ` set rows"
  shows "\<forall>r \<in> set rows. mn_day r = d \<longrightarrow> dy_low (day_bar rows d) \<le> mn_low r \<and> mn_high r \<le> dy_high (day_bar rows d)"
    and "(\<forall>r \<in> set rows. mn_day r = d \<longrightarrow> minute_ok r) \<Longrightarrow>
      dy_low (day_bar rows d) \<le> dy_open (day_bar rows d) \<and> dy_low (day_bar rows d) \<le> dy_close (day_bar rows d) \<and>
      dy_open (day_bar rows d) \<le> dy_high (day_bar rows d) \<and> dy_close (day_bar rows d) \<le> dy_high (day_bar rows d) \<and>
      0 \<le> dy_volume (day_bar rows d)"
proof -
  define bars where "bars = sort_key mn_ts (filter (\<lambda>r. mn_day r = d) rows)"
  have b: "set bars = {r \<in> set rows. mn_day r = d}" by (simp add: bars_def)
  have d: "dy_open (day_bar rows d) = mn_open (hd bars)" "dy_close (day_bar rows d) = mn_close (last bars)"
    "dy_high (day_bar rows d) = Max (mn_high ` set bars)" "dy_low (day_bar rows d) = Min (mn_low ` set bars)"
    "dy_volume (day_bar rows d) = sum_list (map mn_volume bars)"
    by (simp_all add: day_bar_def Let_def flip: bars_def)
  have hl: "Min (mn_low ` set bars) \<le> mn_low r \<and> mn_high r \<le> Max (mn_high ` set bars)" if "r \<in> set bars" for r
    using that by simp
  then show "\<forall>r \<in> set rows. mn_day r = d \<longrightarrow> dy_low (day_bar rows d) \<le> mn_low r \<and> mn_high r \<le> dy_high (day_bar rows d)"
    unfolding d using b by blast
  assume ok: "\<forall>r \<in> set rows. mn_day r = d \<longrightarrow> minute_ok r"
  have "bars \<noteq> []" using assms b by force
  then have m: "hd bars \<in> set bars" "last bars \<in> set bars" by simp_all
  then have "minute_ok (hd bars)" "minute_ok (last bars)" using ok b by auto
  moreover have "0 \<le> sum_list (map mn_volume bars)"
    using ok b by (intro sum_list_nonneg) (auto simp: minute_ok_def)
  ultimately show "dy_low (day_bar rows d) \<le> dy_open (day_bar rows d) \<and> dy_low (day_bar rows d) \<le> dy_close (day_bar rows d) \<and>
      dy_open (day_bar rows d) \<le> dy_high (day_bar rows d) \<and> dy_close (day_bar rows d) \<le> dy_high (day_bar rows d) \<and>
      0 \<le> dy_volume (day_bar rows d)"
    unfolding d minute_ok_def using hl [OF m(1)] hl [OF m(2)] by linarith
qed

text \<open>
  C29. The daily bars lose nothing: one bar per day with a minute, in order; the volumes add up to
  those of the minutes; no minute leaves the range of its day; and the bar of a day of consistent
  minutes is consistent.
\<close>

theorem daily_bars_faithful:
  "sorted_wrt (<) (map dy_day (aggregate_minutes_to_daily rows)) \<and>
   dy_day ` set (aggregate_minutes_to_daily rows) = mn_day ` set rows \<and>
   sum_list (map dy_volume (aggregate_minutes_to_daily rows)) = sum_list (map mn_volume rows) \<and>
   (\<forall>b \<in> set (aggregate_minutes_to_daily rows).
      (\<forall>r \<in> set rows. mn_day r = dy_day b \<longrightarrow> dy_low b \<le> mn_low r \<and> mn_high r \<le> dy_high b) \<and>
      ((\<forall>r \<in> set rows. mn_day r = dy_day b \<longrightarrow> minute_ok r) \<longrightarrow>
         dy_low b \<le> dy_open b \<and> dy_low b \<le> dy_close b \<and> dy_open b \<le> dy_high b \<and> dy_close b \<le> dy_high b \<and> 0 \<le> dy_volume b))"
proof (intro conjI ballI impI)
  show "dy_day ` set (aggregate_minutes_to_daily rows) = mn_day ` set rows"
    using arg_cong [OF aggregate_days, of set rows] by simp
  fix b assume b: "b \<in> set (aggregate_minutes_to_daily rows)"
  note m = aggregate_mem [OF b]
  show "dy_low b \<le> mn_low r" "mn_high r \<le> dy_high b" if "r \<in> set rows" "mn_day r = dy_day b" for r
    using day_bar_ok(1) [of "dy_day b" rows] m that by metis+
  assume "\<forall>r \<in> set rows. mn_day r = dy_day b \<longrightarrow> minute_ok r"
  with day_bar_ok(2) [of "dy_day b" rows] m
  show "dy_low b \<le> dy_open b" "dy_low b \<le> dy_close b" "dy_open b \<le> dy_high b" "dy_close b \<le> dy_high b" "0 \<le> dy_volume b"
    by metis+
qed (simp_all add: aggregate_days aggregate_volume)

text \<open>
  The order of the rows in the archive does not matter as long as no instant occurs twice.
\<close>

theorem aggregate_ignores_order:
  assumes "mset rows = mset rows'" "distinct (map mn_ts rows)"
  shows "aggregate_minutes_to_daily rows = aggregate_minutes_to_daily rows'"
proof -
  have s: "set rows = set rows'" using assms(1) by (rule mset_eq_setD)
  have "sort_key mn_ts (filter P rows) = sort_key mn_ts (filter P rows')" for P
    using assms by (intro sort_key_inj_key_eq) (auto simp: distinct_map intro: inj_on_subset)
  then show ?thesis by (simp add: aggregate_minutes_to_daily_def day_bar_def s cong: map_cong)
qed

section \<open>The rows of a window\<close>

lemma yield_rows_prefix:
  "yield_rows ticker bs = (rs, err) \<Longrightarrow>
   (\<exists>rest. map dy_day bs = map r_ts rs @ rest) \<and> (\<forall>r \<in> set rs. wf_row r)"
proof (induction bs arbitrary: rs err)
  case (Cons b bs)
  show ?case
  proof (cases "md_row ticker b")
    case (Inr r)
    obtain rs' err' where y: "yield_rows ticker bs = (rs', err')" by fastforce
    have "r_ts r = dy_day b" "wf_row r"
      using Inr mk_row_wf by (auto simp: md_row_def mk_row_def bindR_Inr_iff split: if_splits)
    then show ?thesis using Cons y Inr by auto
  qed (use Cons in simp)
qed simp

lemma year_rows_spec:
  assumes "year_rows lib ticker start end body = (rs, err)"
  shows "sorted_wrt (<) (map r_ts rs)" "r \<in> set rs \<Longrightarrow> wf_row r \<and> start \<le> r_ts r \<and> r_ts r \<le> end"
    and "r \<in> set rs \<Longrightarrow> parse_archive (ml_row lib) (ml_unzip lib body) = Inr minutes \<Longrightarrow> r_ts r \<in> mn_day ` set minutes"
proof -
  have "sorted_wrt (<) (map r_ts rs) \<and> (\<forall>r \<in> set rs. wf_row r \<and> start \<le> r_ts r \<and> r_ts r \<le> end \<and>
      (\<forall>m. parse_archive (ml_row lib) (ml_unzip lib body) = Inr m \<longrightarrow> r_ts r \<in> mn_day ` set m))"
  proof (cases "parse_archive (ml_row lib) (ml_unzip lib body)")
    case (Inr minutes)
    let ?bs = "filter (\<lambda>b. start \<le> dy_day b \<and> dy_day b \<le> end) (aggregate_minutes_to_daily minutes)"
    have "yield_rows ticker ?bs = (rs, err)" using assms Inr by (simp add: year_rows_def)
    from yield_rows_prefix [OF this] obtain rest where p: "map dy_day ?bs = map r_ts rs @ rest" "\<forall>r \<in> set rs. wf_row r"
      by blast
    have "sorted_wrt (<) (map dy_day (aggregate_minutes_to_daily minutes))" by (simp add: aggregate_days)
    then have "sorted_wrt (<) (map dy_day ?bs)" by (simp add: sorted_wrt_map sorted_wrt_filter)
    moreover have "r_ts r \<in> dy_day ` set ?bs" if "r \<in> set rs" for r
      using arg_cong [OF p(1), of set] that by auto
    ultimately show ?thesis using p aggregate_mem Inr by (fastforce simp: sorted_wrt_append)
  qed (use assms in \<open>simp add: year_rows_def\<close>)
  then show "sorted_wrt (<) (map r_ts rs)" "r \<in> set rs \<Longrightarrow> wf_row r \<and> start \<le> r_ts r \<and> r_ts r \<le> end"
    "r \<in> set rs \<Longrightarrow> parse_archive (ml_row lib) (ml_unzip lib body) = Inr minutes \<Longrightarrow> r_ts r \<in> mn_day ` set minutes"
    by blast+
qed

text \<open>An archive for a year that holds minutes of that year only, and a loader whose archives, served or
  cached, are all of this kind.\<close>

definition holds_year :: "('b, 'w) md_lib \<Rightarrow> int \<Rightarrow> 'b \<Rightarrow> bool" where
  "holds_year lib y body \<longleftrightarrow> (\<forall>minutes. parse_archive (ml_row lib) (ml_unzip lib body) = Inr minutes \<longrightarrow>
     (\<forall>m \<in> set minutes. year_of (mn_day m) = y))"

definition true_archives :: "('b, 'w) md_lib \<Rightarrow> ('b, 'w) md_state \<Rightarrow> bool" where
  "true_archives lib s \<longleftrightarrow> (\<forall>figi y w body. fst (ml_http lib figi y w) = Body body \<longrightarrow> holds_year lib y body) \<and>
     (\<forall>figi y body. md_archives s (figi, y) = Some (Some body) \<longrightarrow> holds_year lib y body)"

lemma download_year_true:
  assumes "download_year (ml_http lib) m figi y s = (r, s')" "true_archives lib s"
  shows "true_archives lib s' \<and> (\<forall>body. r = Inr (Some body) \<longrightarrow> holds_year lib y body)"
proof -
  obtain reply w where h: "ml_http lib figi y (md_world s) = (reply, w)" by fastforce
  have t: "holds_year lib y body" if "reply_result reply = Inr (Some body)" for body
  proof -
    have "fst (ml_http lib figi y (md_world s)) = Body body"
      using that h by (auto simp: reply_result_def split: http_reply.splits if_splits)
    then show ?thesis using assms(2) unfolding true_archives_def by blast
  qed
  show ?thesis
    using assms t by (auto simp: download_year_def Let_def h true_archives_def split: if_splits option.splits sum.splits)
qed

lemma md_years_rows:
  assumes "md_years lib ticker figi start end ys s = (rs, err, s')" "r \<in> set rs"
  shows "wf_row r \<and> start \<le> r_ts r \<and> r_ts r \<le> end"
  using assms
proof (induction ys arbitrary: s rs err)
  case (Cons y ys)
  then show ?case
    by (auto split: prod.splits sum.splits option.splits dest: year_rows_spec(2))
qed simp

lemma md_years_ascending:
  assumes "md_years lib ticker figi start end ys s = (rs, err, s')" "true_archives lib s" "sorted_wrt (<) ys"
  shows "sorted_wrt (<) (map r_ts rs) \<and> (\<forall>r \<in> set rs. year_of (r_ts r) \<in> set ys)"
  using assms
proof (induction ys arbitrary: s rs err s')
  case (Cons y ys)
  obtain d s1 where d: "download_year (ml_http lib) (ml_min_year lib) figi y s = (d, s1)" by fastforce
  note t = download_year_true [OF d Cons.prems(2)]
  have ys: "sorted_wrt (<) ys" "\<forall>z \<in> set ys. y < z" using Cons.prems(3) by simp_all
  consider "rs = []" | "d = Inr None" | body where "d = Inr (Some body)"
    using Cons.prems(1) d by (cases d) (auto split: option.splits)
  then show ?case
  proof cases
    case 2
    then have "md_years lib ticker figi start end ys s1 = (rs, err, s')" using Cons.prems(1) d by simp
    with Cons.IH [OF this] t ys show ?thesis by auto
  next
    case (3 body)
    obtain ra ea where ra: "year_rows lib ticker start end body = (ra, ea)" by fastforce
    obtain rb eb sb where rb: "md_years lib ticker figi start end ys s1 = (rb, eb, sb)" by (metis prod_cases3)
    have yr: "year_of (r_ts r) = y" if "r \<in> set ra" for r
    proof -
      have "\<exists>minutes. parse_archive (ml_row lib) (ml_unzip lib body) = Inr minutes"
        using ra that by (auto simp: year_rows_def split: sum.splits)
      then obtain minutes where m: "parse_archive (ml_row lib) (ml_unzip lib body) = Inr minutes" ..
      have "r_ts r \<in> mn_day ` set minutes" by (rule year_rows_spec(3) [OF ra that m])
      then show ?thesis using t 3 m by (auto simp: holds_year_def)
    qed
    have "sorted_wrt (<) (map r_ts rb) \<and> (\<forall>r \<in> set rb. year_of (r_ts r) \<in> set ys)"
      using Cons.IH [OF rb _ ys(1)] t by blast
    moreover have "r_ts x < r_ts z" if "year_of (r_ts x) < year_of (r_ts z)" for x z :: ohlcv_row
      using that year_of_mono [of "r_ts z" "r_ts x"] by linarith
    moreover have "rs = ra \<or> rs = ra @ rb" using Cons.prems(1) d 3 ra rb by (cases ea) auto
    ultimately show ?thesis
      using year_rows_spec(1) [OF ra] yr ys(2) by (fastforce simp: sorted_wrt_append)
  qed simp
qed simp

text \<open>
  Whatever the archives hold, every row yielded is a valid row inside the window; if every archive
  holds minutes of its own year only, the rows come in strictly ascending order of their dates, so
  that no day is yielded twice, also when the generator ends in an exception.
\<close>

theorem md_rows_in_window_and_order:
  assumes "md_iter_ohlcv lib ticker start end s = (rs, err, s')"
  shows "(\<forall>r \<in> set rs. wf_row r \<and> max start (jan1 2017) \<le> r_ts r \<and> r_ts r \<le> end) \<and>
    (true_archives lib s \<longrightarrow> sorted_wrt (<) (map r_ts rs))"
proof -
  obtain m s1 where m: "figi_for (ml_lists lib) ticker s = (m, s1)" by fastforce
  have a: "md_archives s1 = md_archives s"
    using m by (auto simp: figi_for_def md_list_tickers_def bindW_def split: option.splits prod.splits sum.splits)
  consider "rs = []" | figi where "md_years lib ticker figi (max start (jan1 2017)) end
      [max (ml_min_year lib) (year_of (max start (jan1 2017)))..year_of end] s1 = (rs, err, s')"
    using assms m by (auto simp: md_iter_ohlcv_def Let_def MD_MIN_YEAR_def split: if_splits sum.splits option.splits list.splits)
  then show ?thesis
  proof cases
    case (2 figi)
    have "true_archives lib s1" if "true_archives lib s" using that a by (simp add: true_archives_def)
    then show ?thesis using md_years_rows [OF 2] md_years_ascending [OF 2] by auto
  qed simp
qed

section \<open>The universe\<close>

text \<open>Only tickers with a FIGI, each once; an outage of every call is an error and never an empty
  universe, and a failed call is made again next time.\<close>

lemma see_inv:
  "distinct (map tm_ticker seen) \<and> (\<forall>m \<in> set seen. has_figi m) \<Longrightarrow>
   distinct (map tm_ticker (fold see ms seen)) \<and> (\<forall>m \<in> set (fold see ms seen). has_figi m)"
proof (induction ms arbitrary: seen)
  case (Cons m ms)
  have "distinct (map tm_ticker (see m seen)) \<and> (\<forall>x \<in> set (see m seen). has_figi x)"
    using Cons.prems by (auto simp: see_def)
  from Cons.IH [OF this] show ?case by simp
qed simp

lemma harvest_spec:
  assumes "harvest calls failures seen w = ((failures', seen'), w')" "distinct (map tm_ticker seen) \<and> (\<forall>m \<in> set seen. has_figi m)"
  shows "distinct (map tm_ticker seen') \<and> (\<forall>m \<in> set seen'. has_figi m) \<and> failures' \<le> failures + length calls \<and>
    (failures' = failures + length calls \<longrightarrow> seen' = seen)"
  using assms
proof (induction calls failures seen w rule: harvest.induct)
  case (2 call keep calls failures seen w)
  obtain r w1 where c: "call w = (r, w1)" by fastforce
  show ?case
  proof (cases r)
    case (Inl e)
    then show ?thesis using 2 c by auto
  next
    case (Inr metas)
    have "harvest calls failures (fold see (filter keep metas) seen) w1 = ((failures', seen'), w')"
      using 2(3) c Inr by simp
    from "2.IH"(2) [OF c [symmetric] Inr this see_inv [OF 2(4)]] show ?thesis by auto
  qed
qed simp

theorem universe_spec:
  assumes "fill_universe_cache b w = (Inr ms, w')"
  shows "distinct (map tm_ticker ms) \<and> (\<forall>m \<in> set ms. has_figi m)"
  using assms harvest_spec [of "universe_calls b" 0 "[]" w]
  by (auto simp: fill_universe_cache_def split: prod.splits if_splits)

lemma outage_is_reported:
  assumes "\<And>c w. isl (fst (bl_shares b c w))" "\<And>w. isl (fst (bl_bonds b w))" "\<And>w. isl (fst (bl_etfs b w))"
  shows "fst (fill_universe_cache b w) = Inl md_error"
proof -
  have count: "fst (fst (harvest calls n seen w)) = n + length calls"
    if "\<And>call keep w. (call, keep) \<in> set calls \<Longrightarrow> isl (fst (call w))" for calls n seen w
    using that
  proof (induction calls n seen w rule: harvest.induct)
    case (2 call keep calls failures seen w)
    obtain e w1 where "call w = (Inl e, w1)"
      using 2(3) [of call keep w] by (cases "call w") (auto simp: isl_def)
    moreover have "fst (fst (harvest calls (failures + 1) seen w1)) = failures + 1 + length calls"
      using "2.IH"(1) [OF calculation [symmetric]] 2(3) by auto
    ultimately show ?case by simp
  qed simp
  have "isl (fst (call w))" if "(call, keep) \<in> set (universe_calls b)" for call keep w
    using that assms by (auto simp: universe_calls_def)
  then have "fst (fst (harvest (universe_calls b) 0 [] w)) = 0 + length (universe_calls b)" by (rule count)
  then show ?thesis by (auto simp: fill_universe_cache_def split: prod.splits)
qed

section \<open>A concrete archive\<close>

definition ex_minute :: minute where
  "ex_minute = \<lparr>mn_ts = 737430 * MINUTE_DAY_US + 25200000000, mn_open = 100, mn_close = 101, mn_high = 102, mn_low = 99, mn_volume = 10\<rparr>"

definition ex_later :: minute where
  "ex_later = \<lparr>mn_ts = 737430 * MINUTE_DAY_US + 25260000000, mn_open = 101, mn_close = 103, mn_high = 104, mn_low = 100, mn_volume = 20\<rparr>"

definition ex_daily :: daily where
  "ex_daily = \<lparr>dy_day = 737430, dy_open = 100, dy_close = 103, dy_high = 104, dy_low = 99, dy_volume = 30\<rparr>"

lemma ex_aggregate: "aggregate_minutes_to_daily [ex_minute, ex_later] = [ex_daily]"
proof -
  have d: "mn_day ex_minute = 737430" "mn_day ex_later = 737430"
    by (simp_all add: mn_day_def ex_minute_def ex_later_def MINUTE_DAY_US_def)
  then show ?thesis
    by (simp add: aggregate_minutes_to_daily_def day_bar_def Let_def insort_key.simps)
      (simp add: ex_minute_def ex_later_def ex_daily_def)
qed

theorem daily_bars_faithful_witness:
  "dy_day ` set [ex_daily] = mn_day ` set [ex_minute, ex_later] \<and> sum_list (map dy_volume [ex_daily]) = 10 + 20"
  using daily_bars_faithful [of "[ex_minute, ex_later]"] unfolding ex_aggregate
  by (simp add: ex_minute_def ex_later_def)

theorem aggregate_ignores_order_witness: "aggregate_minutes_to_daily [ex_later, ex_minute] = [ex_daily]"
  using aggregate_ignores_order [of "[ex_minute, ex_later]" "[ex_later, ex_minute]"]
  by (simp add: ex_aggregate) (simp add: ex_minute_def ex_later_def)

definition ex_sber :: ticker_meta where
  "ex_sber = \<lparr>tm_ticker = ''SBER'', tm_figi = Some ''BBG004730N88'', tm_name = ''Sberbank'', tm_lot = 10, tm_isin = None,
     tm_currency = ''RUB'', tm_class_code = Some ''TQBR'', tm_delisted = False, tm_delisted_at = None,
     tm_listed_at = None, tm_source = Tkf\<rparr>"

definition ex_md_lib :: "(unit, unit) md_lib" where
  "ex_md_lib = \<lparr>ml_http = (\<lambda>f y w. (Body (), w)), ml_unzip = (\<lambda>_. Some [\<lparr>ze_name = ''a.csv'', ze_size = 10, ze_packed = 5,
       ze_rows = [replicate 7 ''1'', replicate 7 ''2'']\<rparr>]),
     ml_row = (\<lambda>r. if hd r = ''1'' then Some ex_minute else Some ex_later),
     ml_lists = \<lparr>bl_shares = (\<lambda>c w. (Inr [ex_sber], w)), bl_bonds = (\<lambda>w. (Inr [], w)), bl_etfs = (\<lambda>w. (Inr [], w))\<rparr>,
     ml_min_year = 2017\<rparr>"

definition ex_md :: "(unit, unit) md_state" where
  "ex_md = \<lparr>md_archives = Map.empty, md_universe = Some [ex_sber], md_requests = [], md_world = ()\<rparr>"

definition ex_md_row :: ohlcv_row where
  "ex_md_row = \<lparr>r_ticker = ''SBER'', r_ts = 737430, r_open = 100, r_high = 104, r_low = 99, r_close = 103,
     r_volume = 30, r_adj_close = 103, r_source = Tkf\<rparr>"

lemma ex_md_parse: "parse_archive (ml_row ex_md_lib) (ml_unzip ex_md_lib ()) = Inr [ex_minute, ex_later]"
proof -
  have "frnd (10 / 5) = 2" by simp
  then show ?thesis
    by (simp add: parse_archive_def ex_md_lib_def bomb_def MAX_INFLATE_RATIO_def MAX_UNCOMPRESSED_BYTES_def entry_minutes_def
        is_csv_def List.map_filter_def)
qed

lemma ex_md_daily_row: "md_row ''SBER'' ex_daily = Inr ex_md_row"
  by (simp add: md_row_def ex_daily_def mk_row_def row_nonneg_def valid_ticker_def Let_def py_strip_def is_space_def
      ticker_regex_def ticker_char_def ohlc_consistent_def ex_md_row_def py_upper_def upper_char_def)

lemma ex_md_run: "fst (md_iter_ohlcv ex_md_lib ''SBER'' 737426 737436 ex_md) = [ex_md_row]"
proof -
  have j: "jan1 2017 = 736330" by (simp add: jan1_def)
  have y: "year_of 737426 = 2020" "year_of 737436 = 2020" by (simp_all add: year_of_def)
  have f: "figi_for (ml_lists ex_md_lib) ''SBER'' ex_md = (Inr (Some ex_sber), ex_md)"
    by (simp add: figi_for_def md_list_tickers_def ex_md_def bindW_def ex_sber_def)
  have r: "year_rows ex_md_lib ''SBER'' 737426 737436 () = ([ex_md_row], None)"
    using ex_md_parse ex_md_daily_row by (simp add: year_rows_def ex_aggregate ex_daily_def)
  have g: "tm_figi ex_sber = Some ''BBG004730N88''" by (simp add: ex_sber_def)
  obtain s1 where d: "download_year (ml_http ex_md_lib) (ml_min_year ex_md_lib) ''BBG004730N88'' 2020 ex_md = (Inr (Some ()), s1)"
    by (simp add: download_year_def ex_md_def ex_md_lib_def reply_result_def Let_def)
  have m: "ml_min_year ex_md_lib = 2017" by (simp add: ex_md_lib_def)
  show ?thesis by (simp add: md_iter_ohlcv_def f g j y r d [unfolded m] m MD_MIN_YEAR_def Let_def)
qed

theorem md_rows_in_window_and_order_witness: "wf_row ex_md_row \<and> 737426 \<le> r_ts ex_md_row \<and> r_ts ex_md_row \<le> 737436"
proof -
  obtain err s' where "md_iter_ohlcv ex_md_lib ''SBER'' 737426 737436 ex_md = ([ex_md_row], err, s')"
    using ex_md_run by (metis prod.collapse)
  from md_rows_in_window_and_order [OF this] show ?thesis by simp
qed

end
