(* ===== verification/MoexLoader.thy ===== *)
theory MoexLoader
  imports FallbackLoader Validate PyDecimal MdLoader
begin

text \<open>
  \<open>src/data/moex_loader.py\<close>: the loader of the exchange's ISS API. A request is a parameter: a
  function from the offset of a page and the state of the world to a reply. \<open>Iss_Status\<close> is a
  status of 400 or more, \<open>Iss_Garbage\<close> a body that is not JSON. The parsers of the
  standard library (\<open>Decimal\<close>, \<open>date.fromisoformat\<close>, \<open>str\<close>) are parameters too. Days are
  ordinals.
\<close>

section \<open>Replies\<close>

datatype cell = Null | Text string | Number rat

text \<open>A block of a reply: its column names and its rows, \<open>None\<close> for a row that is not a list.\<close>

datatype iss_block = Block "string list" "cell list option list" | No_Block

datatype iss_reply = Iss_Down | Iss_Status int | Iss_Garbage | Iss_Json "(string \<times> iss_block) list"

definition get_json :: "iss_reply \<Rightarrow> (string \<times> iss_block) list result" where
  "get_json r =
     (case r of
        Iss_Down \<Rightarrow> Inl md_error
      | Iss_Garbage \<Rightarrow> Inl md_error
      | Iss_Json p \<Rightarrow> Inr p
      | Iss_Status c \<Rightarrow>
          (if c = 401 \<or> c = 403 then Inl auth_error
           else if c = 404 then Inl not_found_error
           else if c = 429 then Inl rate_limit_error
           else Inl md_error))"

definition extract_block :: "string \<Rightarrow> (string \<times> iss_block) list \<Rightarrow> (string list \<times> cell list option list) result" where
  "extract_block name p =
     (case map_of p name of Some (Block cols data) \<Rightarrow> Inr (cols, data) | _ \<Rightarrow> Inl md_error)"

definition first_block_with_columns :: "(string \<times> iss_block) list \<Rightarrow> (string list \<times> cell list option list) option" where
  "first_block_with_columns p =
     List.find (\<lambda>(cols, data). cols \<noteq> []) (List.map_filter (\<lambda>(n, b). case b of Block cols data \<Rightarrow> Some (cols, data) | No_Block \<Rightarrow> None) p)"

text \<open>A row is a dictionary: a missing cell reads as \<open>None\<close>, and the last of two columns of the same name
  wins.\<close>

type_synonym row = "string \<Rightarrow> cell"

definition row_of :: "string list \<Rightarrow> cell list \<Rightarrow> row" where
  "row_of cols cells k =
     (case map_of (rev (zip cols (cells @ replicate (length cols - length cells) Null))) k of None \<Rightarrow> Null | Some c \<Rightarrow> c)"

definition rows_from_block :: "string list \<times> cell list option list \<Rightarrow> row list" where
  "rows_from_block = (\<lambda>(cols, data). if cols = [] then [] else map (row_of cols) (List.map_filter id data))"

definition truthy :: "cell \<Rightarrow> bool" where
  "truthy c = (case c of Null \<Rightarrow> False | Text s \<Rightarrow> s \<noteq> [] | Number x \<Rightarrow> x \<noteq> 0)"

text \<open>\<open>a or b\<close>.\<close>

definition or_cell :: "cell \<Rightarrow> cell \<Rightarrow> cell" where
  "or_cell a b = (if truthy a then a else b)"

section \<open>Rows to models\<close>

record parsers =
  ps_str :: "cell \<Rightarrow> string"
  ps_decimal :: "string \<Rightarrow> rat option"
  ps_date :: "string \<Rightarrow> int option"

definition to_d :: "parsers \<Rightarrow> cell \<Rightarrow> rat option" where
  "to_d ps v = (if v = Null \<or> v = Text '''' then Some 0 else ps_decimal ps (ps_str ps v))"

text \<open>Every exception skips the row. The row is built without a source, so it gets the default \<open>tkf\<close>.\<close>

definition row_to_ohlcv :: "parsers \<Rightarrow> string \<Rightarrow> int \<Rightarrow> row \<Rightarrow> ohlcv_row option" where
  "row_to_ohlcv ps ticker lot r =
     (let ts_raw = or_cell (or_cell (r ''begin'') (r ''tradedate'')) (r ''TRADEDATE'')
      in if \<not> truthy ts_raw then None
         else Option.bind (ps_date ps (take 10 (ps_str ps ts_raw))) (\<lambda>ts.
              Option.bind (to_d ps (or_cell (r ''open'') (r ''OPEN''))) (\<lambda>o'.
              Option.bind (to_d ps (or_cell (r ''high'') (r ''HIGH''))) (\<lambda>h.
              Option.bind (to_d ps (or_cell (r ''low'') (r ''LOW''))) (\<lambda>lo.
              Option.bind (to_d ps (or_cell (r ''close'') (r ''CLOSE''))) (\<lambda>c.
              Option.bind (to_d ps (or_cell (r ''volume'') (r ''VOLUME''))) (\<lambda>vol.
                case mk_row \<lparr>r_ticker = ticker, r_ts = ts, r_open = o', r_high = h, r_low = lo, r_close = c,
                    r_volume = dmul vol (of_int lot), r_adj_close = c, r_source = Tkf\<rparr>
                of Inl e \<Rightarrow> None | Inr bar \<Rightarrow> Some bar)))))))"

definition row_to_ohlcv_bonds :: "parsers \<Rightarrow> string \<Rightarrow> row \<Rightarrow> ohlcv_row option" where
  "row_to_ohlcv_bonds ps ticker r =
     (let ts_raw = or_cell (r ''TRADEDATE'') (r ''tradedate'')
      in if \<not> truthy ts_raw then None
         else Option.bind (ps_date ps (take 10 (ps_str ps ts_raw))) (\<lambda>ts.
              Option.bind (to_d ps (or_cell (r ''OPEN'') (r ''open''))) (\<lambda>o'.
              Option.bind (to_d ps (or_cell (r ''HIGH'') (r ''high''))) (\<lambda>h.
              Option.bind (to_d ps (or_cell (r ''LOW'') (r ''low''))) (\<lambda>lo.
              Option.bind (to_d ps (or_cell (r ''CLOSE'') (r ''close''))) (\<lambda>c.
              Option.bind (to_d ps (or_cell (r ''VOLUME'') (Number 0))) (\<lambda>vol.
                case mk_row \<lparr>r_ticker = ticker, r_ts = ts, r_open = o', r_high = h, r_low = lo, r_close = c,
                    r_volume = vol, r_adj_close = c, r_source = Tkf\<rparr>
                of Inl e \<Rightarrow> None | Inr bar \<Rightarrow> Some bar)))))))"

text \<open>\<open>int(lot_raw)\<close> is given by \<open>to_lot\<close>; it may raise.\<close>

definition row_to_ticker_meta :: "parsers \<Rightarrow> (cell \<Rightarrow> int option) \<Rightarrow> row \<Rightarrow> ticker_meta option" where
  "row_to_ticker_meta ps to_lot r =
     (case r ''SECID'' of
        Text (c # cs) \<Rightarrow>
          (let secid = c # cs;
               name = (if truthy (or_cell (r ''SHORTNAME'') (r ''SECNAME'')) then ps_str ps (or_cell (r ''SHORTNAME'') (r ''SECNAME'')) else secid)
           in Option.bind (to_lot (or_cell (r ''LOTSIZE'') (Number 1))) (\<lambda>lot.
              Option.bind (case r ''STATUS'' of Number x \<Rightarrow> (if x = 0 then Some '''' else None) | Text s \<Rightarrow> Some (py_upper s) | Null \<Rightarrow> Some '''') (\<lambda>status.
                case mk_ticker_meta \<lparr>tm_ticker = py_upper secid, tm_figi = None, tm_name = name, tm_lot = lot,
                    tm_isin = (if truthy (r ''ISIN'') then Some (ps_str ps (r ''ISIN'')) else None), tm_currency = ''RUB'',
                    tm_class_code = None, tm_delisted = status \<in> {''DELISTED'', ''EXCLUDED'', ''HALTED''},
                    tm_delisted_at = None, tm_listed_at = None, tm_source = Moex\<rparr>
                of Inl e \<Rightarrow> None | Inr m \<Rightarrow> Some m)))
      | _ \<Rightarrow> None)"

section \<open>The universe and its cache\<close>

record 'w moex =
  mx_universe :: "ticker_meta list option"
  mx_board :: "string option"
  mx_world :: 'w

record 'w moex_lib =
  mx_parsers :: parsers
  mx_lot :: "cell \<Rightarrow> int option"
  mx_securities :: "'w \<Rightarrow> iss_reply \<times> 'w"
  mx_candles :: "string \<Rightarrow> int \<Rightarrow> int \<Rightarrow> nat \<Rightarrow> 'w \<Rightarrow> iss_reply \<times> 'w"
  mx_history :: "string \<Rightarrow> int \<Rightarrow> int \<Rightarrow> nat \<Rightarrow> 'w \<Rightarrow> iss_reply \<times> 'w"
  mx_page_size :: nat

definition fetch_universe_rows :: "string \<Rightarrow> iss_reply \<Rightarrow> row list result" where
  "fetch_universe_rows key reply =
     bindR (get_json reply) (\<lambda>p.
       case (case map_of p key of Some (Block cols data) \<Rightarrow> Some (cols, data) | _ \<Rightarrow> first_block_with_columns p) of
         None \<Rightarrow> Inr [] | Some b \<Rightarrow> Inr (rows_from_block b))"

definition on_board :: "string option \<Rightarrow> row \<Rightarrow> bool" where
  "on_board board_id r = (case board_id of None \<Rightarrow> True | Some b \<Rightarrow> r ''BOARDID'' = Text b)"

definition moex_list_tickers :: "'w moex_lib \<Rightarrow> string option \<Rightarrow> 'w moex \<Rightarrow> ticker_meta list result \<times> 'w moex" where
  "moex_list_tickers lib board_id s =
     (case (mx_universe s, mx_board s = board_id) of
        (Some ms, True) \<Rightarrow> (Inr ms, s)
      | _ \<Rightarrow> (case mx_securities lib (mx_world s) of (reply, w) \<Rightarrow>
          let s = s\<lparr>mx_world := w\<rparr>
          in (case fetch_universe_rows ''securities'' reply of
                Inl e \<Rightarrow> (Inl e, s)
              | Inr rows \<Rightarrow>
                  let out = List.map_filter (row_to_ticker_meta (mx_parsers lib) (mx_lot lib)) (filter (on_board board_id) rows)
                  in (Inr out, s\<lparr>mx_universe := Some out, mx_board := board_id\<rparr>))))"

definition meta_for :: "'w moex_lib \<Rightarrow> string \<Rightarrow> 'w moex \<Rightarrow> ticker_meta option result \<times> 'w moex" where
  "meta_for lib ticker = bindW (moex_list_tickers lib (Some ''TQBR'')) (\<lambda>ms. liftW (Inr (find (\<lambda>m. tm_ticker m = ticker) ms)))"

definition lot_for :: "'w moex_lib \<Rightarrow> string \<Rightarrow> 'w moex \<Rightarrow> int result \<times> 'w moex" where
  "lot_for lib ticker = bindW (meta_for lib ticker) (\<lambda>m. liftW (Inr (case m of None \<Rightarrow> 1 | Some m \<Rightarrow> tm_lot m)))"

section \<open>Paging\<close>

text \<open>A \<open>while True\<close> loop over pages: \<open>None\<close> if it never ends; otherwise the rows yielded, the
  exception that ended it and the world.\<close>

definition on_page :: "string \<Rightarrow> (nat \<Rightarrow> 'w \<Rightarrow> iss_reply \<times> 'w) \<Rightarrow> nat \<Rightarrow> 'w \<Rightarrow> row list result \<times> 'w" where
  "on_page name get offset w =
     (case get offset w of (reply, w) \<Rightarrow> (bindR (get_json reply) (\<lambda>p. map_sum id rows_from_block (extract_block name p)), w))"

definition bars_in_range :: "int \<Rightarrow> int \<Rightarrow> (row \<Rightarrow> ohlcv_row option) \<Rightarrow> row list \<Rightarrow> ohlcv_row list" where
  "bars_in_range start end conv data = filter (\<lambda>b. start \<le> r_ts b \<and> r_ts b \<le> end) (List.map_filter conv data)"

partial_function (option) pages ::
  "(nat \<Rightarrow> 'w \<Rightarrow> row list result \<times> 'w) \<Rightarrow> (row list \<Rightarrow> ohlcv_row list) \<Rightarrow> nat \<Rightarrow> nat \<Rightarrow> 'w \<Rightarrow>
   (ohlcv_row list \<times> py_exc option \<times> 'w) option" where
  "pages fetch conv cap page w =
     (case fetch (page * cap) w of
        (Inl e, w) \<Rightarrow> Some ([], Some e, w)
      | (Inr data, w) \<Rightarrow>
          (if data = [] then Some ([], None, w)
           else if length data < cap then Some (conv data, None, w)
           else Option.bind (pages fetch conv cap (page + 1) w) (\<lambda>(rs, err, w). Some (conv data @ rs, err, w))))"

definition validate_range :: "int \<Rightarrow> int \<Rightarrow> int \<Rightarrow> unit result" where
  "validate_range start end max_lookback =
     (if end < start then Inl md_error else if max_lookback < end - start then Inl md_error else Inr ())"

definition MAX_LOOKBACK :: int where "MAX_LOOKBACK = 5 * 365"

definition looks_like_isin :: "string \<Rightarrow> bool" where
  "looks_like_isin t \<longleftrightarrow> take 2 t = ''SU'' \<or> take 2 t = ''RU''"

definition iter_ohlcv_bonds :: "'w moex_lib \<Rightarrow> string \<Rightarrow> int \<Rightarrow> int \<Rightarrow> 'w moex \<Rightarrow>
   (ohlcv_row list \<times> py_exc option \<times> 'w moex) option" where
  "iter_ohlcv_bonds lib ticker start end s =
     map_option (\<lambda>(rs, err, w). (rs, err, s\<lparr>mx_world := w\<rparr>))
       (pages (on_page ''history'' (mx_history lib ticker start end))
          (bars_in_range start end (row_to_ohlcv_bonds (mx_parsers lib) ticker)) (mx_page_size lib) 0 (mx_world s))"

definition iter_ohlcv_shares :: "'w moex_lib \<Rightarrow> string \<Rightarrow> int \<Rightarrow> int \<Rightarrow> 'w moex \<Rightarrow>
   (ohlcv_row list \<times> py_exc option \<times> 'w moex) option" where
  "iter_ohlcv_shares lib ticker start end s =
     (case lot_for lib ticker s of
        (Inl e, s) \<Rightarrow> Some ([], Some e, s)
      | (Inr lot, s) \<Rightarrow>
          map_option (\<lambda>(rs, err, w). (rs, err, s\<lparr>mx_world := w\<rparr>))
            (pages (on_page ''candles'' (mx_candles lib ticker start end))
               (bars_in_range start end (row_to_ohlcv (mx_parsers lib) ticker lot)) (mx_page_size lib) 0 (mx_world s)))"

definition moex_iter_ohlcv :: "'w moex_lib \<Rightarrow> string \<Rightarrow> int \<Rightarrow> int \<Rightarrow> 'w moex \<Rightarrow>
   (ohlcv_row list \<times> py_exc option \<times> 'w moex) option" where
  "moex_iter_ohlcv lib ticker start end s =
     (case validate_range start end MAX_LOOKBACK of
        Inl e \<Rightarrow> Some ([], Some e, s)
      | Inr _ \<Rightarrow>
          (let ticker = py_strip (py_upper ticker)
           in if looks_like_isin ticker then iter_ohlcv_bonds lib ticker start end s
              else iter_ohlcv_shares lib ticker start end s))"

definition moex_iter_corporate_actions ::
  "'w moex_lib \<Rightarrow> string \<Rightarrow> int \<Rightarrow> int \<Rightarrow> 'w moex \<Rightarrow> corporate_action list result \<times> 'w moex" where
  "moex_iter_corporate_actions lib ticker start end s =
     (case validate_range start end MAX_LOOKBACK of
        Inl e \<Rightarrow> (Inl e, s)
      | Inr _ \<Rightarrow>
          (let ticker = py_strip (py_upper ticker)
           in bindW (meta_for lib ticker) (\<lambda>m. liftW (
                case m of None \<Rightarrow> Inr []
                | Some m \<Rightarrow>
                    (case tm_delisted_at m of
                       Some d \<Rightarrow> (if tm_delisted m \<and> start \<le> d \<and> d \<le> end
                          then map_sum id (\<lambda>a. [a]) (mk_action \<lparr>ca_ticker = ticker, ca_ts = d, ca_kind = Change, ca_value = 0, ca_source = Moex\<rparr>)
                          else Inr [])
                     | None \<Rightarrow> Inr []))) s))"


section \<open>Paging returns everything, or not\<close>

lemma bars_in_range_append [simp]: "bars_in_range start end conv (xs @ ys) = bars_in_range start end conv xs @ bars_in_range start end conv ys"
  by (simp add: bars_in_range_def List.map_filter_def)

lemma bars_in_range_Nil [simp]: "bars_in_range start end conv [] = []"
  by (simp add: bars_in_range_def List.map_filter_def)

lemma pages_complete:
  assumes "0 < cap" "\<And>off w. fst (fetch off w) = Inr (take cap (drop off rows))"
    "conv [] = []" "\<And>xs ys. conv (xs @ ys) = conv xs @ conv ys"
  shows "\<exists>w'. pages fetch conv cap page w = Some (conv (drop (page * cap) rows), None, w')"
proof (induction "length rows - page * cap" arbitrary: page w rule: less_induct)
  case less
  obtain w1 where f: "fetch (page * cap) w = (Inr (take cap (drop (page * cap) rows)), w1)"
    by (metis assms(2) prod.collapse)
  let ?d = "take cap (drop (page * cap) rows)"
  show ?case
  proof (cases "length ?d < cap")
    case True
    then have "?d = drop (page * cap) rows" by simp
    then show ?thesis using f True assms(3) by (subst pages.simps) auto
  next
    case False
    with assms(1) have l: "cap \<le> length rows - page * cap" "?d \<noteq> []" by auto
    have "length rows - (page + 1) * cap < length rows - page * cap" using l assms(1) by simp
    from less [OF this] obtain w2 where "pages fetch conv cap (page + 1) w1 = Some (conv (drop ((page + 1) * cap) rows), None, w2)"
      by blast
    moreover have "conv ?d @ conv (drop ((page + 1) * cap) rows) = conv (drop (page * cap) rows)"
      by (metis assms(4) append_take_drop_id drop_drop add.commute mult_Suc Suc_eq_plus1)
    ultimately show ?thesis using f False l(2) by (subst pages.simps) simp
  qed
qed

lemma pages_inv:
  "pages fetch conv cap page w = Some res \<Longrightarrow> (\<And>data. \<forall>r \<in> set (conv data). P r) \<Longrightarrow> \<forall>r \<in> set (fst res). P r"
proof (induction fetch conv cap page w res rule: pages.raw_induct [rotated 1, consumes 1])
  case (1 f fetch conv cap page w res)
  obtain d w1 where d: "fetch (page * cap) w = (d, w1)" by fastforce
  show ?case
  proof (cases d)
    case (Inr data)
    show ?thesis
    proof (cases "data \<noteq> [] \<and> \<not> length data < cap")
      case True
      with 1(2) d Inr obtain rest where r: "f fetch conv cap (page + 1) w1 = Some rest" "fst res = conv data @ fst rest"
        by (auto split: bind_splits)
      from 1(1) [OF r(1) 1(3)] 1(3) [of data] r(2) show ?thesis by auto
    next
      case False
      with 1(2,3) d Inr show ?thesis by (auto split: if_splits)
    qed
  qed (use 1(2) d in auto)
qed

text \<open>A server that answers every offset with a full page keeps the loop going for ever.\<close>

lemma pages_spin:
  "pages fetch conv cap page w = Some res \<Longrightarrow> 0 < cap \<Longrightarrow>
   (\<And>off w. \<exists>data. fst (fetch off w) = Inr data \<and> cap \<le> length data) \<Longrightarrow> False"
proof (induction fetch conv cap page w res rule: pages.raw_induct [rotated 1, consumes 1])
  case (1 f fetch conv cap page w res)
  obtain data w1 where d: "fetch (page * cap) w = (Inr data, w1)" "cap \<le> length data"
    using 1(4) [of "page * cap" w] by (metis prod.collapse)
  then have "data \<noteq> []" using 1(3) by auto
  with 1(2) d obtain rest where "f fetch conv cap (page + 1) w1 = Some rest"
    by (auto split: bind_splits)
  from 1(1) [OF this 1(3,4)] show False .
qed

section \<open>Bars of a range\<close>

lemma mk_row_keeps:
  assumes "mk_row r = Inr r'"
  shows "wf_row r' \<and> r_source r' = r_source r \<and> r_adj_close r' = r_adj_close r \<and> r_close r' = r_close r"
  using mk_row_wf [OF assms] assms by (auto simp: mk_row_def bindR_Inr_iff split: if_splits)

lemma built_iff [simp]: "(case mk_row r of Inl e \<Rightarrow> None | Inr bar \<Rightarrow> Some bar) = Some b \<longleftrightarrow> mk_row r = Inr b"
  by (simp split: sum.splits)

lemma bond_row_valid:
  assumes "row_to_ohlcv_bonds ps t r = Some b"
  shows "wf_row b \<and> r_source b = Tkf \<and> r_adj_close b = r_close b"
  using assms by (auto simp: row_to_ohlcv_bonds_def Let_def bind_eq_Some_conv dest: mk_row_keeps split: if_splits)

lemma share_row_valid:
  assumes "row_to_ohlcv ps t lot r = Some b"
  shows "wf_row b \<and> r_source b = Tkf \<and> r_adj_close b = r_close b"
  using assms by (auto simp: row_to_ohlcv_def Let_def bind_eq_Some_conv dest: mk_row_keeps split: if_splits)

lemma bars_in_range_spec:
  "\<forall>b \<in> set (bars_in_range start end conv data). start \<le> r_ts b \<and> r_ts b \<le> end \<and> (\<exists>r. conv r = Some b)"
  by (auto simp: bars_in_range_def List.map_filter_def)

lemma bonds_rows:
  assumes "iter_ohlcv_bonds lib t start end s = Some (rs, err, s')" "b \<in> set rs"
  shows "start \<le> r_ts b \<and> r_ts b \<le> end \<and> (\<exists>r. row_to_ohlcv_bonds (mx_parsers lib) t r = Some b)"
proof -
  obtain w where "pages (on_page ''history'' (mx_history lib t start end))
      (bars_in_range start end (row_to_ohlcv_bonds (mx_parsers lib) t)) (mx_page_size lib) 0 (mx_world s) = Some (rs, err, w)"
    using assms(1) by (auto simp: iter_ohlcv_bonds_def)
  from pages_inv [OF this bars_in_range_spec] assms(2) show ?thesis by simp
qed

lemma shares_rows:
  assumes "iter_ohlcv_shares lib t start end s = Some (rs, err, s')" "b \<in> set rs"
  shows "start \<le> r_ts b \<and> r_ts b \<le> end \<and> (\<exists>lot r. row_to_ohlcv (mx_parsers lib) t lot r = Some b)"
proof -
  obtain lot w0 w where "pages (on_page ''candles'' (mx_candles lib t start end))
      (bars_in_range start end (row_to_ohlcv (mx_parsers lib) t lot)) (mx_page_size lib) 0 w0 = Some (rs, err, w)"
    using assms by (auto simp: iter_ohlcv_shares_def split: prod.splits sum.splits)
  note p = bspec [OF pages_inv [OF this bars_in_range_spec], of b, unfolded fst_conv, OF assms(2)]
  then show ?thesis by blast
qed

text \<open>
  Every bar the loader yields, whatever the server sent, satisfies the model's constraints, lies
  in the window asked for, has a close of its own as adjusted close, and is labelled \<open>tkf\<close>: the
  loader of the exchange never yields a bar labelled \<open>moex\<close>.
\<close>

theorem moex_rows_valid:
  assumes "moex_iter_ohlcv lib t start end s = Some (rs, err, s')" "b \<in> set rs"
  shows "wf_row b \<and> start \<le> r_ts b \<and> r_ts b \<le> end \<and> r_adj_close b = r_close b \<and> r_source b = Tkf"
proof -
  consider "iter_ohlcv_bonds lib (py_strip (py_upper t)) start end s = Some (rs, err, s')"
    | "iter_ohlcv_shares lib (py_strip (py_upper t)) start end s = Some (rs, err, s')"
    using assms by (auto simp: moex_iter_ohlcv_def Let_def split: sum.splits if_splits)
  then show ?thesis
    by cases (auto dest!: bonds_rows [OF _ assms(2)] shares_rows [OF _ assms(2)] bond_row_valid share_row_valid)
qed

text \<open>The server of the documentation: a fixed list of rows, a page of it at every offset.\<close>

definition serves :: "'w moex_lib \<Rightarrow> string \<Rightarrow> int \<Rightarrow> int \<Rightarrow> nat \<Rightarrow> row list \<Rightarrow> bool" where
  "serves lib t start end cap rows \<longleftrightarrow>
     (\<forall>off w. fst (on_page ''history'' (mx_history lib t start end) off w) = Inr (take cap (drop off rows)))"

lemma range_ok: "start \<le> end \<Longrightarrow> end - start \<le> MAX_LOOKBACK \<Longrightarrow> validate_range start end MAX_LOOKBACK = Inr ()"
  by (simp add: validate_range_def)

lemma bonds_complete:
  assumes "0 < mx_page_size lib" "serves lib t start end (mx_page_size lib) rows"
  shows "\<exists>s'. iter_ohlcv_bonds lib t start end s =
    Some (bars_in_range start end (row_to_ohlcv_bonds (mx_parsers lib) t) rows, None, s')"
proof -
  obtain w where "pages (on_page ''history'' (mx_history lib t start end))
      (bars_in_range start end (row_to_ohlcv_bonds (mx_parsers lib) t)) (mx_page_size lib) 0 (mx_world s) =
      Some (bars_in_range start end (row_to_ohlcv_bonds (mx_parsers lib) t) (drop (0 * mx_page_size lib) rows), None, w)"
    using pages_complete [OF assms(1)] assms(2) unfolding serves_def by (metis bars_in_range_Nil bars_in_range_append)
  then show ?thesis by (simp add: iter_ohlcv_bonds_def)
qed

text \<open>
  C30. A bond's history is returned completely: if the server cuts its rows into pages of the size the
  loader expects, the loop ends, without an exception, and yields every row that is valid and in the
  window, once and in the server's order.
\<close>

theorem bond_history_complete:
  assumes "start \<le> end" "end - start \<le> MAX_LOOKBACK" "looks_like_isin (py_strip (py_upper t))"
    "0 < mx_page_size lib" "serves lib (py_strip (py_upper t)) start end (mx_page_size lib) rows"
  shows "\<exists>s'. moex_iter_ohlcv lib t start end s =
    Some (bars_in_range start end (row_to_ohlcv_bonds (mx_parsers lib) (py_strip (py_upper t))) rows, None, s')"
  using assms(3) range_ok [OF assms(1,2)] bonds_complete [OF assms(4,5)] by (simp add: moex_iter_ohlcv_def Let_def)

text \<open>A server with shorter pages is read one page deep: the first short page ends the loop.\<close>

lemma short_pages_truncate:
  assumes "start \<le> end" "end - start \<le> MAX_LOOKBACK" "looks_like_isin (py_strip (py_upper t))"
    "cap < mx_page_size lib" "serves lib (py_strip (py_upper t)) start end cap rows"
  shows "\<exists>s'. moex_iter_ohlcv lib t start end s =
    Some (bars_in_range start end (row_to_ohlcv_bonds (mx_parsers lib) (py_strip (py_upper t))) (take cap rows), None, s')"
proof -
  let ?t = "py_strip (py_upper t)"
  obtain w where f: "on_page ''history'' (mx_history lib ?t start end) 0 (mx_world s) = (Inr (take cap rows), w)"
    using assms(5) unfolding serves_def by (metis drop_0 prod.collapse)
  have "length (take cap rows) < mx_page_size lib" using assms(4) by simp
  with f have "pages (on_page ''history'' (mx_history lib ?t start end))
      (bars_in_range start end (row_to_ohlcv_bonds (mx_parsers lib) ?t)) (mx_page_size lib) 0 (mx_world s) =
      Some (bars_in_range start end (row_to_ohlcv_bonds (mx_parsers lib) ?t) (take cap rows), None, w)"
    by (subst pages.simps) auto
  then show ?thesis
    using assms(3) range_ok [OF assms(1,2)] by (simp add: moex_iter_ohlcv_def iter_ohlcv_bonds_def Let_def)
qed

text \<open>A server that ignores the offset and sends full pages is read for ever.\<close>

lemma ignored_offset_hangs:
  assumes "start \<le> end" "end - start \<le> MAX_LOOKBACK" "looks_like_isin (py_strip (py_upper t))" "0 < mx_page_size lib"
    "\<And>off w. fst (on_page ''history'' (mx_history lib (py_strip (py_upper t)) start end) off w) = Inr rows"
    "mx_page_size lib \<le> length rows"
  shows "moex_iter_ohlcv lib t start end s = None"
proof (rule ccontr)
  assume "moex_iter_ohlcv lib t start end s \<noteq> None"
  then have "pages (on_page ''history'' (mx_history lib (py_strip (py_upper t)) start end))
      (bars_in_range start end (row_to_ohlcv_bonds (mx_parsers lib) (py_strip (py_upper t)))) (mx_page_size lib) 0 (mx_world s) \<noteq> None"
    using assms(3) range_ok [OF assms(1,2)] by (simp add: moex_iter_ohlcv_def iter_ohlcv_bonds_def Let_def)
  then obtain res where "pages (on_page ''history'' (mx_history lib (py_strip (py_upper t)) start end))
      (bars_in_range start end (row_to_ohlcv_bonds (mx_parsers lib) (py_strip (py_upper t)))) (mx_page_size lib) 0 (mx_world s) = Some res"
    by blast
  from pages_spin [OF this assms(4)] assms(5,6) show False by auto
qed

section \<open>The loader in the chain\<close>

text \<open>Every window the fallback chain asks this source for passes its range check.\<close>

lemma chain_windows_accepted:
  assumes "start \<le> end" "(a, b) \<in> set (windows start end (source_max_lookback moex_name))"
  shows "validate_range a b MAX_LOOKBACK = Inr ()"
  using assms chunks_short [of "(a, b)" start "end" MOEX_MAX_LOOKBACK]
  by (auto simp: windows_def source_max_lookback_def validate_range_def MAX_LOOKBACK_def MOEX_MAX_LOOKBACK_def
      split: if_splits)

text \<open>A session without trades has null prices. Its row becomes a bar of zero prices.\<close>

lemma to_d_null [simp]: "to_d ps (or_cell Null Null) = Some 0"
  by (simp add: to_d_def or_cell_def truthy_def)

lemma null_session:
  assumes "truthy (r ''TRADEDATE'')" "ps_date ps (take 10 (ps_str ps (r ''TRADEDATE''))) = Some d" "valid_ticker t = Inr t"
    "\<forall>k \<in> set [''OPEN'', ''HIGH'', ''LOW'', ''CLOSE'', ''open'', ''high'', ''low'', ''close'']. r k = Null"
    "r ''VOLUME'' = Null" "ps_decimal ps (ps_str ps (Number 0)) = Some 0"
  shows "\<exists>b. row_to_ohlcv_bonds ps t r = Some b \<and> r_ts b = d \<and> r_open b = 0 \<and> r_close b = 0"
proof -
  have ts: "or_cell (r ''TRADEDATE'') (r ''tradedate'') = r ''TRADEDATE''" using assms(1) by (simp add: or_cell_def)
  have v: "to_d ps (or_cell (r ''VOLUME'') (Number 0)) = Some 0" using assms(5,6) by (simp add: or_cell_def to_d_def truthy_def)
  have p: "to_d ps (or_cell (r ''OPEN'') (r ''open'')) = Some 0" "to_d ps (or_cell (r ''HIGH'') (r ''high'')) = Some 0"
    "to_d ps (or_cell (r ''LOW'') (r ''low'')) = Some 0" "to_d ps (or_cell (r ''CLOSE'') (r ''close'')) = Some 0"
    using assms(4) by simp_all
  show ?thesis
    unfolding row_to_ohlcv_bonds_def Let_def ts p v
    by (simp add: assms(1-3) mk_row_def row_nonneg_def ohlc_consistent_def)
qed

section \<open>The universe\<close>

text \<open>The cache is hit only by the very board it was filled for, and a failed call leaves it alone.\<close>

lemma list_tickers_cached:
  assumes "moex_list_tickers lib b s = (Inr ms, s')"
  shows "moex_list_tickers lib b s' = (Inr ms, s')"
  using assms by (auto simp: moex_list_tickers_def Let_def split: option.splits bool.splits prod.splits sum.splits)

lemma list_tickers_failure:
  assumes "moex_list_tickers lib b s = (Inl e, s')"
  shows "mx_universe s' = mx_universe s \<and> mx_board s' = mx_board s"
  using assms by (auto simp: moex_list_tickers_def Let_def split: option.splits bool.splits prod.splits sum.splits)

text \<open>The cache of a loader that filled it itself: no entry has a date of delisting.\<close>

definition moex_inv :: "'w moex \<Rightarrow> bool" where
  "moex_inv s \<longleftrightarrow> (\<forall>ms. mx_universe s = Some ms \<longrightarrow> (\<forall>m \<in> set ms. tm_delisted_at m = None \<and> tm_source m = Moex))"

lemma mk_ticker_meta_keeps: "mk_ticker_meta m = Inr m' \<Longrightarrow> tm_delisted_at m' = tm_delisted_at m \<and> tm_source m' = tm_source m"
  by (auto simp: mk_ticker_meta_def bindR_Inr_iff split: if_splits)

lemma meta_built_iff [simp]: "(case mk_ticker_meta m of Inl e \<Rightarrow> None | Inr m' \<Rightarrow> Some m') = Some b \<longleftrightarrow> mk_ticker_meta m = Inr b"
  by (simp split: sum.splits)

lemma meta_undated:
  assumes "row_to_ticker_meta ps to_lot r = Some m"
  shows "tm_delisted_at m = None \<and> tm_source m = Moex"
proof -
  obtain c cs where "r ''SECID'' = Text (c # cs)"
    using assms by (auto simp: row_to_ticker_meta_def split: cell.splits list.splits)
  then show ?thesis
    using assms by (auto simp: row_to_ticker_meta_def Let_def bind_eq_Some_conv dest: mk_ticker_meta_keeps)
qed

lemma list_tickers_inv:
  assumes "moex_list_tickers lib b s = (r, s')" "moex_inv s"
  shows "moex_inv s' \<and> (\<forall>ms. r = Inr ms \<longrightarrow> (\<forall>m \<in> set ms. tm_delisted_at m = None))"
  using assms
  by (auto simp: moex_list_tickers_def Let_def moex_inv_def List.map_filter_def meta_undated dest: meta_undated
      split: option.splits bool.splits prod.splits sum.splits)

text \<open>
  The loader never reports a corporate action, not even the synthetic one for a ticker delisted in
  the window: its universe has no dates of delisting, whatever the exchange sends.
\<close>

theorem moex_reports_no_action:
  assumes "moex_inv s" "moex_iter_corporate_actions lib t start end s = (r, s')"
  shows "moex_inv s' \<and> (r = Inr [] \<or> isl r)"
proof -
  obtain q s1 where m: "moex_list_tickers lib (Some ''TQBR'') s = (q, s1)" by fastforce
  note i = list_tickers_inv [OF m assms(1)]
  show ?thesis
  proof (cases q)
    case (Inl e)
    then show ?thesis using assms m i by (auto simp: moex_iter_corporate_actions_def meta_for_def bindW_def split: sum.splits)
  next
    case (Inr ms)
    have "tm_delisted_at m = None" if "find P ms = Some m" for P m
      using that i Inr by (auto simp: find_Some_iff)
    then show ?thesis using assms m i Inr
      by (auto simp: moex_iter_corporate_actions_def meta_for_def bindW_def Let_def split: sum.splits option.splits)
  qed
qed


section \<open>A concrete exchange\<close>

definition ex_parsers :: parsers where
  "ex_parsers = \<lparr>ps_str = (\<lambda>c. case c of Text s \<Rightarrow> s | _ \<Rightarrow> ''0''), ps_decimal = (\<lambda>s. Some (if s = ''0'' then 0 else 100)),
     ps_date = (\<lambda>s. Some 737430)\<rparr>"

definition ex_cols :: "string list" where
  "ex_cols = [''TRADEDATE'', ''OPEN'', ''HIGH'', ''LOW'', ''CLOSE'', ''VOLUME'']"

definition ex_cells :: "cell list" where
  "ex_cells = [Text ''2020-01-06'', Text ''100'', Text ''100'', Text ''100'', Text ''100'', Text ''100'']"

definition ex_moex_lib :: "unit moex_lib" where
  "ex_moex_lib = \<lparr>mx_parsers = ex_parsers, mx_lot = (\<lambda>_. Some 1), mx_securities = (\<lambda>w. (Iss_Json [], w)),
     mx_candles = (\<lambda>_ _ _ _ w. (Iss_Down, w)),
     mx_history = (\<lambda>_ _ _ off w. (Iss_Json [(''history'', Block ex_cols (map Some (take 2 (drop off [ex_cells]))))], w)),
     mx_page_size = 2\<rparr>"

definition ex_moex :: "unit moex" where
  "ex_moex = \<lparr>mx_universe = None, mx_board = None, mx_world = ()\<rparr>"

definition ex_bond :: string where "ex_bond = ''RU000A100FE5''"

definition ex_bond_bar :: ohlcv_row where
  "ex_bond_bar = \<lparr>r_ticker = ex_bond, r_ts = 737430, r_open = 100, r_high = 100, r_low = 100, r_close = 100,
     r_volume = 100, r_adj_close = 100, r_source = Tkf\<rparr>"

lemma ex_bond_name: "py_strip (py_upper ex_bond) = ex_bond" "looks_like_isin ex_bond" "valid_ticker ex_bond = Inr ex_bond"
  by (simp_all add: ex_bond_def looks_like_isin_def valid_ticker_def Let_def py_strip_def is_space_def ticker_regex_def
      ticker_char_def py_upper_def upper_char_def)

lemma ex_serves: "serves ex_moex_lib t start end (mx_page_size ex_moex_lib) [row_of ex_cols ex_cells]"
proof -
  have "ex_cols \<noteq> []" by (simp add: ex_cols_def)
  then show ?thesis
    by (simp add: serves_def on_page_def ex_moex_lib_def get_json_def extract_block_def rows_from_block_def List.map_filter_def o_def
        take_Cons drop_Cons split: nat.split)
qed

lemma ex_bond_row: "row_to_ohlcv_bonds ex_parsers ex_bond (row_of ex_cols ex_cells) = Some ex_bond_bar"
proof -
  have r: "row_of ex_cols ex_cells ''TRADEDATE'' = Text ''2020-01-06''" "row_of ex_cols ex_cells ''OPEN'' = Text ''100''"
    "row_of ex_cols ex_cells ''HIGH'' = Text ''100''" "row_of ex_cols ex_cells ''LOW'' = Text ''100''"
    "row_of ex_cols ex_cells ''CLOSE'' = Text ''100''" "row_of ex_cols ex_cells ''VOLUME'' = Text ''100''"
    by (simp_all add: row_of_def ex_cols_def ex_cells_def)
  have p: "ps_str ex_parsers (Text s) = s" "ps_date ex_parsers s = Some 737430" "ps_decimal ex_parsers ''100'' = Some 100" for s
    by (simp_all add: ex_parsers_def)
  have d: "to_d ex_parsers (or_cell (Text ''100'') c) = Some 100" for c
    by (simp add: to_d_def or_cell_def truthy_def p)
  have o: "or_cell (Text ''2020-01-06'') c = Text ''2020-01-06''" "truthy (Text ''2020-01-06'')" for c
    by (simp_all add: or_cell_def truthy_def)
  show ?thesis
    unfolding row_to_ohlcv_bonds_def Let_def r o d p
    by (simp add: o p mk_row_def row_nonneg_def ohlc_consistent_def ex_bond_name ex_bond_bar_def)
qed

lemma ex_bond_range:
  "bars_in_range 737425 737435 (row_to_ohlcv_bonds (mx_parsers ex_moex_lib) ex_bond) [row_of ex_cols ex_cells] = [ex_bond_bar]"
proof -
  have "mx_parsers ex_moex_lib = ex_parsers" by (simp add: ex_moex_lib_def)
  then show ?thesis by (simp add: bars_in_range_def List.map_filter_def ex_bond_row) (simp add: ex_bond_bar_def)
qed

theorem bond_history_complete_witness:
  "\<exists>s'. moex_iter_ohlcv ex_moex_lib ex_bond 737425 737435 ex_moex = Some ([ex_bond_bar], None, s')"
  using bond_history_complete [of 737425 737435 ex_bond ex_moex_lib "[row_of ex_cols ex_cells]" ex_moex]
  by (simp add: ex_bond_name ex_serves ex_bond_range MAX_LOOKBACK_def) (simp add: ex_moex_lib_def)

lemma ex_moex_run: "\<exists>s'. moex_iter_ohlcv ex_moex_lib ex_bond 737425 737435 ex_moex = Some ([ex_bond_bar], None, s')"
proof -
  have "0 < mx_page_size ex_moex_lib" by (simp add: ex_moex_lib_def)
  moreover have "validate_range 737425 737435 MAX_LOOKBACK = Inr ()" by (simp add: validate_range_def MAX_LOOKBACK_def)
  ultimately show ?thesis
    using bonds_complete [OF _ ex_serves, of ex_bond 737425 737435 ex_moex]
    by (simp add: moex_iter_ohlcv_def ex_bond_name Let_def ex_bond_range)
qed

theorem moex_rows_valid_witness: "wf_row ex_bond_bar \<and> r_source ex_bond_bar = Tkf"
proof -
  obtain s' where "moex_iter_ohlcv ex_moex_lib ex_bond 737425 737435 ex_moex = Some ([ex_bond_bar], None, s')"
    using ex_moex_run by blast
  from moex_rows_valid [OF this] show ?thesis by simp
qed

theorem moex_reports_no_action_witness:
  "fst (moex_iter_corporate_actions ex_moex_lib ex_bond 737425 737435 ex_moex) = Inr [] \<or>
   isl (fst (moex_iter_corporate_actions ex_moex_lib ex_bond 737425 737435 ex_moex))"
  using moex_reports_no_action [of ex_moex ex_moex_lib ex_bond 737425 737435, OF _ prod.collapse [symmetric]]
  by (simp add: moex_inv_def ex_moex_def)

end
