(* ===== verification/TinkoffLoader.thy ===== *)
theory TinkoffLoader
  imports MdLoader PyDecimal Supervisor "HOL-Library.AList"
begin

text \<open>
  \<open>src/data/tinkoff_loader.py\<close>: the loader of the broker's gRPC interface. The calls of the
  vendor's client and its enumeration of trading statuses are parameters; instants are seconds,
  counted so that \<open>t div 86400\<close> is the ordinal of the UTC day. The locks are left out: a call runs
  alone.
\<close>

section \<open>Candles\<close>

definition DAY_S :: int where "DAY_S = 86400"

record candle =
  cn_time :: int
  cn_open :: "int \<times> int"
  cn_high :: "int \<times> int"
  cn_low :: "int \<times> int"
  cn_close :: "int \<times> int"
  cn_volume :: int

definition money_to_decimal :: "int \<times> int \<Rightarrow> rat" where
  "money_to_decimal = (\<lambda>(units, nano). dadd (of_int units) (ddiv (of_int nano) 1000000000))"

definition candle_to_row :: "string \<Rightarrow> candle \<Rightarrow> ohlcv_row result" where
  "candle_to_row ticker c = mk_row \<lparr>r_ticker = ticker, r_ts = cn_time c div DAY_S, r_open = money_to_decimal (cn_open c),
     r_high = money_to_decimal (cn_high c), r_low = money_to_decimal (cn_low c), r_close = money_to_decimal (cn_close c),
     r_volume = of_int (cn_volume c), r_adj_close = money_to_decimal (cn_close c), r_source = Tkf\<rparr>"

section \<open>Instruments\<close>

datatype raw_status = Status int | No_Status | Odd_Status

datatype raw_day = Day int | Day_Text string | No_Day

record tk_instrument =
  in_ticker :: string
  in_class :: string
  in_figi :: string
  in_name :: string
  in_lot :: int
  in_isin :: string
  in_currency :: string
  in_status :: raw_status
  in_api :: bool
  in_first_day :: raw_day

text \<open>\<open>int(getattr(inst, "trading_status", 14) or 14)\<close>; \<open>None\<close> is an exception.\<close>

definition status_int :: "raw_status \<Rightarrow> int option" where
  "status_int s = (case s of Status n \<Rightarrow> Some (if n = 0 then 14 else n) | No_Status \<Rightarrow> Some 14 | Odd_Status \<Rightarrow> None)"

text \<open>The exception is swallowed, so an odd status passes the filter.\<close>

definition status_live :: "raw_status \<Rightarrow> bool" where
  "status_live s = (case status_int s of None \<Rightarrow> True | Some n \<Rightarrow> n \<in> {5, 14, 15})"

definition some_nonempty :: "string \<Rightarrow> string option" where
  "some_nonempty s = (if s = [] then None else Some s)"

definition live_meta :: "string \<Rightarrow> tk_instrument \<Rightarrow> ticker_meta result" where
  "live_meta currency i = mk_ticker_meta \<lparr>tm_ticker = in_ticker i, tm_figi = some_nonempty (in_figi i), tm_name = in_name i,
     tm_lot = in_lot i, tm_isin = Some (in_isin i), tm_currency = currency, tm_class_code = Some (in_class i),
     tm_delisted = False, tm_delisted_at = None, tm_listed_at = None, tm_source = Tkf\<rparr>"

definition currency_or_rub :: "tk_instrument \<Rightarrow> string" where
  "currency_or_rub i = (if in_currency i = [] then ''RUB'' else in_currency i)"

text \<open>A dictionary keeps the place of a key that is assigned again.\<close>

type_synonym universe = "(string \<times> ticker_meta) list"

fun fill :: "(tk_instrument \<Rightarrow> bool) \<Rightarrow> (tk_instrument \<Rightarrow> ticker_meta result) \<Rightarrow> tk_instrument list \<Rightarrow> universe \<Rightarrow> universe result" where
  "fill keep meta [] u = Inr u"
| "fill keep meta (i # is) u =
     (if \<not> keep i then fill keep meta is u
      else bindR (meta i) (\<lambda>m. fill keep meta is (AList.update (in_ticker i) m u)))"

definition keep_share :: "tk_instrument \<Rightarrow> bool" where
  "keep_share i \<longleftrightarrow> in_class i = ''TQBR'' \<and> status_live (in_status i) \<and> in_api i"

definition keep_bond :: "tk_instrument \<Rightarrow> bool" where
  "keep_bond i \<longleftrightarrow> in_class i \<in> set BOND_CLASS_CODES \<and> status_live (in_status i) \<and> in_api i"

definition keep_etf :: "tk_instrument \<Rightarrow> bool" where
  "keep_etf i \<longleftrightarrow> in_class i = ETF_CLASS_CODE \<and> status_live (in_status i) \<and> in_api i"

definition fill_universe :: "tk_instrument list \<Rightarrow> universe result" where
  "fill_universe is = fill keep_share (live_meta ''RUB'') is []"

definition fill_bonds :: "tk_instrument list \<Rightarrow> universe result" where
  "fill_bonds is = fill keep_bond (\<lambda>i. live_meta (currency_or_rub i) i) is []"

definition fill_etfs :: "tk_instrument list \<Rightarrow> universe result" where
  "fill_etfs is = fill keep_etf (\<lambda>i. live_meta (currency_or_rub i) i) is []"

definition status_delisted :: "string \<Rightarrow> bool" where
  "status_delisted n \<longleftrightarrow> contains ''NOT_AVAILABLE_FOR_TRADING'' n \<or> contains ''DELISTED'' n \<or> contains ''EXCLUDED'' n"

definition listed_day :: "(string \<Rightarrow> int option) \<Rightarrow> raw_day \<Rightarrow> int option" where
  "listed_day parse d = (case d of No_Day \<Rightarrow> None | Day n \<Rightarrow> Some n | Day_Text s \<Rightarrow> parse (take 10 s))"

definition share_meta :: "(int \<Rightarrow> string option) \<Rightarrow> (string \<Rightarrow> int option) \<Rightarrow> tk_instrument \<Rightarrow> ticker_meta result" where
  "share_meta status_name parse i =
     (case status_int (in_status i) of None \<Rightarrow> Inl ValueError
      | Some n \<Rightarrow> mk_ticker_meta \<lparr>tm_ticker = in_ticker i, tm_figi = some_nonempty (in_figi i), tm_name = in_name i,
          tm_lot = in_lot i, tm_isin = Some (in_isin i), tm_currency = ''RUB'', tm_class_code = Some (in_class i),
          tm_delisted = status_delisted (case status_name n of None \<Rightarrow> ''UNKNOWN'' | Some s \<Rightarrow> s),
          tm_delisted_at = None, tm_listed_at = listed_day parse (in_first_day i), tm_source = Tkf\<rparr>)"

definition fill_shares_all :: "(int \<Rightarrow> string option) \<Rightarrow> (string \<Rightarrow> int option) \<Rightarrow> string \<Rightarrow> tk_instrument list \<Rightarrow> ticker_meta list result" where
  "fill_shares_all status_name parse class_code is =
     map_result (share_meta status_name parse) (filter (\<lambda>i. in_class i = class_code) is)"

section \<open>The loader\<close>

record 'w tk_loader =
  tk_universe :: "universe option"
  tk_bonds :: "universe option"
  tk_etfs :: "universe option"
  tk_shares_all :: "(string \<times> ticker_meta list) list"
  tk_world :: 'w

record 'w tk_api =
  api_shares :: "'w \<Rightarrow> tk_instrument list result \<times> 'w"
  api_bonds :: "'w \<Rightarrow> tk_instrument list result \<times> 'w"
  api_etfs :: "'w \<Rightarrow> tk_instrument list result \<times> 'w"
  api_candles :: "string \<Rightarrow> int \<Rightarrow> int \<Rightarrow> 'w \<Rightarrow> candle list result \<times> 'w"
  api_status_name :: "int \<Rightarrow> string option"
  api_date :: "string \<Rightarrow> int option"

definition tk_init :: "string option \<Rightarrow> string option \<Rightarrow> string option \<Rightarrow> 'w \<Rightarrow> 'w tk_loader result" where
  "tk_init token real_token sandbox_token w =
     (let token = (case token of Some t \<Rightarrow> Some t | None \<Rightarrow> (case real_token of Some (c # cs) \<Rightarrow> Some (c # cs) | _ \<Rightarrow> sandbox_token))
      in case token of Some (c # cs) \<Rightarrow> Inr \<lparr>tk_universe = None, tk_bonds = None, tk_etfs = None, tk_shares_all = [], tk_world = w\<rparr>
         | _ \<Rightarrow> Inl auth_error)"

definition tk_call :: "('w \<Rightarrow> 'a result \<times> 'w) \<Rightarrow> 'w tk_loader \<Rightarrow> 'a result \<times> 'w tk_loader" where
  "tk_call m s = (case m (tk_world s) of (r, w) \<Rightarrow> (r, s\<lparr>tk_world := w\<rparr>))"

definition ensure_universe :: "'w tk_api \<Rightarrow> 'w tk_loader \<Rightarrow> universe result \<times> 'w tk_loader" where
  "ensure_universe api s =
     (case tk_universe s of Some u \<Rightarrow> (Inr u, s)
      | None \<Rightarrow> bindW (tk_call (api_shares api)) (\<lambda>is s.
          case fill_universe is of Inl e \<Rightarrow> (Inl e, s) | Inr u \<Rightarrow> (Inr u, s\<lparr>tk_universe := Some u\<rparr>)) s)"

definition ensure_bonds :: "'w tk_api \<Rightarrow> 'w tk_loader \<Rightarrow> universe result \<times> 'w tk_loader" where
  "ensure_bonds api s =
     (case tk_bonds s of Some u \<Rightarrow> (Inr u, s)
      | None \<Rightarrow> bindW (tk_call (api_bonds api)) (\<lambda>is s.
          case fill_bonds is of Inl e \<Rightarrow> (Inl e, s) | Inr u \<Rightarrow> (Inr u, s\<lparr>tk_bonds := Some u\<rparr>)) s)"

definition ensure_etfs :: "'w tk_api \<Rightarrow> 'w tk_loader \<Rightarrow> universe result \<times> 'w tk_loader" where
  "ensure_etfs api s =
     (case tk_etfs s of Some u \<Rightarrow> (Inr u, s)
      | None \<Rightarrow> bindW (tk_call (api_etfs api)) (\<lambda>is s.
          case fill_etfs is of Inl e \<Rightarrow> (Inl e, s) | Inr u \<Rightarrow> (Inr u, s\<lparr>tk_etfs := Some u\<rparr>)) s)"

definition tk_list_tickers :: "'w tk_api \<Rightarrow> 'w tk_loader \<Rightarrow> ticker_meta list result \<times> 'w tk_loader" where
  "tk_list_tickers api = bindW (ensure_universe api) (\<lambda>u. liftW (Inr (map snd u)))"

definition tk_list_bonds :: "'w tk_api \<Rightarrow> 'w tk_loader \<Rightarrow> ticker_meta list result \<times> 'w tk_loader" where
  "tk_list_bonds api = bindW (ensure_bonds api) (\<lambda>u. liftW (Inr (map snd u)))"

definition tk_list_etfs :: "'w tk_api \<Rightarrow> 'w tk_loader \<Rightarrow> ticker_meta list result \<times> 'w tk_loader" where
  "tk_list_etfs api = bindW (ensure_etfs api) (\<lambda>u. liftW (Inr (map snd u)))"

definition list_shares_all :: "'w tk_api \<Rightarrow> string \<Rightarrow> 'w tk_loader \<Rightarrow> ticker_meta list result \<times> 'w tk_loader" where
  "list_shares_all api class_code s =
     (case map_of (tk_shares_all s) class_code of Some ms \<Rightarrow> (Inr ms, s)
      | None \<Rightarrow> bindW (tk_call (api_shares api)) (\<lambda>is s.
          case fill_shares_all (api_status_name api) (api_date api) class_code is of Inl e \<Rightarrow> (Inl e, s)
          | Inr ms \<Rightarrow> (Inr ms, s\<lparr>tk_shares_all := AList.update class_code ms (tk_shares_all s)\<rparr>)) s)"

definition find_cached :: "string \<Rightarrow> (string \<times> ticker_meta list) list \<Rightarrow> ticker_meta option" where
  "find_cached t caches = find (\<lambda>m. tm_ticker m = t) (concat (map snd caches))"

fun first_hit :: "string \<Rightarrow> ('w tk_loader \<Rightarrow> universe result \<times> 'w tk_loader) list \<Rightarrow> 'w tk_loader \<Rightarrow> ticker_meta result \<times> 'w tk_loader" where
  "first_hit t [] s = (Inl not_found_error, s)"
| "first_hit t (g # gs) s =
     (case g s of (Inl e, s) \<Rightarrow> (Inl e, s)
      | (Inr u, s) \<Rightarrow> (case map_of u t of Some m \<Rightarrow> (Inr m, s) | None \<Rightarrow> first_hit t gs s))"

definition get_ticker :: "'w tk_api \<Rightarrow> string \<Rightarrow> 'w tk_loader \<Rightarrow> ticker_meta result \<times> 'w tk_loader" where
  "get_ticker api ticker s =
     (let t = py_upper ticker
      in case find_cached t (tk_shares_all s) of Some m \<Rightarrow> (Inr m, s)
         | None \<Rightarrow> first_hit t [ensure_universe api, ensure_bonds api, ensure_etfs api] s)"

section \<open>Fetching a window\<close>

definition YEAR_S :: int where "YEAR_S = 365 * DAY_S"

function year_chunks :: "int \<Rightarrow> int \<Rightarrow> (int \<times> int) list" where
  "year_chunks cursor end_dt =
     (if cursor < end_dt then (cursor, min (cursor + YEAR_S) end_dt) # year_chunks (min (cursor + YEAR_S) end_dt) end_dt else [])"
  by auto
termination by (relation "measure (\<lambda>(c, e). nat (e - c))") (auto simp: YEAR_S_def DAY_S_def)

declare year_chunks.simps [simp del]

fun fetch_chunks :: "'w tk_api \<Rightarrow> string \<Rightarrow> string \<Rightarrow> (int \<times> int) list \<Rightarrow> 'w tk_loader \<Rightarrow> ohlcv_row list result \<times> 'w tk_loader" where
  "fetch_chunks api figi ticker [] = liftW (Inr [])"
| "fetch_chunks api figi ticker ((a, b) # cs) =
     bindW (tk_call (api_candles api figi a b)) (\<lambda>candles.
     bindW (liftW (map_result (candle_to_row ticker) candles)) (\<lambda>rows.
     bindW (fetch_chunks api figi ticker cs) (\<lambda>rest. liftW (Inr (rows @ rest)))))"

definition fetch_ohlcv :: "'w tk_api \<Rightarrow> string \<Rightarrow> int \<Rightarrow> int \<Rightarrow> 'w tk_loader \<Rightarrow> ohlcv_row list result \<times> 'w tk_loader" where
  "fetch_ohlcv api ticker start end s =
     (if end < start \<or> 30 * 365 < end - start then (Inl md_error, s)
      else bindW (get_ticker api ticker) (\<lambda>meta.
        case tm_figi meta of
          Some (c # cs) \<Rightarrow> fetch_chunks api (c # cs) (py_upper ticker) (year_chunks (start * DAY_S) (end * DAY_S + 86399))
        | _ \<Rightarrow> raiseW md_error) s)"


section \<open>The windows asked for\<close>

lemma chunks_year_step: "c < e \<Longrightarrow> year_chunks c e = (c, min (c + YEAR_S) e) # year_chunks (min (c + YEAR_S) e) e"
  by (subst year_chunks.simps) simp

lemma chunks_year_end: "\<not> c < e \<Longrightarrow> year_chunks c e = []"
  by (subst year_chunks.simps) simp

lemma year_pos: "0 < YEAR_S"
  by (simp add: YEAR_S_def DAY_S_def)


definition served :: "candle list \<Rightarrow> int \<Rightarrow> int \<Rightarrow> candle list" where
  "served cs a b = filter (\<lambda>c. a \<le> cn_time c \<and> cn_time c < b) cs"


lemma year_chunks_short: "(a, b) \<in> set (year_chunks c e) \<Longrightarrow> c \<le> a \<and> a < b \<and> b \<le> e \<and> b - a \<le> YEAR_S"
proof (induction c e rule: year_chunks.induct)
  case (1 c e)
  have lt: "c < e" using 1(2) chunks_year_end [of c e] by force
  with 1(2) consider "a = c" "b = min (c + YEAR_S) e" | "(a, b) \<in> set (year_chunks (min (c + YEAR_S) e) e)"
    by (auto simp: chunks_year_step)
  then show ?case
  proof cases
    case 2
    from 1(1) [OF lt this] year_pos lt show ?thesis by linarith
  qed (use lt year_pos in auto)
qed




section \<open>The rows\<close>

lemma candle_row_valid:
  assumes "candle_to_row t c = Inr r"
  shows "wf_row r \<and> r_source r = Tkf \<and> r_ts r = cn_time c div DAY_S \<and> r_adj_close r = r_close r \<and> r_ticker r = py_strip (py_upper t)"
  using assms mk_row_wf [OF assms [unfolded candle_to_row_def]]
  by (auto simp: candle_to_row_def mk_row_def bindR_Inr_iff valid_ticker_def Let_def split: if_splits)

lemma map_result_source: "map_result f xs = Inr ys \<Longrightarrow> y \<in> set ys \<Longrightarrow> \<exists>x \<in> set xs. f x = Inr y"
  by (induction xs arbitrary: ys) (auto simp: bindR_Inr_iff)

lemma fetch_chunks_rows:
  assumes "fetch_chunks api figi t ws s = (Inr rows, s')"
  shows "\<forall>r \<in> set rows. \<exists>(a, b) \<in> set ws. \<exists>w c cs. fst (api_candles api figi a b w) = Inr cs \<and> c \<in> set cs \<and> candle_to_row t c = Inr r"
  using assms
proof (induction ws arbitrary: s rows)
  case (Cons w ws)
  obtain a b where w: "w = (a, b)" by fastforce
  obtain cs s1 r1 r2 where c: "tk_call (api_candles api figi a b) s = (Inr cs, s1)" "map_result (candle_to_row t) cs = Inr r1"
      "fetch_chunks api figi t ws s1 = (Inr r2, s')" "rows = r1 @ r2"
    using Cons.prems by (auto simp: w bindW_Inr)
  have f: "fst (api_candles api figi a b (tk_world s)) = Inr cs"
    using c(1) by (cases "api_candles api figi a b (tk_world s)") (simp add: tk_call_def)
  show ?case
  proof
    fix r assume "r \<in> set rows"
    then consider c where "c \<in> set cs" "candle_to_row t c = Inr r" | "r \<in> set r2"
      using map_result_source [OF c(2)] c(4) by auto
    then show "\<exists>(a, b) \<in> set (w # ws). \<exists>w c cs. fst (api_candles api figi a b w) = Inr cs \<and> c \<in> set cs \<and> candle_to_row t c = Inr r"
    proof cases
      case 1
      then show ?thesis using f by (auto simp: w)
    next
      case 2
      with Cons.IH [OF c(3)] show ?thesis by auto
    qed
  qed
qed simp

lemma fetch_ohlcv_Inr:
  assumes "fetch_ohlcv api t start end s = (Inr rows, s')"
  shows "\<exists>figi s1. fetch_chunks api figi (py_upper t) (year_chunks (start * DAY_S) (end * DAY_S + 86399)) s1 = (Inr rows, s')"
proof -
  obtain m s1 where "get_ticker api t s = (Inr m, s1)"
    "(case tm_figi m of
        Some (c # cs) \<Rightarrow> fetch_chunks api (c # cs) (py_upper t) (year_chunks (start * DAY_S) (end * DAY_S + 86399))
      | _ \<Rightarrow> raiseW md_error) s1 = (Inr rows, s')"
    using assms by (simp add: fetch_ohlcv_def bindW_Inr split: if_splits) blast
  then show ?thesis by (auto split: option.splits list.splits)
qed

lemma day_in_window:
  assumes "start * DAY_S \<le> x" "x \<le> end * DAY_S + 86399"
  shows "start \<le> x div DAY_S \<and> x div DAY_S \<le> end"
proof -
  have "start * DAY_S div DAY_S \<le> x div DAY_S" "x div DAY_S \<le> (end * DAY_S + 86399) div DAY_S"
    using assms by (simp_all add: zdiv_mono1 DAY_S_def)
  then show ?thesis by (simp add: DAY_S_def)
qed

text \<open>
  Every row fetched is valid, carries the ticker asked for and the label of this source, and comes
  from a candle of one of the requests; if no answer goes beyond the interval asked for, it lies in
  the window. One candle the model class refuses makes the whole call fail, and no row is returned.
\<close>

theorem fetched_rows_valid:
  assumes "fetch_ohlcv api t start end s = (Inr rows, s')" "r \<in> set rows"
  shows "wf_row r \<and> r_source r = Tkf \<and> r_ticker r = py_strip (py_upper t) \<and>
    ((\<forall>figi a b w cs. fst (api_candles api figi a b w) = Inr cs \<longrightarrow> (\<forall>c \<in> set cs. a \<le> cn_time c \<and> cn_time c \<le> b)) \<longrightarrow>
      start \<le> r_ts r \<and> r_ts r \<le> end)"
proof -
  obtain figi s1 where f: "fetch_chunks api figi (py_upper t) (year_chunks (start * DAY_S) (end * DAY_S + 86399)) s1 = (Inr rows, s')"
    using fetch_ohlcv_Inr [OF assms(1)] by blast
  obtain a b w c cs where c: "(a, b) \<in> set (year_chunks (start * DAY_S) (end * DAY_S + 86399))"
      "fst (api_candles api figi a b w) = Inr cs" "c \<in> set cs" "candle_to_row (py_upper t) c = Inr r"
    using bspec [OF fetch_chunks_rows [OF f] assms(2)] by blast
  note y = year_chunks_short [OF c(1)]
  have "py_strip (py_upper (py_upper t)) = py_strip (py_upper t)" by simp
  moreover have "start \<le> r_ts r \<and> r_ts r \<le> end" if "a \<le> cn_time c" "cn_time c \<le> b"
    using day_in_window [of start "cn_time c" "end"] y that candle_row_valid [OF c(4)] by simp
  ultimately show ?thesis using candle_row_valid [OF c(4)] c(2,3) by fastforce
qed


section \<open>The universes\<close>

lemma update_set: "set (AList.update k v al) \<subseteq> insert (k, v) (set al)"
  by (induction al) auto

lemma update_keys: "fst ` set (AList.update k v al) = insert k (fst ` set al)"
  by (induction al) auto

lemma fill_distinct: "fill keep meta is u = Inr u' \<Longrightarrow> distinct (map fst u) \<Longrightarrow> distinct (map fst u')"
  by (induction "keep" meta "is" u rule: fill.induct) (auto simp: bindR_Inr_iff AList.distinct_update split: if_splits)

lemma fill_keys: "fill keep meta is u = Inr u' \<Longrightarrow> fst ` set u' = fst ` set u \<union> in_ticker ` set (filter keep is)"
proof (induction "keep" meta "is" u rule: fill.induct)
  case (2 keepf meta i "is" u)
  show ?case
  proof (cases "keepf i")
    case True
    then obtain m where "meta i = Inr m" "fill keepf meta is (AList.update (in_ticker i) m u) = Inr u'"
      using 2(3) by (auto simp: bindR_Inr_iff)
    from "2.IH"(2) [OF _ this(2)] True show ?thesis unfolding update_keys by simp
  qed (use 2 in simp)
qed simp

lemma fill_source:
  "fill keep meta is u = Inr u' \<Longrightarrow> x \<in> set u' \<Longrightarrow> x \<in> set u \<or> (\<exists>i \<in> set is. keep i \<and> in_ticker i = fst x \<and> meta i = Inr (snd x))"
proof (induction "keep" meta "is" u rule: fill.induct)
  case (2 keepf meta i "is" u)
  show ?case
  proof (cases "keepf i")
    case True
    then obtain m where m: "meta i = Inr m" "fill keepf meta is (AList.update (in_ticker i) m u) = Inr u'"
      using 2(3) by (auto simp: bindR_Inr_iff)
    from "2.IH"(2) [OF _ m(2) 2(4)] True update_set [of "in_ticker i" m u] m(1) show ?thesis by fastforce
  next
    case False
    then show ?thesis using "2.IH"(1) 2(3,4) by simp
  qed
qed simp

lemma live_meta_keeps:
  assumes "live_meta cur i = Inr m"
  shows "tm_ticker m = py_strip (py_upper (in_ticker i)) \<and> tm_class_code m = Some (in_class i) \<and> \<not> tm_delisted m \<and>
    tm_listed_at m = None"
  using assms by (auto simp: live_meta_def mk_ticker_meta_def bindR_Inr_iff valid_ticker_def Let_def split: if_splits)

text \<open>
  The live universe holds exactly the tickers of the main board that trade: one entry for every
  ticker with a \<open>TQBR\<close> instrument that is open to the API and whose status is 5, 14 or 15, unset, zero or
  no number; nothing else, and never an entry marked as delisted. If one such instrument is refused
  by the model class, there is no universe at all.
\<close>

theorem live_universe_exact:
  assumes "fill_universe is = Inr u"
  shows "distinct (map fst u) \<and> set (map fst u) = in_ticker ` {i \<in> set is. in_class i = ''TQBR'' \<and> in_api i \<and>
      in_status i \<in> {Status 5, Status 14, Status 15, Status 0, No_Status, Odd_Status}} \<and>
    (\<forall>m \<in> snd ` set u. tm_class_code m = Some ''TQBR'' \<and> \<not> tm_delisted m) \<and>
    (\<forall>i \<in> set is. keep_share i \<longrightarrow> \<not> isl (live_meta ''RUB'' i))"
proof -
  have l: "status_live x \<longleftrightarrow> x \<in> {Status 5, Status 14, Status 15, Status 0, No_Status, Odd_Status}" for x
    by (cases x) (auto simp: status_live_def status_int_def)
  have ok: "fill keep meta js v = Inr v' \<Longrightarrow> i \<in> set js \<Longrightarrow> keep i \<Longrightarrow> \<not> isl (meta i)" for keep meta js v v' i
    by (induction keep meta js v rule: fill.induct) (auto simp: bindR_Inr_iff split: if_splits)
  note f = fill_keys [OF assms [unfolded fill_universe_def]] fill_source [OF assms [unfolded fill_universe_def]]
  have "keep_share i \<longleftrightarrow> in_class i = ''TQBR'' \<and> in_api i \<and>
      in_status i \<in> {Status 5, Status 14, Status 15, Status 0, No_Status, Odd_Status}" for i
    unfolding keep_share_def l by blast
  note k = this
  have "tm_class_code m = Some ''TQBR'' \<and> \<not> tm_delisted m" if a: "m \<in> snd ` set u" for m
  proof -
    obtain k where "(k, m) \<in> set u" using a by auto
    from f(2) [OF this] obtain i where "keep_share i" "live_meta ''RUB'' i = Inr m" by auto
    then show ?thesis using live_meta_keeps by (auto simp: keep_share_def)
  qed
  moreover have "set (map fst u) = in_ticker ` {i \<in> set is. keep_share i}" using f(1) by (simp add: Collect_conj_eq)
  ultimately show ?thesis
    using fill_distinct [OF assms [unfolded fill_universe_def]] ok [OF assms [unfolded fill_universe_def]] unfolding k by simp
qed

section \<open>Looking a ticker up\<close>

definition u_inv :: "universe option \<Rightarrow> bool" where
  "u_inv o' \<longleftrightarrow> (\<forall>u. o' = Some u \<longrightarrow> (\<forall>(k, m) \<in> set u. tm_ticker m = py_strip (py_upper k)))"

definition tk_inv :: "'w tk_loader \<Rightarrow> bool" where
  "tk_inv s \<longleftrightarrow> u_inv (tk_universe s) \<and> u_inv (tk_bonds s) \<and> u_inv (tk_etfs s)"

lemma fill_u_inv:
  assumes "fill keep (\<lambda>i. live_meta (cur i) i) is [] = Inr u"
  shows "u_inv (Some u)"
  using fill_source [OF assms] live_meta_keeps by (fastforce simp: u_inv_def)

lemma filled_u_inv:
  "fill_universe is = Inr u \<Longrightarrow> u_inv (Some u)" "fill_bonds is = Inr u \<Longrightarrow> u_inv (Some u)" "fill_etfs is = Inr u \<Longrightarrow> u_inv (Some u)"
  unfolding fill_universe_def fill_bonds_def fill_etfs_def by (rule fill_u_inv, assumption)+

definition keeps_tk :: "('w tk_loader \<Rightarrow> universe result \<times> 'w tk_loader) \<Rightarrow> bool" where
  "keeps_tk g \<longleftrightarrow> (\<forall>s r s'. g s = (r, s') \<longrightarrow> tk_inv s \<longrightarrow>
     tk_inv s' \<and> tk_shares_all s' = tk_shares_all s \<and> (\<forall>u. r = Inr u \<longrightarrow> u_inv (Some u)))"

lemma ensure_keeps: "keeps_tk (ensure_universe api)" "keeps_tk (ensure_bonds api)" "keeps_tk (ensure_etfs api)"
  by (auto simp: keeps_tk_def ensure_universe_def ensure_bonds_def ensure_etfs_def tk_call_def bindW_def tk_inv_def dest: filled_u_inv
      split: option.splits prod.splits sum.splits)

lemma first_hit_spec:
  assumes "first_hit t gs s = (r, s')" "tk_inv s" "\<forall>g \<in> set gs. keeps_tk g"
  shows "tk_inv s' \<and> tk_shares_all s' = tk_shares_all s \<and> (\<forall>m. r = Inr m \<longrightarrow> tm_ticker m = py_strip (py_upper t))"
  using assms
proof (induction t gs s arbitrary: r rule: first_hit.induct)
  case (1 t s)
  then have "r = Inl not_found_error" "s' = s" by simp_all
  with 1(2) show ?case by simp
next
  case (2 t g gs s)
  obtain q s1 where g: "g s = (q, s1)" by fastforce
  have k: "tk_inv s1 \<and> tk_shares_all s1 = tk_shares_all s \<and> (\<forall>u. q = Inr u \<longrightarrow> u_inv (Some u))"
    using 2(4) g 2(3) by (auto simp: keeps_tk_def)
  show ?case
  proof (cases q)
    case (Inr u)
    show ?thesis
    proof (cases "map_of u t")
      case None
      have "first_hit t gs s1 = (r, s')" using 2(2) g Inr None by simp
      from "2.IH" [OF g [symmetric] Inr None this] k 2(4) show ?thesis by simp
    next
      case (Some m)
      then show ?thesis using 2(2) g Inr k by (fastforce simp: u_inv_def dest: map_of_SomeD)
    qed
  qed (use 2(2) g k in auto)
qed

text \<open>
  A ticker that is found is the one asked for, in any case of its letters, and looking one up only
  ever loads the live lists: no lookup fetches the full share universe.
\<close>

theorem get_ticker_spec:
  assumes "get_ticker api t s = (r, s')" "tk_inv s"
  shows "tk_inv s' \<and> tk_shares_all s' = tk_shares_all s \<and>
    (\<forall>m. r = Inr m \<longrightarrow> tm_ticker m \<in> {py_upper t, py_strip (py_upper t)})"
proof (cases "find_cached (py_upper t) (tk_shares_all s)")
  case None
  then have "first_hit (py_upper t) [ensure_universe api, ensure_bonds api, ensure_etfs api] s = (r, s')"
    using assms(1) unfolding get_ticker_def Let_def by simp
  from first_hit_spec [OF this assms(2)] show ?thesis by (simp add: ensure_keeps)
next
  case (Some m)
  then have "tm_ticker m = py_upper t" by (auto simp: find_cached_def find_Some_iff)
  moreover have "r = Inr m" "s' = s" using assms(1) Some unfolding get_ticker_def Let_def by simp_all
  ultimately show ?thesis using assms(2) by simp
qed

text \<open>A broker whose lists do not change.\<close>

definition lists :: "'w tk_api \<Rightarrow> tk_instrument list \<Rightarrow> tk_instrument list \<Rightarrow> tk_instrument list \<Rightarrow> bool" where
  "lists api shares bonds etfs \<longleftrightarrow> (\<forall>w. fst (api_shares api w) = Inr shares \<and> fst (api_bonds api w) = Inr bonds \<and>
     fst (api_etfs api w) = Inr etfs)"

lemma tk_call_fst: "fst (m (tk_world s)) = Inr x \<Longrightarrow> \<exists>w. tk_call m s = (Inr x, s\<lparr>tk_world := w\<rparr>)"
  by (cases "m (tk_world s)") (auto simp: tk_call_def)

lemma ensure_fresh:
  "lists api shares bonds etfs \<Longrightarrow> fill_universe shares = Inr u \<Longrightarrow> tk_universe s = None \<Longrightarrow>
     \<exists>s'. ensure_universe api s = (Inr u, s') \<and> tk_bonds s' = tk_bonds s \<and> tk_etfs s' = tk_etfs s"
  "lists api shares bonds etfs \<Longrightarrow> fill_bonds bonds = Inr u \<Longrightarrow> tk_bonds s = None \<Longrightarrow>
     \<exists>s'. ensure_bonds api s = (Inr u, s') \<and> tk_etfs s' = tk_etfs s"
  "lists api shares bonds etfs \<Longrightarrow> fill_etfs etfs = Inr u \<Longrightarrow> tk_etfs s = None \<Longrightarrow> \<exists>s'. ensure_etfs api s = (Inr u, s')"
  using tk_call_fst [of "api_shares api" s shares] tk_call_fst [of "api_bonds api" s bonds] tk_call_fst [of "api_etfs api" s etfs]
  by (auto simp: ensure_universe_def ensure_bonds_def ensure_etfs_def lists_def)

lemma fill_misses:
  "fill keep meta is [] = Inr u \<Longrightarrow> (\<And>i. i \<in> set is \<Longrightarrow> in_ticker i = t \<Longrightarrow> \<not> keep i) \<Longrightarrow> map_of u t = None"
  using fill_keys [of keep meta "is" "[]" u] by (auto simp: map_of_eq_None_iff)

text \<open>
  A ticker that no live list holds, a delisted share among them, is not found by a loader that was
  just built, although the broker's answer lists it; once the full universe of its class has been
  listed on the same loader, it is found.
\<close>

theorem delisted_found_only_after_listing:
  assumes "lists api shares bonds etfs" "tk_universe s = None" "tk_bonds s = None" "tk_etfs s = None" "tk_shares_all s = []"
    "fill_universe shares = Inr u1" "fill_bonds bonds = Inr u2" "fill_etfs etfs = Inr u3"
    "\<And>i. i \<in> set shares \<Longrightarrow> in_ticker i = py_upper t \<Longrightarrow> \<not> keep_share i"
    "\<And>i. i \<in> set bonds \<Longrightarrow> in_ticker i = py_upper t \<Longrightarrow> \<not> keep_bond i"
    "\<And>i. i \<in> set etfs \<Longrightarrow> in_ticker i = py_upper t \<Longrightarrow> \<not> keep_etf i"
    "fill_shares_all (api_status_name api) (api_date api) cls shares = Inr ms" "m \<in> set ms" "tm_ticker m = py_upper t"
  shows "fst (get_ticker api t s) = Inl not_found_error \<and>
    (\<exists>s1 m'. list_shares_all api cls s = (Inr ms, s1) \<and> get_ticker api t s1 = (Inr m', s1) \<and> tm_ticker m' = py_upper t)"
proof
  obtain s1 where e1: "ensure_universe api s = (Inr u1, s1)" "tk_bonds s1 = None" "tk_etfs s1 = None"
    using ensure_fresh(1) [OF assms(1,6,2)] assms(3,4) by auto
  obtain s2 where e2: "ensure_bonds api s1 = (Inr u2, s2)" "tk_etfs s2 = None"
    using ensure_fresh(2) [OF assms(1,7) e1(2)] e1(3) by auto
  obtain s3 where e3: "ensure_etfs api s2 = (Inr u3, s3)" using ensure_fresh(3) [OF assms(1,8) e2(2)] by blast
  have n: "map_of u1 (py_upper t) = None" "map_of u2 (py_upper t) = None" "map_of u3 (py_upper t) = None"
    by (rule fill_misses [OF assms(6) [unfolded fill_universe_def]], erule (1) assms(9),
        rule fill_misses [OF assms(7) [unfolded fill_bonds_def]], erule (1) assms(10),
        rule fill_misses [OF assms(8) [unfolded fill_etfs_def]], erule (1) assms(11))
  show "fst (get_ticker api t s) = Inl not_found_error"
    using e1 e2 e3 n assms(5) by (simp add: get_ticker_def find_cached_def)
  obtain w where c: "tk_call (api_shares api) s = (Inr shares, s\<lparr>tk_world := w\<rparr>)"
    using tk_call_fst [of "api_shares api" s shares] assms(1) by (auto simp: lists_def)
  let ?s = "s\<lparr>tk_world := w, tk_shares_all := [(cls, ms)]\<rparr>"
  have l: "list_shares_all api cls s = (Inr ms, ?s)"
    using assms(5,12) c by (simp add: list_shares_all_def)
  have "find (\<lambda>m. tm_ticker m = py_upper t) ms \<noteq> None" using assms(13,14) by (auto simp: find_None_iff)
  then obtain m' where "find (\<lambda>m. tm_ticker m = py_upper t) ms = Some m'" by blast
  moreover from this have "tm_ticker m' = py_upper t" by (auto simp: find_Some_iff)
  ultimately have "get_ticker api t ?s = (Inr m', ?s) \<and> tm_ticker m' = py_upper t"
    by (simp add: get_ticker_def find_cached_def)
  with l show "\<exists>s1 m'. list_shares_all api cls s = (Inr ms, s1) \<and> get_ticker api t s1 = (Inr m', s1) \<and> tm_ticker m' = py_upper t"
    by blast
qed


section \<open>A concrete broker\<close>

definition ex_inst :: "string \<Rightarrow> int \<Rightarrow> tk_instrument" where
  "ex_inst t st = \<lparr>in_ticker = t, in_class = ''TQBR'', in_figi = ''BBG1'', in_name = ''A share'', in_lot = 1, in_isin = '''',
     in_currency = ''rub'', in_status = Status st, in_api = True, in_first_day = Day 737000\<rparr>"

definition ex_shares :: "tk_instrument list" where "ex_shares = [ex_inst ''SBER'' 14, ex_inst ''VSMO'' 1]"

definition ex_candle :: candle where
  "ex_candle = \<lparr>cn_time = 737430 * DAY_S, cn_open = (100, 0), cn_high = (100, 0), cn_low = (100, 0), cn_close = (100, 0), cn_volume = 7\<rparr>"

definition ex_api :: "unit tk_api" where
  "ex_api = \<lparr>api_shares = (\<lambda>w. (Inr ex_shares, w)), api_bonds = (\<lambda>w. (Inr [], w)), api_etfs = (\<lambda>w. (Inr [], w)),
     api_candles = (\<lambda>_ a b w. (Inr (served [ex_candle] a b), w)),
     api_status_name = (\<lambda>n. if n = 1 then Some ''NOT_AVAILABLE_FOR_TRADING'' else None), api_date = (\<lambda>_. None)\<rparr>"

definition ex_tk :: "unit tk_loader" where
  "ex_tk = \<lparr>tk_universe = None, tk_bonds = None, tk_etfs = None, tk_shares_all = [], tk_world = ()\<rparr>"

definition ex_tk_meta :: "string \<Rightarrow> bool \<Rightarrow> int option \<Rightarrow> ticker_meta" where
  "ex_tk_meta t gone listed = \<lparr>tm_ticker = t, tm_figi = Some ''BBG1'', tm_name = ''A share'', tm_lot = 1, tm_isin = Some '''',
     tm_currency = ''RUB'', tm_class_code = Some ''TQBR'', tm_delisted = gone, tm_delisted_at = None, tm_listed_at = listed,
     tm_source = Tkf\<rparr>"

lemmas ticker_simps = valid_ticker_def Let_def py_strip_def is_space_def ticker_regex_def ticker_char_def py_upper_def upper_char_def

lemma ex_tickers: "valid_ticker ''SBER'' = Inr ''SBER''" "valid_ticker ''VSMO'' = Inr ''VSMO''"
    "py_upper ''SBER'' = ''SBER''" "py_upper ''VSMO'' = ''VSMO''"
  by (simp_all add: ticker_simps)

lemma ex_universe: "fill_universe ex_shares = Inr [(''SBER'', ex_tk_meta ''SBER'' False None)]"
proof -
  have "keep_share (ex_inst ''SBER'' 14)" "\<not> keep_share (ex_inst ''VSMO'' 1)"
    by (simp_all add: keep_share_def status_live_def status_int_def ex_inst_def)
  moreover have "live_meta ''RUB'' (ex_inst ''SBER'' 14) = Inr (ex_tk_meta ''SBER'' False None)"
    by (simp add: live_meta_def mk_ticker_meta_def ex_inst_def ex_tickers some_nonempty_def ex_tk_meta_def)
  moreover have "in_ticker (ex_inst ''SBER'' 14) = ''SBER''" by (simp add: ex_inst_def)
  ultimately show ?thesis by (simp add: fill_universe_def ex_shares_def)
qed

lemma ex_all: "fill_shares_all (api_status_name ex_api) (api_date ex_api) ''TQBR'' ex_shares =
    Inr [ex_tk_meta ''SBER'' False (Some 737000), ex_tk_meta ''VSMO'' True (Some 737000)]"
proof -
  have d: "status_delisted ''NOT_AVAILABLE_FOR_TRADING''" "\<not> status_delisted ''UNKNOWN''"
    by (simp_all add: status_delisted_def contains_def upt_rec)
  have "share_meta (api_status_name ex_api) (api_date ex_api) (ex_inst ''SBER'' 14) = Inr (ex_tk_meta ''SBER'' False (Some 737000))"
    by (simp add: share_meta_def status_int_def ex_inst_def mk_ticker_meta_def ex_tickers some_nonempty_def ex_tk_meta_def
        listed_day_def ex_api_def d)
  moreover have "share_meta (api_status_name ex_api) (api_date ex_api) (ex_inst ''VSMO'' 1) = Inr (ex_tk_meta ''VSMO'' True (Some 737000))"
    by (simp add: share_meta_def status_int_def ex_inst_def mk_ticker_meta_def ex_tickers some_nonempty_def ex_tk_meta_def
        listed_day_def ex_api_def d)
  moreover have "in_class (ex_inst t n) = ''TQBR''" for t n by (simp add: ex_inst_def)
  ultimately show ?thesis by (simp add: fill_shares_all_def ex_shares_def)
qed

lemma ex_sber_found: "\<exists>s1. get_ticker ex_api ''SBER'' ex_tk = (Inr (ex_tk_meta ''SBER'' False None), s1)"
proof -
  have "\<exists>s1. ensure_universe ex_api ex_tk = (Inr [(''SBER'', ex_tk_meta ''SBER'' False None)], s1)"
    by (simp add: ensure_universe_def tk_call_def bindW_def ex_tk_def ex_api_def ex_universe)
  then show ?thesis by (auto simp: get_ticker_def ex_tickers find_cached_def ex_tk_def)
qed

definition ex_fetched :: ohlcv_row where
  "ex_fetched = \<lparr>r_ticker = ''SBER'', r_ts = 737430, r_open = 100, r_high = 100, r_low = 100, r_close = 100, r_volume = 7,
     r_adj_close = 100, r_source = Tkf\<rparr>"

lemma ex_candle_row: "candle_to_row ''SBER'' ex_candle = Inr ex_fetched"
proof -
  have "money_to_decimal (100, 0) = 100"
    using drnd_of_int [of 100] by (simp add: money_to_decimal_def dadd_def ddiv_def)
  then show ?thesis
    by (simp add: candle_to_row_def ex_candle_def DAY_S_def mk_row_def row_nonneg_def ohlc_consistent_def ex_tickers ex_fetched_def)
qed


lemma ex_fetch: "\<exists>s'. fetch_ohlcv ex_api ''SBER'' 737425 737435 ex_tk = (Inr [ex_fetched], s')"
proof -
  obtain s1 where g: "get_ticker ex_api ''SBER'' ex_tk = (Inr (ex_tk_meta ''SBER'' False None), s1)" using ex_sber_found ..
  have w: "year_chunks (737425 * DAY_S) (737435 * DAY_S + 86399) = [(737425 * DAY_S, 737435 * DAY_S + 86399)]"
    by (simp add: chunks_year_step chunks_year_end DAY_S_def YEAR_S_def)
  have s: "served [ex_candle] (737425 * DAY_S) (737435 * DAY_S + 86399) = [ex_candle]"
    by (simp add: served_def ex_candle_def DAY_S_def)
  have f: "tm_figi (ex_tk_meta ''SBER'' False None) = Some ''BBG1''" by (simp add: ex_tk_meta_def)
  have c: "tk_call (api_candles ex_api ''BBG1'' a b) s1 = (Inr (served [ex_candle] a b), s1)" for a b
    by (simp add: tk_call_def ex_api_def)
  show ?thesis by (simp add: fetch_ohlcv_def g f w c s ex_tickers ex_candle_row bindW_def)
qed

theorem fetched_rows_valid_witness: "wf_row ex_fetched \<and> r_source ex_fetched = Tkf"
proof -
  obtain s' where "fetch_ohlcv ex_api ''SBER'' 737425 737435 ex_tk = (Inr [ex_fetched], s')" using ex_fetch ..
  from fetched_rows_valid [OF this] show ?thesis by simp
qed

theorem live_universe_exact_witness: "set (map fst [(''SBER'', ex_tk_meta ''SBER'' False None)]) = {''SBER''}"
proof -
  have "{i \<in> set ex_shares. in_class i = ''TQBR'' \<and> in_api i \<and>
      in_status i \<in> {Status 5, Status 14, Status 15, Status 0, No_Status, Odd_Status}} = {ex_inst ''SBER'' 14}"
    by (auto simp: ex_shares_def ex_inst_def)
  moreover have "in_ticker (ex_inst ''SBER'' 14) = ''SBER''" by (simp add: ex_inst_def)
  ultimately show ?thesis using live_universe_exact [OF ex_universe] by simp
qed

theorem get_ticker_spec_witness: "tk_shares_all (snd (get_ticker ex_api ''SBER'' ex_tk)) = []"
  using get_ticker_spec [of ex_api "''SBER''" ex_tk, OF prod.collapse [symmetric]]
  by (simp add: tk_inv_def u_inv_def ex_tk_def)

theorem delisted_found_only_after_listing_witness: "fst (get_ticker ex_api ''VSMO'' ex_tk) = Inl not_found_error"
proof -
  have "lists ex_api ex_shares [] []" by (simp add: lists_def ex_api_def)
  moreover have "\<not> keep_share i" if "i \<in> set ex_shares" "in_ticker i = py_upper ''VSMO''" for i
    using that by (auto simp: ex_shares_def ex_inst_def keep_share_def status_live_def status_int_def ex_tickers)
  moreover have "tm_ticker (ex_tk_meta ''VSMO'' True (Some 737000)) = py_upper ''VSMO''" by (simp add: ex_tk_meta_def ex_tickers)
  ultimately show ?thesis
    using delisted_found_only_after_listing [of ex_api ex_shares "[]" "[]" ex_tk _ "[]" "[]" "''VSMO''" "''TQBR''" _
        "ex_tk_meta ''VSMO'' True (Some 737000)", OF _ _ _ _ _ ex_universe _ _ _ _ _ ex_all]
    by (simp add: ex_tk_def fill_bonds_def fill_etfs_def)
qed

end
