(* ===== verification/DailyJobs.thy ===== *)
theory DailyJobs
  imports Backfill Quality
begin

text \<open>
  \<open>scripts/daily_sync.py\<close> and \<open>scripts/daily_incremental.py\<close>: the two jobs that keep the
  bars current, and the health row of \<open>src/data/pg_store.py\<close> the watchdog of
  \<open>src/main.py\<close> reads. The loader is a parameter (the models of \<open>TinkoffLoader\<close> and
  \<open>MoexLoader\<close> are instances), as is the chain of the incremental job; days are ordinals.
\<close>

section \<open>The health row\<close>

record health =
  hl_last_ok :: "int option"
  hl_status :: string
  hl_bars :: nat
  hl_tickers :: int
  hl_error :: "string option"

text \<open>The row the schema creates.\<close>

definition never_run :: health where
  "never_run = \<lparr>hl_last_ok = None, hl_status = ''never_run'', hl_bars = 0, hl_tickers = 0, hl_error = None\<rparr>"

definition clip_error :: "string \<Rightarrow> string" where
  "clip_error s = (if 2000 < length s then take 1997 s @ ''...'' else s)"

text \<open>The first value of the \<open>VALUES\<close> list of the statement names a column of the table. \<open>visible\<close> is
  whether the database lets a \<open>VALUES\<close> list of an \<open>INSERT\<close> read the columns of its target;
  PostgreSQL does not and refuses the statement.\<close>

definition record_daily_sync_run ::
  "bool \<Rightarrow> int \<Rightarrow> string \<Rightarrow> nat \<Rightarrow> int \<Rightarrow> string option \<Rightarrow> health \<Rightarrow> unit result \<times> health" where
  "record_daily_sync_run visible now status bars tickers err h =
     (if \<not> visible then (Inl pg_error, h)
      else if status \<notin> {''ok'', ''failed'', ''timeout'', ''never_run''} then (Inl pg_error, h)
      else (Inr (), \<lparr>hl_last_ok = (if status = ''ok'' then Some now else hl_last_ok h), hl_status = status,
              hl_bars = bars, hl_tickers = tickers, hl_error = map_option clip_error err\<rparr>))"

definition last_daily_sync_run_at :: "health \<Rightarrow> int option" where
  "last_daily_sync_run_at h = hl_last_ok h"

section \<open>The daily sync\<close>

datatype sync_mode = Daily | Weekly | Full | Whole_Universe

record sync_args =
  sa_days :: int
  sa_backfill :: int
  sa_universe :: "string list option"
  sa_dsn :: bool
  sa_source :: source_type
  sa_mode :: sync_mode
  sa_gate :: bool
  sa_max :: int
  sa_min_bars :: int

definition LIQUID_UNIVERSE :: "string list" where
  "LIQUID_UNIVERSE = [''SBER'', ''GAZP'', ''LKOH'', ''GMKN'', ''NVTK'', ''ROSN'', ''TATN'', ''MGNT'', ''MOEX'', ''ALRS'', ''MTSS'',
     ''SNGS'', ''NLMK'', ''CHMF'', ''YDEX'', ''OZON'', ''VKCO'', ''SBERP'', ''BANE'', ''BSPB'']"

text \<open>First and last day, and the tickers, \<open>None\<close> when the loader lists them.\<close>

definition sync_window :: "sync_args \<Rightarrow> int \<Rightarrow> int \<times> int \<times> string list option" where
  "sync_window args today =
     (let named = (case sa_universe args of Some (t # ts) \<Rightarrow> t # ts | _ \<Rightarrow> LIQUID_UNIVERSE)
      in if 0 < sa_backfill args then (today - sa_backfill args, today, Some named)
         else case sa_mode args of
             Full \<Rightarrow> (today - 5 * 365, today, None)
           | Weekly \<Rightarrow> (today - 7, today, Some named)
           | Whole_Universe \<Rightarrow> (today - sa_days args, today, None)
           | Daily \<Rightarrow> (today - sa_days args, today, Some named))"

text \<open>The loader (\<open>sl_built\<close>: its constructor succeeds), the numeric library of the gate and the moment
  the gate runs, and the text of a run's error.\<close>

record 'w sync_lib =
  sl_built :: bool
  sl_tickers :: "'w \<Rightarrow> ticker_meta list result \<times> 'w"
  sl_fetch :: "string \<Rightarrow> int \<Rightarrow> int \<Rightarrow> 'w \<Rightarrow> ohlcv_row list result \<times> 'w"
  sl_math :: math_lib
  sl_now :: int
  sl_atomic :: bool
  sl_visible :: bool
  sl_error_text :: "nat \<Rightarrow> py_exc \<Rightarrow> string"

definition gate_bar :: "ohlcv_row \<Rightarrow> bar result" where
  "gate_bar r = mk_bar (r_ts r) (float_of (r_open r)) (float_of (r_high r)) (float_of (r_low r)) (float_of (r_close r))
     (dint (r_volume r))"

definition gate_refuses :: "'w sync_lib \<Rightarrow> string \<Rightarrow> ohlcv_row list \<Rightarrow> bool result" where
  "gate_refuses lib symbol bars =
     bindR (map_result gate_bar bars) (\<lambda>bs.
     bindR (check_ingestion (sl_math lib) default_params (sl_now lib) symbol None bs) (\<lambda>r.
       Inr (worst_severity r = Some CRITICAL \<or> worst_severity r = Some HIGH)))"

definition sync_meta :: "sync_args \<Rightarrow> (string \<times> ticker_meta) list \<Rightarrow> string \<Rightarrow> ticker_meta result" where
  "sync_meta args cache symbol =
     (case map_of cache (py_upper symbol) of Some m \<Rightarrow> Inr m
      | None \<Rightarrow> mk_ticker_meta \<lparr>tm_ticker = symbol, tm_figi = None, tm_name = symbol, tm_lot = 1, tm_isin = None,
          tm_currency = ''RUB'', tm_class_code = None, tm_delisted = False, tm_delisted_at = None, tm_listed_at = None,
          tm_source = sa_source args\<rparr>)"

definition on_net :: "('w \<Rightarrow> 'x result \<times> 'w) \<Rightarrow> 'w \<times> pg_db \<Rightarrow> 'x result \<times> 'w \<times> pg_db" where
  "on_net m = (\<lambda>(w, d). case m w of (r, w) \<Rightarrow> (r, (w, d)))"

definition on_db :: "(pg_db \<Rightarrow> 'x result \<times> pg_db) \<Rightarrow> 'w \<times> pg_db \<Rightarrow> 'x result \<times> 'w \<times> pg_db" where
  "on_db m = (\<lambda>(w, d). case m d of (r, d) \<Rightarrow> (r, (w, d)))"

definition flip_complete :: "int \<Rightarrow> int \<Rightarrow> string \<Rightarrow> pg_db \<Rightarrow> unit result \<times> pg_db" where
  "flip_complete today min_bars symbol d =
     (Inr (), if is_complete today min_bars symbol d then pg_mark_backfill_complete symbol True d else d)"

definition sync_one ::
  "'w sync_lib \<Rightarrow> sync_args \<Rightarrow> int \<Rightarrow> int \<Rightarrow> int \<Rightarrow> ticker_meta \<Rightarrow> string \<Rightarrow> 'w \<times> pg_db \<Rightarrow> nat result \<times> 'w \<times> pg_db" where
  "sync_one lib args today start end meta symbol =
     bindW (on_net (sl_fetch lib symbol start end)) (\<lambda>bars.
       if bars = [] then liftW (Inr 0)
       else bindW (on_db (pg_upsert_tickers (sl_atomic lib) [meta])) (\<lambda>_.
            bindW (liftW (if sa_gate args \<and> sa_source args = Tkf then gate_refuses lib symbol bars else Inr False)) (\<lambda>refused.
              if refused then liftW (Inr 0)
              else bindW (on_db (pg_upsert_ohlcv (sl_atomic lib) bars)) (\<lambda>written.
                   bindW (on_db (flip_complete today (sa_min_bars args) symbol)) (\<lambda>_. liftW (Inr written))))))"

record 'w sync_state =
  sy_at :: "'w \<times> pg_db"
  sy_total :: nat
  sy_errors :: "(string \<times> py_exc) list"

text \<open>The placeholder of an unknown ticker is built outside the \<open>try\<close>: its exception ends the run.\<close>

fun sync_loop ::
  "'w sync_lib \<Rightarrow> sync_args \<Rightarrow> int \<Rightarrow> int \<Rightarrow> int \<Rightarrow> (string \<times> ticker_meta) list \<Rightarrow> string list \<Rightarrow> 'w sync_state \<Rightarrow>
   py_exc option \<times> 'w sync_state" where
  "sync_loop lib args today start end cache [] s = (None, s)"
| "sync_loop lib args today start end cache (t # ts) s =
     (case sync_meta args cache t of
        Inl e \<Rightarrow> (Some e, s)
      | Inr meta \<Rightarrow>
          (case sync_one lib args today start end meta t (sy_at s) of
             (Inr n, x) \<Rightarrow> sync_loop lib args today start end cache ts (s\<lparr>sy_at := x, sy_total := sy_total s + n\<rparr>)
           | (Inl e, x) \<Rightarrow> sync_loop lib args today start end cache ts (s\<lparr>sy_at := x, sy_errors := sy_errors s @ [(t, e)]\<rparr>)))"

text \<open>A failure to write the row is logged only.\<close>

definition stamp_health :: "'w sync_lib \<Rightarrow> int \<Rightarrow> nat \<Rightarrow> 'w sync_state \<Rightarrow> health \<Rightarrow> health" where
  "stamp_health lib now n s h =
     snd (case sy_errors s of
        [] \<Rightarrow> record_daily_sync_run (sl_visible lib) now ''ok'' (sy_total s) (int n) None h
      | (t, e) # es \<Rightarrow> record_daily_sync_run (sl_visible lib) now ''failed'' (sy_total s) (int n - int (length ((t, e) # es)))
          (Some (sl_error_text lib (length ((t, e) # es)) e)) h)"

definition resolve_symbols ::
  "'w sync_lib \<Rightarrow> string list option \<Rightarrow> 'w \<times> pg_db \<Rightarrow> string list result \<times> 'w \<times> pg_db" where
  "resolve_symbols lib named =
     (case named of Some ts \<Rightarrow> liftW (Inr ts)
      | None \<Rightarrow> bindW (on_net (sl_tickers lib)) (\<lambda>ms. liftW (Inr (map tm_ticker ms))))"

text \<open>The exit code or the exception that ends the script, the database and the health row.\<close>

definition sync_main ::
  "'w sync_lib \<Rightarrow> sync_args \<Rightarrow> int \<Rightarrow> int \<Rightarrow> 'w \<Rightarrow> pg_db \<times> health \<Rightarrow> int result \<times> pg_db \<times> health" where
  "sync_main lib args today now w = (\<lambda>(d, h).
     if \<not> sa_dsn args then (Inr 1, d, h)
     else case sync_window args today of (start, end, named) \<Rightarrow>
       if sa_source args = Tkf \<and> \<not> sl_built lib then (Inr 2, d, h)
       else (case resolve_symbols lib named (w, d) of
           (Inl e, w, d) \<Rightarrow> (Inr 2, d, h)
         | (Inr symbols, w, d) \<Rightarrow>
             (let symbols = (if 0 < sa_max args then take (nat (sa_max args)) symbols else symbols)
              in case on_net (sl_tickers lib) (w, d) of
                   (Inl e, w, d) \<Rightarrow> (Inr 2, d, h)
                 | (Inr metas, x) \<Rightarrow>
                     (case sync_loop lib args today start end (metas_map metas) symbols
                         \<lparr>sy_at = x, sy_total = 0, sy_errors = []\<rparr> of
                        (Some e, s) \<Rightarrow> (Inl e, snd (sy_at s), h)
                      | (None, s) \<Rightarrow>
                          (Inr (if sy_errors s = [] then 0 else 2), snd (sy_at s), stamp_health lib now (length symbols) s h)))))"

section \<open>The incremental refresh\<close>

definition closed_bar_window :: "int \<Rightarrow> int option \<Rightarrow> int \<times> int" where
  "closed_bar_window today latest = (case latest of None \<Rightarrow> (today - 1, today - 1) | Some t \<Rightarrow> (t + 1, today - 1))"

record inc_args =
  ia_dsn :: bool
  ia_dry :: bool
  ia_max :: int
  ia_cap :: int

text \<open>A fresh loader for every ticker; \<open>chain w\<close> is the chain as it can be built now, without the broker
  when its constructor fails.\<close>

definition fetch_with_fallback ::
  "('w \<Rightarrow> (ohlcv_row, 'a, ticker_meta, 'w) chain) \<Rightarrow> string \<Rightarrow> int \<Rightarrow> int \<Rightarrow> 'w \<Rightarrow> ohlcv_row list \<times> 'w" where
  "fetch_with_fallback chain ticker start end w =
     (case iter_ohlcv (chain w) ticker start end (fresh_loader w) of (rows, l) \<Rightarrow> (rows, world l))"

record 'w inc_state =
  ic_at :: "'w \<times> pg_db"
  ic_inserted :: nat
  ic_skipped :: nat
  ic_errors :: "string list"

definition inc_step ::
  "('w \<Rightarrow> (ohlcv_row, 'a, ticker_meta, 'w) chain) \<Rightarrow> bool \<Rightarrow> inc_args \<Rightarrow> int \<Rightarrow> string \<Rightarrow> 'w inc_state \<Rightarrow> 'w inc_state" where
  "inc_step chain atomic args today ticker s =
     (case ic_at s of (w, d) \<Rightarrow>
      case closed_bar_window today (pg_latest_ts ticker d) of (start, end) \<Rightarrow>
        if end < start then s\<lparr>ic_skipped := ic_skipped s + 1\<rparr>
        else if ia_cap args \<noteq> 0 \<and> ia_cap args < end - start + 1 then s\<lparr>ic_skipped := ic_skipped s + 1\<rparr>
        else if ia_dry args then s
        else case fetch_with_fallback chain ticker start end w of (bars, w) \<Rightarrow>
          (let s = s\<lparr>ic_at := (w, d)\<rparr>; bars = filter (\<lambda>b. r_ts b \<le> end) bars
           in if bars = [] then s\<lparr>ic_skipped := ic_skipped s + 1\<rparr>
              else case pg_upsert_ohlcv atomic bars d of
                  (Inr n, d) \<Rightarrow> s\<lparr>ic_at := (w, d), ic_inserted := ic_inserted s + n\<rparr>
                | (Inl e, d) \<Rightarrow> s\<lparr>ic_at := (w, d), ic_errors := ic_errors s @ [ticker]\<rparr>))"

definition inc_main ::
  "('w \<Rightarrow> (ohlcv_row, 'a, ticker_meta, 'w) chain) \<Rightarrow> bool \<Rightarrow> inc_args \<Rightarrow> int \<Rightarrow> 'w \<Rightarrow> pg_db \<Rightarrow> int result \<times> pg_db" where
  "inc_main chain atomic args today w d =
     (if \<not> ia_dsn args then (Inr 1, d)
      else case pg_list_complete_universe d of
          Inl e \<Rightarrow> (Inl e, d)
        | Inr metas \<Rightarrow>
            (let metas = (if 0 < ia_max args then take (nat (ia_max args)) metas else metas);
                 s = fold (inc_step chain atomic args today) (map tm_ticker metas)
                   \<lparr>ic_at = (w, d), ic_inserted = 0, ic_skipped = 0, ic_errors = []\<rparr>
             in (Inr (if ic_errors s = [] then 0 else 1), snd (ic_at s))))"


section \<open>Bars are only added\<close>

definition added :: "(ohlcv_row \<Rightarrow> bool) \<Rightarrow> pg_db \<Rightarrow> pg_db \<Rightarrow> bool" where
  "added P d d' \<longleftrightarrow> (pg_ok d \<longrightarrow> pg_ok d') \<and> map_of (p_ohlcv d) \<subseteq>\<^sub>m map_of (p_ohlcv d') \<and>
     (\<forall>k b. map_of (p_ohlcv d') k = Some b \<longrightarrow> map_of (p_ohlcv d) k = Some b \<or>
        (\<exists>r. P r \<and> k = row_key r \<and> b = pg_column (row_bar_of r)))"

lemma added_refl: "added P d d"
  by (simp add: added_def)

lemma added_trans [trans]: "added P a b \<Longrightarrow> added P b c \<Longrightarrow> added P a c"
  unfolding added_def using map_le_trans by blast

lemma added_same_bars: "p_ohlcv d' = p_ohlcv d \<Longrightarrow> (pg_ok d \<longrightarrow> pg_ok d') \<Longrightarrow> added P d d'"
  by (simp add: added_def)

lemma execute_added:
  assumes "execute_many pg_insert_bar rows d = (b, d')" "\<forall>r \<in> set rows. P r"
  shows "added P d d'"
  using assms
proof (induction rows arbitrary: d)
  case (Cons r rows)
  show ?case
  proof (cases "pg_insert_bar r d")
    case (Some d1)
    have "added P d d1"
      using pg_insert_bar_bars [OF Some] Cons.prems(2) keep_first_mono [of "map_of (p_ohlcv d)" pg_column r]
        pg_insert_bar_ok [OF _ Some]
      by (auto simp: added_def keep_first_def split: option.splits if_splits)
    also have "added P d1 d'" using Cons Some by simp
    finally show ?thesis .
  qed (use Cons.prems added_refl in auto)
qed (simp add: added_refl)

lemma upsert_added:
  assumes "pg_upsert_ohlcv atomic rows d = (r, d')" "\<forall>r \<in> set rows. P r"
  shows "added P d d'"
proof -
  obtain b d1 where x: "execute_many pg_insert_bar rows d = (b, d1)" "d' = d \<or> d' = d1"
    using pg_upsert_cases [OF assms(1)] by metis
  then show ?thesis using execute_added [OF x(1) assms(2)] added_refl by auto
qed

lemma flip_added: "flip_complete today m t d = (r, d') \<Longrightarrow> added P d d'"
  using mark_passed_on [of d t True] by (auto simp: flip_complete_def added_same_bars mark_universe(3) passed_on_def)

lemma tickers_added: "pg_upsert_tickers atomic ms d = (r, d') \<Longrightarrow> added P d d'"
  using upsert_tickers_keeps [of atomic ms d r d'] by (auto simp: added_same_bars)


text \<open>The relation on the world and the database that every step of the sync keeps.\<close>

definition kept :: "'w \<times> pg_db \<Rightarrow> 'w \<times> pg_db \<Rightarrow> bool" where
  "kept x y \<longleftrightarrow> added (\<lambda>_. True) (snd x) (snd y)"

lemma kept_order: "reflp kept" "transp kept"
  by (auto simp: kept_def reflp_def transp_def added_refl intro: added_trans)

lemma kept_refl: "kept x x"
  by (simp add: kept_def added_refl)

lemma net_keeps: "keepsW kept (on_net m)"
  by (auto simp: keepsW_def kept_def on_net_def added_refl split: prod.splits)

lemma db_keeps: "(\<And>d r d'. m d = (r, d') \<Longrightarrow> added (\<lambda>_. True) d d') \<Longrightarrow> keepsW kept (on_db m)"
  by (auto simp: keepsW_def kept_def on_db_def split: prod.splits)

lemma if_keeps: "keepsW R a \<Longrightarrow> keepsW R b \<Longrightarrow> keepsW R (if c then a else b)"
  by simp

lemma sync_one_keeps: "keepsW kept (sync_one lib args today start end meta symbol)"
  unfolding sync_one_def
  by (intro keepsW_bind net_keeps db_keeps if_keeps kept_order keepsW_pure)
    (auto intro: upsert_added flip_added tickers_added)

lemma sync_loop_keeps: "sync_loop lib args today start end cache ts s = (e, s') \<Longrightarrow> kept (sy_at s) (sy_at s')"
proof (induction ts arbitrary: s)
  case (Cons t ts)
  show ?case
  proof (cases "sync_meta args cache t")
    case (Inr meta)
    obtain r x where o: "sync_one lib args today start end meta t (sy_at s) = (r, x)" by (metis surj_pair)
    have "kept (sy_at s) x" by (rule keepsWD [OF sync_one_keeps o])
    moreover have "kept x (sy_at s')" using Cons Inr o by (cases r) (fastforce dest: Cons.IH)+
    ultimately show ?thesis by (rule transpD [OF kept_order(2)])
  qed (use Cons.prems in \<open>auto simp: kept_refl\<close>)
qed (auto simp: kept_refl)

lemma resolve_symbols_keeps: "resolve_symbols lib named x = (r, y) \<Longrightarrow> snd y = snd x"
  by (cases x) (auto simp: resolve_symbols_def bindW_def on_net_def split: option.splits prod.splits sum.splits)

text \<open>A run ends before its loop, or is the loop.\<close>

lemma sync_main_cases:
  assumes "sync_main lib args today now w (d, h) = (r, d', h')"
  obtains "d' = d" "h' = h" "r = Inr 2 \<or> r = Inr 1 \<and> \<not> sa_dsn args"
  | symbols start "end" cache x e s where "snd x = d"
      "sync_loop lib args today start end cache symbols \<lparr>sy_at = x, sy_total = 0, sy_errors = []\<rparr> = (e, s)" "d' = snd (sy_at s)"
      "e = None \<longrightarrow> r = Inr (if sy_errors s = [] then 0 else 2) \<and> h' = stamp_health lib now (length symbols) s h"
      "\<forall>y. e = Some y \<longrightarrow> r = Inl y \<and> h' = h" "end = today" "fst (sync_window args today) = start"
      "\<forall>ts. snd (snd (sync_window args today)) = Some ts \<and> sa_max args \<le> 0 \<longrightarrow> symbols = ts"
proof -
  obtain start "end" named where wd: "sync_window args today = (start, end, named)" by (metis prod_cases3)
  show ?thesis
  proof (cases "\<not> sa_dsn args \<or> sa_source args = Tkf \<and> \<not> sl_built lib")
    case True
    then have "d' = d \<and> h' = h \<and> (r = Inr 2 \<or> r = Inr 1 \<and> \<not> sa_dsn args)"
      using assms wd unfolding sync_main_def by (cases "sa_dsn args") simp_all
    then show ?thesis using that(1) by blast
  next
  case False
  have e: "end = today" using wd by (auto simp: sync_window_def Let_def split: if_splits sync_mode.splits)
  obtain q w1 d1 where q: "resolve_symbols lib named (w, d) = (q, w1, d1)" by (metis prod_cases3)
  have d1: "d1 = d" using resolve_symbols_keeps [OF q] by simp
  show ?thesis
  proof (cases q)
    case (Inl y)
    then show ?thesis using assms that(1) False wd q d1 by (auto simp: sync_main_def)
  next
    case (Inr symbols)
    let ?symbols = "if 0 < sa_max args then take (nat (sa_max args)) symbols else symbols"
    obtain m x where m: "on_net (sl_tickers lib) (w1, d1) = (m, x)" by (metis surj_pair)
    have x: "snd x = d" using m d1 by (auto simp: on_net_def split: prod.splits)
    show ?thesis
    proof (cases m)
      case (Inl y)
      then show ?thesis using assms that(1) False wd q Inr m x by (cases x) (auto simp: sync_main_def)
    next
      case mi: (Inr metas)
      obtain ex s where l: "sync_loop lib args today start end (metas_map metas) ?symbols
          \<lparr>sy_at = x, sy_total = 0, sy_errors = []\<rparr> = (ex, s)" by fastforce
      have n: "\<forall>ts. named = Some ts \<and> sa_max args \<le> 0 \<longrightarrow> ?symbols = ts"
        using q Inr by (auto simp: resolve_symbols_def)
      show ?thesis
        using assms False wd q Inr m mi l n
        by (intro that(2) [OF x l _ _ _ e]) (auto simp: sync_main_def Let_def split: option.splits)
    qed
  qed
  qed
qed


lemma inc_step_added:
  "added (\<lambda>r. r_ts r < today) (snd (ic_at s)) (snd (ic_at (inc_step chain atomic args today t s)))"
proof -
  obtain w d where s: "ic_at s = (w, d)" by fastforce
  obtain a b where win: "closed_bar_window today (pg_latest_ts t d) = (a, b)" by fastforce
  have b: "b < today" using win by (auto simp: closed_bar_window_def split: option.splits)
  obtain bars w1 where f: "fetch_with_fallback chain t a b w = (bars, w1)" by fastforce
  obtain r d1 where u: "pg_upsert_ohlcv atomic (filter (\<lambda>x. r_ts x \<le> b) bars) d = (r, d1)" by fastforce
  have "added (\<lambda>r. r_ts r < today) d d1"
    by (rule upsert_added [OF u]) (use b in auto)
  then show ?thesis
    using s win f u by (auto simp: inc_step_def Let_def added_refl split: sum.splits)
qed

lemma inc_fold_added:
  "added (\<lambda>r. r_ts r < today) (snd (ic_at s)) (snd (ic_at (fold (inc_step chain atomic args today) ts s)))"
proof (induction ts arbitrary: s)
  case (Cons t ts)
  have "added (\<lambda>r. r_ts r < today) (snd (ic_at s)) (snd (ic_at (inc_step chain atomic args today t s)))"
    by (rule inc_step_added)
  also note Cons.IH [of "inc_step chain atomic args today t s"]
  finally show ?case by simp
qed (simp add: added_refl)

text \<open>
  C32. The incremental job never stores a bar of the current day: whatever the sources answer, every bar
  it adds is dated before today, no stored bar is changed, and the database stays consistent.
\<close>

theorem incremental_adds_closed_bars:
  assumes "inc_main chain atomic args today w d = (r, d')" "pg_ok d"
  shows "pg_ok d' \<and> map_of (p_ohlcv d) \<subseteq>\<^sub>m map_of (p_ohlcv d') \<and>
    (\<forall>(t, ts, src) \<in> dom (map_of (p_ohlcv d')). (t, ts, src) \<in> dom (map_of (p_ohlcv d)) \<or> ts < today)"
proof -
  have "added (\<lambda>r. r_ts r < today) d d'"
    using assms(1) inc_fold_added [of today "\<lparr>ic_at = (w, d), ic_inserted = 0, ic_skipped = 0, ic_errors = []\<rparr>" chain atomic args]
    by (auto simp: inc_main_def Let_def added_refl split: if_splits sum.splits)
  then show ?thesis using assms(2) by (force simp: added_def row_key_def)
qed

text \<open>On a day when every complete ticker is current, the job asks no source for anything.\<close>

lemma inc_step_current: "pg_latest_ts t (snd (ic_at s)) = Some (today - 1) \<Longrightarrow>
    inc_step chain atomic args today t s = s\<lparr>ic_skipped := ic_skipped s + 1\<rparr>"
  by (cases "ic_at s") (simp add: inc_step_def closed_bar_window_def)

lemma inc_fold_current:
  "(\<And>t. t \<in> set ts \<Longrightarrow> pg_latest_ts t (snd (ic_at s)) = Some (today - 1)) \<Longrightarrow>
   \<exists>n. fold (inc_step chain atomic args today) ts s = s\<lparr>ic_skipped := n\<rparr>"
proof (induction ts arbitrary: s)
  case (Cons t ts)
  have "\<exists>n. fold (inc_step chain atomic args today) ts (s\<lparr>ic_skipped := ic_skipped s + 1\<rparr>) = s\<lparr>ic_skipped := ic_skipped s + 1, ic_skipped := n\<rparr>"
    by (rule Cons.IH) (simp add: Cons.prems)
  then show ?case by (simp add: inc_step_current Cons.prems)
next
  case Nil
  show ?case by (rule exI [of _ "ic_skipped s"]) simp
qed

theorem current_store_needs_nothing:
  assumes "ia_dsn args" "pg_list_complete_universe d = Inr metas"
    "\<And>m. m \<in> set metas \<Longrightarrow> pg_latest_ts (tm_ticker m) d = Some (today - 1)"
  shows "inc_main chain atomic args today w d = (Inr 0, d)"
proof -
  let ?ts = "map tm_ticker (if 0 < ia_max args then take (nat (ia_max args)) metas else metas)"
  let ?s = "\<lparr>ic_at = (w, d), ic_inserted = 0, ic_skipped = 0, ic_errors = []\<rparr>"
  have "\<And>t. t \<in> set ?ts \<Longrightarrow> pg_latest_ts t (snd (ic_at ?s)) = Some (today - 1)"
    using assms(3) by (auto dest: in_set_takeD split: if_splits)
  from inc_fold_current [OF this] obtain n where "fold (inc_step chain atomic args today) ?ts ?s = ?s\<lparr>ic_skipped := n\<rparr>"
    by blast
  then show ?thesis using assms(1,2) by (simp add: inc_main_def Let_def)
qed

section \<open>The two jobs together\<close>

datatype 'w sync_job =
    Sync "'w sync_lib" sync_args int int 'w
  | Incremental "'w \<Rightarrow> (ohlcv_row, unit, ticker_meta, 'w) chain" bool inc_args int 'w

fun run_job :: "'w sync_job \<Rightarrow> pg_db \<times> health \<Rightarrow> pg_db \<times> health" where
  "run_job (Sync lib args today now w) x = snd (sync_main lib args today now w x)"
| "run_job (Incremental chain atomic args today w) (d, h) = (snd (inc_main chain atomic args today w d), h)"

lemma added_weaken: "added P d d' \<Longrightarrow> added (\<lambda>_. True) d d'"
  unfolding added_def by blast

lemma run_job_added: "added (\<lambda>_. True) (fst x) (fst (run_job j x))"
proof (cases j)
  case (Sync lib args today now w)
  obtain d h where x: "x = (d, h)" by fastforce
  obtain r d' h' where m: "sync_main lib args today now w (d, h) = (r, d', h')" by (metis prod_cases3)
  have "added (\<lambda>_. True) d d'"
  proof (cases rule: sync_main_cases [OF m])
    case (2 symbols start "end" cache y e s)
    then show ?thesis using sync_loop_keeps [OF 2(2)] by (simp add: kept_def)
  qed (simp add: added_refl)
  then show ?thesis by (simp add: Sync x m)
next
  case (Incremental chain atomic args today w)
  then show ?thesis
    using added_weaken [OF inc_fold_added [of today "\<lparr>ic_at = (w, fst x), ic_inserted = 0, ic_skipped = 0, ic_errors = []\<rparr>" chain atomic args]]
    by (cases x) (auto simp: inc_main_def Let_def added_refl split: sum.splits)
qed

lemma window_end: "fst (snd (sync_window args today)) = today"
  by (auto simp: sync_window_def Let_def split: sync_mode.splits)

text \<open>
  The first bar stored for a day is final: no later sequence of runs of the two jobs, whatever their
  arguments and the answers of their sources, changes it. The daily sync asks for the current day and
  stores what it gets, so the values a session had at the time of the run stay for ever.
\<close>

theorem first_bar_is_final:
  assumes "map_of (p_ohlcv d) k = Some b"
  shows "map_of (p_ohlcv (fst (fold run_job js (d, h)))) k = Some b \<and> fst (snd (sync_window args today)) = today"
proof
  have "added (\<lambda>_. True) (fst x) (fst (fold run_job js x))" for x
  proof (induction js arbitrary: x)
    case (Cons j js)
    show ?case using added_trans [OF run_job_added Cons.IH] by simp
  qed (simp add: added_refl)
  from this [of "(d, h)"] show "map_of (p_ohlcv (fst (fold run_job js (d, h)))) k = Some b"
    using assms unfolding added_def map_le_def by (metis domI fst_conv)
  show "fst (snd (sync_window args today)) = today" by (rule window_end)
qed


section \<open>The health row and the watchdog\<close>

definition refused_job :: "'w sync_job \<Rightarrow> bool" where
  "refused_job j = (case j of Sync lib args today now w \<Rightarrow> \<not> sl_visible lib | Incremental chain atomic args today w \<Rightarrow> True)"

text \<open>
  Where the database rejects the statement, as PostgreSQL does, no run ever stamps the health row,
  however many succeed; a container that is up for a day is then told to restart by the watchdog
  although every sync worked.
\<close>

theorem watchdog_restarts_healthy_bot:
  assumes "list_all refused_job js"
  shows "snd (fold run_job js (d, h)) = h \<and>
    (24 * 3600 \<le> u \<longrightarrow> watchdog (Inr ()) (Inr (last_daily_sync_run_at (snd (fold run_job js (d, never_run))))) (Inr u) True t = Restart)"
proof
  have one: "snd (run_job j x) = snd x" if a: "refused_job j" for j and x :: "pg_db \<times> health"
  proof (cases j)
    case (Sync lib args today now w)
    obtain d h where x: "x = (d, h)" by fastforce
    obtain r d' h' where m: "sync_main lib args today now w (d, h) = (r, d', h')" by (metis prod_cases3)
    have "stamp_health lib now n s h = h" for n s
      using a Sync by (simp add: refused_job_def stamp_health_def record_daily_sync_run_def split: list.splits prod.splits)
    have "h' = h"
    proof (cases rule: sync_main_cases [OF m])
      case (2 symbols start "end" cache y e s)
      then show ?thesis using \<open>\<And>n s. stamp_health lib now n s h = h\<close> by (cases e) auto
    qed
    then show ?thesis by (simp add: Sync x m)
  next
    case (Incremental chain atomic args today w)
    then show ?thesis by (cases x) simp
  qed
  have all: "snd (fold run_job js (d, h)) = h" for d h
    using assms
  proof (induction js arbitrary: d)
    case (Cons j js)
    have "snd (run_job j (d, h)) = snd (d, h)" by (rule one) (use Cons.prems in simp)
    then obtain d1 where "run_job j (d, h) = (d1, h)" by (metis surjective_pairing snd_conv)
    then show ?case using Cons.IH [of d1] Cons.prems by simp
  qed simp
  show "snd (fold run_job js (d, h)) = h" by (rule all)
  show "24 * 3600 \<le> u \<longrightarrow> watchdog (Inr ()) (Inr (last_daily_sync_run_at (snd (fold run_job js (d, never_run))))) (Inr u) True t = Restart"
    by (simp add: all last_daily_sync_run_at_def never_run_def watchdog_def)
qed

text \<open>Where the statement works, the row tells the truth: a run that exits with 0 moves the time of the last
  success, any other leaves it.\<close>

theorem health_row_truthful:
  assumes "sync_main lib args today now w (d, h) = (r, d', h')" "sl_visible lib"
  shows "hl_last_ok h' = (if r = Inr 0 then Some now else hl_last_ok h)"
proof (cases rule: sync_main_cases [OF assms(1)])
  case 1
  then show ?thesis by auto
next
  case (2 symbols start "end" cache x e s)
  show ?thesis
  proof (cases e)
    case None
    then show ?thesis
      using 2(4) assms(2) by (cases "sy_errors s") (auto simp: stamp_health_def record_daily_sync_run_def split: prod.splits)
  qed (use 2(5) in auto)
qed

text \<open>The errors of a run only grow, so one ticker that always fails makes every run fail.\<close>

lemma sync_loop_errors:
  "sync_loop lib args today start end cache ts s = (e, s') \<Longrightarrow> set (sy_errors s) \<subseteq> set (sy_errors s')"
proof (induction ts arbitrary: s)
  case (Cons t ts)
  show ?case
  proof (cases "sync_meta args cache t")
    case (Inr m)
    obtain r x where "sync_one lib args today start end m t (sy_at s) = (r, x)" by (metis surj_pair)
    then show ?thesis using Cons.prems Inr Cons.IH by (cases r) fastforce+
  qed (use Cons.prems in auto)
qed simp

lemma sync_loop_failing:
  assumes "sync_loop lib args today start end cache ts s = (None, s')" "t \<in> set ts"
    "\<And>w. isl (fst (sl_fetch lib t start end w))"
  shows "sy_errors s' \<noteq> []"
  using assms(1,2)
proof (induction ts arbitrary: s)
  case (Cons u us)
  obtain meta where m: "sync_meta args cache u = Inr meta" using Cons.prems(1) by (auto split: sum.splits)
  show ?case
  proof (cases "u = t")
    case True
    obtain w d where s: "sy_at s = (w, d)" by fastforce
    obtain e w1 where f: "sl_fetch lib t start end w = (Inl e, w1)" using assms(3) [of w] by (metis isl_def prod.collapse)
    have "sync_one lib args today start end meta t (w, d) = (Inl e, (w1, d))"
      by (simp add: sync_one_def on_net_def f bindW_def)
    then have "sync_loop lib args today start end cache us (s\<lparr>sy_at := (w1, d), sy_errors := sy_errors s @ [(t, e)]\<rparr>) = (None, s')"
      using Cons.prems(1) True m s by simp
    from sync_loop_errors [OF this] show ?thesis by auto
  next
    case False
    then show ?thesis using Cons m by (fastforce split: sum.splits prod.splits)
  qed
qed simp

text \<open>
  One ticker of the list that its source always refuses is enough: every run that gets to its end
  exits with 2, and the time of the last success never moves.
\<close>

theorem one_bad_ticker_fails_every_run:
  assumes "sync_main lib args today now w (d, h) = (Inr code, d', h')" "sa_dsn args"
    "sync_window args today = (start, end, Some ts)" "sa_max args \<le> 0" "t \<in> set ts"
    "\<And>w. isl (fst (sl_fetch lib t start end w))"
  shows "code = 2 \<and> hl_last_ok h' = hl_last_ok h"
proof (cases rule: sync_main_cases [OF assms(1)])
  case 1
  then show ?thesis using assms(2) by simp
next
  case (2 symbols a b cache x e s)
  have eq: "a = start" "b = end" "symbols = ts" using 2(6-8) window_end [of args today] assms(3,4) by simp_all
  have "e = None" using 2(5) by (cases e) auto
  then have n: "sy_errors s \<noteq> []" using sync_loop_failing [OF _ assms(5,6)] 2(2) unfolding eq by blast
  with \<open>e = None\<close> 2(4) show ?thesis
    by (cases "sy_errors s") (auto simp: stamp_health_def record_daily_sync_run_def split: prod.splits)
qed


section \<open>The gate of the daily sync\<close>

lemma short_history_refused:
  assumes "gate_refuses lib symbol bars = Inr b" "length bars < 252"
  shows b
proof -
  obtain bs r where b: "map_result gate_bar bars = Inr bs" "check_ingestion (sl_math lib) default_params (sl_now lib) symbol None bs = Inr r"
      "b = (worst_severity r = Some CRITICAL \<or> worst_severity r = Some HIGH)"
    using assms(1) by (auto simp: gate_refuses_def bindR_Inr_iff)
  have l: "length bs = length bars" using map_result_Inr [OF b(1)] by (simp add: list_all2_lengthD)
  have "\<exists>s \<in> is_severity ` set (qr_issues r). HIGH \<le> s"
    using check_ingestion_Inr [OF b(2)]
  proof
    assume "\<exists>k n. severity_for k = CRITICAL \<and> flag True k n = Inr (qr_issues r)"
    then obtain k n where k: "severity_for k = CRITICAL" "flag True k n = Inr (qr_issues r)" by blast
    then have "CRITICAL \<in> is_severity ` set (qr_issues r)" using flag_HIGH [OF k(2)] by simp
    moreover have "HIGH \<le> CRITICAL" by (simp add: less_eq_severity_def)
    ultimately show ?thesis by blast
  next
    assume "\<exists>yss. map_result id (data_checks (sl_math lib) default_params (sl_now lib) bs) = Inr yss \<and> qr_issues r = concat yss"
    then obtain yss where y: "map_result id (data_checks (sl_math lib) default_params (sl_now lib) bs) = Inr yss" "qr_issues r = concat yss"
      by blast
    have "check_history default_params bs \<in> set (data_checks (sl_math lib) default_params (sl_now lib) bs)"
      by (simp add: data_checks_def)
    then obtain ys where ys: "check_history default_params bs = Inr ys" "ys \<in> set yss"
      using map_result_mem [OF y(1)] by auto
    have "flag True ING_INSUFFICIENT_HISTORY (252 - int (length bs)) = Inr ys"
      using ys(1) l assms(2) by (simp add: check_history_def default_params_def)
    from flag_HIGH [OF this] have "HIGH \<in> is_severity ` set ys" by simp
    with ys(2) y(2) have "HIGH \<in> is_severity ` set (qr_issues r)" by auto
    then show ?thesis by blast
  qed
  then obtain w where "worst_severity r = Some w" "HIGH \<le> w"
    using worst_severity_ge by (meson order_trans)
  then show ?thesis using b(3) by (cases w) (auto simp: less_eq_severity_def)
qed


lemma gated_one:
  assumes "sync_one lib args today start end meta t x = (r, y)" "sa_gate args" "sa_source args = Tkf"
    "\<And>w bars. fst (sl_fetch lib t start end w) = Inr bars \<Longrightarrow> length bars < 252"
  shows "p_ohlcv (snd y) = p_ohlcv (snd x)"
proof -
  obtain w d where x: "x = (w, d)" by fastforce
  obtain q w1 where f: "sl_fetch lib t start end w = (q, w1)" by fastforce
  show ?thesis
  proof (cases q)
    case (Inl e)
    then show ?thesis using assms(1) f x by (auto simp: sync_one_def on_net_def bindW_def)
  next
    case (Inr bars)
    have l: "length bars < 252" using assms(4) [of w bars] f Inr by simp
    obtain q2 d2 where u: "pg_upsert_tickers (sl_atomic lib) [meta] d = (q2, d2)" by fastforce
    have d2: "p_ohlcv d2 = p_ohlcv d" using upsert_tickers_keeps [OF u] by simp
    have "\<not> (\<exists>b. gate_refuses lib t bars = Inr b \<and> \<not> b)" using short_history_refused l by blast
    then have "r = Inr 0 \<or> isl r" and "y = (w1, d) \<or> y = (w1, d2)"
      using assms(1-3) f Inr x u
      by (auto simp: sync_one_def on_net_def on_db_def bindW_def split: sum.splits if_splits)
    then show ?thesis using d2 x by auto
  qed
qed

lemma gated_loop:
  assumes "sync_loop lib args today start end cache ts s = (e, s')" "sa_gate args" "sa_source args = Tkf"
    "\<And>t w bars. fst (sl_fetch lib t start end w) = Inr bars \<Longrightarrow> length bars < 252"
  shows "p_ohlcv (snd (sy_at s')) = p_ohlcv (snd (sy_at s))"
  using assms(1)
proof (induction ts arbitrary: s)
  case (Cons t ts)
  show ?case
  proof (cases "sync_meta args cache t")
    case (Inr m)
    obtain r x where o: "sync_one lib args today start end m t (sy_at s) = (r, x)" by (metis surj_pair)
    note g = gated_one [OF o assms(2-4)]
    show ?thesis
    proof (cases r)
      case (Inl e1)
      then have "sync_loop lib args today start end cache ts (s\<lparr>sy_at := x, sy_errors := sy_errors s @ [(t, e1)]\<rparr>) = (e, s')"
        using Cons.prems Inr o by simp
      from Cons.IH [OF this] g show ?thesis by simp
    next
      case ri: (Inr n)
      then have "sync_loop lib args today start end cache ts (s\<lparr>sy_at := x, sy_total := sy_total s + n\<rparr>) = (e, s')"
        using Cons.prems Inr o by simp
      from Cons.IH [OF this] g show ?thesis by simp
    qed
  qed (use Cons.prems in auto)
qed simp

text \<open>
  With the quality gate switched on the sync of the broker stores no bar at all unless a source sends at
  least 252 bars for one ticker: the gate counts the rows of the window it is given as the whole
  history, and a history below a year is a finding of severity HIGH, which is skipped.
\<close>

theorem gated_sync_writes_nothing:
  assumes "sync_main lib args today now w (d, h) = (r, d', h')" "sa_gate args" "sa_source args = Tkf"
    "\<And>t a b w bars. fst (sl_fetch lib t a b w) = Inr bars \<Longrightarrow> length bars < 252"
  shows "p_ohlcv d' = p_ohlcv d"
proof (cases rule: sync_main_cases [OF assms(1)])
  case (2 symbols a b cache x e s)
  then show ?thesis using gated_loop [OF 2(2) assms(2-4)] by simp
qed simp


section \<open>Concrete runs\<close>

definition ex_sync_args :: sync_args where
  "ex_sync_args = \<lparr>sa_days = 5, sa_backfill = 0, sa_universe = Some [''SBER''], sa_dsn = True, sa_source = Tkf, sa_mode = Daily,
     sa_gate = True, sa_max = 0, sa_min_bars = 1300\<rparr>"

text \<open>A broker that knows no ticker, in front of a database that refuses the statement.\<close>

definition ex_sync_lib :: "unit sync_lib" where
  "ex_sync_lib = \<lparr>sl_built = True, sl_tickers = (\<lambda>w. (Inr [], w)), sl_fetch = (\<lambda>t a b w. (Inl loader_error, w)),
     sl_math = \<lparr>lib_log = (\<lambda>x. x), lib_stdev = (\<lambda>xs. 1)\<rparr>, sl_now = 0, sl_atomic = True, sl_visible = False,
     sl_error_text = (\<lambda>n e. exc_name e)\<rparr>"

definition ex_no_chain :: "unit \<Rightarrow> (ohlcv_row, unit, ticker_meta, unit) chain" where
  "ex_no_chain = (\<lambda>_. \<lparr>tinkoff_grpc = None, moex_iss = None, chain_order = FALLBACK_ORDER\<rparr>)"

definition ex_inc_args :: inc_args where
  "ex_inc_args = \<lparr>ia_dsn = True, ia_dry = False, ia_max = 0, ia_cap = 0\<rparr>"

lemma ex_bf2_ok: "pg_ok ex_bf2"
proof -
  have "pg_ok ex_bf1"
    by (simp add: pg_ok_def keyed_def refers_def ex_bf1_def ex_bf0_def pg_empty_def)
  then show ?thesis using mark_passed_on [of ex_bf1 "''SBER''" True] by (simp add: ex_bf2_def passed_on_def)
qed

lemma ex_bf2_bar: "map_of (p_ohlcv ex_bf2) (''SBER'', 739700, Tkf) = Some (row_bar_of ex_bar_row)"
  by (simp add: ex_bf2_def mark_universe ex_bf1_def)

theorem incremental_adds_closed_bars_witness: "pg_ok (snd (inc_main ex_no_chain True ex_inc_args 739702 () ex_bf2))"
  using incremental_adds_closed_bars [of ex_no_chain True ex_inc_args 739702 "()" ex_bf2, OF prod.collapse [symmetric] ex_bf2_ok]
  by simp

theorem first_bar_is_final_witness:
  "map_of (p_ohlcv (fst (fold run_job [Sync ex_sync_lib ex_sync_args 739700 0 (), Incremental ex_no_chain True ex_inc_args 739701 ()]
     (ex_bf2, never_run)))) (''SBER'', 739700, Tkf) = map_of (p_ohlcv ex_bf2) (''SBER'', 739700, Tkf)"
  by (simp only: first_bar_is_final [OF ex_bf2_bar] ex_bf2_bar)

theorem watchdog_restarts_healthy_bot_witness:
  "watchdog (Inr ()) (Inr (last_daily_sync_run_at (snd (fold run_job [Sync ex_sync_lib ex_sync_args 739700 0 ()] (ex_bf2, never_run)))))
     (Inr 90000) True 0 = Restart"
proof -
  have "list_all refused_job [Sync ex_sync_lib ex_sync_args 739700 0 ()]" by (simp add: refused_job_def ex_sync_lib_def)
  from watchdog_restarts_healthy_bot [OF this, THEN conjunct2, THEN mp] show ?thesis by simp
qed

lemma ex_sync_run:
  "\<exists>h'. sync_main ex_sync_lib ex_sync_args 739700 0 () (ex_bf2, never_run) = (Inr 2, ex_bf2, h')"
proof -
  have "valid_ticker ''SBER'' = Inr ''SBER''"
    by (simp add: valid_ticker_def Let_def py_strip_def is_space_def ticker_regex_def ticker_char_def py_upper_def upper_char_def)
  then have "\<exists>meta. sync_meta ex_sync_args [] ''SBER'' = Inr meta"
    by (simp add: sync_meta_def mk_ticker_meta_def)
  then obtain meta where "sync_meta ex_sync_args [] ''SBER'' = Inr meta" ..
  then show ?thesis
    by (simp add: sync_main_def ex_sync_args_def ex_sync_lib_def sync_window_def Let_def resolve_symbols_def on_net_def metas_map_def
        sync_one_def bindW_def)
qed

theorem one_bad_ticker_fails_every_run_witness:
  "\<exists>d' h'. sync_main ex_sync_lib ex_sync_args 739700 0 () (ex_bf2, never_run) = (Inr 2, d', h') \<and> hl_last_ok h' = None"
proof -
  obtain h' where r: "sync_main ex_sync_lib ex_sync_args 739700 0 () (ex_bf2, never_run) = (Inr 2, ex_bf2, h')"
    using ex_sync_run ..
  have "sync_window ex_sync_args 739700 = (739695, 739700, Some [''SBER''])"
    by (simp add: sync_window_def ex_sync_args_def Let_def)
  from one_bad_ticker_fails_every_run [OF r _ this, of "''SBER''"] r show ?thesis
    by (simp add: ex_sync_args_def ex_sync_lib_def never_run_def)
qed

theorem gated_sync_writes_nothing_witness:
  "p_ohlcv (fst (snd (sync_main ex_sync_lib ex_sync_args 739700 0 () (ex_bf2, never_run)))) = p_ohlcv ex_bf2"
proof -
  obtain r d' h' where "sync_main ex_sync_lib ex_sync_args 739700 0 () (ex_bf2, never_run) = (r, d', h')" by (metis prod_cases3)
  from gated_sync_writes_nothing [OF this] this show ?thesis by (simp add: ex_sync_args_def ex_sync_lib_def)
qed

end
