(* ===== verification/CivilDate.thy ===== *)
theory CivilDate
  imports Calendar
begin

text \<open>
  Dates and times of day as their fields, the decimal digits they are printed with, the ordinal of a
  date and its ISO week, as Python's \<open>datetime\<close> has them.
\<close>

section \<open>Digits\<close>

definition is_digit :: "char \<Rightarrow> bool" where
  "is_digit c \<longleftrightarrow> CHR ''0'' \<le> c \<and> c \<le> CHR ''9''"

definition nat_of_digits :: "string \<Rightarrow> nat" where
  "nat_of_digits s = fold (\<lambda>c n. 10 * n + (of_char c - 48)) s 0"

definition digit_char :: "nat \<Rightarrow> char" where
  "digit_char n = char_of (48 + n)"

text \<open>The last \<open>k\<close> digits.\<close>

fun digits :: "nat \<Rightarrow> nat \<Rightarrow> string" where
  "digits 0 n = []"
| "digits (Suc k) n = digits k (n div 10) @ [digit_char (n mod 10)]"

lemma of_char_digit [simp]: "n < 10 \<Longrightarrow> of_char (digit_char n) = 48 + n"
  by (simp add: digit_char_def)

lemma is_digit_digit [simp]: "n < 10 \<Longrightarrow> is_digit (digit_char n)"
  by (simp add: is_digit_def less_eq_char_def)

lemma length_digits [simp]: "length (digits k n) = k"
  by (induction k arbitrary: n) auto

lemma digits_are_digits [simp]: "list_all is_digit (digits k n)"
  by (induction k arbitrary: n) auto

lemma digits_are_digits_set: "c \<in> set (digits k n) \<Longrightarrow> is_digit c"
  using digits_are_digits [of k n] by (simp add: list_all_iff)

lemma nat_of_digits_snoc: "nat_of_digits (s @ [c]) = 10 * nat_of_digits s + (of_char c - 48)"
  by (simp add: nat_of_digits_def)

lemma nat_of_digits_digits [simp]: "n < 10 ^ k \<Longrightarrow> nat_of_digits (digits k n) = n"
proof (induction k arbitrary: n)
  case (Suc k)
  have "n div 10 < 10 ^ k" using Suc.prems by (simp add: div_less_iff_less_mult ac_simps)
  then show ?case by (simp add: nat_of_digits_snoc Suc.IH)
qed (simp add: nat_of_digits_def)

section \<open>Dates\<close>

definition leap :: "nat \<Rightarrow> bool" where
  "leap y \<longleftrightarrow> y mod 4 = 0 \<and> (y mod 100 \<noteq> 0 \<or> y mod 400 = 0)"

definition days_in_month :: "nat \<Rightarrow> nat \<Rightarrow> nat" where
  "days_in_month y m = (if m = 2 then (if leap y then 29 else 28) else if m \<in> {4, 6, 9, 11} then 30 else 31)"

definition valid_date :: "nat \<Rightarrow> nat \<Rightarrow> nat \<Rightarrow> bool" where
  "valid_date y m d \<longleftrightarrow> 1 \<le> y \<and> y \<le> 9999 \<and> 1 \<le> m \<and> m \<le> 12 \<and> 1 \<le> d \<and> d \<le> days_in_month y m"

definition ordinal :: "nat \<Rightarrow> nat \<Rightarrow> nat \<Rightarrow> int" where
  "ordinal y m d = jan1 (int y) + int (sum_list (map (days_in_month y) [1..<m])) + int d - 1"

lemma days_in_month_le: "days_in_month y m \<le> 31"
  by (simp add: days_in_month_def)

text \<open>The \<open>isocalendar\<close> year and week of an ordinal: those of the Thursday of its week.\<close>

definition iso_week :: "int \<Rightarrow> int \<times> int" where
  "iso_week day =
     (let thursday = day - (day - 1) mod 7 + 3; y = year_of thursday in (y, (thursday - jan1 y) div 7 + 1))"

lemma iso_week_eq: "iso_week a = iso_week b \<longleftrightarrow> (a - 1) div 7 = (b - 1) div 7"
proof -
  define q r where "q = (a - 1) div 7" and "r = (b - 1) div 7"
  have t: "a - (a - 1) mod 7 + 3 = 7 * q + 4" "b - (b - 1) mod 7 + 3 = 7 * r + 4"
    by (simp_all add: q_def r_def minus_mod_eq_mult_div [symmetric])
  have "q = r" if y: "year_of (7 * q + 4) = year_of (7 * r + 4)"
    and w: "(7 * q + 4 - jan1 (year_of (7 * r + 4))) div 7 = (7 * r + 4 - jan1 (year_of (7 * r + 4))) div 7"
  proof -
    define k where "k = 4 - jan1 (year_of (7 * r + 4))"
    have "(7 * q + k) div 7 = (7 * r + k) div 7" using w by (simp add: k_def algebra_simps)
    moreover have "(7 * x + k) div 7 = x + k div 7" for x by simp
    ultimately show ?thesis by simp
  qed
  then have "iso_week a = iso_week b \<longleftrightarrow> q = r" by (auto simp: iso_week_def Let_def t)
  then show ?thesis by (simp add: q_def r_def)
qed

section \<open>Instants\<close>

record civil =
  cv_year :: nat
  cv_month :: nat
  cv_day :: nat
  cv_hour :: nat
  cv_minute :: nat
  cv_second :: nat
  cv_micro :: nat

definition valid_civil :: "civil \<Rightarrow> bool" where
  "valid_civil c \<longleftrightarrow> valid_date (cv_year c) (cv_month c) (cv_day c) \<and> cv_hour c < 24 \<and> cv_minute c < 60 \<and> cv_second c < 60 \<and>
     cv_micro c < 1000000"

text \<open>Microseconds, and the day they lie in.\<close>

definition micros :: "civil \<Rightarrow> int" where
  "micros c = (ordinal (cv_year c) (cv_month c) (cv_day c) * 86400 +
     int (cv_hour c * 3600 + cv_minute c * 60 + cv_second c)) * 1000000 + int (cv_micro c)"

definition civil_day :: "int \<Rightarrow> int" where
  "civil_day t = t div (86400 * 1000000)"

lemma civil_day_micros: "valid_civil c \<Longrightarrow> civil_day (micros c) = ordinal (cv_year c) (cv_month c) (cv_day c)"
proof -
  assume v: "valid_civil c"
  define n where "n = int (cv_hour c * 3600 + cv_minute c * 60 + cv_second c) * 1000000 + int (cv_micro c)"
  have "0 \<le> n" "n < 86400 * 1000000" using v by (auto simp: n_def valid_civil_def)
  moreover have "micros c = ordinal (cv_year c) (cv_month c) (cv_day c) * (86400 * 1000000) + n"
    by (simp add: micros_def n_def algebra_simps)
  ultimately show ?thesis by (simp add: civil_day_def)
qed

end
