(* ===== verification/MacroSync.thy ===== *)
theory MacroSync
  imports Macro PgStore PyFloat CivilDate
begin

text \<open>
  \<open>src/data/macro_fetcher.py\<close>, \<open>src/macro/persistence.py\<close> and
  \<open>scripts/run_macro_sync.py\<close>: the three macro sources with their retries and their ladder of
  caches, the snapshot made of them, and the log of regimes. One attempt of a request, a write to the
  disk, the XML parser and \<open>Decimal\<close> on a text (a finite number or \<open>None\<close>; the texts of NaN and
  the infinities are not considered) are parameters;
  sleeps and log lines are left out. Instants are seconds for the caches, microseconds for the log.
\<close>

section \<open>Requests\<close>

definition http_error :: py_exc where "http_error = OtherError ''HTTPError''"
definition url_error :: py_exc where "url_error = OtherError ''URLError''"
definition xml_error :: py_exc where "xml_error = OtherError ''ParseError''"
definition os_error :: py_exc where "os_error = OtherError ''OSError''"

datatype attempt = Page string | Http_Code int | Url_Failure | Other_Failure

record macro_entry =
  me_rate :: "rat option"
  me_closes :: "(string \<times> rat) list option"
  me_source :: string

text \<open>The caches on the disk (name to time of writing and content, \<open>None\<close> for a damaged file), the requests
  made so far, and the world.\<close>

record 'w macro_state =
  ms_cache :: "string \<rightharpoonup> rat \<times> macro_entry option"
  ms_log :: "string list"
  ms_world :: 'w

record 'w macro_lib =
  nl_get :: "string \<Rightarrow> 'w \<Rightarrow> attempt \<times> 'w"
  nl_write :: "string \<Rightarrow> 'w \<Rightarrow> bool \<times> 'w"
  nl_xml :: "string \<Rightarrow> (string option \<times> string) option"
  nl_dec :: "string \<Rightarrow> rat option"
  nl_now :: rat

definition MAX_RETRIES :: nat where "MAX_RETRIES = 3"

fun attempts :: "'w macro_lib \<Rightarrow> string \<Rightarrow> nat \<Rightarrow> py_exc option \<Rightarrow> 'w macro_state \<Rightarrow> string result \<times> 'w macro_state" where
  "attempts lib url 0 last_exc s = (Inl (case last_exc of None \<Rightarrow> OtherError ''RuntimeError'' | Some e \<Rightarrow> e), s)"
| "attempts lib url (Suc n) last_exc s =
     (case nl_get lib url (ms_world s) of (a, w) \<Rightarrow>
        let s = s\<lparr>ms_world := w, ms_log := ms_log s @ [url]\<rparr>
        in (case a of
              Page p \<Rightarrow> (Inr p, s)
            | Http_Code c \<Rightarrow> (if 400 \<le> c \<and> c < 500 then (Inl http_error, s) else attempts lib url n (Some http_error) s)
            | Url_Failure \<Rightarrow> attempts lib url n (Some url_error) s
            | Other_Failure \<Rightarrow> (Inl (OtherError ''TimeoutError''), s)))"

definition http_get :: "'w macro_lib \<Rightarrow> string \<Rightarrow> 'w macro_state \<Rightarrow> string result \<times> 'w macro_state" where
  "http_get lib url = attempts lib url MAX_RETRIES None"

section \<open>Caches\<close>

definition read_cache :: "rat \<Rightarrow> rat \<Rightarrow> string \<Rightarrow> 'w macro_state \<Rightarrow> macro_entry option" where
  "read_cache now max_age name s =
     (case ms_cache s name of None \<Rightarrow> None
      | Some (mtime, content) \<Rightarrow> (if max_age < frnd (now - mtime) then None else content))"

text \<open>A temporary file and a rename: a failed write leaves the old file.\<close>

definition write_cache :: "'w macro_lib \<Rightarrow> string \<Rightarrow> macro_entry \<Rightarrow> 'w macro_state \<Rightarrow> unit result \<times> 'w macro_state" where
  "write_cache lib name e s =
     (case nl_write lib name (ms_world s) of
        (True, w) \<Rightarrow> (Inr (), s\<lparr>ms_world := w, ms_cache := (ms_cache s)(name \<mapsto> (nl_now lib, Some e))\<rparr>)
      | (False, w) \<Rightarrow> (Inl os_error, s\<lparr>ms_world := w\<rparr>))"

section \<open>Parsers\<close>

text \<open>\<open>str.split\<close> with a separator, and \<open>str.splitlines\<close> for the line ends LF, CR and CR LF.\<close>

fun split_on :: "char \<Rightarrow> string \<Rightarrow> string list" where
  "split_on c [] = [[]]"
| "split_on c (x # xs) = (if x = c then [] # split_on c xs else (case split_on c xs of [] \<Rightarrow> [[x]] | w # ws \<Rightarrow> (x # w) # ws))"

definition CR :: char where "CR = CHR 0x0D"
definition LF :: char where "LF = CHR 0x0A"

fun to_lf :: "string \<Rightarrow> string" where
  "to_lf [] = []"
| "to_lf (x # xs) = (if x = CR then (case xs of [] \<Rightarrow> [LF] | y # ys \<Rightarrow> if y = LF then LF # to_lf ys else LF # to_lf xs)
     else x # to_lf xs)"

definition lines_of :: "string \<Rightarrow> string list" where
  "lines_of s = filter (\<lambda>l. py_strip l \<noteq> []) (split_on LF (to_lf s))"

fun index_of :: "'a \<Rightarrow> 'a list \<Rightarrow> nat option" where
  "index_of x [] = None"
| "index_of x (y # ys) = (if x = y then Some 0 else map_option Suc (index_of x ys))"

definition dots :: "string \<Rightarrow> string" where
  "dots s = map (\<lambda>c. if c = CHR '','' then CHR ''.'' else c) (py_strip s)"

definition close_of_line :: "(string \<Rightarrow> rat option) \<Rightarrow> nat \<Rightarrow> nat \<Rightarrow> string \<Rightarrow> (string \<times> rat) option" where
  "close_of_line dec i_begin i_close row_text =
     (let cells = split_on CHR '';'' row_text
      in if length cells \<le> max i_begin i_close then None
         else map_option (\<lambda>v. (py_strip (cells ! i_begin), v)) (dec (dots (cells ! i_close))))"

definition parse_candles :: "(string \<Rightarrow> rat option) \<Rightarrow> string \<Rightarrow> (string \<times> rat) list result" where
  "parse_candles dec payload =
     (case lines_of payload of
        header # row_text # row_texts \<Rightarrow>
          (case (index_of ''begin'' (split_on CHR '';'' header), index_of ''close'' (split_on CHR '';'' header)) of
             (Some i_begin, Some i_close) \<Rightarrow>
               (let closes = List.map_filter (close_of_line dec i_begin i_close) (row_text # row_texts)
                in if closes = [] then Inl ValueError else Inr closes)
           | _ \<Rightarrow> Inl ValueError)
      | _ \<Rightarrow> Inl ValueError)"

text \<open>Whether the text is a date \<open>DD.MM.YYYY\<close>; the date itself is stored with the rate but never read.\<close>

definition cbr_date :: "string \<Rightarrow> bool" where
  "cbr_date s =
     (let t = py_strip s; d = nat_of_digits (take 2 t); m = nat_of_digits (take 2 (drop 3 t)); y = nat_of_digits (drop 6 t)
      in length t = 10 \<and> t ! 2 = CHR ''.'' \<and> t ! 5 = CHR ''.'' \<and> list_all is_digit (take 2 t @ take 2 (drop 3 t) @ drop 6 t) \<and>
         valid_date y m d)"

definition parse_cbr_xml :: "'w macro_lib \<Rightarrow> string \<Rightarrow> rat result" where
  "parse_cbr_xml lib payload =
     (case nl_xml lib payload of
        None \<Rightarrow> Inl xml_error
      | Some (Some (c # cs), date_attr) \<Rightarrow>
          (case nl_dec lib (dots (c # cs)) of
             None \<Rightarrow> Inl ValueError
           | Some v \<Rightarrow> (if date_attr \<noteq> [] \<and> \<not> cbr_date date_attr then Inl ValueError
               else if v < 0 \<or> 100 < v then Inl ValueError else Inr v))
      | _ \<Rightarrow> Inl ValueError)"

section \<open>The fetchers\<close>

definition CACHE_TTL_SECONDS :: rat where "CACHE_TTL_SECONDS = 3600"
definition CACHE_FALLBACK_UNLIMITED_AGE_SECONDS :: rat where "CACHE_FALLBACK_UNLIMITED_AGE_SECONDS = 10 ^ 9"

definition cache_source :: "string \<Rightarrow> string" where "cache_source name = ''cache:'' @ name @ ''.json''"
definition stale_source :: "string \<Rightarrow> string" where "stale_source name = ''cache:'' @ name @ ''(stale)''"

text \<open>The shape the three fetchers share; \<open>caught\<close> are the exceptions of their \<open>except\<close> clause.\<close>

definition fetch_live ::
  "'w macro_lib \<Rightarrow> string \<Rightarrow> string \<Rightarrow> (string \<Rightarrow> macro_entry result) \<Rightarrow> 'w macro_state \<Rightarrow> macro_entry result \<times> 'w macro_state" where
  "fetch_live lib name url parse =
     bindW (http_get lib url) (\<lambda>p. bindW (liftW (parse p)) (\<lambda>e.
       let e = e\<lparr>me_source := url\<rparr> in bindW (write_cache lib name e) (\<lambda>_. liftW (Inr e))))"

definition fetch_source ::
  "'w macro_lib \<Rightarrow> string \<Rightarrow> string \<Rightarrow> (string \<Rightarrow> macro_entry result) \<Rightarrow> py_exc list \<Rightarrow> 'w macro_state \<Rightarrow>
   macro_entry result \<times> 'w macro_state" where
  "fetch_source lib name url parse caught s =
     (case fetch_live lib name url parse s of
        (Inr e, s) \<Rightarrow> (Inr e, s)
      | (Inl x, s) \<Rightarrow>
          (if x \<in> set caught
           then (case read_cache (nl_now lib) (CACHE_TTL_SECONDS * 24 * 30) name s of
               None \<Rightarrow> (Inl x, s) | Some e \<Rightarrow> (Inr (e\<lparr>me_source := cache_source name\<rparr>), s))
           else (Inl x, s)))"

definition closes_entry :: "(string \<Rightarrow> rat option) \<Rightarrow> string \<Rightarrow> macro_entry result" where
  "closes_entry dec p = map_sum id (\<lambda>cs. \<lparr>me_rate = None, me_closes = Some cs, me_source = ''''\<rparr>) (parse_candles dec p)"

text \<open>The address of a request; the window of the two histories goes into it.\<close>

record macro_urls =
  mu_cbr :: string
  mu_usdrub :: string
  mu_imoex :: string

definition fetch_cbr_key_rate :: "'w macro_lib \<Rightarrow> macro_urls \<Rightarrow> 'w macro_state \<Rightarrow> macro_entry result \<times> 'w macro_state" where
  "fetch_cbr_key_rate lib us = fetch_source lib ''cbr'' (mu_cbr us)
     (\<lambda>p. map_sum id (\<lambda>v. \<lparr>me_rate = Some v, me_closes = None, me_source = ''''\<rparr>) (parse_cbr_xml lib p))
     [url_error, http_error, xml_error, ValueError]"

definition fetch_usdrub_history :: "'w macro_lib \<Rightarrow> macro_urls \<Rightarrow> 'w macro_state \<Rightarrow> macro_entry result \<times> 'w macro_state" where
  "fetch_usdrub_history lib us = fetch_source lib ''usdrub'' (mu_usdrub us) (closes_entry (nl_dec lib)) [url_error, http_error, ValueError]"

definition fetch_imoex_history :: "'w macro_lib \<Rightarrow> macro_urls \<Rightarrow> 'w macro_state \<Rightarrow> macro_entry result \<times> 'w macro_state" where
  "fetch_imoex_history lib us = fetch_source lib ''imoex'' (mu_imoex us) (closes_entry (nl_dec lib)) [url_error, http_error, ValueError]"

definition safe_fetch ::
  "'w macro_lib \<Rightarrow> string \<Rightarrow> ('w macro_state \<Rightarrow> macro_entry result \<times> 'w macro_state) \<Rightarrow> 'w macro_state \<Rightarrow>
   macro_entry option \<times> 'w macro_state" where
  "safe_fetch lib name fn s =
     (case fn s of
        (Inr e, s) \<Rightarrow> (Some e, s)
      | (Inl x, s) \<Rightarrow>
          (map_option (\<lambda>e. e\<lparr>me_source := stale_source name\<rparr>) (read_cache (nl_now lib) CACHE_FALLBACK_UNLIMITED_AGE_SECONDS name s), s))"

section \<open>The snapshot\<close>


text \<open>\<open>xs[-n]\<close>.\<close>

definition from_end :: "'a list \<Rightarrow> nat \<Rightarrow> 'a" where
  "from_end xs n = xs ! (length xs - n)"

text \<open>\<open>usdrub["closes"]\<close> is read outside the \<open>try\<close>: a missing key leaves the function.\<close>

definition compose_snapshot ::
  "int \<Rightarrow> macro_entry option \<Rightarrow> macro_entry option \<Rightarrow> macro_entry option \<Rightarrow> macro_snapshot option result" where
  "compose_snapshot now cbr usdrub imoex =
     (case (cbr, usdrub, imoex) of
        (Some c, Some u, Some i) \<Rightarrow>
          (case (me_closes u, me_closes i) of
             (Some us, Some is) \<Rightarrow>
               (if length us < 6 \<or> length is < 61 then Inr None
                else (case me_rate c of None \<Rightarrow> Inr None
                  | Some rate \<Rightarrow> Inr (Some \<lparr>fetched_at = now, cbr_key_rate = rate,
                      usdrub_close = snd (last us), usdrub_5d_prev = snd (from_end us 6),
                      imoex_close = snd (last is), imoex_60d_prev = snd (from_end is 61),
                      snapshot_sources = [(''cbr'', me_source c), (''usdrub'', me_source u), (''imoex'', me_source i)]\<rparr>)))
           | _ \<Rightarrow> Inl KeyError)
      | _ \<Rightarrow> Inr None)"

definition build_snapshot :: "'w macro_lib \<Rightarrow> macro_urls \<Rightarrow> int \<Rightarrow> 'w macro_state \<Rightarrow> macro_snapshot option result \<times> 'w macro_state" where
  "build_snapshot lib us now s =
     (let (cbr, s) = safe_fetch lib ''cbr'' (fetch_cbr_key_rate lib us) s;
          (usdrub, s) = safe_fetch lib ''usdrub'' (fetch_usdrub_history lib us) s;
          (imoex, s) = safe_fetch lib ''imoex'' (fetch_imoex_history lib us) s
      in if cbr = None \<and> usdrub = None \<and> imoex = None then (Inr None, s)
         else (compose_snapshot now cbr usdrub imoex, s))"

section \<open>The log of regimes\<close>

record macro_row =
  mr_rate :: rat
  mr_usd :: rat
  mr_usd5 :: rat
  mr_imoex :: rat
  mr_imoex60 :: rat
  mr_label :: regime_label
  mr_multiplier :: rat
  mr_sources :: "(string \<times> string) list"

text \<open>A connection: whether the object has an \<open>execute\<close> method, and the placeholders its driver takes.\<close>

datatype placeholders = Percent_S | Question_Mark

record db_conn =
  cn_has_execute :: bool
  cn_placeholders :: placeholders
  cn_column :: "macro_row \<Rightarrow> macro_row option"

definition is_postgres :: "db_conn \<Rightarrow> bool" where
  "is_postgres c \<longleftrightarrow> \<not> cn_has_execute c"

text \<open>The numeric columns of the schema.\<close>

definition pg_macro_column :: "macro_row \<Rightarrow> macro_row option" where
  "pg_macro_column r =
     (if pg_fits 6 2 (mr_rate r) \<and> pg_fits 10 4 (mr_usd r) \<and> pg_fits 10 4 (mr_usd5 r) \<and> pg_fits 10 2 (mr_imoex r) \<and>
         pg_fits 10 2 (mr_imoex60 r) \<and> pg_fits 4 2 (mr_multiplier r)
      then Some (r\<lparr>mr_rate := pg_round 2 (mr_rate r), mr_usd := pg_round 4 (mr_usd r), mr_usd5 := pg_round 4 (mr_usd5 r),
        mr_imoex := pg_round 2 (mr_imoex r), mr_imoex60 := pg_round 2 (mr_imoex60 r), mr_multiplier := pg_round 2 (mr_multiplier r)\<rparr>)
      else None)"

definition row_of_regime :: "macro_snapshot \<Rightarrow> macro_regime \<Rightarrow> macro_row" where
  "row_of_regime s r = \<lparr>mr_rate = cbr_key_rate s, mr_usd = usdrub_close s, mr_usd5 = usdrub_5d_prev s, mr_imoex = imoex_close s,
     mr_imoex60 = imoex_60d_prev s, mr_label = regime r, mr_multiplier = multiplier r, mr_sources = snapshot_sources s\<rparr>"

type_synonym regime_log = "(int \<times> macro_row) list"

definition upsert_regime :: "db_conn \<Rightarrow> macro_regime \<Rightarrow> regime_log \<Rightarrow> unit result \<times> regime_log" where
  "upsert_regime c r t =
     (case snapshot r of None \<Rightarrow> (Inl ValueError, t)
      | Some s \<Rightarrow>
          (if cn_placeholders c \<noteq> (if is_postgres c then Percent_S else Question_Mark) then (Inl (OtherError ''ProgrammingError''), t)
           else case cn_column c (row_of_regime s r) of None \<Rightarrow> (Inl pg_error, t)
             | Some row \<Rightarrow> (Inr (), AList.update (fetched_at s) row t)))"

text \<open>The fixed reason line of a loaded regime is left out.\<close>

definition latest_regime :: "regime_log \<Rightarrow> macro_regime option result" where
  "latest_regime t =
     (if t = [] then Inr None
      else let k = Max (fst ` set t)
           in case map_of t k of None \<Rightarrow> Inr None
              | Some row \<Rightarrow> map_sum id Some (mk_macro_regime (mr_label row) (mr_multiplier row) []
                  (Some \<lparr>fetched_at = k, cbr_key_rate = mr_rate row, usdrub_close = mr_usd row, usdrub_5d_prev = mr_usd5 row,
                    imoex_close = mr_imoex row, imoex_60d_prev = mr_imoex60 row, snapshot_sources = mr_sources row\<rparr>)))"

section \<open>The script\<close>

record macro_args =
  ma_dsn :: bool
  ma_connects :: bool
  ma_force :: bool
  ma_window :: rat

definition fresh_row :: "macro_args \<Rightarrow> int \<Rightarrow> regime_log \<Rightarrow> bool" where
  "fresh_row args now t =
     (case latest_regime t of
        Inr (Some r) \<Rightarrow>
          (case snapshot r of None \<Rightarrow> False | Some s \<Rightarrow> frnd (of_int (now - fetched_at s) / 1000000) < ma_window args)
      | _ \<Rightarrow> False)"

text \<open>The exit code or the exception that ends the script, the log and the state.\<close>

definition macro_main ::
  "'w macro_lib \<Rightarrow> macro_urls \<Rightarrow> db_conn \<Rightarrow> macro_args \<Rightarrow> int \<Rightarrow> regime_log \<times> 'w macro_state \<Rightarrow> int result \<times> regime_log \<times> 'w macro_state" where
  "macro_main lib us c args now = (\<lambda>(t, s).
     if \<not> ma_dsn args then (Inr 1, t, s)
     else if \<not> ma_connects args then (Inr 3, t, s)
     else if \<not> ma_force args \<and> fresh_row args now t then (Inr 0, t, s)
     else (case build_snapshot lib us now s of
         (Inl e, s) \<Rightarrow> (Inl e, t, s)
       | (Inr None, s) \<Rightarrow> (Inr 1, t, s)
       | (Inr (Some snap), s) \<Rightarrow>
           (case classify (Some snap) of
              Inl e \<Rightarrow> (if e \<in> {ValueError, ValidationError} then Inr 2 else Inl e, t, s)
            | Inr r \<Rightarrow> (case upsert_regime c r t of (Inl e, t) \<Rightarrow> (Inr 3, t, s) | (Inr _, t) \<Rightarrow> (Inr 0, t, s)))))"


section \<open>Retries\<close>

lemma attempts_log:
  "attempts lib url n e s = (r, s') \<Longrightarrow> \<exists>k \<le> n. ms_log s' = ms_log s @ replicate k url"
proof (induction n arbitrary: e s)
  case (Suc n)
  obtain a w where g: "nl_get lib url (ms_world s) = (a, w)" by fastforce
  let ?s = "s\<lparr>ms_world := w, ms_log := ms_log s @ [url]\<rparr>"
  have one: "\<exists>k \<le> Suc n. ms_log ?s = ms_log s @ replicate k url"
    by (rule exI [of _ 1]) simp
  consider "s' = ?s" | e' where "attempts lib url n e' ?s = (r, s')"
    using Suc.prems g by (auto simp: Let_def split: attempt.splits if_splits)
  then show ?case
  proof cases
    case (2 e')
    then obtain k where "k \<le> n" "ms_log s' = ms_log s @ [url] @ replicate k url" using Suc.IH by fastforce
    then have "Suc k \<le> Suc n \<and> ms_log s' = ms_log s @ replicate (Suc k) url" by simp
    then show ?thesis by blast
  qed (use one in simp)
qed (auto intro: exI [of _ 0])

lemma attempts_cache: "attempts lib url n e s = (r, s') \<Longrightarrow> ms_cache s' = ms_cache s"
  by (induction n arbitrary: e s) (auto simp: Let_def split: prod.splits attempt.splits if_splits dest!: meta_spec)

text \<open>The outcomes of the attempts that would be made, one after another.\<close>

fun outcomes :: "'w macro_lib \<Rightarrow> string \<Rightarrow> nat \<Rightarrow> 'w \<Rightarrow> attempt list" where
  "outcomes lib url 0 w = []"
| "outcomes lib url (Suc n) w = (case nl_get lib url w of (a, w) \<Rightarrow> a # outcomes lib url n w)"

definition retryable :: "attempt \<Rightarrow> bool" where
  "retryable a = (case a of Url_Failure \<Rightarrow> True | Http_Code c \<Rightarrow> \<not> (400 \<le> c \<and> c < 500) | _ \<Rightarrow> False)"

text \<open>The first attempt that is not worth repeating decides.\<close>

definition decisive :: "attempt list \<Rightarrow> attempt option" where
  "decisive as = find (\<lambda>a. \<not> retryable a) as"

lemma attempts_decisive:
  "fst (attempts lib url n e s) = Inr p \<longleftrightarrow> decisive (outcomes lib url n (ms_world s)) = Some (Page p)"
proof (induction n arbitrary: e s)
  case (Suc n)
  obtain a w where g: "nl_get lib url (ms_world s) = (a, w)" by fastforce
  show ?case
    using Suc.IH g by (cases a) (auto simp: Let_def decisive_def retryable_def)
qed (simp add: decisive_def)

text \<open>
  A request is made at most three times: the page is delivered exactly when the first of three attempts
  that is not worth repeating, neither an outage nor a status outside the 400s, brings it.
\<close>

theorem http_get_bounded:
  "(fst (http_get lib url s) = Inr p \<longleftrightarrow> decisive (outcomes lib url 3 (ms_world s)) = Some (Page p)) \<and>
   (\<exists>k \<le> 3. ms_log (snd (http_get lib url s)) = ms_log s @ replicate k url)"
  using attempts_decisive [of lib url 3 None s p] attempts_log [of lib url 3 None s, OF prod.collapse [symmetric]]
  by (simp add: http_get_def MAX_RETRIES_def)


section \<open>The ladder of a source\<close>

lemma http_get_cache: "http_get lib url s = (r, s') \<Longrightarrow> ms_cache s' = ms_cache s"
  by (simp add: http_get_def attempts_cache)

lemma fetch_live_cases:
  assumes "fetch_live lib name url parse s = (r, s')"
  obtains x where "r = Inl x" "ms_cache s' = ms_cache s"
  | p e where "fst (http_get lib url s) = Inr p" "parse p = Inr e" "r = Inr (e\<lparr>me_source := url\<rparr>)"
      "ms_cache s' = (ms_cache s)(name \<mapsto> (nl_now lib, Some (e\<lparr>me_source := url\<rparr>)))"
proof -
  obtain q s1 where g: "http_get lib url s = (q, s1)" by fastforce
  note c = http_get_cache [OF g]
  show ?thesis
  proof (cases q)
    case (Inl x)
    then show ?thesis using assms g c that(1) by (auto simp: fetch_live_def)
  next
    case (Inr p)
    show ?thesis
    proof (cases "parse p")
      case (Inl x)
      then have "r = Inl x \<and> s' = s1" using assms g Inr by (simp add: fetch_live_def)
      then show ?thesis using c that(1) by simp
    next
      case pe: (Inr e)
      obtain ok s2 where w: "write_cache lib name (e\<lparr>me_source := url\<rparr>) s1 = (ok, s2)" by fastforce
      show ?thesis
      proof (cases ok)
        case (Inl x)
        then have "ms_cache s2 = ms_cache s1" using w by (auto simp: write_cache_def split: prod.splits bool.splits)
        then show ?thesis using assms g c Inr pe w Inl that(1) by (auto simp: fetch_live_def bindW_def Let_def)
      next
        case wi: (Inr u)
        then have "ms_cache s2 = (ms_cache s1)(name \<mapsto> (nl_now lib, Some (e\<lparr>me_source := url\<rparr>)))"
          using w by (auto simp: write_cache_def split: prod.splits bool.splits)
        then show ?thesis using assms g c Inr pe w wi that(2) [of p e] by (auto simp: fetch_live_def bindW_def Let_def)
      qed
    qed
  qed
qed





text \<open>Numbers that arrived are lost when the disk is full and there is no cache file yet.\<close>

lemma full_disk_discards_live:
  assumes "fst (http_get lib url s) = Inr p" "parse p = Inr e" "\<And>w. \<not> fst (nl_write lib name w)" "os_error \<notin> set caught"
    "ms_cache s name = None"
  shows "fst (safe_fetch lib name (fetch_source lib name url parse caught) s) = None"
proof -
  obtain s1 where g: "http_get lib url s = (Inr p, s1)" using assms(1) by (metis prod.collapse)
  obtain w where "nl_write lib name (ms_world s1) = (False, w)" using assms(3) by (metis prod.collapse)
  then have "fetch_source lib name url parse caught s = (Inl os_error, s1\<lparr>ms_world := w\<rparr>)"
    using g assms(2,4) by (simp add: fetch_source_def fetch_live_def write_cache_def Let_def)
  then show ?thesis using assms(5) http_get_cache [OF g] by (simp add: safe_fetch_def read_cache_def)
qed

text \<open>
  A source that answered once survives outages: after a successful live fetch, a fetch up to thirty
  days later that fails to reach the source delivers the same numbers, labelled as coming from
  the cache.
\<close>

theorem outage_keeps_numbers:
  assumes "fetch_source lib name url parse caught s = (Inr e, s1)"
    "fst (fetch_live lib name url parse s) = Inr e"
    "fst (fetch_live lib' name url parse s1) = Inl x" "x \<in> set caught"
    "frnd (nl_now lib' - nl_now lib) \<le> 30 * 24 * 3600"
  shows "fst (fetch_source lib' name url parse caught s1) = Inr (e\<lparr>me_source := cache_source name\<rparr>)"
proof -
  obtain s1' where f: "fetch_live lib name url parse s = (Inr e, s1')" using assms(2) by (metis prod.collapse)
  then have s1: "s1' = s1" using assms(1) by (simp add: fetch_source_def)
  have c: "ms_cache s1 name = Some (nl_now lib, Some e)"
    using fetch_live_cases [OF f] unfolding s1 by (metis (no_types, lifting) Inl_Inr_False fun_upd_same sum.inject(2))
  obtain s2 where g: "fetch_live lib' name url parse s1 = (Inl x, s2)" using assms(3) by (metis prod.collapse)
  have "ms_cache s2 = ms_cache s1" using fetch_live_cases [OF g] by (metis Inl_Inr_False)
  then have "read_cache (nl_now lib') (CACHE_TTL_SECONDS * 24 * 30) name s2 = Some e"
    using c assms(5) by (simp add: read_cache_def CACHE_TTL_SECONDS_def)
  then show ?thesis using g assms(4) by (simp add: fetch_source_def)
qed


section \<open>The snapshot and its log\<close>

lemma compose_snapshot_Some:
  assumes "compose_snapshot now cbr usdrub imoex = Inr (Some snap)"
  obtains c u i us js rate where "cbr = Some c" "usdrub = Some u" "imoex = Some i"
    "me_rate c = Some rate" "me_closes u = Some us" "me_closes i = Some js" "6 \<le> length us" "61 \<le> length js"
    "snap = \<lparr>fetched_at = now, cbr_key_rate = rate, usdrub_close = snd (last us), usdrub_5d_prev = snd (from_end us 6),
       imoex_close = snd (last js), imoex_60d_prev = snd (from_end js 61),
       snapshot_sources = [(''cbr'', me_source c), (''usdrub'', me_source u), (''imoex'', me_source i)]\<rparr>"
  using assms by (auto simp: compose_snapshot_def split: option.splits if_splits)

lemma classify_total: "\<exists>r. classify (Some s) = Inr r \<and> snapshot r = Some s \<and> multiplier r \<in> {1 / 2, 3 / 4, 1}"
  by (simp add: classify_eq)

lemma upsert_regime_writes:
  "upsert_regime c r t = (Inr (), t') \<longleftrightarrow>
     (\<exists>s row. snapshot r = Some s \<and> cn_placeholders c = (if is_postgres c then Percent_S else Question_Mark) \<and>
        cn_column c (row_of_regime s r) = Some row \<and> t' = AList.update (fetched_at s) row t)"
  by (auto simp: upsert_regime_def split: option.splits if_splits)

lemma upsert_regime_fails: "upsert_regime c r t = (Inl e, t') \<Longrightarrow> t' = t"
  by (auto simp: upsert_regime_def split: option.splits if_splits)

lemma latest_after_update:
  assumes "\<And>k. k \<in> fst ` set t \<Longrightarrow> k \<le> n" "1 / 2 \<le> mr_multiplier row" "mr_multiplier row \<le> 1"
  shows "latest_regime (AList.update n row t) = Inr (Some \<lparr>regime = mr_label row, multiplier = mr_multiplier row, reason = [],
     snapshot = Some \<lparr>fetched_at = n, cbr_key_rate = mr_rate row, usdrub_close = mr_usd row, usdrub_5d_prev = mr_usd5 row,
        imoex_close = mr_imoex row, imoex_60d_prev = mr_imoex60 row, snapshot_sources = mr_sources row\<rparr>\<rparr>)"
proof -
  have dom: "fst ` set (AList.update n row t) = insert n (fst ` set t)"
    by (simp add: dom_update)
  have k: "Max (fst ` set (AList.update n row t)) = n"
    unfolding dom by (rule Max_eqI) (use assms(1) in auto)
  have ne: "AList.update n row t \<noteq> []" using dom by auto
  show ?thesis
    unfolding latest_regime_def Let_def k
    using ne assms(2,3) by (simp add: AList.update_conv mk_macro_regime_def)
qed

text \<open>The row as the numeric columns give it back.\<close>

definition rounded_snapshot :: "macro_snapshot \<Rightarrow> macro_snapshot" where
  "rounded_snapshot s = s\<lparr>cbr_key_rate := pg_round 2 (cbr_key_rate s), usdrub_close := pg_round 4 (usdrub_close s),
     usdrub_5d_prev := pg_round 4 (usdrub_5d_prev s), imoex_close := pg_round 2 (imoex_close s),
     imoex_60d_prev := pg_round 2 (imoex_60d_prev s)\<rparr>"

lemma pg_round_multiplier: "m \<in> {1 / 2, 3 / 4, 1} \<Longrightarrow> pg_round 2 m = m"
  by (auto intro: pg_round_exact [of _ 2 50] pg_round_exact [of _ 2 75] pg_round_exact [of _ 2 100] simp del: divide_eq_eq)

text \<open>
  What the classifier decided is what the next reader finds: after an upsert that succeeds, of a snapshot
  not older than the log, the latest regime has the same label and multiplier, on the same snapshot rounded
  to the columns; and writing it again changes nothing.
\<close>

theorem regime_log_round_trip:
  assumes "classify (Some s) = Inr r" "cn_column c = pg_macro_column" "upsert_regime c r t = (Inr (), t')"
    "\<And>k. k \<in> fst ` set t \<Longrightarrow> k \<le> fetched_at s"
  shows "(\<exists>r'. latest_regime t' = Inr (Some r') \<and> regime r' = regime r \<and> multiplier r' = multiplier r \<and>
      snapshot r' = Some (rounded_snapshot s)) \<and> upsert_regime c r t' = (Inr (), t')"
proof -
  have r: "snapshot r = Some s" "multiplier r \<in> {1 / 2, 3 / 4, 1}" using classify_total [of s] assms(1) by auto
  obtain row where w: "pg_macro_column (row_of_regime s r) = Some row" "t' = AList.update (fetched_at s) row t"
    using assms(2,3) r(1) by (auto simp: upsert_regime_writes)
  have row: "row = \<lparr>mr_rate = pg_round 2 (cbr_key_rate s), mr_usd = pg_round 4 (usdrub_close s),
      mr_usd5 = pg_round 4 (usdrub_5d_prev s), mr_imoex = pg_round 2 (imoex_close s), mr_imoex60 = pg_round 2 (imoex_60d_prev s),
      mr_label = regime r, mr_multiplier = multiplier r, mr_sources = snapshot_sources s\<rparr>"
    using w(1) pg_round_multiplier [OF r(2)] by (simp add: pg_macro_column_def row_of_regime_def split: if_splits)
  have "latest_regime t' = Inr (Some \<lparr>regime = regime r, multiplier = multiplier r, reason = [], snapshot = Some (rounded_snapshot s)\<rparr>)"
    unfolding w(2) by (subst latest_after_update) (use assms(4) r(2) in \<open>auto simp: row rounded_snapshot_def\<close>)
  moreover have "AList.update (fetched_at s) row t' = t'"
    by (simp add: w(2) update_triv update_conv')
  ultimately show ?thesis using assms(2,3) r(1) w(1) by (auto simp: upsert_regime_writes)
qed

section \<open>The runs of the script\<close>

lemma macro_main_cases:
  assumes "macro_main lib us c args now (t, s) = (r, t', s')"
  obtains e where "r = Inr e" "e \<in> {1, 3}" "t' = t"
  | "r = Inr 0" "t' = t" "\<not> ma_force args" "fresh_row args now t"
  | e where "r = Inl e" "fst (build_snapshot lib us now s) = Inl e" "t' = t"
  | snap g where "r = Inr 0" "fst (build_snapshot lib us now s) = Inr (Some snap)" "classify (Some snap) = Inr g"
      "upsert_regime c g t = (Inr (), t')"
proof -
  obtain q s1 where b: "build_snapshot lib us now s = (q, s1)" by fastforce
  show ?thesis
  proof (cases "ma_dsn args \<and> ma_connects args \<and> (ma_force args \<or> \<not> fresh_row args now t)")
    case False
    then show ?thesis using assms that(1,2) by (auto simp: macro_main_def split: if_splits)
  next
    case go: True
    show ?thesis
    proof (cases q)
      case (Inl e)
      then show ?thesis using assms b go that(3) by (auto simp: macro_main_def)
    next
      case (Inr o')
      show ?thesis
      proof (cases o')
        case None
        then show ?thesis using assms b go Inr that(1) by (auto simp: macro_main_def)
      next
        case (Some snap)
        obtain g where g: "classify (Some snap) = Inr g" using classify_total by blast
        obtain u t1 where u: "upsert_regime c g t = (u, t1)" by fastforce
        have m: "r = (case u of Inl e \<Rightarrow> Inr 3 | Inr x \<Rightarrow> Inr 0) \<and> t' = t1"
          using assms b go Inr Some g u by (cases u) (auto simp: macro_main_def)
        show ?thesis
        proof (cases u)
          case (Inl e)
          then show ?thesis using m u upsert_regime_fails that(1) by force
        next
          case (Inr x)
          then show ?thesis using m u that(4) b \<open>q = Inr o'\<close> Some g by simp
        qed
      qed
    qed
  qed
qed

text \<open>Exit code 2 is indeed never used: the classifier is total on snapshots.\<close>

theorem macro_main_codes:
  "macro_main lib us c args now (t, s) = (Inr e, t', s') \<Longrightarrow> e \<in> {0, 1, 3} \<and> (e \<noteq> 0 \<longrightarrow> t' = t)"
  by (erule macro_main_cases) auto

text \<open>
  With the driver the requirements pin, the log of regimes is never written: its connections have an
  \<open>execute\<close> method, so the persistence takes them for SQLite and sends question marks. Every run leaves the
  log as it was, and one that reports success skipped on a fresh row, so on an empty log none does.
\<close>

theorem macro_sync_never_persists:
  assumes "cn_has_execute c" "cn_placeholders c = Percent_S"
    "macro_main lib us c args now (t, s) = (r, t', s')"
  shows "t' = t \<and> (r = Inr 0 \<longrightarrow> t \<noteq> [] \<and> \<not> ma_force args \<and> fresh_row args now t)"
  using assms(3)
proof (cases rule: macro_main_cases)
  case 2
  then show ?thesis by (auto simp: fresh_row_def latest_regime_def)
next
  case (4 snap g)
  then show ?thesis using assms(1,2) by (auto simp: upsert_regime_writes is_postgres_def)
qed auto

section \<open>Instances\<close>

text \<open>A world that counts the requests; the first of each source fails with an outage from the fourth on.\<close>

definition up_page :: "string \<Rightarrow> string" where
  "up_page url = (if url = ''c'' then ''<r/>'' else ''begin;close'' @ concat (replicate 61 (LF # ''d;7'')))"

definition up_lib :: "nat \<Rightarrow> rat \<Rightarrow> nat macro_lib" where
  "up_lib n now = \<lparr>nl_get = (\<lambda>url w. (if w < n then Page (up_page url) else Url_Failure, Suc w)),
     nl_write = (\<lambda>_ w. (True, w)), nl_xml = (\<lambda>_. Some (Some ''16'', [])),
     nl_dec = (\<lambda>t. if t = ''7'' then Some 7 else if t = ''16'' then Some 16 else None), nl_now = now\<rparr>"

definition up_urls :: macro_urls where "up_urls = \<lparr>mu_cbr = ''c'', mu_usdrub = ''u'', mu_imoex = ''i''\<rparr>"
definition up_state :: "nat macro_state" where "up_state = \<lparr>ms_cache = Map.empty, ms_log = [], ms_world = 0\<rparr>"
definition up_args :: macro_args where "up_args = \<lparr>ma_dsn = True, ma_connects = True, ma_force = False, ma_window = 3600\<rparr>"
definition psycopg3 :: db_conn where "psycopg3 = \<lparr>cn_has_execute = True, cn_placeholders = Percent_S, cn_column = pg_macro_column\<rparr>"
definition psycopg2 :: db_conn where "psycopg2 = \<lparr>cn_has_execute = False, cn_placeholders = Percent_S, cn_column = pg_macro_column\<rparr>"


definition up_snapshot :: macro_snapshot where
  "up_snapshot = \<lparr>fetched_at = 5, cbr_key_rate = 16, usdrub_close = 7, usdrub_5d_prev = 7, imoex_close = 7, imoex_60d_prev = 7,
     snapshot_sources = [(''cbr'', ''c''), (''usdrub'', ''u''), (''imoex'', ''i'')]\<rparr>"

definition up_regime :: macro_regime where
  "up_regime = \<lparr>regime = Risk_Off, multiplier = 1 / 2, reason = [CBR_Trigger 16], snapshot = Some up_snapshot\<rparr>"

text \<open>The three pages give the snapshot; a psycopg 2 connection stores its regime, a psycopg 3 connection fails.\<close>

lemma up_run:
  "fst (build_snapshot (up_lib 9 0) up_urls 5 up_state) = Inr (Some up_snapshot)"
  "classify (Some up_snapshot) = Inr up_regime"
  "upsert_regime psycopg2 up_regime [] = (Inr (), snd (upsert_regime psycopg2 up_regime []))"
  "fst (macro_main (up_lib 9 0) up_urls psycopg2 up_args 5 ([], up_state)) = Inr 0"
  "fst (macro_main (up_lib 9 0) up_urls psycopg3 up_args 5 ([], up_state)) = Inr 3"
  by code_simp+

theorem regime_log_round_trip_witness:
  "\<exists>r'. latest_regime (snd (upsert_regime psycopg2 up_regime [])) = Inr (Some r') \<and> regime r' = Risk_Off \<and> multiplier r' = 1 / 2"
  using regime_log_round_trip [OF up_run(2) _ up_run(3), THEN conjunct1]
  by (auto simp: psycopg2_def up_regime_def)

theorem macro_sync_never_persists_witness:
  "fst (snd (macro_main (up_lib 9 0) up_urls psycopg3 up_args 5 ([], up_state))) = []"
proof -
  obtain r t' s' where "macro_main (up_lib 9 0) up_urls psycopg3 up_args 5 ([], up_state) = (r, t', s')"
    by (metis prod.collapse)
  then show ?thesis
    using macro_sync_never_persists [of psycopg3 "up_lib 9 0" up_urls up_args 5 "[]" up_state r t' s']
    by (simp add: psycopg3_def)
qed

definition usd_fetch :: "nat \<Rightarrow> rat \<Rightarrow> nat macro_state \<Rightarrow> macro_entry result \<times> nat macro_state" where
  "usd_fetch n now = fetch_source (up_lib n now) ''usdrub'' ''u'' (closes_entry (nl_dec (up_lib n now))) [url_error, http_error, ValueError]"


theorem outage_keeps_numbers_witness:
  "map_sum id me_source (fst (usd_fetch 0 86400 (snd (usd_fetch 1 60 up_state)))) = Inr ''cache:usdrub.json''"
proof -
  let ?p = "closes_entry (nl_dec (up_lib 1 60))"
  let ?e = "\<lparr>me_rate = None, me_closes = Some (replicate 61 (''d'', 7)), me_source = ''u''\<rparr>"
  have p: "closes_entry (nl_dec (up_lib 0 86400)) = ?p" by (simp add: up_lib_def)
  have 1: "fst (fetch_live (up_lib 1 60) ''usdrub'' ''u'' ?p up_state) = Inr ?e"
    "fst (usd_fetch 1 60 up_state) = Inr ?e"
    "fst (fetch_live (up_lib 0 86400) ''usdrub'' ''u'' ?p (snd (usd_fetch 1 60 up_state))) = Inl url_error"
    "cache_source ''usdrub'' = ''cache:usdrub.json''"
    by code_simp+
  have 3: "frnd (nl_now (up_lib 0 86400) - nl_now (up_lib 1 60)) \<le> 30 * 24 * 3600" by (simp add: up_lib_def)
  have 2: "fetch_source (up_lib 1 60) ''usdrub'' ''u'' ?p [url_error, http_error, ValueError] up_state = (Inr ?e, snd (usd_fetch 1 60 up_state))"
    using 1(2) by (metis prod.collapse usd_fetch_def)
  show ?thesis
    using outage_keeps_numbers [OF 2 1(1,3) _ 3] 1(4) by (simp add: usd_fetch_def p)
qed

end
