(* ===== verification/Metrics.thy ===== *)
theory Metrics
  imports Supervisor "HOL-Library.AList" "HOL-Library.List_Lexorder"
begin

text \<open>
  \<open>src/metrics_server.py\<close>, and the two loops of \<open>src/main.py\<close> that feed it: the registry of
  counters and gauges, its text exposition and the endpoint. Every method is one locked section, so a run of
  several threads is a list of operations. A value is the double it is; in the exposition a line carries the
  value scaled to its decimals. \<open>sorted\<close> on label sets, which Python orders by inclusion only, is
  a parameter that permutes.
\<close>

section \<open>The registry\<close>

type_synonym labels = "(string \<times> string) list"
type_synonym label_key = "(string \<times> string) set"
type_synonym buckets = "(label_key \<times> rat) list"

record registry =
  rg_counters :: "(string \<times> buckets) list"
  rg_gauges :: "(string \<times> buckets) list"

definition empty_registry :: registry where
  "empty_registry = \<lparr>rg_counters = [], rg_gauges = []\<rparr>"

definition bucket_of :: "(string \<times> buckets) list \<Rightarrow> string \<Rightarrow> buckets" where
  "bucket_of m name = (case map_of m name of None \<Rightarrow> [] | Some b \<Rightarrow> b)"

definition value_of :: "(string \<times> buckets) list \<Rightarrow> string \<Rightarrow> labels \<Rightarrow> rat" where
  "value_of m name ls = (case map_of (bucket_of m name) (set ls) of None \<Rightarrow> 0 | Some v \<Rightarrow> v)"

definition inc_counter :: "string \<Rightarrow> labels \<Rightarrow> rat \<Rightarrow> registry \<Rightarrow> registry" where
  "inc_counter name ls v g =
     g\<lparr>rg_counters := AList.update name (AList.update (set ls) (frnd (value_of (rg_counters g) name ls + v)) (bucket_of (rg_counters g) name))
         (rg_counters g)\<rparr>"

definition set_gauge :: "string \<Rightarrow> rat \<Rightarrow> labels \<Rightarrow> registry \<Rightarrow> registry" where
  "set_gauge name v ls g = g\<lparr>rg_gauges := AList.update name (AList.update (set ls) v (bucket_of (rg_gauges g) name)) (rg_gauges g)\<rparr>"

definition get_counter :: "string \<Rightarrow> labels \<Rightarrow> registry \<Rightarrow> rat" where
  "get_counter name ls g = value_of (rg_counters g) name ls"

definition get_gauge :: "string \<Rightarrow> labels \<Rightarrow> registry \<Rightarrow> rat" where
  "get_gauge name ls g = value_of (rg_gauges g) name ls"

definition get_gauge_or_zero :: "string \<Rightarrow> registry \<Rightarrow> rat" where
  "get_gauge_or_zero name g = (case bucket_of (rg_gauges g) name of [] \<Rightarrow> 0 | (k, v) # _ \<Rightarrow> v)"

section \<open>The exposition\<close>

datatype line = Help string | Type_Line string string | Sample string label_key nat int

definition UPTIME :: string where "UPTIME = ''alphard_uptime_seconds''"
definition LAST_TICK :: string where "LAST_TICK = ''alphard_heartbeat_last_tick_timestamp''"

definition scaled :: "nat \<Rightarrow> rat \<Rightarrow> int" where
  "scaled n v = rhe (v * 10 ^ n)"

definition metric_lines :: "(buckets \<Rightarrow> buckets) \<Rightarrow> string \<Rightarrow> nat \<Rightarrow> string \<times> buckets \<Rightarrow> line list" where
  "metric_lines order kind decimals m =
     Help (fst m) # Type_Line (fst m) kind # map (\<lambda>(k, v). Sample (fst m) k decimals (scaled decimals v)) (order (snd m))"

definition render :: "(buckets \<Rightarrow> buckets) \<Rightarrow> rat \<Rightarrow> registry \<Rightarrow> line list" where
  "render order uptime g =
     [Help UPTIME, Type_Line UPTIME ''gauge'', Sample UPTIME {} 3 (scaled 3 uptime),
      Help LAST_TICK, Type_Line LAST_TICK ''gauge'', Sample LAST_TICK {} 0 (scaled 0 (get_gauge_or_zero LAST_TICK g))] @
     concat (map (metric_lines order ''counter'' 0) (sort_key fst (rg_counters g))) @
     concat (map (metric_lines order ''gauge'' 3) (filter (\<lambda>m. fst m \<notin> {UPTIME, LAST_TICK}) (sort_key fst (rg_gauges g))))"

datatype reply = Ok_Text | Exposition "line list" | Not_Found

definition metrics_GET :: "(buckets \<Rightarrow> buckets) \<Rightarrow> rat \<Rightarrow> registry \<Rightarrow> string \<Rightarrow> nat \<times> reply" where
  "metrics_GET order uptime g path =
     (if path = ''/health'' then (200, Ok_Text)
      else if path = ''/metrics'' then (200, Exposition (render order uptime g))
      else (404, Not_Found))"

text \<open>The server: whether its thread runs.\<close>

definition server_start :: "rat \<Rightarrow> bool \<times> registry \<Rightarrow> bool \<times> registry" where
  "server_start now = (\<lambda>(running, g). if running then (running, g) else (True, set_gauge LAST_TICK now [] g))"

definition server_stop :: "bool \<times> registry \<Rightarrow> bool \<times> registry" where
  "server_stop = (\<lambda>(running, g). (False, g))"

section \<open>The loops that feed it\<close>

definition beat_metrics :: "rat \<Rightarrow> registry \<Rightarrow> registry" where
  "beat_metrics now g = set_gauge LAST_TICK now [] (inc_counter ''alphard_heartbeats_total'' [] 1 g)"

text \<open>One refresh of the coverage gauges: the three counts, or the exception of one of the queries, which leaves them all.\<close>

definition universe_refresh :: "(nat result \<times> nat result \<times> nat result) \<Rightarrow> registry option \<Rightarrow> registry option" where
  "universe_refresh counts g =
     (case counts of
        (Inr tickers, Inr full, Inr rows) \<Rightarrow>
          map_option (\<lambda>g. set_gauge ''alphard_ohlcv_rows_total'' (frnd (of_nat rows)) []
            (set_gauge ''alphard_tickers_with_full_history_total'' (frnd (of_nat full)) []
            (set_gauge ''alphard_tickers_in_universe_total'' (frnd (of_nat tickers)) [] g))) g
      | _ \<Rightarrow> g)"

fun universe_metrics_loop :: "bool \<Rightarrow> (nat result \<times> nat result \<times> nat result) list \<Rightarrow> registry option \<Rightarrow> registry option" where
  "universe_metrics_loop dsn [] g = g"
| "universe_metrics_loop dsn (c # cs) g = (if dsn then universe_metrics_loop dsn cs (universe_refresh c g) else g)"

section \<open>What a reader gets\<close>

lemma bucket_of_update: "bucket_of (AList.update n b m) n' = (if n' = n then b else bucket_of m n')"
  by (simp add: bucket_of_def update_conv')

lemma value_of_update:
  "value_of (AList.update n (AList.update (set ls) v (bucket_of m n)) m) n' ls' =
     (if n' = n \<and> set ls' = set ls then v else value_of m n' ls')"
  by (simp add: value_of_def bucket_of_update update_conv')

text \<open>Labels count as a set: their order is irrelevant.\<close>

lemma counter_after_inc:
  "get_counter n' ls' (inc_counter n ls v g) = (if n' = n \<and> set ls' = set ls then frnd (get_counter n ls g + v) else get_counter n' ls' g)"
  by (simp add: get_counter_def inc_counter_def value_of_update)

lemma get_counter_cong: "set ks = set ls \<Longrightarrow> get_counter n ks g = get_counter n ls g"
  by (simp add: get_counter_def value_of_def)

lemma gauge_after_set: "get_gauge n' ls' (set_gauge n v ls g) = (if n' = n \<and> set ls' = set ls then v else get_gauge n' ls' g)"
  by (simp add: get_gauge_def set_gauge_def value_of_update)

lemma gauge_after_inc [simp]: "get_gauge n ls (inc_counter n' ls' v g) = get_gauge n ls g"
  by (simp add: get_gauge_def inc_counter_def)

lemma counter_after_set [simp]: "get_counter n ls (set_gauge n' v ls' g) = get_counter n ls g"
  by (simp add: get_counter_def set_gauge_def)

text \<open>The operations several threads apply, one after another in whatever order the lock lets them in.\<close>

datatype metric_op = Inc string labels | Set_To string labels rat

fun apply_op :: "metric_op \<Rightarrow> registry \<Rightarrow> registry" where
  "apply_op (Inc n ls) g = inc_counter n ls 1 g"
| "apply_op (Set_To n ls v) g = set_gauge n v ls g"

definition incs :: "string \<Rightarrow> labels \<Rightarrow> metric_op list \<Rightarrow> nat" where
  "incs n ls ops = length (filter (\<lambda>op. case op of Inc m ks \<Rightarrow> m = n \<and> set ks = set ls | _ \<Rightarrow> False) ops)"

lemma incs_simps [simp]: "incs n ls [] = 0"
  "incs n ls (op # ops) = (case op of Inc m ks \<Rightarrow> of_bool (m = n \<and> set ks = set ls) | _ \<Rightarrow> 0) + incs n ls ops"
  by (auto simp: incs_def split: metric_op.splits)

text \<open>
  No increment is lost in any interleaving: after any run of operations a counter has grown by exactly the number
  of increments of its name and labels, exact as long as the count stays below \<open>2^53\<close>.
\<close>

theorem counters_count:
  assumes "get_counter n ls g = of_nat k" "k + incs n ls ops \<le> 2 ^ 53"
  shows "get_counter n ls (fold apply_op ops g) = of_nat (k + incs n ls ops)"
  using assms
proof (induction ops arbitrary: g k)
  case (Cons op ops)
  show ?case
  proof (cases op)
    case (Inc m ks)
    have f: "frnd (of_nat k + 1) = of_nat (Suc k)" if "Suc k \<le> 2 ^ 53"
    proof -
      have "int (Suc k) \<le> 2 ^ 53" using that by (metis of_nat_le_iff of_nat_numeral of_nat_power)
      then have "frnd (of_int (int (Suc k))) = of_int (int (Suc k))" by (intro frnd_of_int) simp
      then show ?thesis by (simp add: add.commute)
    qed
    show ?thesis
    proof (cases "m = n \<and> set ks = set ls")
      case True
      then have v: "get_counter n ls (apply_op op g) = of_nat (Suc k)"
        using Cons.prems Inc f get_counter_cong [of ks ls n g] by (simp add: counter_after_inc)
      show ?thesis using Cons.IH [OF v] Cons.prems(2) Inc True by simp
    next
      case False
      then have "get_counter n ls (apply_op op g) = of_nat k" using Cons.prems(1) Inc by (auto simp: counter_after_inc)
      from Cons.IH [OF this] show ?thesis using Cons.prems(2) Inc False by auto
    qed
  next
    case (Set_To m ks v)
    then show ?thesis using Cons.IH [of "apply_op op g" k] Cons.prems by simp
  qed
qed simp

text \<open>A failing query leaves the gauges of the last good refresh, all three of them.\<close>

lemma gauges_together:
  "universe_refresh (Inr a, Inr b, Inr c) (Some g) = Some g' \<Longrightarrow>
   get_gauge ''alphard_tickers_in_universe_total'' [] g' = frnd (of_nat a) \<and>
   get_gauge ''alphard_tickers_with_full_history_total'' [] g' = frnd (of_nat b) \<and>
   get_gauge ''alphard_ohlcv_rows_total'' [] g' = frnd (of_nat c)"
  by (auto simp: universe_refresh_def gauge_after_set)

lemma failed_refresh_keeps: "isl a \<or> isl b \<or> isl c \<Longrightarrow> universe_refresh (a, b, c) g = g"
  by (auto simp: universe_refresh_def split: sum.splits)

section \<open>Every sample is shown\<close>

definition wf_registry :: "registry \<Rightarrow> bool" where
  "wf_registry g \<longleftrightarrow> distinct (map fst (rg_counters g)) \<and> distinct (map fst (rg_gauges g))"

lemma wf_apply_op: "wf_registry g \<Longrightarrow> wf_registry (apply_op op g)"
  by (cases op) (auto simp: wf_registry_def inc_counter_def set_gauge_def distinct_update)

text \<open>
  The exposition shows every counter with its value rounded to an integer and every gauge but the two it
  prints itself to three decimals, each under its own labels, and of a named metric nothing that is not in the registry.
\<close>

theorem exposition_faithful:
  assumes "\<And>b. mset (order b) = mset b"
  shows "(\<forall>n k. Sample n k 0 x \<in> set (render order up g) \<and> n \<noteq> LAST_TICK \<longleftrightarrow>
      n \<noteq> LAST_TICK \<and> (\<exists>b v. (n, b) \<in> set (rg_counters g) \<and> (k, v) \<in> set b \<and> x = scaled 0 v)) \<and>
    (\<forall>n k. Sample n k 3 x \<in> set (render order up g) \<and> n \<noteq> UPTIME \<longleftrightarrow>
      n \<notin> {UPTIME, LAST_TICK} \<and> (\<exists>b v. (n, b) \<in> set (rg_gauges g) \<and> (k, v) \<in> set b \<and> x = scaled 3 v))"
proof -
  have o: "set (order b) = set b" for b using assms(1) by (metis set_mset_mset)
  have m: "Sample n k d x \<in> set (concat (map (metric_lines order kind d') ms)) \<longleftrightarrow>
      d = d' \<and> (\<exists>b v. (n, b) \<in> set ms \<and> (k, v) \<in> set b \<and> x = scaled d v)" for n k d d' kind ms
  proof -
    have "Sample n k d x \<in> set (metric_lines order kind d' mm) \<longleftrightarrow> d = d' \<and> n = fst mm \<and> (\<exists>v. (k, v) \<in> set (snd mm) \<and> x = scaled d v)" for mm
      by (force simp: metric_lines_def o)
    then have "Sample n k d x \<in> set (concat (map (metric_lines order kind d') ms)) \<longleftrightarrow>
        (\<exists>mm \<in> set ms. d = d' \<and> n = fst mm \<and> (\<exists>v. (k, v) \<in> set (snd mm) \<and> x = scaled d v))" by simp
    also have "\<dots> \<longleftrightarrow> d = d' \<and> (\<exists>b v. (n, b) \<in> set ms \<and> (k, v) \<in> set b \<and> x = scaled d v)" by force
    finally show ?thesis .
  qed
  have r: "Sample n k d x \<in> set (render order up g) \<longleftrightarrow>
      (n = UPTIME \<and> k = {} \<and> d = 3 \<and> x = scaled 3 up) \<or> (n = LAST_TICK \<and> k = {} \<and> d = 0 \<and> x = scaled 0 (get_gauge_or_zero LAST_TICK g)) \<or>
      (d = 0 \<and> (\<exists>b v. (n, b) \<in> set (rg_counters g) \<and> (k, v) \<in> set b \<and> x = scaled d v)) \<or>
      (d = 3 \<and> n \<notin> {UPTIME, LAST_TICK} \<and> (\<exists>b v. (n, b) \<in> set (rg_gauges g) \<and> (k, v) \<in> set b \<and> x = scaled d v))" for n k d
    unfolding render_def set_append Un_iff m by simp blast
  have "UPTIME \<noteq> LAST_TICK" by (simp add: UPTIME_def LAST_TICK_def)
  then show ?thesis unfolding r by auto
qed

theorem counters_count_witness:
  "get_counter ''a'' [] (fold apply_op [Inc ''a'' [], Set_To ''g'' [] 2, Inc ''b'' [], Inc ''a'' []] empty_registry) = 2"
  using counters_count [of "''a''" "[]" empty_registry 0 "[Inc ''a'' [], Set_To ''g'' [] 2, Inc ''b'' [], Inc ''a'' []]"]
  by (simp add: empty_registry_def get_counter_def value_of_def bucket_of_def del: fold_simps fold.simps)

theorem exposition_faithful_witness:
  "Sample ''a'' {} 0 1 \<in> set (render id 5 (inc_counter ''a'' [] 1 empty_registry))"
proof -
  have g: "inc_counter ''a'' [] 1 empty_registry = \<lparr>rg_counters = [(''a'', [({}, 1)])], rg_gauges = []\<rparr>"
    by (simp add: inc_counter_def empty_registry_def value_of_def bucket_of_def)
  have "rhe (1 :: rat) = 1" by (simp add: rhe_def)
  then show ?thesis
    using exposition_faithful [where order = id and g = "inc_counter ''a'' [] 1 empty_registry" and x = 1 and up = 5, THEN conjunct1, THEN spec [of _ "''a''"], THEN spec [of _ "{}"]]
    unfolding g by (simp add: LAST_TICK_def scaled_def)
qed

end
