(* ===== verification/Backups.thy ===== *)
theory Backups
  imports CivilDate "HOL-Library.AList" "HOL-Library.Sublist" "HOL-Library.Code_Target_Nat"
begin

text \<open>
  \<open>scripts/backup_database.py\<close> and the backup listing of \<open>src/web/queries.py\<close>: the daily dump with
  its sanity gate, the names the dumps are given and recognised by, the retention of daily and weekly dumps
  and the view of it the operator sees. \<open>pg_dump\<close>, gzip, the outcome of writing and of unlinking a file
  are parameters. A path is its name in the directory; an instant is in microseconds.
\<close>

section \<open>The directory\<close>

record bfile =
  bf_dir :: bool
  bf_mtime :: int
  bf_data :: string

type_synonym bdir = "(string \<times> bfile) list"

datatype write_outcome = Written | Partial string | Not_Opened
datatype unlink_outcome = Unlinked | Missing | Refused
datatype dump_outcome = Dumped string | Exited nat | Timed_Out

record backup_lib =
  bl_gzip :: "string \<Rightarrow> string"
  bl_write :: "string \<Rightarrow> write_outcome"
  bl_unlink :: "string \<Rightarrow> unlink_outcome"

section \<open>Names\<close>

definition is_letter :: "char \<Rightarrow> bool" where
  "is_letter c \<longleftrightarrow> (of_char (upper_char c) :: nat) \<in> {65..90}"

definition strict_stamp :: "string \<Rightarrow> bool" where
  "strict_stamp g \<longleftrightarrow> length g = 17 \<and> g ! 4 = CHR ''-'' \<and> g ! 7 = CHR ''-'' \<and> g ! 10 = CHR ''_'' \<and>
     list_all is_digit (take 4 g) \<and> list_all is_digit (take 2 (drop 5 g)) \<and> list_all is_digit (take 2 (drop 8 g)) \<and>
     list_all is_digit (drop 11 g)"

definition loose_stamp :: "string \<Rightarrow> bool" where
  "loose_stamp g = (case (takeWhile is_letter g, dropWhile is_letter g) of
     (l # ls, u # rest) \<Rightarrow> u = CHR ''_'' \<and> rest \<noteq> [] \<and> list_all (\<lambda>c. is_letter c \<or> is_digit c) rest
   | _ \<Rightarrow> False)"

text \<open>The group of the pattern, if the name matches; a \<open>$\<close> also stands before a final line feed.\<close>

definition FILENAME_RE :: "string \<Rightarrow> string option" where
  "FILENAME_RE name =
     (let n = (if name \<noteq> [] \<and> last name = CHR 0x0A then butlast name else name); k = length n
      in if 15 \<le> k \<and> take 8 n = ''alphard_'' \<and> drop (k - 7) n = ''.sql.gz''
         then (let g = drop 8 (take (k - 7) n) in if strict_stamp g \<or> loose_stamp g then Some g else None)
         else None)"

text \<open>\<open>strptime\<close> with the pattern of a canonical name.\<close>

definition strptime :: "string \<Rightarrow> civil option" where
  "strptime g =
     (let c = \<lparr>cv_year = nat_of_digits (take 4 g), cv_month = nat_of_digits (take 2 (drop 5 g)),
               cv_day = nat_of_digits (take 2 (drop 8 g)), cv_hour = nat_of_digits (take 2 (drop 11 g)),
               cv_minute = nat_of_digits (take 2 (drop 13 g)), cv_second = nat_of_digits (drop 15 g), cv_micro = 0\<rparr>
      in if valid_civil c then Some c else None)"

definition parse_filename_timestamp :: "string \<Rightarrow> bfile \<Rightarrow> int" where
  "parse_filename_timestamp g f =
     (if strict_stamp g then (case strptime g of Some c \<Rightarrow> micros c | None \<Rightarrow> bf_mtime f) else bf_mtime f)"

definition backup_path :: "civil \<Rightarrow> string" where
  "backup_path c = ''alphard_'' @ digits 4 (cv_year c) @ ''-'' @ digits 2 (cv_month c) @ ''-'' @ digits 2 (cv_day c) @ ''_'' @
     digits 2 (cv_hour c) @ digits 2 (cv_minute c) @ digits 2 (cv_second c) @ ''.sql.gz''"

section \<open>Retention\<close>

definition stamped :: "string \<times> bfile \<Rightarrow> (int \<times> string) option" where
  "stamped e = (case e of (name, f) \<Rightarrow> map_option (\<lambda>g. (parse_filename_timestamp g f, name)) (FILENAME_RE name))"

definition list_backups :: "bdir \<Rightarrow> (int \<times> string) list" where
  "list_backups d = sort_key (\<lambda>b. - fst b) (List.map_filter stamped d)"

definition week_of :: "int \<Rightarrow> int \<times> int" where
  "week_of t = iso_week (civil_day t)"

text \<open>The first backup of each week not seen yet, as far as the budget goes.\<close>

fun weekly_picks :: "nat \<Rightarrow> (int \<times> int) list \<Rightarrow> (int \<times> string) list \<Rightarrow> (int \<times> string) list" where
  "weekly_picks n seen [] = []"
| "weekly_picks 0 seen bs = []"
| "weekly_picks (Suc n) seen (b # bs) =
     (if week_of (fst b) \<in> set seen then weekly_picks (Suc n) seen bs else b # weekly_picks n (week_of (fst b) # seen) bs)"

fun delete_all :: "backup_lib \<Rightarrow> string list \<Rightarrow> bdir \<Rightarrow> string list result \<times> bdir" where
  "delete_all lib [] d = (Inr [], d)"
| "delete_all lib (p # ps) d =
     (case bl_unlink lib p of
        Unlinked \<Rightarrow> (case delete_all lib ps (filter (\<lambda>e. fst e \<noteq> p) d) of
            (Inr deleted, d) \<Rightarrow> (Inr (p # deleted), d) | (Inl e, d) \<Rightarrow> (Inl e, d))
      | Missing \<Rightarrow> delete_all lib ps d
      | Refused \<Rightarrow> (Inl (OtherError ''OSError''), d))"

definition delete_not_in :: "backup_lib \<Rightarrow> (int \<times> string) list \<Rightarrow> string list \<Rightarrow> bdir \<Rightarrow> string list result \<times> bdir" where
  "delete_not_in lib backups keep = delete_all lib (filter (\<lambda>p. p \<notin> set keep) (map snd backups))"

definition prune :: "backup_lib \<Rightarrow> (int \<times> string) list \<Rightarrow> int \<Rightarrow> int \<Rightarrow> bdir \<Rightarrow> string list result \<times> bdir" where
  "prune lib backups daily weekly d =
     (if daily \<le> 0 then delete_all lib (map snd backups) d
      else (let keep = map snd (take (nat daily) backups);
                older = filter (\<lambda>b. snd b \<notin> set keep) (drop (nat daily) backups);
                keep = (if older \<noteq> [] \<and> 0 < weekly then keep @ map snd (weekly_picks (nat weekly) [] older) else keep)
            in delete_not_in lib backups keep d))"

section \<open>One cycle\<close>

definition PG_DUMP_TRAILER :: string where "PG_DUMP_TRAILER = ''PostgreSQL database dump complete''"
definition RC_DUMP_REJECTED :: int where "RC_DUMP_REJECTED = 3"

fun occurs_in :: "string \<Rightarrow> string \<Rightarrow> bool" where
  "occurs_in p [] = (p = [])"
| "occurs_in p (x # xs) = (prefix p (x # xs) \<or> occurs_in p xs)"

definition dump_rejected :: "string \<Rightarrow> bool" where
  "dump_rejected sql \<longleftrightarrow> sql = [] \<or> \<not> occurs_in PG_DUMP_TRAILER sql"

record backup_args =
  bk_daily :: int
  bk_weekly :: int
  bk_dry :: bool

definition write_backup :: "backup_lib \<Rightarrow> string \<Rightarrow> int \<Rightarrow> string \<Rightarrow> bdir \<Rightarrow> unit result \<times> bdir" where
  "write_backup lib p now data d =
     (case bl_write lib p of
        Written \<Rightarrow> (Inr (), AList.update p \<lparr>bf_dir = False, bf_mtime = now, bf_data = data\<rparr> d)
      | Partial s \<Rightarrow> (Inl (OtherError ''OSError''), AList.update p \<lparr>bf_dir = False, bf_mtime = now, bf_data = s\<rparr> d)
      | Not_Opened \<Rightarrow> (Inl (OtherError ''OSError''), d))"

definition run_backup :: "backup_lib \<Rightarrow> backup_args \<Rightarrow> civil \<Rightarrow> dump_outcome \<Rightarrow> bdir \<Rightarrow> int result \<times> bdir" where
  "run_backup lib args now dump d =
     (if bk_dry args then (Inr 0, d)
      else case dump of
          Exited rc \<Rightarrow> (Inr (if rc = 0 then 1 else int rc), d)
        | Timed_Out \<Rightarrow> (Inr 124, d)
        | Dumped sql \<Rightarrow>
            (if dump_rejected sql then (Inr RC_DUMP_REJECTED, d)
             else (case write_backup lib (backup_path now) (micros now) (bl_gzip lib sql) d of
                 (Inl e, d) \<Rightarrow> (Inl e, d)
               | (Inr _, d) \<Rightarrow>
                   (case prune lib (list_backups d) (bk_daily args) (bk_weekly args) d of
                      (Inl e, d) \<Rightarrow> (Inl e, d) | (Inr deleted, d) \<Rightarrow> (Inr 0, d)))))"

section \<open>The operator's listing\<close>

datatype backup_kind = Daily_Kind | Weekly_Kind | Extra_Kind

record backup_row =
  br_file :: string
  br_size :: nat
  br_started :: int
  br_kind :: backup_kind

definition DEFAULT_DAILY_KEEP :: int where "DEFAULT_DAILY_KEEP = 7"
definition DEFAULT_WEEKLY_KEEP :: int where "DEFAULT_WEEKLY_KEEP = 4"

text \<open>\<open>xs[:n]\<close> and \<open>xs[n:]\<close>.\<close>

definition upto_index :: "int \<Rightarrow> 'a list \<Rightarrow> 'a list" where
  "upto_index n xs = take (nat (if n < 0 then int (length xs) + n else n)) xs"

definition from_index :: "int \<Rightarrow> 'a list \<Rightarrow> 'a list" where
  "from_index n xs = drop (nat (if n < 0 then int (length xs) + n else n)) xs"

definition list_backup_payloads :: "int \<Rightarrow> int \<Rightarrow> bdir option \<Rightarrow> backup_row list" where
  "list_backup_payloads daily weekly folder =
     (case folder of None \<Rightarrow> []
      | Some d \<Rightarrow>
          (let indexed = sort_key (\<lambda>b. - fst b) (List.map_filter stamped (filter (\<lambda>e. \<not> bf_dir (snd e)) d));
               daily_set = (if 0 < daily then map snd (upto_index daily indexed) else []);
               weekly_set = (if 0 < weekly \<and> daily < int (length indexed)
                 then map snd (weekly_picks (nat weekly) [] (from_index daily indexed)) else [])
           in map (\<lambda>(t, p). \<lparr>br_file = p, br_size = (case map_of d p of Some f \<Rightarrow> length (bf_data f) | None \<Rightarrow> 0), br_started = t,
                br_kind = (if p \<in> set daily_set then Daily_Kind else if p \<in> set weekly_set then Weekly_Kind else Extra_Kind)\<rparr>) indexed))"


section \<open>Names are read back\<close>

lemma take_append_exact: "length xs = n \<Longrightarrow> take n (xs @ ys) = xs" "length xs = n \<Longrightarrow> drop n (xs @ ys) = ys"
  by auto

definition stamp_text :: "civil \<Rightarrow> string" where
  "stamp_text c = digits 4 (cv_year c) @ ''-'' @ digits 2 (cv_month c) @ ''-'' @ digits 2 (cv_day c) @ ''_'' @
     digits 2 (cv_hour c) @ digits 2 (cv_minute c) @ digits 2 (cv_second c)"

text \<open>The instant a name keeps: whole seconds.\<close>

definition whole_second :: "civil \<Rightarrow> civil" where
  "whole_second c = c\<lparr>cv_micro := 0\<rparr>"

lemma stamp_fields:
  "length (stamp_text c) = 17"
  "take 4 (stamp_text c) = digits 4 (cv_year c)" "take 2 (drop 5 (stamp_text c)) = digits 2 (cv_month c)"
  "take 2 (drop 8 (stamp_text c)) = digits 2 (cv_day c)" "take 2 (drop 11 (stamp_text c)) = digits 2 (cv_hour c)"
  "take 2 (drop 13 (stamp_text c)) = digits 2 (cv_minute c)" "drop 15 (stamp_text c) = digits 2 (cv_second c)"
  "drop 11 (stamp_text c) = digits 2 (cv_hour c) @ digits 2 (cv_minute c) @ digits 2 (cv_second c)"
  "stamp_text c ! 4 = CHR ''-''" "stamp_text c ! 7 = CHR ''-''" "stamp_text c ! 10 = CHR ''_''"
  by (simp_all add: stamp_text_def nth_append)

lemma stamp_strict: "strict_stamp (stamp_text c)"
  by (simp add: strict_stamp_def stamp_fields)

lemma strptime_stamp: "valid_civil c \<Longrightarrow> strptime (stamp_text c) = Some (whole_second c)"
proof -
  assume v: "valid_civil c"
  have d: "days_in_month y m \<le> 31" for y m by (rule days_in_month_le)
  have b: "cv_year c < 10 ^ 4" "cv_month c < 10 ^ 2" "cv_day c < 10 ^ 2" "cv_hour c < 10 ^ 2" "cv_minute c < 10 ^ 2" "cv_second c < 10 ^ 2"
    using v d [of "cv_year c" "cv_month c"] by (auto simp: valid_civil_def valid_date_def)
  note n = b [THEN nat_of_digits_digits]
  have "valid_civil \<lparr>cv_year = cv_year c, cv_month = cv_month c, cv_day = cv_day c, cv_hour = cv_hour c, cv_minute = cv_minute c,
      cv_second = cv_second c, cv_micro = 0\<rparr>" using v by (simp add: valid_civil_def)
  then show ?thesis
    unfolding strptime_def Let_def stamp_fields n by (simp add: whole_second_def n)
qed

lemma path_is_stamp: "backup_path c = ''alphard_'' @ stamp_text c @ ''.sql.gz''"
  by (simp add: backup_path_def stamp_text_def)

lemma path_matches: "FILENAME_RE (backup_path c) = Some (stamp_text c)"
proof -
  have "last (backup_path c) = CHR ''z''" by (simp add: path_is_stamp)
  moreover have "take 8 (backup_path c) = ''alphard_''" "length (backup_path c) = 32"
    "drop 25 (backup_path c) = ''.sql.gz''" "drop 8 (take 25 (backup_path c)) = stamp_text c"
    by (simp_all add: path_is_stamp stamp_fields(1))
  ultimately show ?thesis by (simp add: FILENAME_RE_def Let_def stamp_strict)
qed

text \<open>
  A dump is found again under the instant it was taken at: the name made from any valid local time matches
  the pattern and is read back as that time to the second, whatever the modification time of the file.
\<close>

theorem backup_names_read_back:
  assumes "valid_civil c"
  shows "stamped (backup_path c, f) = Some (micros (whole_second c), backup_path c)"
  using assms by (simp add: stamped_def path_matches parse_filename_timestamp_def stamp_strict strptime_stamp)

section \<open>What is retained\<close>

definition retained :: "nat \<Rightarrow> nat \<Rightarrow> (int \<times> string) list \<Rightarrow> (int \<times> string) list" where
  "retained daily weekly bs = take daily bs @ weekly_picks weekly [] (drop daily bs)"

lemma picks_Nil [simp]: "weekly_picks 0 seen bs = []"
  by (cases bs) auto

lemma picks_subseq: "subseq (weekly_picks n seen bs) bs"
  by (induction n seen bs rule: weekly_picks.induct) auto

lemma retained_subseq: "subseq (retained daily weekly bs) bs"
  unfolding retained_def by (metis append_take_drop_id list_emb_append_mono picks_subseq subseq_order.order_refl)

lemma subseq_mem: "subseq xs ys \<Longrightarrow> set xs \<subseteq> set ys"
  by (induction rule: list_emb.induct) auto

lemma subseq_filter_eq: "subseq ys xs \<Longrightarrow> distinct xs \<Longrightarrow> filter (\<lambda>x. x \<in> set ys) xs = ys"
proof (induction ys xs rule: list_emb.induct)
  case (list_emb_Cons xs ys y)
  then have "y \<notin> set xs" by (auto dest: list_emb_set)
  then show ?case using list_emb_Cons by simp
next
  case (list_emb_Cons2 x y xs ys)
  then have "filter (\<lambda>z. z \<in> set (x # xs)) ys = filter (\<lambda>z. z \<in> set xs) ys" by (intro filter_cong) auto
  then show ?case using list_emb_Cons2 by simp
qed simp

lemma picks_length: "length (weekly_picks n seen bs) \<le> n"
  by (induction n seen bs rule: weekly_picks.induct) auto

text \<open>One backup per week, none of a week seen before, and each the first of its week.\<close>

lemma picks_weeks:
  "distinct (map (\<lambda>b. week_of (fst b)) (weekly_picks n seen bs)) \<and>
   (\<forall>b \<in> set (weekly_picks n seen bs). week_of (fst b) \<notin> set seen)"
proof (induction n seen bs rule: weekly_picks.induct)
  case (3 n seen b bs)
  then show ?case by (cases "week_of (fst b) \<in> set seen") force+
qed simp_all

lemma picks_first:
  "b \<in> set (weekly_picks n seen bs) \<Longrightarrow> \<exists>us vs. bs = us @ b # vs \<and> (\<forall>u \<in> set us. week_of (fst u) \<noteq> week_of (fst b))"
proof (induction n seen bs rule: weekly_picks.induct)
  case (3 n seen c bs)
  show ?case
  proof (cases "week_of (fst c) \<in> set seen")
    case True
    have w: "week_of (fst b) \<notin> set seen" using picks_weeks [of "Suc n" seen "c # bs"] 3(3) by blast
    obtain us vs where "bs = us @ b # vs" "\<forall>u \<in> set us. week_of (fst u) \<noteq> week_of (fst b)" using 3 True by auto
    then have "c # bs = (c # us) @ b # vs \<and> (\<forall>u \<in> set (c # us). week_of (fst u) \<noteq> week_of (fst b))" using w True by auto
    then show ?thesis by blast
  next
    case False
    show ?thesis
    proof (cases "b = c")
      case False
      then have m: "b \<in> set (weekly_picks n (week_of (fst c) # seen) bs)" using 3(3) \<open>week_of (fst c) \<notin> set seen\<close> by simp
      have w: "week_of (fst b) \<noteq> week_of (fst c)" using picks_weeks [of n "week_of (fst c) # seen" bs] m by auto
      obtain us vs where "bs = us @ b # vs" "\<forall>u \<in> set us. week_of (fst u) \<noteq> week_of (fst b)"
        using 3(2) \<open>week_of (fst c) \<notin> set seen\<close> m by blast
      then have "c # bs = (c # us) @ b # vs \<and> (\<forall>u \<in> set (c # us). week_of (fst u) \<noteq> week_of (fst b))" using w by auto
      then show ?thesis by blast
    qed (use append_Nil in force)
  qed
qed auto

text \<open>A week that is left out was not affordable: the budget went to other, more recent weeks.\<close>

lemma picks_complete:
  "length (weekly_picks n seen bs) < n \<Longrightarrow> b \<in> set bs \<Longrightarrow>
   week_of (fst b) \<in> set seen \<or> (\<exists>c \<in> set (weekly_picks n seen bs). week_of (fst c) = week_of (fst b))"
proof (induction n seen bs rule: weekly_picks.induct)
  case (3 n seen c bs)
  then show ?case by (cases "week_of (fst c) \<in> set seen") fastforce+
qed auto

text \<open>
  What the retention keeps: the newest daily backups unconditionally; of the older ones at most the weekly
  budget, from different weeks, each the newest of its week among them; and every week of an older backup
  is represented unless the budget was used up.
\<close>

theorem retention_keeps:
  "length (retained daily weekly bs) \<le> daily + weekly \<and>
   set (take daily bs) \<subseteq> set (retained daily weekly bs) \<and>
   (\<forall>b \<in> set (drop daily bs). length (weekly_picks weekly [] (drop daily bs)) < weekly \<longrightarrow>
      (\<exists>c \<in> set (weekly_picks weekly [] (drop daily bs)). week_of (fst c) = week_of (fst b))) \<and>
   distinct (map (\<lambda>b. week_of (fst b)) (weekly_picks weekly [] (drop daily bs)))"
proof -
  have "length (retained daily weekly bs) \<le> daily + weekly"
    using picks_length [of weekly "[]" "drop daily bs"] by (simp add: retained_def)
  moreover have "set (take daily bs) \<subseteq> set (retained daily weekly bs)" by (simp add: retained_def)
  ultimately show ?thesis
    using picks_complete [of weekly "[]" "drop daily bs"] picks_weeks [of weekly "[]" "drop daily bs"] by (simp del: weekly_picks.simps)
qed

text \<open>Picking again from what was picked, with weeks already taken, gives the same as picking from everything.\<close>

lemma picks_again:
  "set T \<subseteq> set S \<Longrightarrow> card (set S - set T) + m \<le> n \<Longrightarrow> weekly_picks m S (weekly_picks n T bs) = weekly_picks m S bs"
proof (induction n T bs arbitrary: m S rule: weekly_picks.induct)
  case (2 T b bs)
  then show ?case by simp
next
  case (3 n T b bs)
  let ?w = "week_of (fst b)"
  consider "?w \<in> set T" | "?w \<notin> set T" "?w \<in> set S" | "?w \<notin> set S" using 3(3) by blast
  then show ?case
  proof cases
    case 1
    then have "?w \<in> set S" using 3(3) by blast
    then have "weekly_picks m S (b # bs) = weekly_picks m S bs" by (cases m) auto
    then show ?thesis using 1 3 by simp
  next
    case 2
    have e: "set S - set (?w # T) = (set S - set T) - {?w}" by auto
    have c: "Suc (card (set S - set (?w # T))) = card (set S - set T)"
      unfolding e by (rule card_Suc_Diff1) (use 2 in simp_all)
    have "set (?w # T) \<subseteq> set S" using 2 3(3) by simp
    moreover have "card (set S - set (?w # T)) + m \<le> n" using c 3(4) by linarith
    ultimately have i: "weekly_picks m S (weekly_picks n (?w # T) bs) = weekly_picks m S bs" by (rule 3(2) [OF 2(1)])
    have "weekly_picks m S (b # cs) = weekly_picks m S cs" for cs using 2(2) by (cases m) simp_all
    then show ?thesis using 2(1) i by simp
  next
    case w: 3
    then have t: "?w \<notin> set T" using 3(3) by blast
    show ?thesis
    proof (cases m)
      case (Suc k)
      have "set (?w # S) - set (?w # T) = set S - set T" using w by auto
      then have "card (set (?w # S) - set (?w # T)) + k \<le> n" using 3(4) Suc by simp
      moreover have "set (?w # T) \<subseteq> set (?w # S)" using 3(3) by auto
      ultimately have "weekly_picks k (?w # S) (weekly_picks n (?w # T) bs) = weekly_picks k (?w # S) bs"
        by (intro 3(2) [OF t])
      then show ?thesis using w t Suc by simp
    qed simp
  qed
qed auto

text \<open>
  Pruning day by day loses nothing a single pruning of the whole history would have kept: adding a new
  backup to what an earlier run retained and pruning again leaves the same files as if nothing had
  been pruned before.
\<close>

theorem incremental_retention:
  assumes "0 < daily"
  shows "retained daily weekly (b # retained daily weekly bs) = retained daily weekly (b # bs)"
proof -
  obtain k where k: "daily = Suc k" using assms by (cases daily) auto
  show ?thesis
  proof (cases "length bs \<le> k")
    case True
    then show ?thesis by (simp add: retained_def k)
  next
    case False
    let ?W = "weekly_picks weekly [] (drop (Suc k) bs)"
    have d: "drop k bs = bs ! k # drop (Suc k) bs" using False by (simp add: Cons_nth_drop_Suc)
    have t: "take (Suc k) bs = take k bs @ [bs ! k]" using False by (simp add: take_Suc_conv_app_nth)
    have "weekly_picks weekly [] (bs ! k # ?W) = weekly_picks weekly [] (bs ! k # drop (Suc k) bs)"
    proof (cases weekly)
      case (Suc w)
      have "weekly_picks w [week_of (fst (bs ! k))] ?W = weekly_picks w [week_of (fst (bs ! k))] (drop (Suc k) bs)"
        by (rule picks_again) (auto simp: Suc)
      then show ?thesis by (simp add: Suc)
    qed simp
    then show ?thesis using False by (simp add: retained_def k d t)
  qed
qed


section \<open>The directory after a run\<close>

definition calm_disk :: "backup_lib \<Rightarrow> bool" where
  "calm_disk lib \<longleftrightarrow> (\<forall>p. bl_write lib p = Written \<and> bl_unlink lib p = Unlinked)"

lemma delete_all_calm: "calm_disk lib \<Longrightarrow> delete_all lib ps d = (Inr ps, filter (\<lambda>e. fst e \<notin> set ps) d)"
  by (induction ps arbitrary: d) (auto simp: calm_disk_def intro: filter_cong)

lemma map_filter_stamped:
  "List.map_filter stamped (filter (\<lambda>e. Q (fst e)) d) = filter (\<lambda>b. Q (snd b)) (List.map_filter stamped d)"
  by (induction d) (auto simp: stamped_def List.map_filter_simps split: option.splits)

lemma list_backups_filter: "list_backups (filter (\<lambda>e. Q (fst e)) d) = filter (\<lambda>b. Q (snd b)) (list_backups d)"
  by (simp add: list_backups_def map_filter_stamped filter_sort)

lemma map_of_filter_keys: "map_of (filter (\<lambda>e. Q (fst e)) d) p = (if Q p then map_of d p else None)"
  by (induction d) auto

lemma map_of_snoc: "k \<notin> fst ` set d \<Longrightarrow> map_of (d @ [(k, f)]) p = map_of ((k, f) # d) p"
  by (induction d) auto

lemma mem_map_filter: "b \<in> set (List.map_filter f xs) \<longleftrightarrow> (\<exists>x \<in> set xs. f x = Some b)"
  by (induction xs) (auto simp: List.map_filter_simps split: option.splits)

lemma set_list_backups: "b \<in> set (list_backups d) \<longleftrightarrow> (\<exists>e \<in> set d. stamped e = Some b)"
  by (simp add: list_backups_def mem_map_filter)

lemma stamped_name: "stamped e = Some b \<Longrightarrow> snd b = fst e"
  by (auto simp: stamped_def split: prod.splits option.splits)

lemma listed_names: "snd ` set (list_backups d) \<subseteq> fst ` set d"
  using stamped_name by (force simp: set_list_backups)

lemma listed_match: "b \<in> set (list_backups d) \<Longrightarrow> FILENAME_RE (snd b) \<noteq> None"
  unfolding set_list_backups stamped_def by (auto split: prod.splits)

lemma distinct_listing: "distinct (map fst d) \<Longrightarrow> distinct (map snd (list_backups d))"
proof -
  assume "distinct (map fst d)"
  then have "distinct (map snd (List.map_filter stamped d))"
  proof (induction d)
    case (Cons e d)
    have "snd b \<noteq> fst e" if a: "b \<in> set (List.map_filter stamped d)" for b
      proof -
      obtain x where "x \<in> set d" "stamped x = Some b" using a unfolding mem_map_filter by blast
      then have "snd b \<in> fst ` set d" using stamped_name [of x b] by (metis imageI)
      moreover have "fst e \<notin> fst ` set d" using Cons.prems by simp
      ultimately show ?thesis by metis
    qed
    then show ?case using Cons by (auto simp: List.map_filter_simps split: option.splits dest: stamped_name)
  qed (simp add: List.map_filter_simps)
  then show ?thesis by (simp add: list_backups_def distinct_map)
qed

lemma newest_first:
  assumes "\<And>b. b \<in> set (list_backups d) \<Longrightarrow> fst b < t" "stamped (p, f) = Some (t, p)"
  shows "list_backups (d @ [(p, f)]) = (t, p) # list_backups d"
proof -
  let ?l = "List.map_filter stamped d"
  have m: "List.map_filter stamped (d @ [(p, f)]) = ?l @ [(t, p)]"
    using assms(2) by (simp add: List.map_filter_def)
  have "sort_key (\<lambda>b. - fst b) (xs @ [(t, p)]) = (t, p) # sort_key (\<lambda>b. - fst b) xs" if "\<forall>b \<in> set xs. fst b < t" for xs
    using that
  proof (induction xs)
    case (Cons x xs)
    then show ?case by simp
  qed simp
  then show ?thesis using assms(1) by (simp add: list_backups_def m)
qed

lemma prune_calm:
  assumes "calm_disk lib" "0 < daily" "distinct (map snd bs)"
  shows "prune lib bs daily weekly d = (Inr (filter (\<lambda>p. p \<notin> snd ` set (retained (nat daily) (nat weekly) bs)) (map snd bs)),
     filter (\<lambda>e. fst e \<in> snd ` set (retained (nat daily) (nat weekly) bs) \<or> fst e \<notin> snd ` set bs) d)"
proof -
  have "distinct (map snd (take (nat daily) bs @ drop (nat daily) bs))" using assms(3) by simp
  then have "b \<in> set (drop (nat daily) bs) \<Longrightarrow> snd b \<notin> snd ` set (take (nat daily) bs)" for b
    unfolding map_append distinct_append by auto
  then have o: "filter (\<lambda>b. snd b \<notin> set (map snd (take (nat daily) bs))) (drop (nat daily) bs) = drop (nat daily) bs"
    by (simp add: filter_id_conv)
  have k: "set (if drop (nat daily) bs \<noteq> [] \<and> 0 < weekly
        then map snd (take (nat daily) bs) @ map snd (weekly_picks (nat weekly) [] (drop (nat daily) bs))
        else map snd (take (nat daily) bs)) = snd ` set (retained (nat daily) (nat weekly) bs)"
    by (auto simp: retained_def)
  show ?thesis
    unfolding prune_def Let_def o delete_not_in_def k using assms(1,2)
    by (auto simp: delete_all_calm intro!: filter_cong)
qed

definition entry_of :: "civil \<Rightarrow> int \<times> string" where
  "entry_of c = (micros (whole_second c), backup_path c)"

definition file_of :: "backup_lib \<Rightarrow> civil \<times> string \<Rightarrow> string \<times> bfile" where
  "file_of lib r = (backup_path (fst r), \<lparr>bf_dir = False, bf_mtime = micros (fst r), bf_data = bl_gzip lib (snd r)\<rparr>)"

definition cycle :: "backup_lib \<Rightarrow> backup_args \<Rightarrow> civil \<times> string \<Rightarrow> bdir \<Rightarrow> bdir" where
  "cycle lib args r d = snd (run_backup lib args (fst r) (Dumped (snd r)) d)"

definition sound_run :: "civil \<times> string \<Rightarrow> bool" where
  "sound_run r \<longleftrightarrow> valid_civil (fst r) \<and> \<not> dump_rejected (snd r)"

lemma cycle_step:
  assumes "calm_disk lib" "0 < bk_daily args" "\<not> bk_dry args" "sound_run r" "distinct (map fst d)"
    "\<And>b. b \<in> set (list_backups d) \<Longrightarrow> fst b < fst (entry_of (fst r))"
  defines "L \<equiv> retained (nat (bk_daily args)) (nat (bk_weekly args)) (entry_of (fst r) # list_backups d)"
  shows "list_backups (cycle lib args r d) = L" "distinct (map fst (cycle lib args r d))"
    "p \<in> snd ` set L \<or> FILENAME_RE p = None \<Longrightarrow> map_of (cycle lib args r d) p = map_of (file_of lib r # d) p"
proof -
  obtain c sql where r: "r = (c, sql)" by fastforce
  obtain f where f: "file_of lib r = (backup_path c, f)" by (simp add: file_of_def r)
  have v: "valid_civil c" "\<not> dump_rejected sql" using assms(4) by (simp_all add: sound_run_def r)
  have st: "stamped (backup_path c, g) = Some (entry_of c)" for g
    using backup_names_read_back [OF v(1)] by (simp add: entry_of_def)
  have new: "backup_path c \<notin> fst ` set d"
    using assms(6) st by (force simp: set_list_backups r entry_of_def)
  have u: "AList.update (backup_path c) f d = d @ [(backup_path c, f)]"
    using new by (induction d) auto
  have l: "list_backups (d @ [(backup_path c, f)]) = entry_of c # list_backups d"
    unfolding entry_of_def by (rule newest_first) (use assms(6) st in \<open>auto simp: r entry_of_def\<close>)
  have dd: "distinct (map fst (d @ [(backup_path c, f)]))" using assms(5) new by auto
  have dl: "distinct (map snd (entry_of c # list_backups d))" using distinct_listing [OF dd] by (simp only: l)
  have cy: "cycle lib args r d = filter (\<lambda>e. fst e \<in> snd ` set L \<or> fst e \<notin> snd ` set (entry_of c # list_backups d)) (d @ [(backup_path c, f)])"
    using assms(1,3) v prune_calm [OF assms(1,2) dl] f
    by (simp add: cycle_def run_backup_def r write_backup_def calm_disk_def file_of_def u l L_def del: map_of_append) 
  have sub: "subseq L (entry_of c # list_backups d)" unfolding L_def r by (simp add: retained_subseq)
  have "list_backups (cycle lib args r d) = filter (\<lambda>b. snd b \<in> snd ` set L \<or> snd b \<notin> snd ` set (entry_of c # list_backups d)) (entry_of c # list_backups d)"
    unfolding cy list_backups_filter [of "\<lambda>p. p \<in> snd ` set L \<or> p \<notin> snd ` set (entry_of c # list_backups d)"] l ..
  also have "\<dots> = filter (\<lambda>b. b \<in> set L) (entry_of c # list_backups d)"
  proof (rule filter_cong [OF refl])
    fix b assume b: "b \<in> set (entry_of c # list_backups d)"
    have "inj_on snd (set (entry_of c # list_backups d))" using dl by (simp only: distinct_map)
    from inj_on_image_mem_iff [OF this b subseq_mem [OF sub]] imageI [OF b, of snd]
    show "(snd b \<in> snd ` set L \<or> snd b \<notin> snd ` set (entry_of c # list_backups d)) = (b \<in> set L)" by blast
  qed
  also have "\<dots> = L" by (rule subseq_filter_eq [OF sub]) (use dl in \<open>simp only: distinct_map\<close>)
  finally show "list_backups (cycle lib args r d) = L" .
  show "distinct (map fst (cycle lib args r d))" unfolding cy by (rule distinct_map_filter [OF dd])
  assume p: "p \<in> snd ` set L \<or> FILENAME_RE p = None"
  have n: "p \<notin> snd ` set (entry_of c # list_backups d)" if u: "FILENAME_RE p = None"
  proof
    assume "p \<in> snd ` set (entry_of c # list_backups d)"
    then obtain b where b: "b \<in> set (entry_of c # list_backups d)" "p = snd b" by (rule imageE)
    have "b = entry_of c \<or> b \<in> set (list_backups d)" using b(1) by simp
    then show False using b(2) u listed_match [of b d] path_matches [of c] by (auto simp: entry_of_def)
  qed
  have "p \<in> snd ` set L \<or> p \<notin> snd ` set (entry_of c # list_backups d)" 
  proof (cases "FILENAME_RE p = None")
    case True
    then show ?thesis using n by (intro disjI2)
  next
    case False
    then show ?thesis using p by metis
  qed
  then have "map_of (cycle lib args r d) p = map_of (d @ [(backup_path c, f)]) p"
    unfolding cy map_of_filter_keys [of "\<lambda>p. p \<in> snd ` set L \<or> p \<notin> snd ` set (entry_of c # list_backups d)"] by simp
  then show "map_of (cycle lib args r d) p = map_of (file_of lib r # d) p"
    using map_of_snoc [OF new] f by simp
qed


lemma retained_names: "p \<in> snd ` set (retained daily weekly bs) \<Longrightarrow> p \<in> snd ` set bs"
  using subseq_mem [OF retained_subseq, of daily weekly bs] by (rule subsetD [OF image_mono])

lemma snoc_history: "rev (map f (xs @ [x])) @ d = f x # rev (map f xs) @ d"
  by simp

lemma prepend_lookup: "map_of (e # d) p = (if p = fst e then Some (snd e) else map_of d p)"
  by (cases e) auto

text \<open>A directory that stands for the history of the runs so far: one more retention keeps of it what it keeps of the whole.\<close>

definition run_history :: "bdir \<Rightarrow> (civil \<times> string) list \<Rightarrow> (int \<times> string) list" where
  "run_history d rs = rev (map (\<lambda>r. entry_of (fst r)) rs) @ list_backups d"

definition keeps_run_history :: "backup_lib \<Rightarrow> backup_args \<Rightarrow> (civil \<times> string) list \<Rightarrow> bdir \<Rightarrow> bdir \<Rightarrow> bool" where
  "keeps_run_history lib args rs d D \<longleftrightarrow>
     (\<forall>x. retained (nat (bk_daily args)) (nat (bk_weekly args)) (x # list_backups D) =
          retained (nat (bk_daily args)) (nat (bk_weekly args)) (x # run_history d rs)) \<and>
     set (list_backups D) \<subseteq> set (run_history d rs) \<and>
     (\<forall>p. p \<in> snd ` set (list_backups D) \<or> FILENAME_RE p = None \<longrightarrow> map_of D p = map_of (rev (map (file_of lib) rs) @ d) p) \<and>
     distinct (map fst D)"

lemma keeps_history_step:
  assumes a: "calm_disk lib" "0 < bk_daily args" "\<not> bk_dry args" "sound_run r" and h: "keeps_run_history lib args rs d D"
    and older: "\<And>b. b \<in> set (run_history d rs) \<Longrightarrow> fst b < fst (entry_of (fst r))"
  shows "list_backups (cycle lib args r D) = retained (nat (bk_daily args)) (nat (bk_weekly args)) (run_history d (rs @ [r]))"
    "keeps_run_history lib args (rs @ [r]) d (cycle lib args r D)"
proof -
  let ?R = "retained (nat (bk_daily args)) (nat (bk_weekly args))" and ?x = "entry_of (fst r)" and ?D = "cycle lib args r D"
  have h: "?R (x # list_backups D) = ?R (x # run_history d rs)" "set (list_backups D) \<subseteq> set (run_history d rs)"
    "p \<in> snd ` set (list_backups D) \<or> FILENAME_RE p = None \<Longrightarrow> map_of D p = map_of (rev (map (file_of lib) rs) @ d) p"
    "distinct (map fst D)" for x p
    using h unfolding keeps_run_history_def by blast+
  have "fst b < fst (entry_of (fst r))" if "b \<in> set (list_backups D)" for b using older subsetD [OF h(2) that] .
  note step = cycle_step [OF a h(4) this]
  show L: "list_backups ?D = ?R (run_history d (rs @ [r]))" using step(1) h(1) by (simp add: run_history_def)
  have "map_of ?D p = map_of (rev (map (file_of lib) (rs @ [r])) @ d) p"
    if p: "p \<in> snd ` set (list_backups ?D) \<or> FILENAME_RE p = None" for p
  proof -
    have o: "map_of D p = map_of (rev (map (file_of lib) rs) @ d) p" if n: "p \<noteq> fst (file_of lib r)"
    proof -
      have "p \<in> snd ` set (?R (?x # list_backups D)) \<or> FILENAME_RE p = None" using p step(1) by simp
      then have "p \<in> snd ` set (?x # list_backups D) \<or> FILENAME_RE p = None"
        by (rule disj_forward) (rule retained_names)
      then show ?thesis using n h(3) by (auto simp: entry_of_def file_of_def)
    qed
    have "map_of ?D p = map_of (file_of lib r # D) p" using step(3) [of p] step(1) p by simp
    then show ?thesis unfolding snoc_history prepend_lookup [of "file_of lib r"] using o by simp
  qed
  moreover have "?R (x # list_backups ?D) = ?R (x # run_history d (rs @ [r]))" for x
    using incremental_retention [of "nat (bk_daily args)"] a(2) by (simp add: L)
  moreover have "set (list_backups ?D) \<subseteq> set (run_history d (rs @ [r]))"
    unfolding L by (rule subseq_mem [OF retained_subseq])
  ultimately show "keeps_run_history lib args (rs @ [r]) d ?D" using step(2) by (simp add: keeps_run_history_def)
qed

lemma keeps_history_run:
  assumes "calm_disk lib" "0 < bk_daily args" "\<not> bk_dry args" "list_all sound_run rs" "distinct (map fst d)"
    "sorted_wrt (<) (map (\<lambda>r. fst (entry_of (fst r))) rs)"
    "\<And>b r'. b \<in> set (list_backups d) \<Longrightarrow> r' \<in> set rs \<Longrightarrow> fst b < fst (entry_of (fst r'))"
  shows "keeps_run_history lib args rs d (fold (cycle lib args) rs d)"
  using assms(4,6,7)
proof (induction rs rule: rev_induct)
  case Nil
  then show ?case using assms(5) by (simp add: keeps_run_history_def run_history_def)
next
  case (snoc r rs)
  have k: "keeps_run_history lib args rs d (fold (cycle lib args) rs d)"
    by (rule snoc.IH) (use snoc.prems in \<open>auto simp: sorted_wrt_append\<close>)
  have "sound_run r" using snoc.prems(1) by simp
  moreover have "fst b < fst (entry_of (fst r))" if "b \<in> set (run_history d rs)" for b
    using snoc.prems(2) snoc.prems(3) [of b r] that by (auto simp: sorted_wrt_append run_history_def)
  ultimately show ?case using keeps_history_step(2) [OF assms(1-3) _ k] by simp
qed

text \<open>
  C34. The backup directory after any number of sound nightly cycles, taken at increasing instants on top of whatever older
  backups it held: it lists exactly what one retention over the whole history keeps, every listed file
  holds what the latest writing of its name put there, and a file whose name is no backup is untouched.
\<close>

theorem nightly_backups:
  assumes "calm_disk lib" "0 < bk_daily args" "\<not> bk_dry args" "list_all sound_run (rs @ [r])" "distinct (map fst d)"
    "sorted_wrt (<) (map (\<lambda>r. fst (entry_of (fst r))) (rs @ [r]))"
    "\<And>b r'. b \<in> set (list_backups d) \<Longrightarrow> r' \<in> set (rs @ [r]) \<Longrightarrow> fst b < fst (entry_of (fst r'))"
  shows "list_backups (fold (cycle lib args) (rs @ [r]) d) = retained (nat (bk_daily args)) (nat (bk_weekly args))
      (rev (map (\<lambda>r. entry_of (fst r)) (rs @ [r])) @ list_backups d) \<and>
    (\<forall>p. p \<in> snd ` set (list_backups (fold (cycle lib args) (rs @ [r]) d)) \<or> FILENAME_RE p = None \<longrightarrow>
       map_of (fold (cycle lib args) (rs @ [r]) d) p = map_of (rev (map (file_of lib) (rs @ [r])) @ d) p)"
proof -
  have k: "keeps_run_history lib args rs d (fold (cycle lib args) rs d)"
    by (rule keeps_history_run [OF assms(1-3)]) (use assms(4-7) in \<open>auto simp: sorted_wrt_append\<close>)
  have o: "fst b < fst (entry_of (fst r))" if "b \<in> set (run_history d rs)" for b
    using assms(6) assms(7) [of b r] that by (auto simp: sorted_wrt_append run_history_def)
  have r: "sound_run r" using assms(4) by simp
  note step = keeps_history_step [OF assms(1-3) r k o]
  show ?thesis using step(1,2) by (simp add: keeps_run_history_def run_history_def)
qed

text \<open>
  A dump that is empty, cut short, timed out or failed changes nothing: no file is written and none pruned,
  and the exit code says so.
\<close>

theorem unusable_dump_touches_nothing:
  assumes "\<And>sql. dump = Dumped sql \<Longrightarrow> dump_rejected sql" "\<not> bk_dry args"
  shows "snd (run_backup lib args now dump d) = d \<and> (\<exists>rc. fst (run_backup lib args now dump d) = Inr rc \<and> rc \<noteq> 0)"
  using assms by (cases dump) (auto simp: run_backup_def RC_DUMP_REJECTED_def)

text \<open>A full disk: the cut file stays, under a name the next listing takes for the newest backup.\<close>

lemma partial_dump_counts_as_newest:
  assumes "valid_civil now" "bl_write lib (backup_path now) = Partial s" "\<not> bk_dry args" "\<not> dump_rejected sql"
    "distinct (map fst d)" "\<And>b. b \<in> set (list_backups d) \<Longrightarrow> fst b < fst (entry_of now)"
  shows "\<exists>e d'. run_backup lib args now (Dumped sql) d = (Inl e, d') \<and> list_backups d' = entry_of now # list_backups d"
proof -
  have st: "stamped (backup_path now, g) = Some (entry_of now)" for g
    using backup_names_read_back [OF assms(1)] by (simp add: entry_of_def)
  have "backup_path now \<notin> fst ` set d" using assms(6) st by (force simp: set_list_backups entry_of_def)
  then have "AList.update (backup_path now) f d = d @ [(backup_path now, f)]" for f by (induction d) auto
  moreover have "list_backups (d @ [(backup_path now, f)]) = entry_of now # list_backups d" for f
    unfolding entry_of_def by (rule newest_first) (use assms(6) st in \<open>auto simp: entry_of_def\<close>)
  ultimately show ?thesis using assms(2-4) by (simp add: run_backup_def write_backup_def)
qed

section \<open>The operator's view\<close>

text \<open>
  The kinds the operator is shown are what the next pruning of the same directory does: a backup is marked extra exactly
  when it would be deleted, as long as the directory holds no folder with the name of a backup.
\<close>

theorem extra_is_what_is_pruned:
  assumes "calm_disk lib" "0 < daily" "distinct (map fst d)" "\<And>e. e \<in> set d \<Longrightarrow> \<not> bf_dir (snd e)"
  shows "fst (prune lib (list_backups d) daily weekly d) =
    Inr (map br_file (filter (\<lambda>r. br_kind r = Extra_Kind) (list_backup_payloads daily weekly (Some d))))"
proof -
  let ?K = "snd ` set (retained (nat daily) (nat weekly) (list_backups d))"
  have f: "filter (\<lambda>e. \<not> bf_dir (snd e)) d = d" using assms(4) by (simp add: filter_id_conv)
  have w: "set (if 0 < weekly \<and> daily < int (length (list_backups d)) then map snd (weekly_picks (nat weekly) [] (from_index daily (list_backups d))) else []) =
      snd ` set (weekly_picks (nat weekly) [] (drop (nat daily) (list_backups d)))"
    using assms(2) by (cases "0 < weekly"; cases "daily < int (length (list_backups d))") (simp_all add: from_index_def)
  have k: "p \<in> snd ` set (upto_index daily (list_backups d)) \<or> p \<in> snd ` set (weekly_picks (nat weekly) [] (drop (nat daily) (list_backups d))) \<longleftrightarrow> p \<in> ?K" for p
    using assms(2) by (auto simp: retained_def upto_index_def)
  have x: "(if a then Daily_Kind else if b then Weekly_Kind else Extra_Kind) = Extra_Kind \<longleftrightarrow> \<not> (a \<or> b)" for a b by simp
  have "map br_file (filter (\<lambda>r. br_kind r = Extra_Kind) (list_backup_payloads daily weekly (Some d))) =
      map snd (filter (\<lambda>b. snd b \<notin> ?K) (list_backups d))"
    unfolding list_backup_payloads_def option.case f list_backups_def [symmetric] Let_def
    by (simp add: filter_map o_def case_prod_beta x w k [symmetric] assms(2) cong: filter_cong)
  then show ?thesis using prune_calm [OF assms(1,2) distinct_listing [OF assms(3)]] by (simp add: filter_map o_def)
qed


section \<open>Instances\<close>

definition ex_night :: "nat \<Rightarrow> civil" where
  "ex_night n = \<lparr>cv_year = 2026, cv_month = 3, cv_day = n, cv_hour = 4, cv_minute = 30, cv_second = 5, cv_micro = 17\<rparr>"

definition ex_run :: "nat \<Rightarrow> civil \<times> string" where
  "ex_run n = (ex_night n, ''-- '' @ digits 2 n @ PG_DUMP_TRAILER)"

definition ex_backup_lib :: backup_lib where
  "ex_backup_lib = \<lparr>bl_gzip = (\<lambda>s. CHR ''z'' # s), bl_write = (\<lambda>_. Written), bl_unlink = (\<lambda>_. Unlinked)\<rparr>"

definition ex_backup_args :: backup_args where
  "ex_backup_args = \<lparr>bk_daily = 2, bk_weekly = 1, bk_dry = False\<rparr>"

text \<open>A folder of two files: notes, and a backup of the week before.\<close>

definition ex_folder :: bdir where
  "ex_folder = [(''notes.txt'', \<lparr>bf_dir = False, bf_mtime = 1, bf_data = ''x''\<rparr>),
     (''alphard_2026-03-01_043005.sql.gz'', \<lparr>bf_dir = False, bf_mtime = 2, bf_data = ''z''\<rparr>)]"

lemma ex_calm_disk: "calm_disk ex_backup_lib"
  by (simp add: calm_disk_def ex_backup_lib_def)

lemma ex_nights:
  "backup_path (ex_night 2) = ''alphard_2026-03-02_043005.sql.gz''"
  "valid_civil (ex_night 2)"
  "list_all sound_run ([ex_run 2, ex_run 3, ex_run 4] @ [ex_run 9])"
  "sorted_wrt (<) (map (\<lambda>r. fst (entry_of (fst r))) ([ex_run 2, ex_run 3, ex_run 4] @ [ex_run 9]))"
  "list_all (\<lambda>b. list_all (\<lambda>r. fst b < fst (entry_of (fst r))) ([ex_run 2, ex_run 3, ex_run 4] @ [ex_run 9])) (list_backups ex_folder)"
  by code_simp+

theorem backup_names_read_back_witness:
  "stamped (''alphard_2026-03-02_043005.sql.gz'', f) = Some (micros (whole_second (ex_night 2)), ''alphard_2026-03-02_043005.sql.gz'')"
  using backup_names_read_back [OF ex_nights(2), of f] by (simp add: ex_nights(1))

text \<open>The backup of March 1st and that of the 2nd and 3rd go; the 4th stays as the last of its week.\<close>

theorem nightly_backups_witness:
  "map snd (list_backups (fold (cycle ex_backup_lib ex_backup_args) ([ex_run 2, ex_run 3, ex_run 4, ex_run 9] @ [ex_run 10]) ex_folder)) =
     [''alphard_2026-03-10_043005.sql.gz'', ''alphard_2026-03-09_043005.sql.gz'', ''alphard_2026-03-04_043005.sql.gz'']"
proof -
  let ?rs = "[ex_run 2, ex_run 3, ex_run 4, ex_run 9]"
  have a: "0 < bk_daily ex_backup_args" "\<not> bk_dry ex_backup_args" "distinct (map fst ex_folder)"
    by (simp_all add: ex_backup_args_def ex_folder_def)
  have b: "list_all sound_run (?rs @ [ex_run 10])" "sorted_wrt (<) (map (\<lambda>r. fst (entry_of (fst r))) (?rs @ [ex_run 10]))"
    "list_all (\<lambda>b. list_all (\<lambda>r. fst b < fst (entry_of (fst r))) (?rs @ [ex_run 10])) (list_backups ex_folder)"
    by code_simp+
  have c: "map snd (retained (nat (bk_daily ex_backup_args)) (nat (bk_weekly ex_backup_args))
      (rev (map (\<lambda>r. entry_of (fst r)) (?rs @ [ex_run 10])) @ list_backups ex_folder)) =
    [''alphard_2026-03-10_043005.sql.gz'', ''alphard_2026-03-09_043005.sql.gz'', ''alphard_2026-03-04_043005.sql.gz'']"
    by code_simp
  have "list_backups (fold (cycle ex_backup_lib ex_backup_args) (?rs @ [ex_run 10]) ex_folder) =
    retained (nat (bk_daily ex_backup_args)) (nat (bk_weekly ex_backup_args))
      (rev (map (\<lambda>r. entry_of (fst r)) (?rs @ [ex_run 10])) @ list_backups ex_folder)"
    by (rule nightly_backups [OF ex_calm_disk a(1,2) b(1) a(3) b(2), THEN conjunct1]) (use b(3) in \<open>auto simp: list_all_iff\<close>)
  then show ?thesis using c by metis
qed

theorem retention_keeps_witness:
  "length (retained 7 4 (list_backups ex_folder)) \<le> 11 \<and> set (take 7 (list_backups ex_folder)) \<subseteq> set (retained 7 4 (list_backups ex_folder))"
  using retention_keeps [of 7 4 "list_backups ex_folder"] by simp

theorem incremental_retention_witness:
  "retained 7 4 (entry_of (ex_night 2) # retained 7 4 (list_backups ex_folder)) = retained 7 4 (entry_of (ex_night 2) # list_backups ex_folder)"
  by (rule incremental_retention) simp

theorem unusable_dump_touches_nothing_witness:
  "snd (run_backup ex_backup_lib ex_backup_args (ex_night 2) (Dumped ''-- PostgreSQL'') ex_folder) = ex_folder"
proof -
  have "dump_rejected ''-- PostgreSQL''" by code_simp
  then show ?thesis
    using unusable_dump_touches_nothing [of "Dumped ''-- PostgreSQL''" ex_backup_args ex_backup_lib "ex_night 2" ex_folder]
    by (simp add: ex_backup_args_def)
qed

theorem extra_is_what_is_pruned_witness:
  "fst (prune ex_backup_lib (list_backups ex_folder) 1 0 ex_folder) =
     Inr (map br_file (filter (\<lambda>r. br_kind r = Extra_Kind) (list_backup_payloads 1 0 (Some ex_folder))))"
  by (rule extra_is_what_is_pruned [OF ex_calm_disk]) (auto simp: ex_folder_def)

end
