(* ===== verification/Web.thy ===== *)
theory Web
  imports Backups PyFloat
begin

text \<open>
  \<open>src/web/queries.py\<close>, \<open>src/web/server.py\<close> and \<open>src/web/healthcheck.py\<close>: what the operator's
  dashboard asks the database, what it answers, and the gate in front of it. A request is its path, its query
  as \<open>parse_qs\<close> reads it and its \<open>Authorization\<close> header. The executor of queries is a
  parameter; \<open>run_sql\<close> is what PostgreSQL does for them. Instants are microseconds, days ordinals;
  sessions and dates of the database are in UTC. Logging and headers other than the content type are left out.
\<close>

section \<open>Values\<close>

text \<open>\<open>JDate\<close> and \<open>JTime\<close> are what the driver returns; \<open>JIso\<close> is the ISO text of one of them.\<close>

datatype json = JNull | JBool bool | JInt int | JNum rat | JStr string | JDate int | JTime int | JIso json
  | JList "json list" | JObj "(string \<times> json) list"

type_synonym db_row = "(string \<times> json) list"

definition row_get :: "db_row \<Rightarrow> string \<Rightarrow> json" where
  "row_get r k = (case map_of r k of None \<Rightarrow> JNull | Some v \<Rightarrow> v)"

fun isoify :: "json \<Rightarrow> json" where
  "isoify (JDate d) = JIso (JDate d)"
| "isoify (JTime t) = JIso (JTime t)"
| "isoify v = v"

definition isoify_row :: "string list \<Rightarrow> db_row \<Rightarrow> db_row" where
  "isoify_row ks r = map (\<lambda>(k, v). (k, if k \<in> set ks then isoify v else v)) r"

text \<open>\<open>int(v or 0)\<close> of a count.\<close>

fun int_or_zero :: "json \<Rightarrow> int result" where
  "int_or_zero JNull = Inr 0"
| "int_or_zero (JInt n) = Inr n"
| "int_or_zero (JBool b) = Inr (of_bool b)"
| "int_or_zero _ = Inl TypeError"

text \<open>Of a numeric column.\<close>

fun float_or_none :: "json \<Rightarrow> json" where
  "float_or_none (JInt n) = JNum (frnd (of_int n))"
| "float_or_none (JNum x) = JNum (frnd x)"
| "float_or_none _ = JNull"

definition round1 :: "rat \<Rightarrow> rat" where
  "round1 x = frnd (of_int (rhe (x * 10)) / 10)"

section \<open>The tables\<close>

record web_ticker =
  ur_ticker :: string
  ur_figi :: "string option"
  ur_listed_at :: "int option"
  ur_delisted_at :: "int option"
  ur_complete :: bool
  ur_complete_at :: "int option"
  ur_updated_at :: int
  ur_delisted :: bool

record bar_line =
  wb_ticker :: string
  wb_ts :: int
  wb_values :: "rat list"

record health_line =
  wh_last_ok :: "int option"
  wh_status :: "string option"
  wh_bars :: "nat option"

text \<open>The universe is in the order of the tickers; the log of regimes is a list of identifiers and rows.\<close>

record web_db =
  wd_universe :: "web_ticker list"
  wd_bars :: "bar_line list"
  wd_health :: "health_line list"
  wd_macro :: "(int \<times> db_row) list"

datatype sql = Select_One | Summary_Q | Spark_Tickers int | Spark_Bars int
  | Tickers_List "string option" "string option" int int | Tickers_Count "string option" "string option"
  | Ticker_Detail string | Recent_Bars string int | Backfill_Q | Events_Q int | Macro_Q

definition HOUR :: int where "HOUR = 3600 * 1000000"
definition DAY :: int where "DAY = 24 * HOUR"

definition bars_of :: "web_db \<Rightarrow> string \<Rightarrow> bar_line list" where
  "bars_of db t = filter (\<lambda>b. wb_ticker b = t) (wd_bars db)"

text \<open>The joined aggregate: no row for a ticker without bars.\<close>

definition bar_count :: "web_db \<Rightarrow> string \<Rightarrow> nat option" where
  "bar_count db t = (if bars_of db t = [] then None else Some (length (bars_of db t)))"

definition or_else :: "'a option \<Rightarrow> 'a \<Rightarrow> 'a" where
  "or_else o' d = (case o' of None \<Rightarrow> d | Some x \<Rightarrow> x)"

text \<open>\<open>LIKE\<close> with its wildcards and the backslash; \<open>ILIKE\<close> folds the case of both sides.\<close>

fun like :: "string \<Rightarrow> string \<Rightarrow> bool" where
  "like [] s = (s = [])"
| "like (p # ps) [] = (p = CHR ''%'' \<and> like ps [])"
| "like (p # ps) (c # cs) =
     (if p = CHR ''%'' then like ps (c # cs) \<or> like (p # ps) cs
      else if p = CHR ''_'' then like ps cs
      else if p = CHR 0x5C then (case ps of [] \<Rightarrow> False | q # qs \<Rightarrow> q = c \<and> like qs cs)
      else p = c \<and> like ps cs)"

definition ilike :: "string \<Rightarrow> string \<Rightarrow> bool" where
  "ilike p s = like (py_lower p) (py_lower s)"

definition name_match :: "string option \<Rightarrow> web_ticker \<Rightarrow> bool" where
  "name_match q r =
     (case q of None \<Rightarrow> True
      | Some q \<Rightarrow> (let p = ''%'' @ q @ ''%'' in ilike p (ur_ticker r) \<or> (case ur_figi r of None \<Rightarrow> False | Some f \<Rightarrow> ilike p f)))"

definition list_status :: "web_db \<Rightarrow> int \<Rightarrow> string option \<Rightarrow> web_ticker \<Rightarrow> bool" where
  "list_status db now st r =
     (if st = Some ''done'' then ur_complete r
      else if st = Some ''running'' then \<not> ur_complete r \<and> now - HOUR < ur_updated_at r
      else if st = Some ''no-data'' then \<not> ur_complete r \<and> or_else (bar_count db (ur_ticker r)) 0 = 0
      else if st = Some ''delisted'' then ur_delisted r
      else if st = Some ''failed'' then
        \<not> ur_complete r \<and> ur_updated_at r < now - 7 * DAY \<and> 0 < or_else (bar_count db (ur_ticker r)) 0
      else True)"

definition has_bar :: "web_db \<Rightarrow> string \<Rightarrow> bool" where
  "has_bar db t \<longleftrightarrow> list_ex (\<lambda>b. wb_ticker b = t) (wd_bars db)"

definition count_status :: "web_db \<Rightarrow> int \<Rightarrow> string option \<Rightarrow> web_ticker \<Rightarrow> bool" where
  "count_status db now st r =
     (if st = Some ''done'' then ur_complete r
      else if st = Some ''running'' then \<not> ur_complete r \<and> now - HOUR < ur_updated_at r
      else if st = Some ''no-data'' then \<not> ur_complete r \<and> \<not> has_bar db (ur_ticker r)
      else if st = Some ''delisted'' then ur_delisted r
      else if st = Some ''failed'' then \<not> ur_complete r \<and> ur_updated_at r < now - 7 * DAY \<and> has_bar db (ur_ticker r)
      else True)"

definition opt :: "('a \<Rightarrow> json) \<Rightarrow> 'a option \<Rightarrow> json" where
  "opt f o' = (case o' of None \<Rightarrow> JNull | Some x \<Rightarrow> f x)"

definition last_day :: "bar_line list \<Rightarrow> int option" where
  "last_day bs = (if bs = [] then None else Some (Max (set (map wb_ts bs))))"

definition ticker_line :: "web_db \<Rightarrow> web_ticker \<Rightarrow> db_row" where
  "ticker_line db r =
     [(''ticker'', JStr (ur_ticker r)), (''figi'', opt JStr (ur_figi r)), (''listed_at'', opt JDate (ur_listed_at r)),
      (''delisted_at'', opt JDate (ur_delisted_at r)), (''backfill_complete'', JBool (ur_complete r)),
      (''updated_at'', JTime (ur_updated_at r)), (''bar_count'', JInt (int (or_else (bar_count db (ur_ticker r)) 0))),
      (''last_bar_at'', opt JDate (last_day (bars_of db (ur_ticker r))))]"

definition tickers_list :: "web_db \<Rightarrow> int \<Rightarrow> string option \<Rightarrow> string option \<Rightarrow> int \<Rightarrow> int \<Rightarrow> db_row list" where
  "tickers_list db now q st limit offset =
     take (nat limit) (drop (nat offset) (map (ticker_line db) (filter (\<lambda>r. name_match q r \<and> list_status db now st r) (wd_universe db))))"

definition tickers_count :: "web_db \<Rightarrow> int \<Rightarrow> string option \<Rightarrow> string option \<Rightarrow> nat" where
  "tickers_count db now q st = length (filter (\<lambda>r. name_match q r \<and> count_status db now st r) (wd_universe db))"

section \<open>The other queries\<close>

text \<open>Days and how often they occur, in ascending order.\<close>

definition group_days :: "int list \<Rightarrow> db_row list" where
  "group_days ds = map (\<lambda>d. [(''bucket'', JDate d), (''value'', JInt (int (count_list ds d)))]) (sort (remdups ds))"

definition spark_tickers :: "web_db \<Rightarrow> int \<Rightarrow> int \<Rightarrow> db_row list" where
  "spark_tickers db now days =
     group_days (List.map_filter (\<lambda>r. case ur_complete_at r of
         Some t \<Rightarrow> (if ur_complete r \<and> now - days * DAY \<le> t then Some (civil_day t) else None) | None \<Rightarrow> None) (wd_universe db))"

definition spark_bars :: "web_db \<Rightarrow> int \<Rightarrow> int \<Rightarrow> db_row list" where
  "spark_bars db now days =
     group_days (map wb_ts (filter (\<lambda>b. now - days * DAY - DAY \<le> wb_ts b * DAY \<and> wb_ts b * DAY < now) (wd_bars db)))"

definition ticker_detail :: "web_db \<Rightarrow> string \<Rightarrow> db_row list" where
  "ticker_detail db t = map (\<lambda>r.
     [(''ticker'', JStr (ur_ticker r)), (''figi'', opt JStr (ur_figi r)), (''listed_at'', opt JDate (ur_listed_at r)),
      (''delisted_at'', opt JDate (ur_delisted_at r)), (''backfill_complete'', JBool (ur_complete r)),
      (''backfill_complete_at'', opt JTime (ur_complete_at r)), (''updated_at'', JTime (ur_updated_at r)),
      (''bar_count'', JInt (int (length (bars_of db (ur_ticker r)))))]) (filter (\<lambda>r. ur_ticker r = t) (wd_universe db))"

definition recent_bars :: "web_db \<Rightarrow> string \<Rightarrow> int \<Rightarrow> db_row list" where
  "recent_bars db t limit = map (\<lambda>b. (''ts'', JDate (wb_ts b)) # zip [''open'', ''high'', ''low'', ''close'', ''volume''] (map JNum (wb_values b)))
     (take (nat limit) (sort_key (\<lambda>b. - wb_ts b) (bars_of db t)))"

definition backfill_counts :: "web_db \<Rightarrow> int \<Rightarrow> db_row" where
  "backfill_counts db now =
     (let n = (\<lambda>P. JInt (int (length (filter P (wd_universe db))))) in
      [(''done'', n ur_complete),
       (''running'', n (\<lambda>r. \<not> ur_complete r \<and> now - HOUR < ur_updated_at r)),
       (''pending'', n (\<lambda>r. \<not> ur_complete r \<and> ur_updated_at r \<le> now - HOUR \<and> now - 7 * DAY < ur_updated_at r)),
       (''no_data'', n (\<lambda>r. \<not> ur_complete r \<and> \<not> has_bar db (ur_ticker r))),
       (''failed'', n (\<lambda>r. \<not> ur_complete r \<and> ur_updated_at r \<le> now - 7 * DAY \<and> has_bar db (ur_ticker r))),
       (''delisted'', n ur_delisted), (''total'', n (\<lambda>_. True))])"

definition current_row :: "web_db \<Rightarrow> db_row list" where
  "current_row db = map (\<lambda>r. [(''current_ticker'', JStr (ur_ticker r)), (''current_figi'', opt JStr (ur_figi r))])
     (take 1 (sort_key (\<lambda>r. - ur_updated_at r) (filter (\<lambda>r. \<not> ur_complete r) (wd_universe db))))"

text \<open>The statement ends in \<open>FROM counts, current_row\<close>.\<close>

definition backfill_summary :: "web_db \<Rightarrow> int \<Rightarrow> db_row list" where
  "backfill_summary db now = map (\<lambda>c. backfill_counts db now @ c) (current_row db)"

fun show_nat :: "nat \<Rightarrow> string" where
  "show_nat n = (if n < 10 then [digit_char n] else show_nat (n div 10) @ [digit_char (n mod 10)])"

declare show_nat.simps [simp del]

definition events :: "web_db \<Rightarrow> int \<Rightarrow> db_row list" where
  "events db limit = map (\<lambda>h. [(''kind'', JStr ''daily_sync''), (''at'', opt JTime (wh_last_ok h)), (''status'', opt JStr (wh_status h)),
       (''msg'', opt (\<lambda>n. JStr (show_nat n @ '' bars updated'')) (wh_bars h))])
     (take (nat limit) (sort_key (\<lambda>h. - or_else (wh_last_ok h) 0) (filter (\<lambda>h. wh_last_ok h \<noteq> None) (wd_health db))))"

definition macro_latest :: "web_db \<Rightarrow> db_row list" where
  "macro_latest db = map (\<lambda>(i, r). (''id'', JInt i) # r) (take 1 (sort_key (\<lambda>m. - fst m) (wd_macro db)))"

definition summary :: "web_db \<Rightarrow> db_row" where
  "summary db =
     (let oks = List.map_filter wh_last_ok (wd_health db);
          latest = (\<lambda>k. case macro_latest db of [] \<Rightarrow> JNull | r # _ \<Rightarrow> row_get r k)
      in [(''universe_size'', JInt (int (length (wd_universe db)))),
          (''backfill_done'', JInt (int (length (filter ur_complete (wd_universe db))))),
          (''daily_sync_bars'', JInt (int (length (wd_bars db)))),
          (''daily_sync_at'', if oks = [] then JNull else JTime (Max (set oks))),
          (''regime'', latest ''regime''), (''regime_multiplier'', latest ''multiplier''), (''cbr_key_rate'', latest ''cbr_key_rate''),
          (''usdrub_close'', latest ''usdrub_close''), (''imoex_close'', latest ''imoex_close'')])"

fun run_sql :: "web_db \<Rightarrow> int \<Rightarrow> sql \<Rightarrow> db_row list" where
  "run_sql db now Select_One = [[(''?column?'', JInt 1)]]"
| "run_sql db now Summary_Q = [summary db]"
| "run_sql db now (Spark_Tickers days) = spark_tickers db now days"
| "run_sql db now (Spark_Bars days) = spark_bars db now days"
| "run_sql db now (Tickers_List q st limit offset) = tickers_list db now q st limit offset"
| "run_sql db now (Tickers_Count q st) = [[(''count'', JInt (int (tickers_count db now q st)))]]"
| "run_sql db now (Ticker_Detail t) = ticker_detail db t"
| "run_sql db now (Recent_Bars t limit) = recent_bars db t limit"
| "run_sql db now Backfill_Q = backfill_summary db now"
| "run_sql db now (Events_Q limit) = events db limit"
| "run_sql db now Macro_Q = macro_latest db"

section \<open>Payloads\<close>

definition summary_row_to_payload :: "db_row \<Rightarrow> json result" where
  "summary_row_to_payload r =
     bindR (int_or_zero (row_get r ''universe_size'')) (\<lambda>universe.
     bindR (int_or_zero (row_get r ''backfill_done'')) (\<lambda>done'.
     bindR (int_or_zero (row_get r ''daily_sync_bars'')) (\<lambda>bars.
       let pct = (if universe \<noteq> 0 then frnd (frnd (of_int (100 * done')) / of_int universe) else 0)
       in Inr (JObj [(''universe_size'', JInt universe), (''backfill_done'', JInt done'), (''backfill_pct'', JNum (round1 pct)),
            (''daily_sync_bars'', JInt bars), (''daily_sync_at'', isoify (row_get r ''daily_sync_at'')),
            (''regime'', row_get r ''regime''), (''regime_multiplier'', float_or_none (row_get r ''regime_multiplier'')),
            (''cbr_key_rate'', float_or_none (row_get r ''cbr_key_rate'')), (''usdrub_close'', float_or_none (row_get r ''usdrub_close'')),
            (''imoex_close'', float_or_none (row_get r ''imoex_close''))]))))"

text \<open>\<open>int\<close> of a text: a sign, digits, single underscores between digits.\<close>

fun int_digits :: "string \<Rightarrow> nat \<Rightarrow> bool \<Rightarrow> nat option" where
  "int_digits [] n after_digit = (if after_digit then Some n else None)"
| "int_digits (c # cs) n after_digit =
     (if is_digit c then int_digits cs (10 * n + (of_char c - 48)) True
      else if c = CHR ''_'' \<and> after_digit then int_digits cs n False
      else None)"

definition py_int :: "string \<Rightarrow> int option" where
  "py_int s = (case py_strip s of [] \<Rightarrow> None
     | c # cs \<Rightarrow> (if c = CHR ''-'' then map_option (\<lambda>n. - int n) (int_digits cs 0 False)
         else if c = CHR ''+'' then map_option int (int_digits cs 0 False)
         else map_option int (int_digits (c # cs) 0 False)))"

type_synonym web_query = "(string \<times> string list) list"

definition first_query_int :: "web_query \<Rightarrow> string \<Rightarrow> int \<Rightarrow> int \<Rightarrow> int \<Rightarrow> int" where
  "first_query_int qs key dflt lo hi =
     (case map_of qs key of
        Some (raw # _) \<Rightarrow> (case py_int (py_strip raw) of None \<Rightarrow> dflt | Some n \<Rightarrow> max lo (min hi n))
      | _ \<Rightarrow> dflt)"

definition first_query_str :: "web_query \<Rightarrow> string \<Rightarrow> string option" where
  "first_query_str qs key =
     (case map_of qs key of Some (raw # _) \<Rightarrow> (if py_strip raw = [] then None else Some (py_strip raw)) | _ \<Rightarrow> None)"

text \<open>The environment, the text of the page, the folders of the disk and \<open>float\<close> of a text.\<close>

type_synonym environ = "string \<Rightarrow> string option"

record web_lib =
  wl_html :: "string result"
  wl_folder :: "string \<Rightarrow> bdir option"
  wl_float :: "string \<Rightarrow> rat option"

definition getenv :: "environ \<Rightarrow> string \<Rightarrow> string \<Rightarrow> string" where
  "getenv env k d = or_else (env k) d"

definition env_flag :: "environ \<Rightarrow> string \<Rightarrow> json" where
  "env_flag env k = JBool (getenv env k ''0'' \<notin> {[], ''0'', ''false'', ''False''})"

definition env_float :: "web_lib \<Rightarrow> environ \<Rightarrow> string \<Rightarrow> string \<Rightarrow> json result" where
  "env_float lib env k d = (case wl_float lib (getenv env k d) of None \<Rightarrow> Inl ValueError | Some x \<Rightarrow> Inr (JNum x))"

definition env_int :: "environ \<Rightarrow> string \<Rightarrow> string \<Rightarrow> json result" where
  "env_int env k d = (case py_int (getenv env k d) of None \<Rightarrow> Inl ValueError | Some n \<Rightarrow> Inr (JInt n))"

definition build_settings_payload :: "web_lib \<Rightarrow> environ \<Rightarrow> json result" where
  "build_settings_payload lib env =
     bindR (env_float lib env ''ALPHARD_BACKFILL_RATE_PER_MIN'' ''0.5'') (\<lambda>rate.
     bindR (env_int env ''ALPHARD_BACKFILL_START_YEAR'' ''2018'') (\<lambda>year.
     bindR (env_int env ''ALPHARD_BACKFILL_MIN_BARS'' ''1300'') (\<lambda>bars.
     bindR (env_float lib env ''ALPHARD_RISK_MAX_DD_PCT'' ''10'') (\<lambda>dd.
     bindR (env_float lib env ''ALPHARD_RISK_MAX_POS_PCT'' ''5'') (\<lambda>pos.
     bindR (env_float lib env ''ALPHARD_RISK_MAX_SECTOR_PCT'' ''30'') (\<lambda>sector.
     bindR (env_float lib env ''ALPHARD_RISK_CASH_FLOOR_PCT'' ''5'') (\<lambda>cash.
       Inr (JObj [(''env'', JStr (getenv env ''ALPHARD_ENV'' ''sandbox'')),
         (''token_set'', JBool (getenv env ''TINKOFF_INVEST_TOKEN'' [] \<noteq> [])),
         (''backfill'', JObj [(''rate_per_min'', rate), (''start_year'', year), (''min_bars'', bars)]),
         (''risk'', JObj [(''max_dd_pct'', dd), (''max_position_pct'', pos), (''max_sector_pct'', sector), (''cash_floor_pct'', cash)]),
         (''loops'', JObj [(''heartbeat'', env_flag env ''ALPHARD_LOOP_HEARTBEAT''), (''daily_sync'', env_flag env ''ALPHARD_LOOP_DAILY_SYNC''),
            (''delisted_sync'', env_flag env ''ALPHARD_LOOP_DELISTED_SYNC''), (''backup'', env_flag env ''ALPHARD_LOOP_BACKUP''),
            (''macro_regime'', env_flag env ''ALPHARD_LOOP_MACRO_REGIME'')])]))))))))"

section \<open>Routes\<close>

datatype body = Json json | Html string

type_synonym response = "nat \<times> body"

definition DEFAULT_BACKUP_DIR :: string where "DEFAULT_BACKUP_DIR = ''/mnt/appdata/alphard-backups''"

definition kind_text :: "backup_kind \<Rightarrow> string" where
  "kind_text k = (case k of Daily_Kind \<Rightarrow> ''daily'' | Weekly_Kind \<Rightarrow> ''weekly'' | Extra_Kind \<Rightarrow> ''extra'')"

definition backup_json :: "backup_row \<Rightarrow> json" where
  "backup_json b = JObj [(''file'', JStr (br_file b)), (''size'', JInt (int (br_size b))), (''duration'', JNull),
     (''started'', JIso (JTime (br_started b))), (''kind'', JStr (kind_text (br_kind b)))]"

definition json_rows :: "db_row list \<Rightarrow> body" where
  "json_rows rs = Json (JList (map JObj rs))"

definition ticker_path :: "string \<Rightarrow> string option" where
  "ticker_path path =
     (let p = ''/api/ticker/''; t = drop (length p) path; t = (if t \<noteq> [] \<and> last t = CHR 0x0A then butlast t else t)
      in if take (length p) path = p \<and> t \<noteq> [] \<and> list_all (\<lambda>c. is_letter c \<or> is_digit c \<or> c \<in> {CHR ''.'', CHR ''_'', CHR ''-''}) t
         then Some t else None)"

definition nulls :: "string list \<Rightarrow> db_row" where
  "nulls ks = map (\<lambda>k. (k, JNull)) ks"

definition backfill_payload :: "db_row \<Rightarrow> json result" where
  "backfill_payload r =
     bindR (map_result (\<lambda>k. bindR (int_or_zero (row_get r k)) (\<lambda>n. Inr (k, JInt n)))
        [''done'', ''running'', ''pending'', ''no_data'', ''failed'', ''delisted'', ''total'']) (\<lambda>ns.
       Inr (JObj (ns @ [(''current_ticker'', row_get r ''current_ticker''), (''current_figi'', row_get r ''current_figi'')])))"

type_synonym executor = "sql \<Rightarrow> db_row list result"

definition dispatch :: "web_lib \<Rightarrow> environ \<Rightarrow> executor \<Rightarrow> string \<Rightarrow> web_query \<Rightarrow> response result" where
  "dispatch lib env ex path qs =
     (if path = ''/api/health'' then
        (case ex Select_One of
           Inl _ \<Rightarrow> Inr (503, Json (JObj [(''ok'', JBool False), (''db'', JBool False)]))
         | Inr _ \<Rightarrow> Inr (200, Json (JObj [(''ok'', JBool True), (''db'', JBool True)])))
      else if path = ''/api/summary'' then
        bindR (ex Summary_Q) (\<lambda>rows.
        bindR (summary_row_to_payload (case rows of [] \<Rightarrow> [] | r # _ \<Rightarrow> r)) (\<lambda>p. Inr (200, Json p)))
      else if path = ''/api/sparkline'' then
        (let days = first_query_int qs ''days'' 7 1 90 in
         bindR (ex (if first_query_str qs ''metric'' = Some ''bars'' then Spark_Bars days else Spark_Tickers days)) (\<lambda>rows.
           Inr (200, json_rows (map (isoify_row [''bucket'']) rows))))
      else if path = ''/api/tickers'' then
        bindR (ex (Tickers_List (first_query_str qs ''q'') (first_query_str qs ''status'')
            (first_query_int qs ''limit'' 50 1 500) (first_query_int qs ''offset'' 0 0 100000))) (\<lambda>rows.
          Inr (200, json_rows (map (isoify_row [''listed_at'', ''delisted_at'', ''updated_at'', ''last_bar_at'']) rows)))
      else if path = ''/api/tickers/count'' then
        bindR (ex (Tickers_Count (first_query_str qs ''q'') (first_query_str qs ''status''))) (\<lambda>rows.
        bindR (case rows of [] \<Rightarrow> Inr 0 | r # _ \<Rightarrow> (case row_get r ''count'' of JNull \<Rightarrow> Inl TypeError | v \<Rightarrow> int_or_zero v)) (\<lambda>n.
          Inr (200, Json (JObj [(''count'', JInt n)]))))
      else (case ticker_path path of
        Some t \<Rightarrow>
          bindR (ex (Ticker_Detail t)) (\<lambda>rows.
            (case rows of
               [] \<Rightarrow> Inr (404, Json (JObj [(''error'', JStr ''ticker not found''), (''ticker'', JStr t)]))
             | r # _ \<Rightarrow> bindR (ex (Recent_Bars t 5)) (\<lambda>bars.
                 Inr (200, Json (JObj (isoify_row [''listed_at'', ''delisted_at'', ''updated_at'', ''backfill_complete_at''] r @
                   [(''recent_bars'', JList (map (\<lambda>b. JObj (isoify_row [''ts''] b)) bars))]))))))
      | None \<Rightarrow>
          if path = ''/api/backfill'' then
            bindR (ex Backfill_Q) (\<lambda>rows.
            bindR (backfill_payload (case rows of [] \<Rightarrow> [] | r # _ \<Rightarrow> r)) (\<lambda>p. Inr (200, Json p)))
          else if path = ''/api/events'' then
            bindR (ex (Events_Q (first_query_int qs ''limit'' 20 1 200))) (\<lambda>rows. Inr (200, json_rows (map (isoify_row [''at'']) rows)))
          else if path = ''/api/macro'' then
            bindR (ex Macro_Q) (\<lambda>rows. Inr (200, Json (JObj (case rows of
                [] \<Rightarrow> nulls [''id'', ''fetched_at'', ''cbr_key_rate'', ''usdrub_close'', ''usdrub_5d_prev'', ''imoex_close'', ''imoex_60d_prev'',
                        ''regime'', ''multiplier'', ''sources'']
              | r # _ \<Rightarrow> isoify_row [''fetched_at''] r))))
          else if path = ''/api/backups'' then
            Inr (200, Json (JList (map backup_json (list_backup_payloads DEFAULT_DAILY_KEEP DEFAULT_WEEKLY_KEEP
              (wl_folder lib (getenv env ''ALPHARD_BACKUP_DIR'' DEFAULT_BACKUP_DIR))))))
          else if path = ''/api/settings'' then bindR (build_settings_payload lib env) (\<lambda>p. Inr (200, Json p))
          else if path = ''/'' then bindR (wl_html lib) (\<lambda>h. Inr (200, Html h))
          else Inr (404, Json (JObj [(''error'', JStr ''not found''), (''path'', JStr path)]))))"

section \<open>The gate\<close>

definition ascii :: "string \<Rightarrow> bool" where
  "ascii s \<longleftrightarrow> list_all (\<lambda>c. (of_char c :: nat) < 128) s"

text \<open>On texts the comparison is defined for ASCII only.\<close>

definition compare_digest :: "string \<Rightarrow> string \<Rightarrow> bool result" where
  "compare_digest a b = (if ascii a \<and> ascii b then Inr (a = b) else Inl TypeError)"

definition AUTH_OPEN_PATHS :: "string set" where
  "AUTH_OPEN_PATHS = {''/api/health'', ''/''}"

text \<open>\<open>header.partition(" ")\<close>.\<close>

definition scheme_of :: "string \<Rightarrow> string" where
  "scheme_of h = takeWhile (\<lambda>c. c \<noteq> CHR '' '') h"

definition supplied_of :: "string \<Rightarrow> string" where
  "supplied_of h = drop 1 (dropWhile (\<lambda>c. c \<noteq> CHR '' '') h)"

definition check_auth :: "environ \<Rightarrow> string \<Rightarrow> string option \<Rightarrow> bool result" where
  "check_auth env path header =
     (let expected = getenv env ''ALPHARD_WEB_TOKEN'' []
      in if expected = [] then Inr True
         else if path \<in> AUTH_OPEN_PATHS then Inr True
         else case header of
             None \<Rightarrow> Inr False
           | Some h \<Rightarrow> (if h = [] \<or> py_lower (scheme_of h) \<noteq> ''bearer'' \<or> supplied_of h = [] then Inr False
               else compare_digest (supplied_of h) expected))"

definition unauthorized :: response where
  "unauthorized = (401, Json (JObj [(''error'', JStr ''unauthorized''), (''type'', JStr ''AuthError'')]))"

text \<open>An exception of the gate itself is outside the \<open>try\<close>: the connection is closed without an answer. \<open>str(exc)\<close> is the name.\<close>

definition do_GET :: "web_lib \<Rightarrow> environ \<Rightarrow> executor \<Rightarrow> string \<Rightarrow> web_query \<Rightarrow> string option \<Rightarrow> response result" where
  "do_GET lib env ex path qs header =
     (case check_auth env path header of
        Inl e \<Rightarrow> Inl e
      | Inr False \<Rightarrow> Inr unauthorized
      | Inr True \<Rightarrow>
          (if getenv env ''ALPHARD_PG_DSN'' [] = []
           then Inr (500, Json (JObj [(''error'', JStr ''ALPHARD_PG_DSN is not set''), (''type'', JStr ''ConfigError'')]))
           else case dispatch lib env ex path qs of
               Inl e \<Rightarrow> Inr (500, Json (JObj [(''error'', JStr (exc_name e)), (''type'', JStr (exc_name e))]))
             | Inr r \<Rightarrow> Inr r))"

text \<open>\<open>src/web/healthcheck.py\<close>: the exit code; \<open>urlopen\<close> raises on an error status.\<close>

definition healthcheck :: "response result \<Rightarrow> int" where
  "healthcheck r = (case r of Inr (status, b) \<Rightarrow> (if status = 200 then 0 else 1) | Inl e \<Rightarrow> 1)"

section \<open>The gate holds\<close>

text \<open>The header that opens a protected path.\<close>

definition bearer :: "string \<Rightarrow> string \<Rightarrow> bool" where
  "bearer token h \<longleftrightarrow> py_lower (scheme_of h) = ''bearer'' \<and> supplied_of h = token"

lemma check_auth_protected:
  assumes "getenv env ''ALPHARD_WEB_TOKEN'' [] = token" "token \<noteq> []" "path \<notin> AUTH_OPEN_PATHS"
  shows "check_auth env path header = Inr True \<longleftrightarrow> (\<exists>h. header = Some h \<and> bearer token h \<and> ascii token)"
  using assms by (cases header) (auto simp: check_auth_def Let_def compare_digest_def bearer_def scheme_of_def py_lower_def)

text \<open>
  C35. While a token is configured nothing but the liveness answer and the page leaves the server without it: a request for
  any other path whose header does not carry the token is answered with 401, or, when the header or the token
  is not ASCII, not at all; the database is not asked, whatever it is.
\<close>

theorem protected_paths_need_token:
  assumes "getenv env ''ALPHARD_WEB_TOKEN'' [] = token" "token \<noteq> []" "path \<notin> AUTH_OPEN_PATHS"
    "\<And>h. header = Some h \<Longrightarrow> \<not> bearer token h"
  shows "do_GET lib env ex path qs header \<in> {Inr unauthorized, Inl TypeError}"
proof -
  have "check_auth env path header \<noteq> Inr True"
    using check_auth_protected [OF assms(1-3)] assms(4) by blast
  moreover have "check_auth env path header \<in> {Inr True, Inr False, Inl TypeError}"
    by (auto simp: check_auth_def Let_def compare_digest_def split: option.splits)
  ultimately show ?thesis by (auto simp: do_GET_def)
qed

text \<open>With the token the request is served; a token that is not ASCII locks everybody out.\<close>

lemma token_opens:
  assumes "getenv env ''ALPHARD_WEB_TOKEN'' [] = token" "token \<noteq> []" "ascii token" "bearer token h" "getenv env ''ALPHARD_PG_DSN'' [] \<noteq> []"
    "dispatch lib env ex path qs = Inr r"
  shows "do_GET lib env ex path qs (Some h) = Inr r"
proof -
  have "check_auth env path (Some h) = Inr True"
  proof (cases "path \<in> AUTH_OPEN_PATHS")
    case True
    then show ?thesis by (simp add: check_auth_def Let_def)
  next
    case False
    then show ?thesis using check_auth_protected [OF assms(1,2)] assms(3,4) by blast
  qed
  then show ?thesis using assms(5,6) by (simp add: do_GET_def)
qed

lemma non_ascii_token_locks_out:
  assumes "getenv env ''ALPHARD_WEB_TOKEN'' [] = token" "\<not> ascii token" "path \<notin> AUTH_OPEN_PATHS"
  shows "do_GET lib env ex path qs header \<in> {Inr unauthorized, Inl TypeError}"
proof -
  have "token \<noteq> []" using assms(2) by (auto simp: ascii_def)
  then have "check_auth env path header \<in> {Inr False, Inl TypeError}"
    using assms by (auto simp: check_auth_def Let_def compare_digest_def split: option.splits)
  then show ?thesis by (auto simp: do_GET_def)
qed

text \<open>
  No answer depends on a secret: of the broker token only whether it is set can be seen, and of the token of the
  gate nothing.
\<close>

theorem secrets_stay_secret:
  assumes "a \<noteq> []" "b \<noteq> []"
  shows "dispatch lib (env(''TINKOFF_INVEST_TOKEN'' \<mapsto> a, ''ALPHARD_WEB_TOKEN'' := c)) ex path qs =
    dispatch lib (env(''TINKOFF_INVEST_TOKEN'' \<mapsto> b, ''ALPHARD_WEB_TOKEN'' := d)) ex path qs"
proof -
  let ?e = "env(''TINKOFF_INVEST_TOKEN'' \<mapsto> a, ''ALPHARD_WEB_TOKEN'' := c)"
  let ?f = "env(''TINKOFF_INVEST_TOKEN'' \<mapsto> b, ''ALPHARD_WEB_TOKEN'' := d)"
  have g: "getenv ?e k x = getenv ?f k x" if "k \<noteq> ''TINKOFF_INVEST_TOKEN''" "k \<noteq> ''ALPHARD_WEB_TOKEN''" for k x
    using that by (simp add: getenv_def)
  have t: "getenv ?e ''TINKOFF_INVEST_TOKEN'' [] \<noteq> []" "getenv ?f ''TINKOFF_INVEST_TOKEN'' [] \<noteq> []"
    using assms by (simp_all add: getenv_def or_else_def)
  have "build_settings_payload lib ?e = build_settings_payload lib ?f"
    unfolding build_settings_payload_def env_float_def env_int_def env_flag_def
    by (simp only: g t list.distinct char.inject list.inject simp_thms)
  then show ?thesis unfolding dispatch_def by (simp only: g list.distinct char.inject list.inject simp_thms)
qed

text \<open>The statuses of the answers, and what a database that is down is answered with.\<close>

lemma dispatch_status: "dispatch lib env ex path qs = Inr (status, b) \<Longrightarrow> status \<in> {200, 404, 503}"
  unfolding dispatch_def Let_def by (auto simp: bindR_Inr_iff neq_Nil_conv split: if_splits sum.splits option.splits list.splits)

lemma health_needs_database:
  "fst (case do_GET lib env (\<lambda>_. Inl e) ''/api/health'' qs header of Inr r \<Rightarrow> r | Inl _ \<Rightarrow> unauthorized) \<in> {500, 503} \<and>
   healthcheck (do_GET lib env (\<lambda>_. Inl e) ''/api/health'' qs header) = 1"
  by (auto simp: do_GET_def dispatch_def check_auth_def AUTH_OPEN_PATHS_def healthcheck_def Let_def)

section \<open>Parameters of a query\<close>

lemma first_query_int_in_range:
  "lo \<le> dflt \<Longrightarrow> dflt \<le> hi \<Longrightarrow> lo \<le> first_query_int qs k dflt lo hi \<and> first_query_int qs k dflt lo hi \<le> hi"
  by (auto simp: first_query_int_def split: option.splits list.splits)

text \<open>Every statement that reaches the database has its limit, offset and days within the bounds of its route.\<close>

definition in_bounds :: "sql \<Rightarrow> bool" where
  "in_bounds s = (case s of Spark_Tickers d \<Rightarrow> 1 \<le> d \<and> d \<le> 90 | Spark_Bars d \<Rightarrow> 1 \<le> d \<and> d \<le> 90
     | Tickers_List q st l off \<Rightarrow> 1 \<le> l \<and> l \<le> 500 \<and> 0 \<le> off \<and> off \<le> 100000
     | Events_Q l \<Rightarrow> 1 \<le> l \<and> l \<le> 200 | Recent_Bars t l \<Rightarrow> l = 5 | _ \<Rightarrow> True)"

lemma bindR_cong: "m = m' \<Longrightarrow> (\<And>x. m' = Inr x \<Longrightarrow> f x = g x) \<Longrightarrow> bindR m f = bindR m' g"
  by (cases m') auto

lemma dispatch_in_bounds:
  assumes "\<And>s. in_bounds s \<Longrightarrow> ex s = ex' s"
  shows "dispatch lib env ex path qs = dispatch lib env ex' path qs"
  unfolding dispatch_def Let_def
  using first_query_int_in_range [of 1 7 90 qs "''days''"] first_query_int_in_range [of 1 50 500 qs "''limit''"]
    first_query_int_in_range [of 0 0 100000 qs "''offset''"] first_query_int_in_range [of 1 20 200 qs "''limit''"]
  by (auto simp: assms in_bounds_def intro!: bindR_cong split: option.splits list.splits)

section \<open>The ticker list\<close>

lemma has_bar_count: "0 < or_else (bar_count db t) 0 \<longleftrightarrow> has_bar db t" "or_else (bar_count db t) 0 = 0 \<longleftrightarrow> \<not> has_bar db t"
  by (auto simp: bar_count_def or_else_def has_bar_def bars_of_def filter_empty_conv list_ex_iff)

lemma status_agree: "count_status db now st = list_status db now st"
  by (rule ext) (simp add: count_status_def list_status_def has_bar_count)

definition full_list :: "web_db \<Rightarrow> int \<Rightarrow> string option \<Rightarrow> string option \<Rightarrow> db_row list" where
  "full_list db now q st = map (ticker_line db) (filter (\<lambda>r. name_match q r \<and> list_status db now st r) (wd_universe db))"

lemma tickers_list_page: "tickers_list db now q st limit offset = take (nat limit) (drop (nat offset) (full_list db now q st))"
  by (simp add: tickers_list_def full_list_def)

lemma concat_pages: "concat (map (\<lambda>i. take n (drop (n * i) xs)) [0..<k]) = take (n * k) xs"
proof (induction k)
  case (Suc k)
  have "take (n * Suc k) xs = take (n * k) xs @ take n (drop (n * k) xs)"
    by (subst take_add [symmetric]) (simp add: add.commute)
  then show ?case using Suc by simp
qed simp

text \<open>
  The counter and the list agree: the two statements, written with different joins and subqueries, select the same
  tickers for every search and status, and paging through the list with any page size shows each of them exactly
  once, in order, after as many pages as the count says.
\<close>

theorem count_and_pages_agree:
  assumes "0 < limit" "int (tickers_count db now q st) \<le> limit * int k"
  shows "tickers_count db now q st = length (full_list db now q st) \<and>
    concat (map (\<lambda>i. tickers_list db now q st limit (limit * int i)) [0..<k]) = full_list db now q st"
proof
  show c: "tickers_count db now q st = length (full_list db now q st)"
    by (simp add: tickers_count_def full_list_def status_agree)
  have n: "nat (limit * int i) = nat limit * i" for i using assms(1) by (simp add: nat_mult_distrib)
  have "length (full_list db now q st) \<le> nat limit * k"
    using assms c n [of k] by (simp add: le_nat_iff)
  then show "concat (map (\<lambda>i. tickers_list db now q st limit (limit * int i)) [0..<k]) = full_list db now q st"
    by (simp add: tickers_list_page n concat_pages)
qed

text \<open>A search without wildcards is the substring search the interface promises; an underscore finds every ticker.\<close>

definition plain :: "string \<Rightarrow> bool" where
  "plain q \<longleftrightarrow> list_all (\<lambda>c. c \<notin> {CHR ''%'', CHR ''_'', CHR 0x5C}) q"

lemma like_percent: "like (CHR ''%'' # p) s \<longleftrightarrow> (\<exists>us vs. s = us @ vs \<and> like p vs)"
proof (induction s)
  case (Cons c cs)
  have "(\<exists>us vs. c # cs = us @ vs \<and> like p vs) \<longleftrightarrow> like p (c # cs) \<or> (\<exists>us vs. cs = us @ vs \<and> like p vs)"
    by (auto simp: Cons_eq_append_conv)
  then show ?case using Cons by simp
qed simp

lemma like_plain: "plain q \<Longrightarrow> like (q @ p) s \<longleftrightarrow> (\<exists>vs. s = q @ vs \<and> like p vs)"
proof (induction q arbitrary: s)
  case (Cons c q)
  then show ?case by (cases s) (auto simp: plain_def)
qed (simp add: plain_def)

lemma like_anything: "like ''%'' s"
  by (induction s) auto

lemma search_finds_substrings: "plain q \<Longrightarrow> like (''%'' @ q @ ''%'') s \<longleftrightarrow> sublist q s"
  using like_plain [of q "''%''"] by (auto simp: like_percent like_anything sublist_def)

lemma underscore_finds_all: "ur_ticker r \<noteq> [] \<Longrightarrow> name_match (Some ''_'') r"
proof -
  assume "ur_ticker r \<noteq> []"
  then obtain c cs where "ur_ticker r = c # cs" by (cases "ur_ticker r") auto
  moreover have "like ''%_%'' (x # xs)" for x xs using like_anything [of xs] by simp
  moreover have "py_lower ''%_%'' = ''%_%''" by code_simp
  ultimately show ?thesis by (simp add: name_match_def ilike_def py_lower_def)
qed

section \<open>The progress of the backfill\<close>

lemma current_row_Nil: "current_row db = [] \<longleftrightarrow> list_all ur_complete (wd_universe db)"
proof -
  have "sort_key f xs = [] \<longleftrightarrow> xs = []" for f :: "web_ticker \<Rightarrow> int" and xs by (metis length_0_conv length_sort)
  then show ?thesis by (auto simp: current_row_def filter_empty_conv list_all_iff)
qed

text \<open>
  The progress view goes blank when the work is done: the statement joins the counts with the current ticker, so once
  every ticker is complete it has no row, and the answer says zero of zero tickers whatever the universe.
\<close>

theorem finished_backfill_reads_empty:
  assumes "list_all ur_complete (wd_universe db)" "\<And>s. ex s = Inr (run_sql db now s)"
  shows "dispatch lib env ex ''/api/backfill'' qs = Inr (200, Json (JObj [(''done'', JInt 0), (''running'', JInt 0), (''pending'', JInt 0),
    (''no_data'', JInt 0), (''failed'', JInt 0), (''delisted'', JInt 0), (''total'', JInt 0),
    (''current_ticker'', JNull), (''current_figi'', JNull)]))"
proof -
  have "run_sql db now Backfill_Q = []" using assms(1) by (simp add: backfill_summary_def current_row_Nil)
  moreover have "ticker_path ''/api/backfill'' = None" by code_simp
  ultimately show ?thesis by (simp add: dispatch_def assms(2) backfill_payload_def row_get_def)
qed

definition tally :: "db_row \<Rightarrow> string \<Rightarrow> int" where
  "tally r k = (case row_get r k of JInt n \<Rightarrow> n | _ \<Rightarrow> 0)"

lemma length_filter_split: "length (filter P xs) = length (filter (\<lambda>x. P x \<and> Q x) xs) + length (filter (\<lambda>x. P x \<and> \<not> Q x) xs)"
  by (induction xs) auto

text \<open>
  The classes of the progress view are no partition: a ticker without bars is counted as running or pending and again as
  without data while its row is younger than a week, so the classes add up to the total and those tickers again.
\<close>

theorem progress_classes_overlap:
  "tally (backfill_counts db now) ''done'' + tally (backfill_counts db now) ''running'' + tally (backfill_counts db now) ''pending'' +
     tally (backfill_counts db now) ''failed'' + tally (backfill_counts db now) ''no_data'' =
   tally (backfill_counts db now) ''total'' +
     int (length (filter (\<lambda>r. \<not> ur_complete r \<and> \<not> has_bar db (ur_ticker r) \<and> now - 7 * DAY < ur_updated_at r) (wd_universe db)))"
proof -
  have d: "now - 7 * DAY < now - HOUR" by (simp add: DAY_def HOUR_def)
  let ?n = "\<lambda>P xs. int (length (filter P xs))"
  have "?n ur_complete xs + ?n (\<lambda>r. \<not> ur_complete r \<and> now - HOUR < ur_updated_at r) xs +
      ?n (\<lambda>r. \<not> ur_complete r \<and> ur_updated_at r \<le> now - HOUR \<and> now - 7 * DAY < ur_updated_at r) xs +
      ?n (\<lambda>r. \<not> ur_complete r \<and> ur_updated_at r \<le> now - 7 * DAY \<and> has_bar db (ur_ticker r)) xs +
      ?n (\<lambda>r. \<not> ur_complete r \<and> \<not> has_bar db (ur_ticker r)) xs =
    ?n (\<lambda>_. True) xs + ?n (\<lambda>r. \<not> ur_complete r \<and> \<not> has_bar db (ur_ticker r) \<and> now - 7 * DAY < ur_updated_at r) xs" for xs
    by (induction xs) (use d in auto)
  then show ?thesis by (simp add: backfill_counts_def tally_def row_get_def)
qed

section \<open>Instances\<close>

definition ex_web_ticker :: "string \<Rightarrow> bool \<Rightarrow> int \<Rightarrow> web_ticker" where
  "ex_web_ticker t c u = \<lparr>ur_ticker = t, ur_figi = None, ur_listed_at = None, ur_delisted_at = None, ur_complete = c,
     ur_complete_at = None, ur_updated_at = u, ur_delisted = False\<rparr>"

definition ex_web_db :: "bool \<Rightarrow> web_db" where
  "ex_web_db c = \<lparr>wd_universe = [ex_web_ticker ''GAZP'' True 0, ex_web_ticker ''LKOH'' c 5, ex_web_ticker ''SBER'' c 7],
     wd_bars = [\<lparr>wb_ticker = ''GAZP'', wb_ts = 3, wb_values = [1, 2, 1, 2, 9]\<rparr>], wd_health = [], wd_macro = []\<rparr>"

definition ex_web_env :: environ where
  "ex_web_env = [''ALPHARD_WEB_TOKEN'' \<mapsto> ''s3'', ''ALPHARD_PG_DSN'' \<mapsto> ''db'']"

theorem protected_paths_need_token_witness:
  "\<forall>lib ex qs. do_GET lib ex_web_env ex ''/api/tickers'' qs (Some ''Bearer s4'') \<in> {Inr unauthorized, Inl TypeError}"
proof -
  have "getenv ex_web_env ''ALPHARD_WEB_TOKEN'' [] = ''s3''" by (simp add: getenv_def ex_web_env_def or_else_def)
  moreover have "''/api/tickers'' \<notin> AUTH_OPEN_PATHS" by (simp add: AUTH_OPEN_PATHS_def)
  moreover have "\<not> bearer ''s3'' ''Bearer s4''" by code_simp
  ultimately show ?thesis by (intro allI protected_paths_need_token) auto
qed

theorem secrets_stay_secret_witness:
  "dispatch lib (ex_web_env(''TINKOFF_INVEST_TOKEN'' \<mapsto> ''t1'', ''ALPHARD_WEB_TOKEN'' := None)) ex ''/api/settings'' [] =
   dispatch lib (ex_web_env(''TINKOFF_INVEST_TOKEN'' \<mapsto> ''t2'', ''ALPHARD_WEB_TOKEN'' := Some ''s'')) ex ''/api/settings'' []"
  by (rule secrets_stay_secret) simp_all

theorem count_and_pages_agree_witness:
  "tickers_count (ex_web_db False) 9 None (Some ''no-data'') = 2 \<and>
   concat (map (\<lambda>i. tickers_list (ex_web_db False) 9 None (Some ''no-data'') 1 (1 * int i)) [0..<2]) =
     full_list (ex_web_db False) 9 None (Some ''no-data'')"
proof -
  have "tickers_count (ex_web_db False) 9 None (Some ''no-data'') = 2" by code_simp
  then show ?thesis using count_and_pages_agree [of 1 "ex_web_db False" 9 None "Some ''no-data''" 2] by simp
qed

theorem finished_backfill_reads_empty_witness:
  "map_sum id fst (dispatch lib env (\<lambda>s. Inr (run_sql (ex_web_db True) 9 s)) ''/api/backfill'' []) = Inr 200 \<and>
   length (wd_universe (ex_web_db True)) = 3"
proof -
  have "list_all ur_complete (wd_universe (ex_web_db True))" by (simp add: ex_web_db_def ex_web_ticker_def)
  then show ?thesis using finished_backfill_reads_empty [of "ex_web_db True" "\<lambda>s. Inr (run_sql (ex_web_db True) 9 s)" 9] by (simp add: ex_web_db_def)
qed

end
