(* ===== verification/UniverseJobs.thy ===== *)
theory UniverseJobs
  imports DailyJobs MacroSync Web
begin

text \<open>
  The jobs around the universe of tickers: \<open>src/data/delist_source.py\<close>,
  \<open>scripts/mark_terminally_failed.py\<close>, \<open>scripts/backfill_spbxm_universe.py\<close>,
  \<open>scripts/backfill_delisted_via_tinkoff.py\<close> and \<open>scripts/backfill_full_universe.py\<close>, all on the
  tables of \<open>PgStore\<close>. The loaders, HTTP and the XML parser are parameters; days are ordinals, the
  day of the database is that of the script, the calendar is not bounded below. Logging and clocks are left out.
\<close>

section \<open>Dates of listing and delisting\<close>

text \<open>\<open>int\<close> of a slice is lenient (\<open>py_int\<close>), the rest of the text is not looked at.\<close>

definition delist_date :: "string option \<Rightarrow> int option" where
  "delist_date s =
     (case s of None \<Rightarrow> None
      | Some s \<Rightarrow>
          (if length s < 10 then None
           else case (py_int (take 4 s), py_int (take 2 (drop 5 s)), py_int (take 2 (drop 8 s))) of
               (Some y, Some m, Some d) \<Rightarrow>
                 (if 0 \<le> y \<and> 0 \<le> m \<and> 0 \<le> d \<and> valid_date (nat y) (nat m) (nat d) then Some (ordinal (nat y) (nat m) (nat d)) else None)
             | _ \<Rightarrow> None))"

text \<open>The attributes of a board row, the body of an answer, a failure the function catches or any other exception.\<close>

type_synonym board = "string option \<times> string option"

datatype dates_reply = Iss_Body string | Iss_Down | Iss_Raised py_exc

text \<open>The parser yields the rows of the boards blocks in document order, \<open>None\<close> for a parse error.\<close>

record iss_lib =
  il_get :: "string \<Rightarrow> dates_reply"
  il_rows :: "string \<Rightarrow> board list option"

fun earlier :: "int option \<Rightarrow> int option \<Rightarrow> int option" where
  "earlier None acc = acc"
| "earlier (Some c) None = Some c"
| "earlier (Some c) (Some a) = Some (if c < a then c else a)"

fun later :: "int option \<Rightarrow> int option \<Rightarrow> int option" where
  "later None acc = acc"
| "later (Some c) None = Some c"
| "later (Some c) (Some a) = Some (if a < c then c else a)"

definition lifetime :: "board list \<Rightarrow> int option \<times> int option" where
  "lifetime rows = fold (\<lambda>(f, t) (listed, till). (earlier (delist_date f) listed, later (delist_date t) till)) rows (None, None)"

definition lookup_dates :: "iss_lib \<Rightarrow> string \<Rightarrow> (int option \<times> int option) result" where
  "lookup_dates lib ticker =
     (case il_get lib ticker of
        Iss_Raised e \<Rightarrow> Inl e
      | Iss_Down \<Rightarrow> Inr (None, None)
      | Iss_Body b \<Rightarrow> Inr (case il_rows lib b of None \<Rightarrow> (None, None) | Some rows \<Rightarrow> lifetime rows))"

definition fetch_delist_dates :: "iss_lib \<Rightarrow> string list \<Rightarrow> (string \<times> int option \<times> int option) list result" where
  "fetch_delist_dates lib tickers =
     bindR (map_result (\<lambda>t. bindR (lookup_dates lib t) (\<lambda>x. Inr (t, x))) tickers) (\<lambda>xs.
       Inr (fold (\<lambda>(t, x). AList.update t x) xs []))"

section \<open>Marking tickers as unrecoverable\<close>

definition bars_stored :: "string \<Rightarrow> pg_db \<Rightarrow> bool" where
  "bars_stored t d \<longleftrightarrow> list_ex (\<lambda>((u, _, _), _). u = t) (p_ohlcv d)"

definition terminal_candidate :: "int \<Rightarrow> int \<Rightarrow> pg_db \<Rightarrow> string \<Rightarrow> pg_ticker \<Rightarrow> bool" where
  "terminal_candidate today horizon d t u \<longleftrightarrow>
     \<not> u_complete u \<and> u_delisted_at u = None \<and>
     (case u_listed_at u of None \<Rightarrow> True | Some l \<Rightarrow> l < today - horizon) \<and>
     u_class_code u \<in> {None, Some ''SPBXM''} \<and> \<not> bars_stored t d"

text \<open>The statement that writes looks again at what may have changed since the list was made.\<close>

definition still_unfetched :: "pg_db \<Rightarrow> string \<Rightarrow> pg_ticker \<Rightarrow> bool" where
  "still_unfetched d t u \<longleftrightarrow> u_delisted_at u = None \<and> \<not> u_complete u \<and> \<not> bars_stored t d"

definition mark_terminal :: "int \<Rightarrow> string list \<Rightarrow> pg_db \<Rightarrow> nat \<times> pg_db" where
  "mark_terminal today candidates d =
     (let hit = (\<lambda>(t, u). t \<in> set candidates \<and> still_unfetched d t u)
      in (length (filter hit (p_universe d)),
          d\<lparr>p_universe := map (\<lambda>(t, u). if hit (t, u) then (t, u\<lparr>u_delisted_at := Some today\<rparr>) else (t, u)) (p_universe d)\<rparr>))"

text \<open>The exit status, which is the number of tickers; \<open>meanwhile\<close> is what other sessions commit between the two
  statements.\<close>

definition mark_main :: "int \<Rightarrow> int \<Rightarrow> bool \<Rightarrow> (pg_db \<Rightarrow> pg_db) \<Rightarrow> pg_db \<Rightarrow> nat \<times> pg_db" where
  "mark_main today horizon dry meanwhile d =
     (let candidates = map fst (select_by id (terminal_candidate today horizon d) (p_universe d))
      in if candidates = [] then (0, d)
         else if dry then (length candidates, d)
         else mark_terminal today candidates (meanwhile d))"

section \<open>The loaders of the backfill jobs\<close>

record 'w uni_lib =
  ul_shares :: "string \<Rightarrow> 'w \<Rightarrow> ticker_meta list result \<times> 'w"
  ul_bonds :: "'w \<Rightarrow> ticker_meta list result \<times> 'w"
  ul_etfs :: "'w \<Rightarrow> ticker_meta list result \<times> 'w"
  ul_tickers :: "'w \<Rightarrow> ticker_meta list result \<times> 'w"
  ul_fetch :: "string \<Rightarrow> int \<Rightarrow> int \<Rightarrow> 'w \<Rightarrow> ohlcv_row list result \<times> 'w"
  ul_atomic :: bool
  ul_text :: "py_exc \<Rightarrow> string"

section \<open>SPBXM: the universe, then the bars\<close>

record spb_stats =
  sb_universe :: nat
  sb_inserted :: nat
  sb_backed :: nat
  sb_covered :: nat

record spb_args =
  ag_days :: int
  ag_no_backfill :: bool
  ag_classes :: string

definition class_codes :: "string \<Rightarrow> string list" where
  "class_codes s = filter (\<lambda>c. c \<noteq> []) (map py_strip (split_on (CHR '','') s))"

definition spb_insert :: "bool \<Rightarrow> ticker_meta \<Rightarrow> pg_db \<times> nat \<Rightarrow> pg_db \<times> nat" where
  "spb_insert atomic m = (\<lambda>(d, n).
     case pg_upsert_tickers atomic [m] d of (Inr _, d) \<Rightarrow> (d, n + 1) | (Inl e, d) \<Rightarrow> (d, n))"

text \<open>Bars written and tickers covered.\<close>

definition spb_fetch ::
  "'w uni_lib \<Rightarrow> int \<Rightarrow> int \<Rightarrow> ticker_meta \<Rightarrow> ('w \<times> pg_db) \<times> nat \<times> nat \<Rightarrow> ('w \<times> pg_db) \<times> nat \<times> nat" where
  "spb_fetch lib start end m = (\<lambda>((w, d), backed, covered).
     if 0 < pg_count_ohlcv (Some (tm_ticker m)) d then ((w, d), backed, covered + 1)
     else case ul_fetch lib (tm_ticker m) start end w of
         (Inl e, w) \<Rightarrow> ((w, d), backed, covered)
       | (Inr rows, w) \<Rightarrow>
           (if rows = [] then ((w, d), backed, covered)
            else case pg_upsert_ohlcv (ul_atomic lib) rows d of
                (Inl e, d) \<Rightarrow> ((w, d), backed, covered)
              | (Inr _, d) \<Rightarrow> ((w, d), backed + length rows, covered)))"

definition spb_class ::
  "'w uni_lib \<Rightarrow> spb_args \<Rightarrow> int \<Rightarrow> string \<Rightarrow> ('w \<times> pg_db) \<times> spb_stats \<Rightarrow> ('w \<times> pg_db) \<times> spb_stats" where
  "spb_class lib args today class_code = (\<lambda>((w, d), st).
     case ul_shares lib class_code w of
       (Inl e, w) \<Rightarrow> ((w, d), st)
     | (Inr metas, w) \<Rightarrow>
         (case fold (spb_insert (ul_atomic lib)) metas (d, 0) of (d, new) \<Rightarrow>
          let st = st\<lparr>sb_universe := sb_universe st + length metas, sb_inserted := sb_inserted st + new\<rparr>
          in if ag_no_backfill args then ((w, d), st)
             else case fold (spb_fetch lib (today - ag_days args) today) metas ((w, d), 0, 0) of (x, backed, covered) \<Rightarrow>
               (x, st\<lparr>sb_backed := sb_backed st + backed, sb_covered := sb_covered st + covered\<rparr>)))"

definition spb_main :: "'w uni_lib \<Rightarrow> spb_args \<Rightarrow> int \<Rightarrow> 'w \<times> pg_db \<Rightarrow> ('w \<times> pg_db) \<times> spb_stats" where
  "spb_main lib args today x =
     fold (spb_class lib args today) (class_codes (ag_classes args)) (x, \<lparr>sb_universe = 0, sb_inserted = 0, sb_backed = 0, sb_covered = 0\<rparr>)"

section \<open>Archived tickers from the broker\<close>

definition tkf_boards :: "string list" where
  "tkf_boards = [''TQBR'', ''SPBXM'', ''SPBHKEX'', ''A27'', ''MTQR'', ''SPBEQRU'', ''SPBRU'']"

text \<open>A list that cannot be had counts as empty.\<close>

definition add_metas ::
  "('w \<Rightarrow> ticker_meta list result \<times> 'w) \<Rightarrow> (string \<times> ticker_meta) list \<times> 'w \<Rightarrow> (string \<times> ticker_meta) list \<times> 'w" where
  "add_metas f = (\<lambda>(metas, w).
     case f w of (Inl e, w) \<Rightarrow> (metas, w) | (Inr ms, w) \<Rightarrow> (fold (\<lambda>m. AList.update (tm_ticker m) m) ms metas, w))"

definition tkf_universe :: "'w uni_lib \<Rightarrow> 'w \<Rightarrow> (string \<times> ticker_meta) list \<times> 'w" where
  "tkf_universe lib w =
     add_metas (ul_etfs lib) (add_metas (ul_bonds lib) (fold (\<lambda>b. add_metas (ul_shares lib b)) tkf_boards ([], w)))"

text \<open>Not garbage: upper-case letters and digits only.\<close>

definition plain_ticker :: "string \<Rightarrow> bool" where
  "plain_ticker t \<longleftrightarrow> t \<noteq> [] \<and>
     list_all (\<lambda>c. let n = of_char c :: nat in 48 \<le> n \<and> n \<le> 57 \<or> 65 \<le> n \<and> n \<le> 90) t"

definition missing_tickers :: "string option \<Rightarrow> pg_db \<Rightarrow> string list" where
  "missing_tickers start_after d =
     (let rows = map fst (select_by id (\<lambda>t _. \<not> bars_stored t d \<and> plain_ticker t) (p_universe d))
      in case start_after of Some (c # cs) \<Rightarrow> filter (\<lambda>t. c # cs < t) rows | _ \<Rightarrow> rows)"

record job_stats =
  js_total :: nat
  js_bars :: nat
  js_errors :: nat
  js_no_data :: nat
  js_rate_limited :: nat

record repair_args =
  ja_max :: int
  ja_years :: int
  ja_after :: "string option"
  ja_dry :: bool

definition note_error :: "string \<Rightarrow> job_stats \<Rightarrow> job_stats" where
  "note_error msg st = st\<lparr>js_errors := js_errors st + 1,
     js_rate_limited := js_rate_limited st + of_bool (occurs_in ''rate'' (py_lower msg) \<or> occurs_in ''limit'' (py_lower msg))\<rparr>"

definition tkf_fetch ::
  "'w uni_lib \<Rightarrow> bool \<Rightarrow> int \<Rightarrow> int \<Rightarrow> string \<Rightarrow> ('w \<times> pg_db) \<times> job_stats \<Rightarrow> ('w \<times> pg_db) \<times> job_stats" where
  "tkf_fetch lib dry start end ticker = (\<lambda>((w, d), st).
     case ul_fetch lib ticker start end w of
       (Inl e, w) \<Rightarrow> ((w, d), note_error (ul_text lib e) st)
     | (Inr bars, w) \<Rightarrow>
         (if bars \<noteq> [] \<and> \<not> dry then
            (case pg_upsert_ohlcv (ul_atomic lib) bars d of
               (Inl e, d) \<Rightarrow> ((w, d), note_error (ul_text lib e) st)
             | (Inr _, d) \<Rightarrow> ((w, d), st\<lparr>js_bars := js_bars st + length bars\<rparr>))
          else if bars = [] then ((w, d), st\<lparr>js_no_data := js_no_data st + 1\<rparr>)
          else ((w, d), st)))"

definition tkf_main :: "'w uni_lib \<Rightarrow> repair_args \<Rightarrow> int \<Rightarrow> 'w \<times> pg_db \<Rightarrow> ('w \<times> pg_db) \<times> job_stats" where
  "tkf_main lib args today = (\<lambda>(w, d).
     case tkf_universe lib w of (metas, w) \<Rightarrow>
       let todo = filter (\<lambda>t. map_of metas t \<noteq> None) (missing_tickers (ja_after args) d);
           todo = (if 0 < ja_max args then take (nat (ja_max args)) todo else todo)
       in fold (tkf_fetch lib (ja_dry args) (today - ja_years args * 365) today) todo
            ((w, d), \<lparr>js_total = length todo, js_bars = 0, js_errors = 0, js_no_data = 0, js_rate_limited = 0\<rparr>))"

section \<open>The full universe from the exchange\<close>

definition stamp_class :: "ticker_meta \<Rightarrow> pg_db \<Rightarrow> pg_db" where
  "stamp_class m d = d\<lparr>p_universe := AList.map_entry (tm_ticker m)
     (\<lambda>u. u\<lparr>u_class_code := Some ''TQBR'', u_delisted := tm_delisted m\<rparr>) (p_universe d)\<rparr>"

definition persist_universe_meta :: "bool \<Rightarrow> ticker_meta \<Rightarrow> pg_db \<Rightarrow> unit result \<times> pg_db" where
  "persist_universe_meta atomic m =
     bindW (pg_upsert_tickers atomic [m]) (\<lambda>_ d. (Inr (), stamp_class m d))"

definition persist_ohlcv :: "bool \<Rightarrow> ohlcv_row list \<Rightarrow> pg_db \<Rightarrow> nat result \<times> pg_db" where
  "persist_ohlcv atomic bars = (if bars = [] then liftW (Inr 0) else pg_upsert_ohlcv atomic bars)"

definition full_one :: "'w uni_lib \<Rightarrow> int \<Rightarrow> int \<Rightarrow> ticker_meta \<Rightarrow> 'w \<times> pg_db \<Rightarrow> nat result \<times> 'w \<times> pg_db" where
  "full_one lib start end m =
     bindW (on_db (persist_universe_meta (ul_atomic lib) m)) (\<lambda>_.
     bindW (on_net (ul_fetch lib (tm_ticker m) start end)) (\<lambda>bars.
       on_db (persist_ohlcv (ul_atomic lib) bars)))"

definition full_step ::
  "'w uni_lib \<Rightarrow> int \<Rightarrow> int \<Rightarrow> ticker_meta \<Rightarrow> ('w \<times> pg_db) \<times> nat \<times> nat \<Rightarrow> ('w \<times> pg_db) \<times> nat \<times> nat" where
  "full_step lib start end m = (\<lambda>(x, bars, errors).
     case full_one lib start end m x of (Inr n, x) \<Rightarrow> (x, bars + n, errors) | (Inl e, x) \<Rightarrow> (x, bars, errors + 1))"

text \<open>Tickers, bars written, errors, and how many of the tickers are delisted.\<close>

definition full_main :: "'w uni_lib \<Rightarrow> repair_args \<Rightarrow> int \<Rightarrow> 'w \<times> pg_db \<Rightarrow> (nat \<times> nat \<times> nat \<times> nat) result \<times> 'w \<times> pg_db" where
  "full_main lib args today =
     bindW (on_net (ul_tickers lib)) (\<lambda>metas x.
       let metas = (case ja_after args of Some (c # cs) \<Rightarrow> filter (\<lambda>m. c # cs < tm_ticker m) metas | _ \<Rightarrow> metas);
           metas = (if 0 < ja_max args then take (nat (ja_max args)) metas else metas)
       in case fold (full_step lib (today - ja_years args * 365) today) metas (x, 0, 0) of
            (x, bars, errors) \<Rightarrow> (Inr (length metas, bars, errors, length (filter tm_delisted metas)), x))"

section \<open>The life of a ticker\<close>

fun somes :: "'a option list \<Rightarrow> 'a list" where
  "somes [] = []"
| "somes (None # cs) = somes cs"
| "somes (Some x # cs) = x # somes cs"

definition dates_in :: "(board \<Rightarrow> string option) \<Rightarrow> board list \<Rightarrow> int list" where
  "dates_in f rows = somes (map (delist_date \<circ> f) rows)"

lemma fold_lifetime:
  "fold (\<lambda>(f, t) (a, b). (earlier (delist_date f) a, later (delist_date t) b)) rows (a, b) =
     (fold earlier (map (delist_date \<circ> fst) rows) a, fold later (map (delist_date \<circ> snd) rows) b)"
  by (induction rows arbitrary: a b) (auto simp: case_prod_beta)

lemma fold_earlier: "fold earlier cs (Some a) = Some (Min (insert a (set (somes cs))))"
proof (induction cs arbitrary: a rule: somes.induct)
  case (3 x cs)
  have "Min (insert (if x < a then x else a) (set (somes cs))) = Min (insert a (insert x (set (somes cs))))"
    by (cases "somes cs = []") (auto simp: min_def)
  then show ?case using 3 by simp
qed simp_all

lemma fold_later: "fold later cs (Some a) = Some (Max (insert a (set (somes cs))))"
proof (induction cs arbitrary: a rule: somes.induct)
  case (3 x cs)
  have "Max (insert (if a < x then x else a) (set (somes cs))) = Max (insert a (insert x (set (somes cs))))"
    by (cases "somes cs = []") (auto simp: max_def)
  then show ?case using 3 by simp
qed simp_all

lemma fold_first:
  assumes "\<And>acc. f None acc = acc" "\<And>c. f (Some c) None = Some c"
    and "\<And>cs a. fold f cs (Some a) = Some (m (insert a (set (somes cs))))"
  shows "fold f cs None = (if somes cs = [] then None else Some (m (set (somes cs))))"
  using assms by (induction cs rule: somes.induct) simp_all

text \<open>
  The life of a ticker is the hull of its boards: from the earliest legible listing to the latest legible end, each
  absent only when no board has a legible date.
\<close>

lemma lifetime_is_hull:
  "lifetime rows =
     (let fs = dates_in fst rows; ts = dates_in snd rows
      in (if fs = [] then None else Some (Min (set fs)), if ts = [] then None else Some (Max (set ts))))"
  by (simp add: lifetime_def fold_lifetime dates_in_def Let_def
      fold_first [where f = earlier and m = Min, OF _ _ fold_earlier] fold_first [where f = later and m = Max, OF _ _ fold_later])

text \<open>A board the ticker still trades on has no end, and is not seen: leaving one board is leaving the exchange.\<close>

lemma open_board_ignored: "snd (lifetime ((f, None) # rows)) = snd (lifetime rows)"
  by (simp add: lifetime_is_hull dates_in_def Let_def delist_date_def)

section \<open>What the marking does\<close>

lemma bars_stored_iff: "bars_stored t d \<longleftrightarrow> (\<exists>ts s b. ((t, ts, s), b) \<in> set (p_ohlcv d))"
  unfolding bars_stored_def list_ex_iff by force

lemma bars_stored_dom: "bars_stored t d \<longleftrightarrow> (\<exists>ts s. (t, ts, s) \<in> dom (map_of (p_ohlcv d)))"
  unfolding bars_stored_iff dom_map_of_conv_image_fst by force

lemma map_of_map_values: "map_of (map (\<lambda>(k, v). if P k v then (k, f v) else (k, v)) t) k =
    (case map_of t k of None \<Rightarrow> None | Some v \<Rightarrow> Some (if P k v then f v else v))"
  by (induction t) (auto simp: case_prod_beta)

lemma map_fst_map_values: "map fst (map (\<lambda>(k, v). if P k v then (k, f v) else (k, v)) t) = map fst t"
  by (induction t) auto

lemma candidates_iff:
  "keyed (p_universe d) \<Longrightarrow> t \<in> set (map fst (select_by id (terminal_candidate today horizon d) (p_universe d))) \<longleftrightarrow>
     (\<exists>u. map_of (p_universe d) t = Some u \<and> terminal_candidate today horizon d t u)"
  by (force simp: set_select)

lemma mark_main_write:
  assumes "keyed (p_universe d)" "mark_main today horizon False meanwhile d = (n, d')"
  shows "(\<exists>t u. map_of (p_universe d) t = Some u \<and> terminal_candidate today horizon d t u) \<and>
      (n, d') = mark_terminal today (map fst (select_by id (terminal_candidate today horizon d) (p_universe d))) (meanwhile d) \<or>
    (\<nexists>t u. map_of (p_universe d) t = Some u \<and> terminal_candidate today horizon d t u) \<and> n = 0 \<and> d' = d"
proof (cases "map fst (select_by id (terminal_candidate today horizon d) (p_universe d)) = []")
  case True
  then show ?thesis using assms(2) candidates_iff [OF assms(1), of _ today horizon] by (auto simp: mark_main_def)
next
  case False
  then obtain t where "t \<in> set (map fst (select_by id (terminal_candidate today horizon d) (p_universe d)))"
    by (meson ex_in_conv set_empty)
  then show ?thesis
    using assms(2) False unfolding candidates_iff [OF assms(1)] by (auto simp: mark_main_def simp del: map_is_Nil_conv)
qed

lemma mark_terminal_row:
  "map_of (p_universe (snd (mark_terminal today cs d))) t =
     (case map_of (p_universe d) t of None \<Rightarrow> None
      | Some u \<Rightarrow> Some (if t \<in> set cs \<and> still_unfetched d t u then u\<lparr>u_delisted_at := Some today\<rparr> else u))"
  unfolding mark_terminal_def Let_def
  by (simp add: map_of_map_values [where P = "\<lambda>t u. t \<in> set cs \<and> still_unfetched d t u" and f = "\<lambda>u. u\<lparr>u_delisted_at := Some today\<rparr>"])

lemma mark_terminal_else: "p_ohlcv (snd (mark_terminal today cs d)) = p_ohlcv d"
  "keyed (p_universe d) \<Longrightarrow> keyed (p_universe (snd (mark_terminal today cs d)))"
  by (simp_all add: mark_terminal_def Let_def keyed_def map_fst_map_values [where P = "\<lambda>t u. t \<in> set cs \<and> still_unfetched d t u"] del: map_map)

text \<open>
  The marking touches exactly the tickers it should, whatever other sessions commit between its two statements:
  a row changes only in its date of delisting, and only if the ticker was a candidate when the list was made and has
  neither bars nor a date nor its flag when the rows are written; bars are never touched, and an
  immediate second run finds nothing.
\<close>

theorem marks_exactly_candidates:
  assumes "pg_ok d" "keyed (p_universe (meanwhile d))" "mark_main today horizon False meanwhile d = (n, d')"
    and "map_of (p_universe d) t0 = Some u0" "terminal_candidate today horizon d t0 u0"
  shows "p_ohlcv d' = p_ohlcv (meanwhile d) \<and>
    (\<forall>t. map_of (p_universe d') t = map_option (\<lambda>u.
       if (\<exists>v. map_of (p_universe d) t = Some v \<and> terminal_candidate today horizon d t v) \<and> still_unfetched (meanwhile d) t u
       then u\<lparr>u_delisted_at := Some today\<rparr> else u) (map_of (p_universe (meanwhile d)) t))"
proof -
  have k: "keyed (p_universe d)" using assms(1) by (simp add: pg_ok_def)
  have m: "(n, d') = mark_terminal today (map fst (select_by id (terminal_candidate today horizon d) (p_universe d))) (meanwhile d)"
    using mark_main_write [OF k assms(3)] assms(4,5) by blast
  then have "d' = snd (mark_terminal today (map fst (select_by id (terminal_candidate today horizon d) (p_universe d))) (meanwhile d))"
    by (metis snd_conv)
  then show ?thesis
    by (simp add: mark_terminal_row candidates_iff [OF k] mark_terminal_else map_option_case del: set_map cong: option.case_cong)
qed

lemma candidate_unfetched: "terminal_candidate today horizon d t u \<Longrightarrow> still_unfetched d t u"
  by (simp add: terminal_candidate_def still_unfetched_def)

lemma second_run_finds_nothing:
  assumes "pg_ok d" "mark_main today horizon False id d = (n, d')"
  shows "mark_main today horizon dry id d' = (0, d')"
proof -
  let ?C = "terminal_candidate today horizon"
  have k: "keyed (p_universe d)" using assms(1) by (simp add: pg_ok_def)
  have "keyed (p_universe d') \<and> (\<nexists>t u. map_of (p_universe d') t = Some u \<and> ?C d' t u)"
    using mark_main_write [OF k assms(2)]
  proof (elim disjE conjE)
    assume "(n, d') = mark_terminal today (map fst (select_by id (?C d) (p_universe d))) (id d)"
    then have d': "d' = snd (mark_terminal today (map fst (select_by id (?C d) (p_universe d))) d)" by (metis id_apply snd_conv)
    have b: "bars_stored t d' = bars_stored t d" for t by (simp add: d' bars_stored_def mark_terminal_else)
    have "False" if m: "map_of (p_universe d') t = Some u" and c: "?C d' t u" for t u
    proof -
      obtain v where v: "map_of (p_universe d) t = Some v"
          "u = (if (\<exists>w. map_of (p_universe d) t = Some w \<and> ?C d t w) \<and> still_unfetched d t v then v\<lparr>u_delisted_at := Some today\<rparr> else v)"
        using m unfolding d' mark_terminal_row candidates_iff [OF k] by (auto split: option.splits)
      have "u = v" using c v(2) by (auto simp: terminal_candidate_def split: if_splits)
      then have "?C d t v" using c b by (simp add: terminal_candidate_def)
      then show False using v c candidate_unfetched by (auto simp: terminal_candidate_def)
    qed
    then show ?thesis using mark_terminal_else(2) [OF k] d' by blast
  qed (use k in auto)
  then have "map fst (select_by id (?C d') (p_universe d')) = []"
    using candidates_iff [of d' _ today horizon] by (metis ex_in_conv set_empty)
  then show ?thesis by (simp add: mark_main_def)
qed

section \<open>The jobs only fill gaps\<close>

lemma fold_invariant_mem:
  assumes "I s" "\<And>x s. x \<in> set xs \<Longrightarrow> I s \<Longrightarrow> I (f x s)"
  shows "I (fold f xs s)"
  using assms by (induction xs arbitrary: s) simp_all

text \<open>A bar of a ticker that had none at the start.\<close>

definition gap_row :: "pg_db \<Rightarrow> ohlcv_row \<Rightarrow> bool" where
  "gap_row d0 r \<longleftrightarrow> \<not> bars_stored (py_upper (r_ticker r)) d0"

definition honest_fetch :: "'w uni_lib \<Rightarrow> bool" where
  "honest_fetch lib \<longleftrightarrow> (\<forall>t a b w rows w'. ul_fetch lib t a b w = (Inr rows, w') \<longrightarrow> (\<forall>r \<in> set rows. py_upper (r_ticker r) = py_upper t))"

lemma honest_gap:
  assumes "honest_fetch lib" "ul_fetch lib t a b w = (Inr rows, w')" "\<not> bars_stored (py_upper t) d0"
  shows "\<forall>r \<in> set rows. gap_row d0 r"
  using assms unfolding honest_fetch_def gap_row_def by metis

lemma added_stored: "added P d d' \<Longrightarrow> bars_stored t d \<Longrightarrow> bars_stored t d'"
  unfolding bars_stored_dom added_def by (meson map_le_implies_dom_le subsetD)

lemma uncounted: "\<not> 0 < pg_count_ohlcv (Some t) d \<Longrightarrow> \<not> bars_stored (py_upper t) d"
  unfolding bars_stored_iff
  by (auto simp: pg_count_ohlcv_def pg_bars_of_def filter_empty_conv split: if_splits)

lemma tickers_then: "added P d0 d \<Longrightarrow> pg_upsert_tickers atomic ms d = (r, d') \<Longrightarrow> added P d0 d'"
  by (blast intro: added_trans tickers_added)

lemma upsert_then:
  assumes "added P d0 d" "pg_upsert_ohlcv atomic rows d = (r, d')" "\<forall>r \<in> set rows. P r"
  shows "added P d0 d'"
  using assms(1) upsert_added [OF assms(2,3)] by (rule added_trans)

lemma spb_insert_added: "added P d0 (fst s) \<Longrightarrow> added P d0 (fst (spb_insert atomic m s))"
  by (cases s) (auto simp: spb_insert_def dest: tickers_then split: prod.splits sum.splits)

lemma spb_fetch_added:
  assumes "honest_fetch lib" "added (gap_row d0) d0 (snd (fst s))"
  shows "added (gap_row d0) d0 (snd (fst (spb_fetch lib a b m s)))"
proof -
  obtain w d k c where s: "s = ((w, d), k, c)" by (metis surj_pair)
  obtain r w1 where f: "ul_fetch lib (tm_ticker m) a b w = (r, w1)" by fastforce
  show ?thesis
  proof (cases "0 < pg_count_ohlcv (Some (tm_ticker m)) d")
    case False
    then have n: "\<not> bars_stored (py_upper (tm_ticker m)) d0"
      using uncounted added_stored assms(2) s by fastforce
    show ?thesis
    proof (cases r)
      case (Inr rows)
      obtain q d1 where u: "pg_upsert_ohlcv (ul_atomic lib) rows d = (q, d1)" by fastforce
      have "\<forall>x \<in> set rows. gap_row d0 x" using honest_gap [OF assms(1) f [unfolded Inr] n] .
      then have "added (gap_row d0) d0 d1" using upsert_then [OF _ u] assms(2) s by simp
      then show ?thesis using assms(2) s f Inr u False by (cases q) (simp_all add: spb_fetch_def)
    qed (use assms(2) s f False in \<open>simp add: spb_fetch_def\<close>)
  qed (use assms(2) s in \<open>simp add: spb_fetch_def\<close>)
qed

lemma spb_class_added:
  assumes "honest_fetch lib" "added (gap_row d0) d0 (snd (fst s))"
  shows "added (gap_row d0) d0 (snd (fst (spb_class lib args today c s)))"
proof -
  obtain w d st where s: "s = ((w, d), st)" by (metis surj_pair)
  obtain r w1 where f: "ul_shares lib c w = (r, w1)" by fastforce
  show ?thesis
  proof (cases r)
    case (Inr metas)
    obtain d1 n where i: "fold (spb_insert (ul_atomic lib)) metas (d, 0) = (d1, n)" by fastforce
    have 1: "added (gap_row d0) d0 d1"
      using fold_invariant_mem [of "\<lambda>s. added (gap_row d0) d0 (fst s)" "(d, 0 :: nat)" metas "spb_insert (ul_atomic lib)"]
        assms(2) s i spb_insert_added by simp
    obtain x k cov where g: "fold (spb_fetch lib (today - ag_days args) today) metas ((w1, d1), 0, 0) = (x, k, cov)" by (metis surj_pair)
    have "added (gap_row d0) d0 (snd x)"
      using fold_invariant_mem [of "\<lambda>s. added (gap_row d0) d0 (snd (fst s))" "((w1, d1), 0 :: nat, 0 :: nat)" metas
          "spb_fetch lib (today - ag_days args) today"] 1 g spb_fetch_added [OF assms(1)] by simp
    then show ?thesis using s f Inr i g 1 by (simp add: spb_class_def Let_def)
  qed (use assms(2) s f in \<open>simp add: spb_class_def\<close>)
qed

lemma spb_main_added:
  assumes "honest_fetch lib"
  shows "added (gap_row d) d (snd (fst (spb_main lib args today (w, d))))"
  unfolding spb_main_def
  by (rule fold_invariant_mem [where I = "\<lambda>s. added (gap_row d) d (snd (fst s))"])
    (simp_all add: added_refl spb_class_added [OF assms])

lemma upper_plain: "plain_ticker t \<Longrightarrow> py_upper t = t"
  unfolding plain_ticker_def py_upper_def list_all_iff by (intro map_idI) (auto simp: upper_char_def Let_def)

lemma missing_has_none: "t \<in> set (missing_tickers after d) \<Longrightarrow> \<not> bars_stored (py_upper t) d"
  by (auto simp: missing_tickers_def Let_def select_by_def upper_plain split: option.splits list.splits)

lemma tkf_fetch_added:
  assumes "honest_fetch lib" "\<not> bars_stored (py_upper t) d0" "added (gap_row d0) d0 (snd (fst s))"
  shows "added (gap_row d0) d0 (snd (fst (tkf_fetch lib dry a b t s)))"
proof -
  obtain w d st where s: "s = ((w, d), st)" by (metis surj_pair)
  obtain r w1 where f: "ul_fetch lib t a b w = (r, w1)" by fastforce
  show ?thesis
  proof (cases r)
    case (Inr rows)
    obtain q d1 where u: "pg_upsert_ohlcv (ul_atomic lib) rows d = (q, d1)" by fastforce
    have "\<forall>x \<in> set rows. gap_row d0 x" using honest_gap [OF assms(1) f [unfolded Inr] assms(2)] .
    then have "added (gap_row d0) d0 d1" using upsert_then [OF _ u] assms(3) s by simp
    then show ?thesis using assms(3) s f Inr u by (cases q) (simp_all add: tkf_fetch_def)
  qed (use assms(3) s f in \<open>simp add: tkf_fetch_def\<close>)
qed

lemma tkf_main_added:
  assumes "honest_fetch lib"
  shows "added (gap_row d) d (snd (fst (tkf_main lib args today (w, d))))"
proof -
  obtain metas w1 where u: "tkf_universe lib w = (metas, w1)" by fastforce
  show ?thesis
    unfolding tkf_main_def u Let_def prod.case
    by (rule fold_invariant_mem [where I = "\<lambda>s. added (gap_row d) d (snd (fst s))"])
      (auto simp: added_refl dest: in_set_takeD intro!: tkf_fetch_added [OF assms] missing_has_none split: if_splits)
qed

lemma stamp_class_added: "added P d (stamp_class m d)"
proof -
  have "dom (map_of (p_universe (stamp_class m d))) = dom (map_of (p_universe d))"
    by (auto simp: stamp_class_def map_of_map_entry domIff split: if_splits option.splits)
  then show ?thesis
    by (intro added_same_bars) (simp_all add: stamp_class_def pg_ok_def keyed_def refers_def dom_map_entry_list)
qed

lemma full_one_keeps: "keepsW kept (full_one lib a b m)"
proof -
  have "added (\<lambda>_. True) d (snd (persist_universe_meta atomic m d))" for atomic d
  proof -
    obtain r d1 where u: "pg_upsert_tickers atomic [m] d = (r, d1)" by fastforce
    have 1: "added (\<lambda>_. True) d d1" by (rule tickers_added [OF u])
    have "added (\<lambda>_. True) d (stamp_class m d1)" using 1 stamp_class_added by (rule added_trans)
    then show ?thesis using u 1 by (cases r) (simp_all add: persist_universe_meta_def)
  qed
  then have p: "keepsW kept (on_db (persist_universe_meta atomic m))" for atomic by (intro db_keeps) (metis snd_conv)
  have "keepsW kept (on_db (persist_ohlcv atomic bars))" for atomic bars
    by (intro db_keeps) (auto simp: persist_ohlcv_def added_refl intro: upsert_added split: if_splits)
  with p show ?thesis unfolding full_one_def by (intro keepsW_bind kept_order net_keeps)
qed

lemma full_step_kept: "kept x0 (fst s) \<Longrightarrow> kept x0 (fst (full_step lib a b m s))"
proof -
  assume k: "kept x0 (fst s)"
  obtain x n e where s: "s = (x, n, e)" by (metis surj_pair)
  obtain r y where o: "full_one lib a b m x = (r, y)" by (metis surj_pair)
  have "kept x0 y" using k s keepsWD [OF full_one_keeps o] by (auto intro: transpD [OF kept_order(2)])
  then show ?thesis using s o by (cases r) (simp_all add: full_step_def)
qed

lemma full_main_kept:
  assumes "full_main lib args today x = (r, y)"
  shows "kept x y"
proof -
  obtain q x1 where t: "on_net (ul_tickers lib) x = (q, x1)" by (metis surj_pair)
  have 1: "kept x x1" by (rule keepsWD [OF net_keeps t])
  show ?thesis
  proof (cases q)
    case (Inr metas)
    have "kept x (fst (fold (full_step lib a b) ms (x1, 0, 0)))" for a b ms
      by (rule fold_invariant_mem [where I = "\<lambda>s. kept x (fst s)"]) (simp_all add: 1 full_step_kept)
    then show ?thesis using assms t Inr by (auto simp: full_main_def Let_def split: prod.splits) (metis fst_conv)+
  qed (use assms t 1 in \<open>simp add: full_main_def\<close>)
qed

text \<open>
  C36. The two repair jobs fill gaps only: whatever the broker answers about the tickers it is asked for, a ticker
  that had a bar before keeps exactly the bars it had, no stored bar of any job is changed, and the
  database stays consistent; a dry run changes nothing.
\<close>

theorem universe_jobs_fill_gaps:
  assumes "pg_ok d" "honest_fetch lib"
    and "d' = snd (fst (spb_main lib sargs today (w, d))) \<or> d' = snd (fst (tkf_main lib args today (w, d)))"
  shows "pg_ok d' \<and> map_of (p_ohlcv d) \<subseteq>\<^sub>m map_of (p_ohlcv d') \<and>
    (\<forall>t ts s. bars_stored t d \<longrightarrow> map_of (p_ohlcv d') (t, ts, s) = map_of (p_ohlcv d) (t, ts, s))"
proof -
  have a: "added (gap_row d) d d'" using assms(3) spb_main_added tkf_main_added assms(2) by metis
  have "map_of (p_ohlcv d') (t, ts, s) = map_of (p_ohlcv d) (t, ts, s)" if b: "bars_stored t d" for t ts s
  proof (cases "map_of (p_ohlcv d') (t, ts, s)")
    case None
    then show ?thesis using a by (metis added_def map_le_def domIff)
  next
    case (Some x)
    then show ?thesis using a b by (fastforce simp: added_def gap_row_def row_key_def)
  qed
  then show ?thesis using a assms(1) by (simp add: added_def)
qed

lemma dry_run_writes_nothing:
  assumes "ja_dry args"
  shows "snd (fst (tkf_main lib args today (w, d))) = d"
proof -
  obtain metas w1 where u: "tkf_universe lib w = (metas, w1)" by fastforce
  show ?thesis
    unfolding tkf_main_def u Let_def prod.case
    by (rule fold_invariant_mem [where I = "\<lambda>s. snd (fst s) = d"])
      (auto simp: tkf_fetch_def assms split: prod.splits sum.splits)
qed

section \<open>What a lost connection does to a new ticker\<close>

lemma insert_one:
  assumes "pg_ticker_fits m"
  shows "\<exists>d'. pg_upsert_tickers atomic [m] d = (Inr (), d') \<and> p_ohlcv d' = p_ohlcv d \<and> (pg_ok d \<longrightarrow> pg_ok d') \<and>
    map_of (p_universe d') = (map_of (p_universe d))(py_upper (tm_ticker m) \<mapsto>
      (case map_of (p_universe d) (py_upper (tm_ticker m)) of None \<Rightarrow> pg_new_ticker m | Some u \<Rightarrow> pg_update_ticker m u))"
proof -
  let ?d = "d\<lparr>p_universe := AList.map_default (py_upper (tm_ticker m)) (pg_new_ticker m) (pg_update_ticker m) (p_universe d)\<rparr>"
  have u: "pg_upsert_tickers atomic [m] d = (Inr (), ?d)"
    using assms by (simp add: pg_upsert_tickers_def pg_batch_def pg_insert_ticker_def)
  then show ?thesis
    using upsert_tickers_keeps [OF u] by (auto simp: map_of_map_default fun_eq_iff split: option.splits)
qed

definition blank :: "pg_ticker \<Rightarrow> bool" where
  "blank u \<longleftrightarrow> u_class_code u = None \<and> \<not> u_complete u \<and> u_delisted_at u = None \<and> u_listed_at u = None"

definition undated :: "ticker_meta \<Rightarrow> bool" where
  "undated m \<longleftrightarrow> tm_listed_at m = None \<and> tm_delisted_at m = None \<and> pg_ticker_fits m"

lemma insert_blank:
  assumes "undated m" "\<forall>u. map_of (p_universe d) t = Some u \<longrightarrow> blank u"
  shows "\<exists>d'. spb_insert atomic m (d, n) = (d', n + 1) \<and> p_ohlcv d' = p_ohlcv d \<and> (pg_ok d \<longrightarrow> pg_ok d') \<and>
    (\<forall>u. map_of (p_universe d') t = Some u \<longrightarrow> blank u) \<and>
    dom (map_of (p_universe d')) = insert (py_upper (tm_ticker m)) (dom (map_of (p_universe d)))"
proof -
  obtain d' where "pg_upsert_tickers atomic [m] d = (Inr (), d')" "p_ohlcv d' = p_ohlcv d" "pg_ok d \<longrightarrow> pg_ok d'"
    "map_of (p_universe d') = (map_of (p_universe d))(py_upper (tm_ticker m) \<mapsto>
      (case map_of (p_universe d) (py_upper (tm_ticker m)) of None \<Rightarrow> pg_new_ticker m | Some u \<Rightarrow> pg_update_ticker m u))"
    using insert_one [of m atomic d] assms(1) by (auto simp: undated_def)
  then show ?thesis
    using assms by (auto simp: spb_insert_def undated_def blank_def pg_new_ticker_def pg_update_ticker_def split: option.splits)
qed

lemma inserts_blank:
  assumes "\<forall>m \<in> set metas. undated m" "\<forall>u. map_of (p_universe d) t = Some u \<longrightarrow> blank u" "pg_ok d"
  shows "\<exists>d'. fst (fold (spb_insert atomic) metas (d, n)) = d' \<and> p_ohlcv d' = p_ohlcv d \<and> pg_ok d' \<and>
    (\<forall>u. map_of (p_universe d') t = Some u \<longrightarrow> blank u) \<and>
    dom (map_of (p_universe d')) = (py_upper \<circ> tm_ticker) ` set metas \<union> dom (map_of (p_universe d))"
  using assms
proof (induction metas arbitrary: d n)
  case (Cons m metas)
  obtain d1 where 1: "spb_insert atomic m (d, n) = (d1, n + 1)" "p_ohlcv d1 = p_ohlcv d" "pg_ok d1"
      "\<forall>u. map_of (p_universe d1) t = Some u \<longrightarrow> blank u"
      "dom (map_of (p_universe d1)) = insert (py_upper (tm_ticker m)) (dom (map_of (p_universe d)))"
    using insert_blank [of m d t atomic n] Cons.prems by auto
  show ?case using Cons.IH [OF _ 1(4,3), of "n + 1"] Cons.prems(1) 1 by auto
qed simp

lemma failing_fetch:
  assumes "\<forall>t a b w. \<exists>e w'. ul_fetch lib t a b w = (Inl e, w')"
  shows "snd (fst (fold (spb_fetch lib a b) metas s)) = snd (fst s)"
proof (rule fold_invariant_mem)
  fix m :: ticker_meta and s' :: "('a \<times> pg_db) \<times> nat \<times> nat"
  assume i: "snd (fst s') = snd (fst s)"
  obtain w d k c where s: "s' = ((w, d), k, c)" by (metis surj_pair)
  obtain e w' where "ul_fetch lib (tm_ticker m) a b w = (Inl e, w')" using assms by metis
  then show "snd (fst (spb_fetch lib a b m s')) = snd (fst s)" using s i by (simp add: spb_fetch_def)
qed simp

lemma spb_outage:
  assumes "class_codes (ag_classes args) = [c]" "ul_shares lib c w = (Inr metas, w1)"
    and "\<forall>t a b w. \<exists>e w'. ul_fetch lib t a b w = (Inl e, w')"
  shows "snd (fst (spb_main lib args today (w, d))) = fst (fold (spb_insert (ul_atomic lib)) metas (d, 0))"
proof -
  obtain d1 n where i: "fold (spb_insert (ul_atomic lib)) metas (d, 0) = (d1, n)" by fastforce
  obtain x k cov where g: "fold (spb_fetch lib (today - ag_days args) today) metas ((w1, d1), 0, 0) = (x, k, cov)" by (metis surj_pair)
  have "snd x = d1" using failing_fetch [OF assms(3), of "today - ag_days args" today metas "((w1, d1), 0, 0)"] g by simp
  then show ?thesis using i g by (simp add: spb_main_def assms(1,2) spb_class_def Let_def)
qed

text \<open>
  One lost connection delists a ticker. A run that stores the tickers of a class and then cannot fetch their
  bars leaves rows without class, date and bars (the class is not stored); the next marking, which is meant for tickers
  that failed many times, dates every one of them as delisted today, and the backfill with
  \<open>--skip-known-bad\<close> passes over them from then on.
\<close>

theorem one_outage_delists:
  assumes "class_codes (ag_classes sargs) = [c]" "ul_shares lib c w = (Inr metas, w1)"
    and "\<forall>t a b w. \<exists>e w'. ul_fetch lib t a b w = (Inl e, w')"
    and "pg_ok d" "\<forall>m \<in> set metas. undated m" "m \<in> set metas" "map_of (p_universe d) (py_upper (tm_ticker m)) = None"
    and "d' = snd (mark_main today horizon False id (snd (fst (spb_main lib sargs today (w, d)))))"
    and "ba_skip_known_bad args" "bf_db s = d'"
  shows "pg_ticker_meta (tm_ticker m) d' = Some (None, Some today) \<and> bf_step env args (tm_ticker m) s = (False, bf_skip True s)"
proof -
  let ?t = "py_upper (tm_ticker m)"
  obtain d1 where d1: "snd (fst (spb_main lib sargs today (w, d))) = d1" "p_ohlcv d1 = p_ohlcv d" "pg_ok d1"
      "\<forall>u. map_of (p_universe d1) ?t = Some u \<longrightarrow> blank u" "?t \<in> dom (map_of (p_universe d1))"
    using inserts_blank [OF assms(5) _ assms(4), of ?t "ul_atomic lib" 0] assms(6,7) unfolding spb_outage [OF assms(1-3)] by auto
  then obtain u where u: "map_of (p_universe d1) ?t = Some u" "blank u" by blast
  have "\<not> bars_stored ?t d"
    using assms(4,7) unfolding bars_stored_dom pg_ok_def refers_def by (metis domIff fst_conv)
  then have n: "\<not> bars_stored ?t d1" using d1(2) by (simp add: bars_stored_def)
  have c: "terminal_candidate today horizon d1 ?t u" using u n by (simp add: terminal_candidate_def blank_def)
  obtain k where mm: "mark_main today horizon False id d1 = (k, d')" using assms(8) d1(1) by (metis prod.collapse)
  have keyed: "keyed (p_universe d1)" using d1(3) by (simp add: pg_ok_def)
  have d': "d' = snd (mark_terminal today (map fst (select_by id (terminal_candidate today horizon d1) (p_universe d1))) d1)"
    using mark_main_write [OF keyed mm] u(1) c by (metis id_apply snd_conv)
  have "map_of (p_universe d') ?t = Some (u\<lparr>u_delisted_at := Some today\<rparr>)"
    unfolding d' mark_terminal_row candidates_iff [OF keyed] using u c candidate_unfetched [OF c] by auto
  then have "pg_ticker_meta (tm_ticker m) d' = Some (None, Some today)" using u(2) by (simp add: pg_ticker_meta_def blank_def)
  then show ?thesis using assms(9,10) by (simp add: bf_step_def)
qed

section \<open>What the full universe does\<close>

definition tqbr :: "string \<Rightarrow> pg_db \<Rightarrow> bool" where
  "tqbr t d \<longleftrightarrow> (\<exists>u. map_of (p_universe d) t = Some u \<and> u_class_code u = Some ''TQBR'')"

lemma persist_meta_tqbr:
  assumes "pg_ticker_fits m" "py_upper (tm_ticker m) = tm_ticker m"
  shows "\<exists>d'. persist_universe_meta atomic m d = (Inr (), d') \<and> tqbr (tm_ticker m) d' \<and> (tqbr t d \<longrightarrow> tqbr t d')"
proof -
  obtain d1 where "pg_upsert_tickers atomic [m] d = (Inr (), d1)"
    "map_of (p_universe d1) = (map_of (p_universe d))(tm_ticker m \<mapsto>
      (case map_of (p_universe d) (tm_ticker m) of None \<Rightarrow> pg_new_ticker m | Some u \<Rightarrow> pg_update_ticker m u))"
    using insert_one [OF assms(1), of atomic d] assms(2) by auto
  then show ?thesis
    by (auto simp: persist_universe_meta_def tqbr_def stamp_class_def map_of_map_entry)
qed

lemma upsert_universe: "pg_upsert_ohlcv atomic rows d = (r, d') \<Longrightarrow> p_universe d' = p_universe d"
  by (metis pg_upsert_cases pg_execute_bars)

lemma full_one_tqbr:
  assumes "pg_ticker_fits m" "py_upper (tm_ticker m) = tm_ticker m" "full_one lib a b m (w, d) = (r, y)"
  shows "tqbr (tm_ticker m) (snd y) \<and> (tqbr t d \<longrightarrow> tqbr t (snd y))"
proof -
  obtain d1 where p: "persist_universe_meta (ul_atomic lib) m d = (Inr (), d1)" "tqbr (tm_ticker m) d1" "tqbr t d \<longrightarrow> tqbr t d1"
    using persist_meta_tqbr [OF assms(1,2)] by blast
  obtain q w1 where f: "ul_fetch lib (tm_ticker m) a b w = (q, w1)" by fastforce
  have "p_universe (snd y) = p_universe d1"
    using assms(3) p(1) f upsert_universe
    by (cases q) (auto simp: full_one_def bindW_def on_db_def on_net_def persist_ohlcv_def split: prod.splits if_splits)
  then show ?thesis using p by (simp add: tqbr_def)
qed

lemma full_fold_tqbr:
  assumes "\<forall>m \<in> set metas. pg_ticker_fits m \<and> py_upper (tm_ticker m) = tm_ticker m"
  shows "(tqbr t (snd (fst s)) \<or> t \<in> tm_ticker ` set metas) \<longrightarrow> tqbr t (snd (fst (fold (full_step lib a b) metas s)))"
  using assms
proof (induction metas arbitrary: s)
  case (Cons m metas)
  obtain w d n e where s: "s = ((w, d), n, e)" by (metis surj_pair)
  obtain r y where o: "full_one lib a b m (w, d) = (r, y)" by (metis surj_pair)
  have "tqbr (tm_ticker m) (snd y) \<and> (tqbr t d \<longrightarrow> tqbr t (snd y))"
    using full_one_tqbr [OF _ _ o] Cons.prems by simp
  moreover have "fst (full_step lib a b m s) = y" using s o by (cases r) (simp_all add: full_step_def)
  ultimately show ?case using Cons.IH [of "full_step lib a b m s"] Cons.prems s by auto
qed simp

text \<open>A ticker the full universe listed has its class, whatever became of its bars, and is never marked.\<close>

lemma full_universe_never_marked:
  assumes "ul_tickers lib w = (Inr metas, w1)" "ja_after args = None" "ja_max args \<le> 0"
    and "\<forall>m \<in> set metas. pg_ticker_fits m \<and> py_upper (tm_ticker m) = tm_ticker m" "m \<in> set metas"
    and "map_of (p_universe (snd (snd (full_main lib args today (w, d))))) (tm_ticker m) = Some u"
  shows "\<not> terminal_candidate day horizon d' (tm_ticker m) u"
proof -
  have "tqbr (tm_ticker m) (snd (fst (fold (full_step lib (today - ja_years args * 365) today) metas ((w1, d), 0, 0))))"
    using full_fold_tqbr [OF assms(4)] assms(5) by blast
  then have "tqbr (tm_ticker m) (snd (snd (full_main lib args today (w, d))))"
    using assms(1-3) by (simp add: full_main_def on_net_def case_prod_beta)
  then show ?thesis using assms(6) by (simp add: tqbr_def terminal_candidate_def)
qed

section \<open>Concrete runs\<close>

definition ex_uni_meta :: ticker_meta where
  "ex_uni_meta = \<lparr>tm_ticker = ''AAPL'', tm_figi = None, tm_name = ''Apple'', tm_lot = 1, tm_isin = None, tm_currency = ''USD'',
     tm_class_code = Some ''SPBXM'', tm_delisted = False, tm_delisted_at = None, tm_listed_at = None, tm_source = Tkf\<rparr>"

definition ex_down_lib :: "unit uni_lib" where
  "ex_down_lib = \<lparr>ul_shares = (\<lambda>_ w. (Inr [ex_uni_meta], w)), ul_bonds = (\<lambda>w. (Inr [], w)), ul_etfs = (\<lambda>w. (Inr [], w)),
     ul_tickers = (\<lambda>w. (Inr [], w)), ul_fetch = (\<lambda>_ _ _ w. (Inl (OtherError ''RpcError''), w)), ul_atomic = True, ul_text = exc_name\<rparr>"

definition ex_up_lib :: "unit uni_lib" where
  "ex_up_lib = ex_down_lib\<lparr>ul_fetch := (\<lambda>t _ _ w. (Inr [ex_bar_row\<lparr>r_ticker := t\<rparr>], w))\<rparr>"

definition ex_spb_args :: spb_args where
  "ex_spb_args = \<lparr>ag_days = 1825, ag_no_backfill = False, ag_classes = '' SPBXM, ''\<rparr>"

lemma ex_classes: "class_codes (ag_classes ex_spb_args) = [''SPBXM'']"
  by (simp add: class_codes_def ex_spb_args_def py_strip_def is_space_def Let_def)

definition ex_blank_pg :: pg_db where
  "ex_blank_pg = pg_empty\<lparr>p_universe := [(''AAPL'', pg_new_ticker ex_uni_meta)]\<rparr>"

theorem marks_exactly_candidates_witness:
  "map_of (p_universe (snd (mark_main 740000 730 False id ex_blank_pg))) ''AAPL'' =
     Some (pg_new_ticker ex_uni_meta\<lparr>u_delisted_at := Some 740000\<rparr>)"
proof -
  let ?u = "pg_new_ticker ex_uni_meta"
  have ok: "pg_ok ex_blank_pg" by (simp add: ex_blank_pg_def pg_ok_def pg_empty_def keyed_def refers_def)
  have u: "map_of (p_universe ex_blank_pg) ''AAPL'' = Some ?u" by (simp add: ex_blank_pg_def)
  have c: "terminal_candidate 740000 730 ex_blank_pg ''AAPL'' ?u"
    by (simp add: terminal_candidate_def pg_new_ticker_def ex_uni_meta_def bars_stored_def ex_blank_pg_def pg_empty_def)
  obtain n d' where m: "mark_main 740000 730 False id ex_blank_pg = (n, d')" by fastforce
  have "keyed (p_universe (id ex_blank_pg))" using ok by (simp add: pg_ok_def)
  from marks_exactly_candidates [OF ok this m u c, THEN conjunct2, THEN spec, of "''AAPL''"]
  show ?thesis using u c candidate_unfetched [OF c] m by simp
qed

theorem universe_jobs_fill_gaps_witness:
  "map_of (p_ohlcv (snd (fst (spb_main ex_up_lib ex_spb_args 740000 ((), ex_pg1))))) (''SBER'', 10, Tkf) =
   map_of (p_ohlcv ex_pg1) (''SBER'', 10, Tkf) \<and> bars_stored ''SBER'' ex_pg1"
proof -
  have h: "honest_fetch ex_up_lib" by (simp add: honest_fetch_def ex_up_lib_def)
  have b: "bars_stored ''SBER'' ex_pg1" by (simp add: bars_stored_def ex_pg1_def)
  show ?thesis using universe_jobs_fill_gaps [OF ex_pg_ok(2) h disjI1 [OF refl]] b by blast
qed

theorem one_outage_delists_witness:
  "pg_ticker_meta ''AAPL'' (snd (mark_main 740000 730 False id (snd (fst (spb_main ex_down_lib ex_spb_args 740000 ((), pg_empty)))))) =
     Some (None, Some 740000)"
proof -
  let ?d = "snd (mark_main 740000 730 False id (snd (fst (spb_main ex_down_lib ex_spb_args 740000 ((), pg_empty)))))"
  have ok: "pg_ok pg_empty" by (simp add: pg_ok_def pg_empty_def keyed_def refers_def)
  have "pg_ticker_meta (tm_ticker ex_uni_meta) ?d = Some (None, Some 740000) \<and>
      bf_step env (args\<lparr>ba_skip_known_bad := True\<rparr>) (tm_ticker ex_uni_meta) (s\<lparr>bf_db := ?d\<rparr>) = (False, bf_skip True (s\<lparr>bf_db := ?d\<rparr>))"
    for env :: "(unit, unit) bf_env" and args :: bf_args and s :: "unit bf_state"
    by (rule one_outage_delists [OF ex_classes, of ex_down_lib "()" "[ex_uni_meta]" "()" pg_empty ex_uni_meta])
      (simp_all add: ok [unfolded pg_empty_def] ex_down_lib_def undated_def pg_ticker_fits_def ex_uni_meta_def pg_empty_def)
  then show ?thesis by (simp add: ex_uni_meta_def)
qed

text \<open>A share that left one board in 2013 and still trades on another is taken for delisted.\<close>

lemma listed_share_dated:
  "lifetime [(Some ''2013-03-25'', None), (Some ''2000-01-01'', Some ''2013-08-30'')] =
     (Some (ordinal 2000 1 1), Some (ordinal 2013 8 30))"
  by code_simp

end
