(* ===== verification/CertBundle.thy ===== *)
theory CertBundle
  imports Backups "HOL-Library.Word"
begin

text \<open>
  \<open>scripts/fetch_tinkoff_gost_ca.py\<close>: the chain of a TLS endpoint from the output of \<open>openssl\<close>,
  or from the Python socket when that fails, the leaf certificates in front of it dropped, and the bundle of PEM
  blocks the HTTPS client is given. A certificate is its DER bytes. The processes and sockets, the test for a CA
  certificate (\<open>cryptography\<close>) and SHA-256 are parameters; base64, line splitting and wrapping are the
  standard library's, on ASCII text.
\<close>

section \<open>Base64\<close>

type_synonym der = "8 word list"

definition b64_char :: "nat \<Rightarrow> char" where
  "b64_char n = (if n < 26 then char_of (65 + n) else if n < 52 then char_of (71 + n) else if n < 62 then char_of (n - 4)
     else if n = 62 then CHR ''+'' else CHR ''/'')"

definition sextet :: "char \<Rightarrow> nat option" where
  "sextet c = (let n = of_char c :: nat in
     if 65 \<le> n \<and> n \<le> 90 then Some (n - 65) else if 97 \<le> n \<and> n \<le> 122 then Some (n - 71)
     else if 48 \<le> n \<and> n \<le> 57 then Some (n + 4) else if n = 43 then Some 62 else if n = 47 then Some 63 else None)"

definition group3 :: "nat \<Rightarrow> nat \<Rightarrow> nat \<Rightarrow> nat list" where
  "group3 a b c = [a div 4, (a mod 4) * 16 + b div 16, (b mod 16) * 4 + c div 64, c mod 64]"

fun b64encode :: "der \<Rightarrow> string" where
  "b64encode [] = []"
| "b64encode [a] = map b64_char (take 2 (group3 (unat a) 0 0)) @ ''==''"
| "b64encode [a, b] = map b64_char (take 3 (group3 (unat a) (unat b) 0)) @ ''=''"
| "b64encode (a # b # c # r) = map b64_char (group3 (unat a) (unat b) (unat c)) @ b64encode r"

definition bytes_of :: "nat \<Rightarrow> nat \<Rightarrow> nat \<Rightarrow> nat \<Rightarrow> der" where
  "bytes_of p q r s = [of_nat (p * 4 + q div 16), of_nat ((q mod 16) * 16 + r div 4), of_nat ((r mod 4) * 64 + s)]"

text \<open>With \<open>validate=True\<close>: nothing outside the alphabet, padding at the end only. Bits of the last character
  that code no byte are not looked at.\<close>

fun b64decode :: "string \<Rightarrow> der option" where
  "b64decode [] = Some []"
| "b64decode (p # q # r # s # rest) =
     (case (sextet p, sextet q) of
        (Some p', Some q') \<Rightarrow>
          (if s = CHR ''='' then
             (if rest \<noteq> [] then None
              else if r = CHR ''='' then Some (take 1 (bytes_of p' q' 0 0))
              else map_option (\<lambda>r'. take 2 (bytes_of p' q' r' 0)) (sextet r))
           else (case (sextet r, sextet s) of
               (Some r', Some s') \<Rightarrow> map_option (\<lambda>ds. bytes_of p' q' r' s' @ ds) (b64decode rest)
             | _ \<Rightarrow> None))
      | _ \<Rightarrow> None)"
| "b64decode _ = None"

section \<open>PEM blocks\<close>

definition PEM_BEGIN :: string where "PEM_BEGIN = ''-----BEGIN CERTIFICATE-----''"
definition PEM_END :: string where "PEM_END = ''-----END CERTIFICATE-----''"

definition line_end :: "char \<Rightarrow> bool" where
  "line_end c \<longleftrightarrow> (of_char c :: nat) \<in> {10, 11, 12, 13, 28, 29, 30}"

text \<open>\<open>str.splitlines\<close>; the first argument is the line read so far.\<close>

fun splitlines :: "string \<Rightarrow> string \<Rightarrow> string list" where
  "splitlines cur [] = (if cur = [] then [] else [cur])"
| "splitlines cur (c # cs) =
     (if \<not> line_end c then splitlines (cur @ [c]) cs
      else if c = CHR 0x0D then (case cs of d # ds \<Rightarrow> cur # splitlines [] (if d = CHR 0x0A then ds else cs) | [] \<Rightarrow> [cur])
      else cur # splitlines [] cs)"

definition inner :: "'a list \<Rightarrow> 'a list" where
  "inner xs = butlast (tl xs)"

fun pem_scan :: "string list \<Rightarrow> string list \<Rightarrow> der list \<Rightarrow> der list result" where
  "pem_scan [] current blocks = Inr blocks"
| "pem_scan (l # ls) current blocks =
     (if py_strip l = PEM_BEGIN then pem_scan ls [py_strip l] blocks
      else if py_strip l = PEM_END then
        (case b64decode (filter (\<lambda>c. c \<noteq> CHR 0x0D) (concat (inner (current @ [py_strip l])))) of
           None \<Rightarrow> Inl ValueError
         | Some d \<Rightarrow> (if d = [] then Inl ValueError else pem_scan ls [] (blocks @ [d])))
      else pem_scan ls (if current = [] then [] else current @ [l]) blocks)"

definition parse_pem_blocks :: "string \<Rightarrow> der list result" where
  "parse_pem_blocks text = pem_scan (splitlines [] text) [] []"

text \<open>\<open>textwrap.wrap\<close> of a text without spaces.\<close>

fun wrap :: "nat \<Rightarrow> string \<Rightarrow> string list" where
  "wrap n s = (if s = [] \<or> n = 0 then [] else take n s # wrap n (drop n s))"

declare wrap.simps [simp del]

definition end_lines :: "string list \<Rightarrow> string" where
  "end_lines ls = concat (map (\<lambda>l. l @ [CHR 0x0A]) ls)"

definition der_to_pem :: "der \<Rightarrow> string" where
  "der_to_pem d = end_lines (PEM_BEGIN # wrap 64 (b64encode d) @ [PEM_END])"

section \<open>Chains\<close>


text \<open>The leaves in front of a chain go; a chain without a CA is refused.\<close>

definition drop_leaf :: "(der \<Rightarrow> bool) \<Rightarrow> der list \<Rightarrow> der list result" where
  "drop_leaf is_ca certs =
     (if certs = [] then Inl RuntimeError
      else let rest = dropWhile (\<lambda>d. \<not> is_ca d) certs in if rest = [] then Inl RuntimeError else Inr rest)"

datatype openssl_run = No_Openssl | Openssl_Hangs | Openssl_Exit int string

text \<open>What the socket of the fallback yields: an exception of the connection, no method for the chain, an exception of
  that method, or the elements of the chain, bytes or objects that serialise (or raise when they do).\<close>

datatype socket_run = Socket_Raised py_exc | No_Method | Chain_Raised | Chain "der result list"

record cert_lib =
  ce_openssl :: "string \<Rightarrow> openssl_run"
  ce_socket :: "string \<Rightarrow> socket_run"
  ce_is_ca :: "der \<Rightarrow> bool"
  ce_sha256 :: "der \<Rightarrow> string"
  ce_write :: write_outcome

definition fetch_chain_python :: "cert_lib \<Rightarrow> string \<Rightarrow> der list result" where
  "fetch_chain_python lib host =
     (case ce_socket lib host of
        Socket_Raised e \<Rightarrow> Inl e
      | No_Method \<Rightarrow> Inl RuntimeError
      | Chain_Raised \<Rightarrow> Inl RuntimeError
      | Chain cs \<Rightarrow> (if cs = [] then Inl RuntimeError else bindR (map_result id cs) (drop_leaf (ce_is_ca lib))))"

definition fetch_chain :: "cert_lib \<Rightarrow> string \<Rightarrow> der list result" where
  "fetch_chain lib host =
     (case ce_openssl lib host of
        No_Openssl \<Rightarrow> fetch_chain_python lib host
      | Openssl_Hangs \<Rightarrow> Inl RuntimeError
      | Openssl_Exit rc out \<Rightarrow>
          (if rc \<noteq> 0 then Inl RuntimeError
           else case parse_pem_blocks out of
               Inl e \<Rightarrow> Inl RuntimeError
             | Inr blocks \<Rightarrow> (if blocks = [] then Inl RuntimeError else drop_leaf (ce_is_ca lib) blocks)))"

section \<open>The bundle\<close>

definition cert_hosts :: "string list" where
  "cert_hosts = [''invest-public-api.tinkoff.ru'', ''iss.moex.com'']"

text \<open>The first certificate of each fingerprint.\<close>

definition dedup_by :: "('a \<Rightarrow> 'f) \<Rightarrow> 'a list \<Rightarrow> 'a list" where
  "dedup_by fp xs = map snd (fold (\<lambda>x seen. if map_of seen (fp x) = None then seen @ [(fp x, x)] else seen) xs [])"

definition bundle_header :: "string list" where
  "bundle_header = [''# Russian Trusted Root CA + Sub CA chain'',
     ''# Auto-generated by scripts/fetch_tinkoff_gost_ca.py - do not edit by hand.'',
     ''# Endpoints: invest-public-api.tinkoff.ru, iss.moex.com'', []]"

definition bundle_text :: "(der \<Rightarrow> string) \<Rightarrow> der list \<Rightarrow> string" where
  "bundle_text sha certs = end_lines bundle_header @ concat (map der_to_pem (dedup_by sha certs))"

definition os_failure :: py_exc where "os_failure = OtherError ''OSError''"

text \<open>The number written and the file; it is truncated when it is opened.\<close>

definition write_bundle :: "cert_lib \<Rightarrow> der list \<Rightarrow> string option \<Rightarrow> nat result \<times> string option" where
  "write_bundle lib certs file =
     (case ce_write lib of
        Not_Opened \<Rightarrow> (Inl os_failure, file)
      | Partial s \<Rightarrow> (Inl os_failure, Some s)
      | Written \<Rightarrow> (Inr (length (dedup_by (ce_sha256 lib) certs)), Some (bundle_text (ce_sha256 lib) certs)))"

text \<open>An endpoint that gives no chain is reported and skipped; only \<open>RuntimeError\<close> is caught.\<close>

definition chain_or_skip :: "cert_lib \<Rightarrow> string \<Rightarrow> der list result" where
  "chain_or_skip lib host =
     (case fetch_chain lib host of
        Inr c \<Rightarrow> Inr c
      | Inl e \<Rightarrow>
          (if e \<noteq> RuntimeError then Inl e
           else case fetch_chain_python lib host of
               Inr c \<Rightarrow> Inr c
             | Inl e \<Rightarrow> (if e = RuntimeError then Inr [] else Inl e)))"

definition cert_main :: "cert_lib \<Rightarrow> string option \<Rightarrow> int result \<times> string option" where
  "cert_main lib file =
     (case map_result (chain_or_skip lib) cert_hosts of
        Inl e \<Rightarrow> (Inl e, file)
      | Inr cs \<Rightarrow>
          (if concat cs = [] then (Inr 1, file)
           else case write_bundle lib (concat cs) file of (r, file) \<Rightarrow> (map_sum id (\<lambda>_. 0) r, file)))"

section \<open>Base64 is read back\<close>

lemma sextet_char: "n < 64 \<Longrightarrow> sextet (b64_char n) = Some n"
  by (auto simp: sextet_def b64_char_def Let_def)

lemma b64_char_range: "n < 64 \<Longrightarrow> (of_char (b64_char n) :: nat) \<in> {43, 47} \<union> {48..57} \<union> {65..90} \<union> {97..122}"
  by (auto simp: b64_char_def)

lemma b64_char_plain: "n < 64 \<Longrightarrow> b64_char n \<noteq> CHR ''=''"
  using b64_char_range [of n] by auto

lemma digit_pair: "x < m \<Longrightarrow> (k * m + x) div m = k" "x < m \<Longrightarrow> (k * m + x) mod m = (x :: nat)"
  by auto

lemma byte_parts: "n < 256 \<Longrightarrow> n div 4 < 64 \<and> n div 16 < 16 \<and> n div 64 < (4 :: nat)"
  by (simp add: div_less_iff_less_mult)

lemma group3_sextets: "a < 256 \<Longrightarrow> b < 256 \<Longrightarrow> c < 256 \<Longrightarrow> list_all (\<lambda>n. n < 64) (group3 a b c)"
proof -
  assume "a < 256" "b < 256" "c < 256"
  then have "a div 4 < 64" "b div 16 < 16" "c div 64 < 4" using byte_parts by blast+
  moreover have "a mod 4 < 4" "b mod 16 < 16" "c mod 64 < 64" by simp_all
  ultimately have "a div 4 < 64" "a mod 4 * 16 + b div 16 < 64" "b mod 16 * 4 + c div 64 < 64" "c mod 64 < 64" by linarith+
  then show ?thesis by (simp add: group3_def)
qed

lemma group3_bytes:
  assumes "a < 256" "b < 256" "c < 256" "group3 a b c = [p, q, r, s]"
  shows "bytes_of p q r s = [of_nat a, of_nat b, of_nat c]"
proof -
  have g: "p = a div 4" "q = (a mod 4) * 16 + b div 16" "r = (b mod 16) * 4 + c div 64" "s = c mod 64"
    using assms(4) by (auto simp: group3_def)
  have "b div 16 < 16" "c div 64 < 4" using byte_parts assms by auto
  then have "p * 4 + q div 16 = a" "(q mod 16) * 16 + r div 4 = b" "(r mod 4) * 64 + s = c"
    unfolding g digit_pair by (simp_all only: digit_pair div_mult_mod_eq)
  then show ?thesis by (simp add: bytes_of_def del: of_nat_add of_nat_mult)
qed

lemma unat_byte: "unat (x :: 8 word) < 256"
  using unsigned_less [of x, where ?'a = nat] by simp

lemma b64decode_encode: "b64decode (b64encode d) = Some d"
proof (induction d rule: b64encode.induct)
  case (2 a)
  obtain p q r s where g: "group3 (unat a) 0 0 = [p, q, r, s]" by (simp add: group3_def)
  have "r = 0" "s = 0" using g by (simp_all add: group3_def)
  then show ?case
    using group3_sextets [OF unat_byte, of 0 0 a] group3_bytes [OF unat_byte _ _ g] g by (simp add: sextet_char)
next
  case (3 a b)
  obtain p q r s where g: "group3 (unat a) (unat b) 0 = [p, q, r, s]" by (simp add: group3_def)
  have "s = 0" using g by (simp add: group3_def)
  then show ?case
    using group3_sextets [OF unat_byte unat_byte, of 0 a b] group3_bytes [OF unat_byte unat_byte _ g] g
    by (simp add: sextet_char b64_char_plain)
next
  case (4 a b c r)
  obtain p q x s where g: "group3 (unat a) (unat b) (unat c) = [p, q, x, s]" by (simp add: group3_def)
  show ?case
    using group3_sextets [OF unat_byte unat_byte unat_byte, of a b c] group3_bytes [OF unat_byte unat_byte unat_byte g] g 4
    by (simp add: sextet_char b64_char_plain)
qed simp

section \<open>PEM blocks are read back\<close>

definition clean_line :: "string \<Rightarrow> bool" where
  "clean_line l \<longleftrightarrow> list_all (\<lambda>c. \<not> line_end c) l"

lemma splitlines_line:
  "clean_line l \<Longrightarrow> splitlines cur (l @ CHR 0x0A # rest) = (cur @ l) # splitlines [] rest"
proof (induction l arbitrary: cur)
  case Nil
  then show ?case by (simp add: line_end_def)
next
  case (Cons c l)
  then show ?case by (simp add: clean_line_def)
qed

lemma splitlines_end_lines:
  "\<forall>l \<in> set ls. clean_line l \<Longrightarrow> splitlines [] (end_lines ls @ rest) = ls @ splitlines [] rest"
proof (induction ls)
  case (Cons l ls)
  then show ?case using splitlines_line [of l "[]" "end_lines ls @ rest"] by (simp add: end_lines_def)
qed (simp add: end_lines_def)

text \<open>What a base64 text is made of.\<close>

definition b64_text :: "string \<Rightarrow> bool" where
  "b64_text s \<longleftrightarrow> list_all (\<lambda>c. (of_char c :: nat) \<in> {43, 47, 61} \<union> {48..57} \<union> {65..90} \<union> {97..122}) s"

lemma b64_char_text: "list_all (\<lambda>n. n < 64) ns \<Longrightarrow> b64_text (map b64_char ns)"
  unfolding b64_text_def list_all_iff using b64_char_range by auto

lemma b64_text_append [simp]: "b64_text (s @ t) \<longleftrightarrow> b64_text s \<and> b64_text t"
  by (simp add: b64_text_def)

lemma b64encode_text: "b64_text (b64encode d)"
proof (induction d rule: b64encode.induct)
  case (2 a)
  have "list_all (\<lambda>n. n < 64) (take 2 (group3 (unat a) 0 0))"
    using group3_sextets [OF unat_byte, of 0 0 a] by (auto simp: list_all_iff dest: in_set_takeD)
  from b64_char_text [OF this] show ?case by (simp only: b64encode.simps b64_text_append) (simp add: b64_text_def)
next
  case (3 a b)
  have "list_all (\<lambda>n. n < 64) (take 3 (group3 (unat a) (unat b) 0))"
    using group3_sextets [OF unat_byte unat_byte, of 0 a b] by (auto simp: list_all_iff dest: in_set_takeD)
  from b64_char_text [OF this] show ?case by (simp only: b64encode.simps b64_text_append) (simp add: b64_text_def)
next
  case (4 a b c r)
  show ?case
    using b64_char_text [OF group3_sextets [OF unat_byte unat_byte unat_byte, of a b c]] 4 by (simp only: b64encode.simps b64_text_append)
qed (simp add: b64_text_def)

lemma wrap_concat: "0 < n \<Longrightarrow> concat (wrap n s) = s"
proof (induction n s rule: wrap.induct)
  case (1 n s)
  then show ?case by (subst wrap.simps) auto
qed

lemma wrap_text: "b64_text s \<Longrightarrow> l \<in> set (wrap n s) \<Longrightarrow> b64_text l"
proof (induction n s rule: wrap.induct)
  case (1 n s)
  have "b64_text (take n s) \<and> b64_text (drop n s)" using 1(2) by (auto simp: b64_text_def list_all_iff dest: in_set_takeD in_set_dropD)
  then show ?case using 1(1,3) by (subst (asm) (2) wrap.simps) (auto split: if_splits)
qed

lemma set_strip: "set (py_strip l) \<subseteq> set l"
  by (auto simp: py_strip_def dest!: set_dropWhileD)

lemma pem_marker: "py_strip PEM_BEGIN = PEM_BEGIN" "py_strip PEM_END = PEM_END" "PEM_BEGIN \<noteq> PEM_END"
  "CHR ''-'' \<in> set PEM_BEGIN" "CHR ''-'' \<in> set PEM_END" "clean_line PEM_BEGIN" "clean_line PEM_END"
  by (simp_all add: PEM_BEGIN_def PEM_END_def py_strip_def is_space_def Let_def clean_line_def line_end_def)

text \<open>A line that is no marker.\<close>

definition body_line :: "string \<Rightarrow> bool" where
  "body_line l \<longleftrightarrow> py_strip l \<noteq> PEM_BEGIN \<and> py_strip l \<noteq> PEM_END"

lemma b64_body:
  assumes "b64_text l"
  shows "body_line l \<and> clean_line l \<and> CHR 0x0D \<notin> set l"
proof -
  have c: "(of_char c :: nat) \<in> {43, 47, 61} \<union> {48..57} \<union> {65..90} \<union> {97..122}" if "c \<in> set l" for c
    using assms that by (simp add: b64_text_def list_all_iff)
  have "CHR ''-'' \<notin> set l" "CHR 0x0D \<notin> set l" using c [of "CHR ''-''"] c [of "CHR 0x0D"] by auto
  moreover have "clean_line l" unfolding clean_line_def list_all_iff line_end_def using c by fastforce
  moreover have "CHR ''-'' \<in> set l" if "\<not> body_line l"
    using that set_strip [of l] pem_marker(4,5) unfolding body_line_def by (metis subsetD)
  ultimately show ?thesis by blast
qed

lemma pem_scan_body:
  "\<forall>l \<in> set ls. body_line l \<Longrightarrow> pem_scan (ls @ rest) cur blocks = pem_scan rest (if cur = [] then [] else cur @ ls) blocks"
  by (induction ls arbitrary: cur) (auto simp: body_line_def)

lemma pem_scan_block:
  assumes "d \<noteq> []"
  shows "pem_scan (PEM_BEGIN # wrap 64 (b64encode d) @ PEM_END # rest) cur blocks = pem_scan rest [] (blocks @ [d])"
proof -
  have b: "\<forall>l \<in> set (wrap 64 (b64encode d)). body_line l" using wrap_text [OF b64encode_text] b64_body by blast
  have "CHR 0x0D \<notin> set (b64encode d)" using b64_body [OF b64encode_text] by blast
  then have f: "filter (\<lambda>c. c \<noteq> CHR 0x0D) (b64encode d) = b64encode d" by (auto intro: filter_True)
  have i: "inner ((PEM_BEGIN # ls) @ [e]) = ls" for ls e by (simp add: inner_def)
  have "pem_scan (PEM_BEGIN # wrap 64 (b64encode d) @ PEM_END # rest) cur blocks =
      pem_scan (PEM_END # rest) (PEM_BEGIN # wrap 64 (b64encode d)) blocks"
    using pem_scan_body [OF b, of "PEM_END # rest" "[PEM_BEGIN]" blocks] by (simp add: pem_marker)
  also have "\<dots> = pem_scan rest [] (blocks @ [d])"
    using assms by (simp add: pem_marker i [of _ PEM_END, simplified] wrap_concat f b64decode_encode pem_marker(3) [symmetric])
  finally show ?thesis .
qed

lemma der_to_pem_lines:
  "splitlines [] (der_to_pem d @ rest) = PEM_BEGIN # wrap 64 (b64encode d) @ PEM_END # splitlines [] rest"
  using wrap_text [OF b64encode_text] b64_body pem_marker(6,7)
  unfolding der_to_pem_def by (subst splitlines_end_lines) auto

lemma pems_read_back:
  "[] \<notin> set ds \<Longrightarrow> pem_scan (splitlines [] (concat (map der_to_pem ds))) [] blocks = Inr (blocks @ ds)"
proof (induction ds arbitrary: blocks)
  case (Cons d ds)
  then have "d \<noteq> []" "[] \<notin> set ds" by auto
  then show ?case using Cons.IH by (simp add: der_to_pem_lines pem_scan_block del: pem_scan.simps(2))
qed simp

lemma header_skipped: "\<forall>l \<in> set bundle_header. body_line l \<and> clean_line l"
  by (simp add: bundle_header_def body_line_def clean_line_def line_end_def PEM_BEGIN_def PEM_END_def py_strip_def is_space_def Let_def)

lemma seen_keys:
  "fst ` set (fold (\<lambda>x seen. if map_of seen (fp x) = None then seen @ [(fp x, x)] else seen) xs []) = fp ` set xs"
  by (induction xs rule: rev_induct) (auto simp: map_of_eq_None_iff)

lemma dedup_snoc:
  "dedup_by fp (xs @ [x]) = (if fp x \<in> fp ` set xs then dedup_by fp xs else dedup_by fp xs @ [x])"
  using seen_keys [of fp xs] by (auto simp: dedup_by_def map_of_eq_None_iff)

text \<open>One certificate of every fingerprint, in order, the first of the chain among them.\<close>

lemma dedup_spec:
  "set (dedup_by fp xs) \<subseteq> set xs" "fp ` set (dedup_by fp xs) = fp ` set xs" "distinct (map fp (dedup_by fp xs))"
proof -
  have "set (dedup_by fp xs) \<subseteq> set xs \<and> fp ` set (dedup_by fp xs) = fp ` set xs \<and> distinct (map fp (dedup_by fp xs))"
  proof (induction xs rule: rev_induct)
    case (snoc x xs)
    then have "fp x \<notin> fp ` set (dedup_by fp xs)" if "fp x \<notin> fp ` set xs" using that by blast
    then show ?case using snoc by (auto simp: dedup_snoc)
  qed (simp add: dedup_by_def)
  then show "set (dedup_by fp xs) \<subseteq> set xs" "fp ` set (dedup_by fp xs) = fp ` set xs" "distinct (map fp (dedup_by fp xs))"
    by blast+
qed

lemma dedup_hd: "xs \<noteq> [] \<Longrightarrow> dedup_by fp xs \<noteq> [] \<and> hd (dedup_by fp xs) = hd xs"
proof (induction xs rule: rev_induct)
  case (snoc x xs)
  show ?case
  proof (cases "xs = []")
    case False
    then have "dedup_by fp xs \<noteq> [] \<and> hd (dedup_by fp xs) = hd xs" by (rule snoc.IH)
    then show ?thesis using False by (simp add: dedup_snoc)
  qed (simp add: dedup_by_def)
qed simp

lemma bundle_text_parses:
  assumes "[] \<notin> set certs"
  shows "parse_pem_blocks (bundle_text sha certs) = Inr (dedup_by sha certs)"
proof -
  have "[] \<notin> set (dedup_by sha certs)" using assms by (rule contra_subsetD [OF dedup_spec(1)])
  from pems_read_back [OF this, of "[]"]
  have "pem_scan (splitlines [] (concat (map der_to_pem (dedup_by sha certs)))) [] [] = Inr (dedup_by sha certs)" by simp
  moreover have "splitlines [] (bundle_text sha certs) =
      bundle_header @ splitlines [] (concat (map der_to_pem (dedup_by sha certs)))"
    using header_skipped unfolding bundle_text_def by (intro splitlines_end_lines) blast
  ultimately show ?thesis
    using pem_scan_body [of bundle_header _ "[]"] header_skipped by (simp add: parse_pem_blocks_def)
qed

text \<open>
  C37. The bundle is read back: parsing its text gives exactly the certificates that were written, one per
  fingerprint and in order, byte for byte, through the comment header, the base64 and the lines of 64 characters.
\<close>

theorem bundle_reads_back:
  assumes "[] \<notin> set certs"
  shows "parse_pem_blocks (bundle_text sha certs) = Inr (dedup_by sha certs) \<and>
    sha ` set (dedup_by sha certs) = sha ` set certs \<and> distinct (map sha (dedup_by sha certs))"
  using bundle_text_parses [OF assms] dedup_spec(2,3) by metis

section \<open>What is shipped\<close>

lemma pem_scan_nonempty: "pem_scan ls cur blocks = Inr ds \<Longrightarrow> [] \<notin> set blocks \<Longrightarrow> [] \<notin> set ds"
proof (induction ls arbitrary: cur blocks)
  case (Cons l ls)
  consider "py_strip l = PEM_BEGIN" | "py_strip l = PEM_END" "py_strip l \<noteq> PEM_BEGIN" | "py_strip l \<notin> {PEM_BEGIN, PEM_END}"
    by blast
  then show ?case
  proof cases
    case 2
    then show ?thesis
      using Cons.prems Cons.IH [of "[]"] by (auto split: option.splits if_splits)
  qed (use Cons in auto)
qed simp

lemma drop_leaf_Inr:
  assumes "drop_leaf is_ca certs = Inr c"
  shows "c \<noteq> [] \<and> is_ca (hd c) \<and> set c \<subseteq> set certs"
  using assms hd_dropWhile [of "\<lambda>d. \<not> is_ca d" certs]
  by (auto simp: drop_leaf_def Let_def split: if_splits dest: set_dropWhileD)

text \<open>The contract of the socket: no certificate is empty.\<close>

definition sound_sockets :: "cert_lib \<Rightarrow> bool" where
  "sound_sockets lib \<longleftrightarrow> (\<forall>host cs. ce_socket lib host = Chain cs \<longrightarrow> Inr [] \<notin> set cs)"

lemma map_result_id: "map_result id rs = Inr xs \<Longrightarrow> rs = map Inr xs"
  by (induction rs arbitrary: xs) (auto simp: bindR_Inr_iff)

lemma python_chain:
  assumes "fetch_chain_python lib host = Inr c" "sound_sockets lib"
  shows "c \<noteq> [] \<and> ce_is_ca lib (hd c) \<and> [] \<notin> set c"
proof -
  obtain cs xs where c: "ce_socket lib host = Chain cs" "map_result id cs = Inr xs" "drop_leaf (ce_is_ca lib) xs = Inr c"
    using assms(1) by (auto simp: fetch_chain_python_def bindR_Inr_iff split: socket_run.splits if_splits)
  have "Inr [] \<notin> set cs" using assms(2) c(1) by (auto simp: sound_sockets_def)
  then have "[] \<notin> set xs" using map_result_id [OF c(2)] by force
  then show ?thesis using drop_leaf_Inr [OF c(3)] by blast
qed

lemma openssl_chain:
  assumes "fetch_chain lib host = Inr c" "sound_sockets lib"
  shows "c \<noteq> [] \<and> ce_is_ca lib (hd c) \<and> [] \<notin> set c"
proof (cases "ce_openssl lib host")
  case (Openssl_Exit rc out)
  then obtain blocks where b: "parse_pem_blocks out = Inr blocks" "drop_leaf (ce_is_ca lib) blocks = Inr c"
    using assms(1) by (auto simp: fetch_chain_def split: if_splits sum.splits)
  have "[] \<notin> set blocks" using pem_scan_nonempty [of _ "[]" "[]" blocks] b(1) by (simp add: parse_pem_blocks_def)
  then show ?thesis using drop_leaf_Inr [OF b(2)] by blast
qed (use assms python_chain in \<open>auto simp: fetch_chain_def\<close>)

lemma chain_or_skip_Inr:
  assumes "chain_or_skip lib host = Inr c" "sound_sockets lib"
  shows "c = [] \<or> ce_is_ca lib (hd c) \<and> [] \<notin> set c"
  using assms openssl_chain [OF _ assms(2)] python_chain [OF _ assms(2)]
  by (auto simp: chain_or_skip_def split: sum.splits if_splits)

lemma concat_chains:
  "\<forall>c \<in> set cs. c = [] \<or> P (hd c) \<and> [] \<notin> set c \<Longrightarrow> concat cs \<noteq> [] \<Longrightarrow> P (hd (concat cs)) \<and> [] \<notin> set (concat cs)"
  by (induction cs) (auto simp: hd_append)

lemma cert_main_cases:
  assumes "cert_main lib file = (r, file')"
  obtains "file' = file" "r \<noteq> Inr 0"
  | cs n where "map_result (chain_or_skip lib) cert_hosts = Inr cs" "concat cs \<noteq> []"
      "write_bundle lib (concat cs) file = (n, file')" "r = map_sum id (\<lambda>_. 0) n"
  using assms by (auto simp: cert_main_def split: sum.splits if_splits prod.splits)

text \<open>
  The script never leaves a bundle without a CA behind: it either reports a failure and leaves the file as it was,
  or exits with 0 and the file parses to a list of certificates that starts with a CA certificate, provided the disk
  writes what it opens.
\<close>

theorem bundle_has_a_ca:
  assumes "cert_main lib file = (r, file')" "sound_sockets lib" "\<And>s. ce_write lib \<noteq> Partial s"
  shows "if r = Inr 0
    then \<exists>text ders. file' = Some text \<and> parse_pem_blocks text = Inr ders \<and> ders \<noteq> [] \<and> ce_is_ca lib (hd ders)
    else file' = file"
  using assms(1)
proof (cases rule: cert_main_cases)
  case (2 cs n)
  have "\<forall>c \<in> set cs. c = [] \<or> ce_is_ca lib (hd c) \<and> [] \<notin> set c"
    by (rule map_result_all [OF 2(1)]) (rule chain_or_skip_Inr [OF _ assms(2)])
  then have c: "ce_is_ca lib (hd (concat cs))" "[] \<notin> set (concat cs)"
    using concat_chains [of cs "ce_is_ca lib"] 2(2) by blast+
  show ?thesis
  proof (cases "ce_write lib")
    case Written
    have "parse_pem_blocks (bundle_text (ce_sha256 lib) (concat cs)) = Inr (dedup_by (ce_sha256 lib) (concat cs))"
      using bundle_text_parses [OF c(2)] .
    then show ?thesis
      using 2(3,4) Written c(1) dedup_hd [OF 2(2), of "ce_sha256 lib"] by (auto simp: write_bundle_def)
  qed (use 2 assms(3) in \<open>auto simp: write_bundle_def\<close>)
qed simp

text \<open>Only leaves in front are dropped: one behind a CA is shipped.\<close>

lemma inner_leaf_ships:
  assumes "is_ca ca" "\<not> is_ca leaf"
  shows "drop_leaf is_ca [leaf, ca, leaf] = Inr [ca, leaf]"
  using assms by (simp add: drop_leaf_def)

text \<open>An endpoint that is down for a day loses its certificates: the bundle is rewritten without them.\<close>

lemma lost_endpoint_loses_its_chain:
  assumes "chain_or_skip lib (cert_hosts ! 0) = Inr c" "c \<noteq> []" "ce_write lib = Written"
    and "ce_openssl lib (cert_hosts ! 1) = Openssl_Hangs" "ce_socket lib (cert_hosts ! 1) = No_Method"
  shows "cert_main lib file = (Inr 0, Some (bundle_text (ce_sha256 lib) c))"
proof -
  have "chain_or_skip lib (cert_hosts ! 1) = Inr []"
    using assms(4,5) by (simp add: chain_or_skip_def fetch_chain_def fetch_chain_python_def)
  then show ?thesis using assms(1-3) by (simp add: cert_main_def write_bundle_def cert_hosts_def)
qed

text \<open>An error of the connection in the fallback is no \<open>RuntimeError\<close>: it ends the script, whatever the other
  endpoint would have given.\<close>

lemma connection_error_escapes:
  assumes "ce_openssl lib (cert_hosts ! 0) = Openssl_Hangs" "ce_socket lib (cert_hosts ! 0) = Socket_Raised os_failure"
  shows "cert_main lib file = (Inl os_failure, file)"
  using assms
  by (simp add: cert_main_def cert_hosts_def chain_or_skip_def fetch_chain_def fetch_chain_python_def RuntimeError_def os_failure_def)

section \<open>Concrete runs\<close>

definition ex_ca :: der where "ex_ca = [48, 130, 255, 0]"
definition ex_leaf :: der where "ex_leaf = [48, 1]"

definition ex_cert_lib :: cert_lib where
  "ex_cert_lib = \<lparr>ce_openssl = (\<lambda>_. No_Openssl), ce_socket = (\<lambda>_. Chain [Inr ex_leaf, Inr ex_ca]), ce_is_ca = (\<lambda>d. 2 < length d),
     ce_sha256 = b64encode, ce_write = Written\<rparr>"

theorem bundle_reads_back_witness:
  "parse_pem_blocks (bundle_text b64encode [ex_ca, ex_leaf, ex_ca]) = Inr [ex_ca, ex_leaf]"
  using bundle_reads_back [of "[ex_ca, ex_leaf, ex_ca]" b64encode]
  by (simp add: ex_ca_def ex_leaf_def dedup_by_def group3_def b64_char_def)

theorem bundle_has_a_ca_witness:
  "\<exists>text ders. snd (cert_main ex_cert_lib None) = Some text \<and> parse_pem_blocks text = Inr ders \<and> ders \<noteq> [] \<and> 2 < length (hd ders)"
proof -
  have s: "sound_sockets ex_cert_lib" by (simp add: sound_sockets_def ex_cert_lib_def ex_ca_def ex_leaf_def)
  obtain r f where m: "cert_main ex_cert_lib None = (r, f)" by fastforce
  have "r = Inr 0"
    using m by (simp add: cert_main_def cert_hosts_def chain_or_skip_def fetch_chain_def fetch_chain_python_def ex_cert_lib_def
        drop_leaf_def ex_ca_def ex_leaf_def write_bundle_def)
  then show ?thesis using bundle_has_a_ca [OF m s] m by (simp add: ex_cert_lib_def)
qed

end
