(* ===== verification/GateCli.thy ===== *)
theory GateCli
  imports QualityFlow Backfill CrossSource Historical
begin

text \<open>
  The command-line gates: \<open>src/data/quality/__main__.py\<close> (one gate on a CSV file),
  \<open>scripts/validate_ohlcv.py\<close> (the structural validators on the whole table) and
  \<open>scripts/cross_source_smoke.py\<close> (the cross-source gate on made-up series), composed of the gates, the audit
  log and the store as they are modelled elsewhere. The CSV reader, \<open>float\<close> and \<open>date.fromisoformat\<close> on
  a text, and the random generator are parameters. What is printed is left out.
\<close>

section \<open>A CSV file\<close>

text \<open>The columns of the header and the cells of a row; \<open>csv.DictReader\<close> fills a short row with \<open>None\<close>.\<close>

type_synonym csv_row = "(string \<times> string option) list"

record csv_file =
  cf_columns :: "string list"
  cf_rows :: "csv_row list"

record cli_lib =
  cli_date :: "string \<Rightarrow> int option"
  cli_float :: "string \<Rightarrow> pyfloat option"
  cli_open :: "string \<Rightarrow> csv_file result"
  cli_math :: math_lib
  cli_xs :: xs_lib


definition csv_cell :: "string \<Rightarrow> csv_row \<Rightarrow> string option result" where
  "csv_cell k r = (case map_of r k of None \<Rightarrow> Inl KeyError | Some v \<Rightarrow> Inr v)"

text \<open>Of a missing cell the parsers raise \<open>TypeError\<close>.\<close>

definition parse_cell :: "(string \<Rightarrow> 'a option) \<Rightarrow> string \<Rightarrow> csv_row \<Rightarrow> 'a result" where
  "parse_cell f k r =
     bindR (csv_cell k r) (\<lambda>v. case v of None \<Rightarrow> Inl TypeError | Some s \<Rightarrow> (case f s of None \<Rightarrow> Inl ValueError | Some x \<Rightarrow> Inr x))"

definition py_trunc :: "pyfloat \<Rightarrow> int result" where
  "py_trunc x = (case x of Fin q \<Rightarrow> Inr (dint q) | Inf _ \<Rightarrow> Inl OverflowError | NaN \<Rightarrow> Inl ValueError)"

definition csv_bar :: "cli_lib \<Rightarrow> csv_row \<Rightarrow> bar result" where
  "csv_bar lib r =
     bindR (parse_cell (cli_date lib) ''primary_key'' r) (\<lambda>d.
     bindR (parse_cell (cli_float lib) ''open'' r) (\<lambda>p_open.
     bindR (parse_cell (cli_float lib) ''high'' r) (\<lambda>p_high.
     bindR (parse_cell (cli_float lib) ''low'' r) (\<lambda>p_low.
     bindR (parse_cell (cli_float lib) ''close'' r) (\<lambda>p_close.
     bindR (bindR (parse_cell (cli_float lib) ''volume'' r) py_trunc) (\<lambda>v. mk_bar d p_open p_high p_low p_close v))))))"

text \<open>Pydantic's error is a \<open>ValueError\<close>.\<close>

definition value_errors :: "py_exc set" where
  "value_errors = {ValueError, ValidationError}"

definition bad_row :: "'a result \<Rightarrow> 'a result" where
  "bad_row r = (case r of Inl e \<Rightarrow> Inl (if e \<in> value_errors \<union> {KeyError} then ValueError else e) | Inr x \<Rightarrow> Inr x)"

definition load_bars_from_csv :: "cli_lib \<Rightarrow> string \<Rightarrow> bar list result" where
  "load_bars_from_csv lib path =
     bindR (cli_open lib path) (\<lambda>f.
       if filter (\<lambda>c. c \<notin> set (cf_columns f)) required_columns \<noteq> [] then Inl ValueError
       else map_result (\<lambda>r. bad_row (csv_bar lib r)) (cf_rows f))"

definition load_closes_from_csv :: "cli_lib \<Rightarrow> string \<Rightarrow> series result" where
  "load_closes_from_csv lib path =
     bindR (cli_open lib path) (\<lambda>f.
       map_result (\<lambda>r. bindR (parse_cell (cli_date lib) ''primary_key'' r) (\<lambda>d.
         bindR (parse_cell (cli_float lib) ''close'' r) (\<lambda>c. Inr (d, c)))) (cf_rows f))"

section \<open>One gate\<close>

datatype gate_name = Ingestion_Gate | Cross_Source_Gate | Historical_Gate

record cli_args =
  cg_gate :: gate_name
  cg_ticker :: string
  cg_csv :: string
  cg_allow_high :: bool
  cg_csv_b :: "string option"


text \<open>\<open>now\<close> in microseconds and its day.\<close>

definition run_gate :: "cli_lib \<Rightarrow> cli_args \<Rightarrow> int \<Rightarrow> int \<Rightarrow> quality_report result" where
  "run_gate lib args now today =
     (case cg_gate args of
        Ingestion_Gate \<Rightarrow> bindR (load_bars_from_csv lib (cg_csv args))
          (check_ingestion (cli_math lib) default_params now (cg_ticker args) None)
      | Historical_Gate \<Rightarrow> bindR (load_bars_from_csv lib (cg_csv args)) (check_historical default_hist_params today (cg_ticker args))
      | Cross_Source_Gate \<Rightarrow>
          (case cg_csv_b args of
             Some (c # cs) \<Rightarrow> bindR (load_closes_from_csv lib (cg_csv args)) (\<lambda>sa.
               bindR (load_closes_from_csv lib (c # cs)) (\<lambda>sb.
                 check_cross_source (cli_xs lib) default_xs_params (cg_ticker args) sa sb))
           | _ \<Rightarrow> Inl SystemExit))"

text \<open>PostgreSQL if its address is set, memory otherwise.\<close>

definition make_default_audit_log :: "'a option \<Rightarrow> 'a audit_log" where
  "make_default_audit_log pg = (case pg of Some a \<Rightarrow> External a | None \<Rightarrow> Memory [])"

definition exit_of_report :: "bool \<Rightarrow> quality_report \<Rightarrow> int" where
  "exit_of_report allow_high r =
     (if worst_severity r = Some CRITICAL then 1
      else if worst_severity r = Some HIGH \<and> \<not> allow_high then 1
      else 0)"

text \<open>The exit code or the exception that ends the process, and the log as it is closed.\<close>

definition cli_main ::
  "cli_lib \<Rightarrow> (audit_event \<Rightarrow> 'a \<Rightarrow> unit result \<times> 'a) \<Rightarrow> 'a option \<Rightarrow> cli_args \<Rightarrow> int \<Rightarrow> int \<Rightarrow> int result \<times> 'a audit_log" where
  "cli_main lib sink pg args now today =
     (let lg = make_default_audit_log pg
      in case run_gate lib args now today of
           Inl e \<Rightarrow> (if e \<in> value_errors then Inr 1 else Inl e, lg)
         | Inr r \<Rightarrow> bindW (write_report sink r) (\<lambda>_. liftW (Inr (exit_of_report (cg_allow_high args) r))) lg)"

section \<open>The whole table\<close>

text \<open>A row as the script rebuilds it: no source, and the close for the adjusted close.\<close>

definition table_row :: "bar_key \<times> stored_bar \<Rightarrow> ohlcv_row" where
  "table_row = (\<lambda>((t, ts, s), b). \<lparr>r_ticker = t, r_ts = ts, r_open = b_open b, r_high = b_high b, r_low = b_low b,
     r_close = b_close b, r_volume = b_volume b, r_adj_close = b_close b, r_source = s\<rparr>)"

text \<open>A negative \<open>LIMIT\<close> is an error of the server.\<close>

definition fetch_all_bars :: "string option \<Rightarrow> int option \<Rightarrow> pg_db \<Rightarrow> (bar_key \<times> stored_bar) list result" where
  "fetch_all_bars ticker limit d =
     (let rows = (case ticker of
            Some (c # cs) \<Rightarrow> select_by (\<lambda>(t, ts, s). ts) (\<lambda>(t, ts, s) _. t = py_upper (c # cs)) (p_ohlcv d)
          | _ \<Rightarrow> select_by (\<lambda>(t, ts, s). (t, ts)) (\<lambda>_ _. True) (p_ohlcv d))
      in case limit of None \<Rightarrow> Inr rows | Some n \<Rightarrow> (if n < 0 then Inl pg_error else Inr (take (nat n) rows)))"

definition group_rows :: "(bar_key \<times> stored_bar) list \<Rightarrow> ohlcv_row list list" where
  "group_rows rows =
     map (\<lambda>t. map table_row (filter (\<lambda>x. fst (fst x) = t) rows)) (rev (remdups (rev (map (fst \<circ> fst) rows))))"

definition table_issues :: "ohlcv_row list list \<Rightarrow> v_issue list" where
  "table_issues groups = concat (map (\<lambda>rows. concat (map validate_bar rows) @ validate_series rows) groups)"

text \<open>The exit code, 3 for any exception.\<close>

definition table_audit :: "string option \<Rightarrow> int option \<Rightarrow> pg_db \<Rightarrow> int" where
  "table_audit ticker limit d =
     (case fetch_all_bars ticker limit d of
        Inl e \<Rightarrow> 3
      | Inr rows \<Rightarrow> (if group_rows rows = [] then 0 else if v_blocking (table_issues (group_rows rows)) \<noteq> [] then 2 else 0))"

section \<open>The smoke test\<close>

record smoke_lib =
  sm_gauss :: "int \<Rightarrow> rat \<Rightarrow> rat list"
  sm_exp :: "rat \<Rightarrow> rat"
  sm_xs :: xs_lib

text \<open>\<open>sm_gauss seed sigma\<close> is what a generator with this seed draws, in order.\<close>

definition make_series :: "pyfloat list \<Rightarrow> int \<Rightarrow> series result" where
  "make_series closes start =
     (if closes = [] then Inl ValueError else Inr (zip (map (\<lambda>i. start + int i) [0..<length closes]) closes))"

fun walk :: "smoke_lib \<Rightarrow> rat \<Rightarrow> rat \<Rightarrow> rat \<Rightarrow> rat list \<Rightarrow> rat list" where
  "walk lib drift sigma x [] = [x]"
| "walk lib drift sigma x (g # gs) =
     x # walk lib drift sigma (frnd (x * sm_exp lib (frnd (drift + frnd (sigma * g))))) gs"

definition random_walk_close :: "smoke_lib \<Rightarrow> nat \<Rightarrow> rat \<Rightarrow> rat \<Rightarrow> rat \<Rightarrow> int \<Rightarrow> rat list" where
  "random_walk_close lib n start drift sigma seed = walk lib drift sigma start (take (n - 1) (sm_gauss lib seed 1))"

definition smoke_start :: int where "smoke_start = 738886"

definition smoke_report :: "smoke_lib \<Rightarrow> rat list \<Rightarrow> rat list \<Rightarrow> (nat \<times> nat) result" where
  "smoke_report lib a b =
     bindR (make_series (map Fin a) smoke_start) (\<lambda>sa. bindR (make_series (map Fin b) smoke_start) (\<lambda>sb.
     bindR (check_cross_source (sm_xs lib) default_xs_params ''SBER'' sa sb) (\<lambda>r.
       Inr (length (by_severity HIGH r), length (by_severity MEDIUM r)))))"

definition smoke_walk :: "smoke_lib \<Rightarrow> nat \<Rightarrow> rat list" where
  "smoke_walk lib n = random_walk_close lib n 250 (frnd (5 / 10000)) (frnd (1 / 100)) 42"

definition scenario_correlated_aligned :: "smoke_lib \<Rightarrow> (nat \<times> nat) result" where
  "scenario_correlated_aligned lib =
     (let a = smoke_walk lib 60
      in smoke_report lib a (map2 (\<lambda>x g. frnd (x * frnd (1 + g))) a (take (length a) (sm_gauss lib 7 (frnd (1 / 1000))))))"

definition scenario_diverged_split :: "smoke_lib \<Rightarrow> (nat \<times> nat) result" where
  "scenario_diverged_split lib =
     (let a = smoke_walk lib 60 in smoke_report lib a (take 30 a @ map (\<lambda>x. frnd (x * frnd (95 / 100))) (drop 30 a)))"

definition scenario_insufficient_data :: "smoke_lib \<Rightarrow> (nat \<times> nat) result" where
  "scenario_insufficient_data lib = (let a = smoke_walk lib 3 in smoke_report lib a a)"

text \<open>Whether a count of HIGH issues is what the scenario expects.\<close>

definition as_expected :: "nat option \<Rightarrow> bool \<Rightarrow> nat \<Rightarrow> bool" where
  "as_expected exact must high =
     (if pred_option (\<lambda>n. high \<noteq> n) exact then False else if must \<and> high = 0 then False else \<not> (\<not> must \<and> 0 < high))"

definition smoke_main :: "smoke_lib \<Rightarrow> int result" where
  "smoke_main lib =
     bindR (map_result (\<lambda>(scenario, exact, must). bindR (scenario lib) (\<lambda>(high, _). Inr (as_expected exact must high)))
       [(scenario_correlated_aligned, Some 0, False), (scenario_diverged_split, None, True), (scenario_insufficient_data, Some 1, True)])
       (\<lambda>oks. Inr (if list_all id oks then 0 else 1))"

section \<open>The exit code\<close>

lemma write_events_memory_log: "write_events sink evs (Memory es) = (Inr (), Memory (es @ evs))"
  by (induction evs arbitrary: es) (simp_all add: write_event_def)

text \<open>
  The exit code of a gate on a file, without a database: 0 exactly when the gate could run and found nothing
  worse than it may, 1 for a report that is worse or an input that is unusable; and the log holds every issue of the
  report, or nothing when there is no report.
\<close>

theorem gate_exit_code:
  assumes "cli_main lib sink None args now today = (q, lg)"
  shows "(q = Inr 0 \<longleftrightarrow> (\<exists>r. run_gate lib args now today = Inr r \<and> worst_severity r \<noteq> Some CRITICAL \<and>
        (worst_severity r = Some HIGH \<longrightarrow> cg_allow_high args))) \<and>
    (q \<in> {Inr 0, Inr 1} \<or> (\<exists>e. q = Inl e \<and> run_gate lib args now today = Inl e \<and> e \<notin> value_errors)) \<and>
    lg = Memory (case run_gate lib args now today of Inl _ \<Rightarrow> [] | Inr r \<Rightarrow> events_of r)"
proof (cases "run_gate lib args now today")
  case (Inl e)
  then show ?thesis using assms by (auto simp: cli_main_def make_default_audit_log_def split: if_splits)
next
  case (Inr r)
  have "cli_main lib sink None args now today = (Inr (exit_of_report (cg_allow_high args) r), Memory (events_of r))"
    by (simp add: cli_main_def Inr make_default_audit_log_def write_report_def bindW_def write_events_memory_log)
  then show ?thesis using assms Inr by (auto simp: exit_of_report_def)
qed

text \<open>A short row and an infinite volume are no \<open>ValueError\<close>: they end the process instead of being reported.\<close>

lemma short_row_escapes:
  assumes "cli_open lib (cg_csv args) = Inr \<lparr>cf_columns = required_columns, cf_rows = [r]\<rparr>" "cg_gate args = Ingestion_Gate"
    and "map_of r ''primary_key'' = Some None"
  shows "cli_main lib sink None args now today = (Inl TypeError, Memory [])"
proof -
  have "csv_bar lib r = Inl TypeError" by (simp add: csv_bar_def parse_cell_def csv_cell_def assms(3))
  then have "run_gate lib args now today = Inl TypeError"
    using assms(1,2) by (simp add: run_gate_def load_bars_from_csv_def bad_row_def value_errors_def KeyError_def)
  then show ?thesis by (simp add: cli_main_def make_default_audit_log_def value_errors_def)
qed

section \<open>The audit of the table\<close>

lemma group_rows_mem: "\<Union> (set ` set (group_rows rows)) = table_row ` set rows"
  by (auto simp: group_rows_def)

lemma blocking_concat: "v_blocking (concat xs) = concat (map v_blocking xs)"
  by (induction xs) (simp_all add: v_blocking_def)

lemma blocking_append: "v_blocking (a @ b) = v_blocking a @ v_blocking b"
  by (simp add: v_blocking_def)

lemma table_issues_blocking:
  "v_blocking (table_issues groups) = [] \<longleftrightarrow> (\<forall>g \<in> set groups. \<forall>r \<in> set g. validate_bar r = [])"
proof -
  have "v_blocking (concat (map validate_bar g) @ validate_series g) = concat (map validate_bar g)" for g
    by (simp add: blocking_append blocking_concat series_issues_never_block comp_def bar_issues_block)
  then have "v_blocking (table_issues groups) = concat (map (\<lambda>g. concat (map validate_bar g)) groups)"
    by (simp add: table_issues_def blocking_concat comp_def)
  then show ?thesis by simp
qed

lemma group_rows_clean:
  "(\<forall>g \<in> set (group_rows rows). \<forall>r \<in> set g. validate_bar r = []) \<longleftrightarrow> (\<forall>x \<in> set rows. validate_bar (table_row x) = [])"
proof -
  have "(\<forall>r \<in> \<Union> (set ` set (group_rows rows)). validate_bar r = []) \<longleftrightarrow> (\<forall>x \<in> set rows. validate_bar (table_row x) = [])"
    unfolding group_rows_mem by simp
  then show ?thesis by simp
qed

lemma table_audit_rows:
  assumes "fetch_all_bars ticker limit d = Inr rows"
  shows "table_audit ticker limit d = (if \<forall>x \<in> set rows. validate_bar (table_row x) = [] then 0 else 2)"
proof -
  have "group_rows rows = [] \<Longrightarrow> rows = []" by (simp add: group_rows_def remdups_eq_nil_iff)
  then show ?thesis using assms by (auto simp add: table_audit_def table_issues_blocking group_rows_clean)
qed

text \<open>What every bar of the table satisfies.\<close>

definition clean_table :: "pg_db \<Rightarrow> bool" where
  "clean_table d \<longleftrightarrow> (\<forall>k b. map_of (p_ohlcv d) k = Some b \<longrightarrow> validate_bar (table_row (k, b)) = [])"

lemma table_audit_clean: "pg_ok d \<Longrightarrow> table_audit None None d = (if clean_table d then 0 else 2)"
  using table_audit_rows [of None None d]
  by (auto simp: fetch_all_bars_def clean_table_def pg_ok_def set_select)

text \<open>What a stored row looks like to the audit.\<close>

lemma stored_row_clean:
  assumes "validate_bar r = []" "0 < b_low (pg_column (row_bar_of r))"
  shows "validate_bar (table_row (row_key r, pg_column (row_bar_of r))) = []"
proof -
  have v: "r_low r \<le> r_open r" "r_low r \<le> r_close r" "r_open r \<le> r_high r" "r_close r \<le> r_high r" "r_low r \<le> r_high r" "0 \<le> r_volume r"
    using assms(1) by (auto simp: validate_bar_def not_less not_le)
  have "0 < pg_round 8 (r_low r)" using assms(2) by (simp add: pg_column_def row_bar_of_def)
  then show ?thesis
    using v [THEN pg_round_mono, of 8] pg_round_nonneg [OF v(6), of 0]
    by (auto simp: validate_bar_def table_row_def row_key_def pg_column_def row_bar_of_def not_less not_le intro: pg_round_mono order.strict_trans2)
qed

lemma backfill_keeps_ok:
  assumes "backfill_main env args w d = (r, d')" "pg_ok d"
  shows "pg_ok d'"
proof (rule backfill_main_cases [OF assms(1)])
  fix tickers metas l d1 c s
  assume u: "pg_upsert_tickers (be_atomic env) metas d = (Inr (), d1)"
    and b: "bf_loop env args tickers (bf_start l d1) = (c, s)" "d' = bf_db s"
  show ?thesis
    using bf_loop_justified [of env args "bf_start l d1" tickers] b upsert_tickers_keeps [OF u] assms(2)
    by (simp add: justified_def passed_on_def bf_start_def)
next
  fix metas e assume "pg_upsert_tickers (be_atomic env) metas d = (Inl e, d')"
  then show ?thesis using upsert_tickers_keeps assms(2) by metis
qed (use assms(2) in simp)

text \<open>
  C38. The two checks agree: after any pass of the backfill over a table the audit found clean, the audit finds it
  clean again, whatever the sources delivered and however the pass ended, unless a price was so small that the
  column rounded it to zero.
\<close>

theorem backfill_passes_the_audit:
  assumes "pg_ok d" "table_audit None None d = 0" "backfill_main env args w d = (r, d')"
    and "\<And>k b. map_of (p_ohlcv d') k = Some b \<Longrightarrow> 0 < b_low b"
  shows "table_audit None None d' = 0"
proof -
  have c: "clean_table d" using assms(1,2) by (simp add: table_audit_clean split: if_splits)
  have g: "grown d d'" by (rule backfill_main_grown [OF assms(3)])
  have "validate_bar (table_row (k, b)) = []" if m: "map_of (p_ohlcv d') k = Some b" for k b
  proof (cases "map_of (p_ohlcv d) k = Some b")
    case True
    then show ?thesis using c unfolding clean_table_def by blast
  next
    case False
    then obtain x where "validate_bar x = []" "k = row_key x" "b = pg_column (row_bar_of x)" using g m unfolding grown_def by blast
    then show ?thesis using stored_row_clean assms(4) [OF m] by blast
  qed
  then show ?thesis using backfill_keeps_ok [OF assms(3,1)] by (simp add: table_audit_clean clean_table_def)
qed

text \<open>A price below half a unit of the last decimal passes the backfill and fails the audit.\<close>

definition tiny_row :: ohlcv_row where
  "tiny_row = \<lparr>r_ticker = ''TINY'', r_ts = 739000, r_open = 1, r_high = 1, r_low = 1 / 1000000000, r_close = 1, r_volume = 0,
     r_adj_close = 1, r_source = Moex\<rparr>"

lemma tiny_price_fails_the_audit:
  "validate_bar tiny_row = []" "validate_bar (table_row (row_key tiny_row, pg_column (row_bar_of tiny_row))) \<noteq> []"
  by (simp_all add: validate_bar_def tiny_row_def table_row_def row_key_def pg_column_def row_bar_of_def pg_round_def away_def)

text \<open>A sample of no rows is clean.\<close>

lemma empty_sample_is_clean: "table_audit ticker (Some 0) d = 0"
proof -
  have "fetch_all_bars ticker (Some 0) d = Inr []" by (auto simp: fetch_all_bars_def Let_def split: option.splits list.splits)
  then show ?thesis by (simp add: table_audit_rows)
qed

section \<open>The smoke test\<close>

lemma same_series_dates:
  "distinct (map fst s) \<Longrightarrow> common_dates s s = sort (map fst s) \<and> dropped s s = 0"
  by (simp add: common_dates_def dates_of_def dropped_def distinct_remdups_id filter_True)

text \<open>The third scenario comes out as expected whatever is drawn: three days are too few, and that is the only issue.\<close>

lemma insufficient_data_expected:
  assumes "2 \<le> length (sm_gauss lib 42 1)"
  shows "scenario_insufficient_data lib = Inr (1, 0)"
proof -
  have n: "length (walk lib m v x gs) = length gs + 1" for m v x gs by (induction gs arbitrary: x) auto
  have l: "length (smoke_walk lib 3) = 3" using assms by (simp add: smoke_walk_def random_walk_close_def n)
  then obtain p q r where w: "smoke_walk lib 3 = [p, q, r]" by (auto simp: numeral_3_eq_3 length_Suc_conv)
  define s where "s = [(smoke_start, Fin p), (smoke_start + 1, Fin q), (smoke_start + 2, Fin r)]"
  have "make_series (map Fin (smoke_walk lib 3)) smoke_start = Inr s"
    by (simp add: w make_series_def s_def upt_rec)
  moreover have "check_cross_source (sm_xs lib) default_xs_params ''SBER'' s s =
      Inr \<lparr>qr_ticker = ''SBER'', qr_gate = cross_source,
        qr_issues = [\<lparr>is_gate = cross_source, is_kind = XSC_SOURCE_MISSING, is_severity = HIGH, is_count = 2\<rparr>]\<rparr>"
  proof -
    have "common_dates s s = [smoke_start, smoke_start + 1, smoke_start + 2]" "dropped s s = 0"
      using same_series_dates [of s] by (simp_all add: s_def)
    then show ?thesis
      by (simp add: check_cross_source_def xs_compare_def xs_flag_def default_xs_params_def mk_issue_def cross_source_def mk_report_def closes_on_def)
  qed
  ultimately show ?thesis by (simp add: scenario_insufficient_data_def smoke_report_def by_severity_def Let_def)
qed

section \<open>Concrete runs\<close>

definition ex_cli_lib :: cli_lib where
  "ex_cli_lib = \<lparr>cli_date = (\<lambda>_. None), cli_float = (\<lambda>_. None), cli_open = (\<lambda>_. Inr \<lparr>cf_columns = [''close''], cf_rows = []\<rparr>),
     cli_math = ex_lib, cli_xs = ex_xs_lib\<rparr>"

definition ex_cli_args :: cli_args where
  "ex_cli_args = \<lparr>cg_gate = Historical_Gate, cg_ticker = ''SBER'', cg_csv = ''f'', cg_allow_high = False, cg_csv_b = None\<rparr>"

theorem gate_exit_code_witness:
  "cli_main ex_cli_lib ex_sink None ex_cli_args 0 0 = (Inr 1, Memory [])"
proof -
  have r: "run_gate ex_cli_lib ex_cli_args 0 0 = Inl ValueError"
    by (simp add: run_gate_def ex_cli_args_def load_bars_from_csv_def ex_cli_lib_def required_columns_def)
  obtain q lg where m: "cli_main ex_cli_lib ex_sink None ex_cli_args 0 0 = (q, lg)" by fastforce
  show ?thesis using gate_exit_code [OF m] m r by (auto simp: value_errors_def)
qed

theorem backfill_passes_the_audit_witness: "table_audit None None ex_bf2 = 0"
proof (rule backfill_passes_the_audit [OF _ _ ex_bf_run])
  show "pg_ok pg_empty" "table_audit None None pg_empty = 0"
    by (simp_all add: pg_ok_def pg_empty_def keyed_def refers_def table_audit_def fetch_all_bars_def select_by_def group_rows_def)
  fix k b assume "map_of (p_ohlcv ex_bf2) k = Some b"
  then show "0 < b_low b" by (auto simp: ex_bf2_def mark_universe ex_bf1_def ex_bar_row_def row_bar_of_def split: if_splits)
qed

end
