(* ===== verification/Replay.thy ===== *)
theory Replay
  imports Sizing
begin

text \<open>
  \<open>scripts/replay_sizing.py\<close>: the rows of the sizing audit log, run through the sizer again. A row of the
  JSONL file is what \<open>json.loads\<close> makes of it; \<open>datetime.fromisoformat\<close> is a parameter. What is printed is the
  report of each record; the exit status is modelled.
\<close>

section \<open>A row of the log\<close>

text \<open>A text for \<open>Decimal\<close>: the key is absent, the text is no number, or it is the number.\<close>

datatype dec_field = No_Key | Bad_Value py_exc | Dec rat


definition get_dec :: "rat \<Rightarrow> dec_field \<Rightarrow> rat result" where
  "get_dec dflt f = (case f of No_Key \<Rightarrow> Inr dflt | Bad_Value e \<Rightarrow> Inl e | Dec x \<Rightarrow> Inr x)"

definition need_dec :: "dec_field \<Rightarrow> rat result" where
  "need_dec f = (case f of No_Key \<Rightarrow> Inl KeyError | Bad_Value e \<Rightarrow> Inl e | Dec x \<Rightarrow> Inr x)"

definition need_key :: "'a option \<Rightarrow> 'a result" where
  "need_key f = (case f of None \<Rightarrow> Inl KeyError | Some x \<Rightarrow> Inr x)"

record row_output =
  ro_final_size :: dec_field
  ro_price :: dec_field
  ro_skip :: bool

record sizing_row =
  rw_line :: nat
  rw_ts :: "string option"
  rw_ticker :: "string option"
  rw_side :: "string option"
  rw_version :: "string option"
  rw_confidence :: dec_field
  rw_cash :: dec_field
  rw_peak_equity :: dec_field
  rw_total_equity :: dec_field
  rw_n_bars :: "int option"
  rw_atr_frac :: dec_field
  rw_regime :: "string option"
  rw_multiplier :: dec_field
  rw_vol_scalar :: "rat option"
  rw_liq_scalar :: "rat option"
  rw_dd_scalar :: "rat option"
  rw_regime_scalar :: "rat option"
  rw_output :: "row_output option"

text \<open>A line after \<open>strip\<close>: empty, no JSON, JSON that is no object, or a record.\<close>

datatype log_line = Blank_Line | Broken_Line | Other_Json | Row_Line sizing_row

fun number_rows :: "bool \<Rightarrow> nat \<Rightarrow> log_line list \<Rightarrow> sizing_row list result" where
  "number_rows strict n [] = Inr []"
| "number_rows strict n (Blank_Line # ls) = number_rows strict (Suc n) ls"
| "number_rows strict n (Broken_Line # ls) = (if strict then Inl SystemExit else number_rows strict (Suc n) ls)"
| "number_rows strict n (Other_Json # ls) = Inl TypeError"
| "number_rows strict n (Row_Line r # ls) =
     bindR (number_rows strict (Suc n) ls) (\<lambda>rs. Inr (r\<lparr>rw_line := n\<rparr> # rs))"

text \<open>\<open>None\<close>: there is no such file.\<close>

definition load_records :: "bool \<Rightarrow> log_line list option \<Rightarrow> sizing_row list result" where
  "load_records strict file = (case file of None \<Rightarrow> Inl SystemExit | Some ls \<Rightarrow> number_rows strict 1 ls)"

definition select_records :: "sizing_row list \<Rightarrow> string option \<Rightarrow> string option \<Rightarrow> bool \<Rightarrow> sizing_row list result" where
  "select_records rs ts ticker all_records =
     (if all_records then Inr rs
      else case ts of
        Some t \<Rightarrow> (let m = filter (\<lambda>r. rw_ts r = Some t) rs in if m = [] then Inl SystemExit else Inr m)
      | None \<Rightarrow>
          (case ticker of
            Some t \<Rightarrow> (let m = filter (\<lambda>r. py_upper (case rw_ticker r of None \<Rightarrow> '''' | Some x \<Rightarrow> x) = py_upper t) rs
                       in if m = [] then Inl SystemExit else Inr [last m])
          | None \<Rightarrow> Inl SystemExit))"

section \<open>The replay of a record\<close>

definition build_quote :: "(string \<Rightarrow> int option) \<Rightarrow> sizing_row \<Rightarrow> sizing_quote result" where
  "build_quote fromiso r =
     bindR (need_key (rw_ts r)) (\<lambda>raw.
     bindR (case fromiso raw of None \<Rightarrow> Inl ValueError | Some t \<Rightarrow> Inr t) (\<lambda>t.
     bindR (need_key (rw_ticker r)) (\<lambda>ticker.
     bindR (need_key (rw_side r)) (\<lambda>side.
     bindR (get_dec 1 (rw_confidence r)) (\<lambda>conf.
     bindR (need_key (rw_output r)) (\<lambda>out.
     bindR (get_dec 1 (ro_price out)) (\<lambda>price.
       mk_quote \<lparr>q_ticker = ticker, q_side = side, q_confidence = conf, q_timestamp = t, q_reference_price = Some price\<rparr>)))))))"

definition build_portfolio :: "sizing_row \<Rightarrow> sizing_portfolio result" where
  "build_portfolio r =
     bindR (need_dec (rw_cash r)) (\<lambda>c. bindR (need_dec (rw_peak_equity r)) (\<lambda>p. bindR (need_dec (rw_total_equity r)) (\<lambda>t.
       mk_sizing_portfolio \<lparr>sp_cash = c, sp_peak_equity = p, sp_total_equity = t\<rparr>)))"

text \<open>Bars of one range around the stored price, without volume.\<close>

definition flat_bar :: "rat \<Rightarrow> rat \<Rightarrow> sizing_bar" where
  "flat_bar price atr =
     (let low = dmul price (dsub 1 atr)
      in \<lparr>sb_high = dadd low (dmul price atr), sb_low = low, sb_close = price, sb_volume = 0\<rparr>)"

definition build_market_data :: "sizing_row \<Rightarrow> int \<Rightarrow> market_data result" where
  "build_market_data r n_bars =
     (if n_bars \<le> 0 then Inr []
      else bindR (need_key (rw_output r)) (\<lambda>out.
        bindR (get_dec 100 (ro_price out)) (\<lambda>price.
        bindR (get_dec (2 / 100) (rw_atr_frac r)) (\<lambda>atr.
          map_result mk_sizing_bar (replicate (nat (max n_bars 20)) (flat_bar price atr))))))"

definition label_of :: "string option \<Rightarrow> regime_label" where
  "label_of l = (if l = Some ''risk_off'' then Risk_Off else if l = Some ''risk_on_reduced'' then Risk_On_Reduced else Neutral)"

text \<open>The reason, \<open>"replay"\<close>, is no trigger of the classifier; the sizer does not read it.\<close>

definition build_regime :: "sizing_row \<Rightarrow> macro_regime result" where
  "build_regime r = bindR (get_dec 1 (rw_multiplier r)) (\<lambda>m. mk_macro_regime (label_of (rw_regime r)) m [] None)"

definition compute_position_size_v1 ::
  "(rat \<Rightarrow> rat) \<Rightarrow> sizing_quote \<Rightarrow> sizing_portfolio \<Rightarrow> market_data \<Rightarrow> macro_regime option \<Rightarrow>
   sizing_config option \<Rightarrow> audit_hook option \<Rightarrow> audit_record list \<Rightarrow> order_spec result \<times> audit_record list" where
  "compute_position_size_v1 = compute_position_size"

record replay_report =
  rp_line :: nat
  rp_ts :: "string option"
  rp_ticker :: "string option"
  rp_version :: "string option"
  rp_stored_quantity :: rat
  rp_replayed_quantity :: rat
  rp_stored_skip :: bool
  rp_replayed_skip :: bool
  rp_skip_reason :: "size_skip option"
  rp_replayed :: "rat option \<times> rat option \<times> rat option \<times> rat"
  rp_stored :: "rat option \<times> rat option \<times> rat option \<times> rat option"
  rp_diverged :: bool

definition replay_record :: "(string \<Rightarrow> int option) \<Rightarrow> (rat \<Rightarrow> rat) \<Rightarrow> sizing_row \<Rightarrow> replay_report result" where
  "replay_record fromiso fsqrt r =
     (let n_bars = (case rw_n_bars r of None \<Rightarrow> 20 | Some n \<Rightarrow> n)
      in bindR (build_quote fromiso r) (\<lambda>q.
         bindR (build_portfolio r) (\<lambda>p.
         bindR (build_market_data r n_bars) (\<lambda>md.
         bindR (build_regime r) (\<lambda>g.
         bindR (fst ((if rw_version r = Some ''v1'' then compute_position_size_v1 else compute_position_size)
             fsqrt q p md (Some g) None None [])) (\<lambda>spec.
         bindR (need_key (rw_output r)) (\<lambda>out.
         bindR (get_dec 0 (ro_final_size out)) (\<lambda>stored.
           Inr \<lparr>rp_line = rw_line r, rp_ts = rw_ts r, rp_ticker = rw_ticker r, rp_version = rw_version r,
             rp_stored_quantity = stored, rp_replayed_quantity = os_quantity spec,
             rp_stored_skip = ro_skip out, rp_replayed_skip = os_skip spec, rp_skip_reason = os_skip_reason spec,
             rp_replayed = (sm_vol_scalar (os_meta spec), sm_liq_scalar (os_meta spec), sm_dd_scalar (os_meta spec),
               sm_regime_scalar (os_meta spec)),
             rp_stored = (rw_vol_scalar r, rw_liq_scalar r, rw_dd_scalar r, rw_regime_scalar r),
             rp_diverged = (stored \<noteq> os_quantity spec \<or> ro_skip out \<noteq> os_skip spec)\<rparr>))))))))"

definition render_reports :: "replay_report list \<Rightarrow> int" where
  "render_reports reps = (if list_ex rp_diverged reps then 1 else 0)"

text \<open>The exit status: 2 from the argument parser, 1 for \<open>SystemExit\<close> with a message and for any other exception.\<close>

definition replay_main ::
  "(string \<Rightarrow> int option) \<Rightarrow> (rat \<Rightarrow> rat) \<Rightarrow> log_line list option \<Rightarrow> string option \<Rightarrow> string option \<Rightarrow> bool \<Rightarrow> bool \<Rightarrow> int" where
  "replay_main fromiso fsqrt file ts ticker all_records strict =
     (if ts = None \<and> ticker = None \<and> \<not> all_records then 2
      else case bindR (load_records strict file) (\<lambda>rs.
             bindR (select_records rs ts ticker all_records) (map_result (replay_record fromiso fsqrt))) of
           Inl _ \<Rightarrow> 1
         | Inr reps \<Rightarrow> render_reports reps)"

section \<open>Replaying what the sizer logged\<close>

text \<open>The record of the sizer as a row of the file: every number is its decimal text, which \<open>Decimal\<close> reads back.\<close>

definition label_text :: "regime_label \<Rightarrow> string" where
  "label_text l = (case l of Risk_Off \<Rightarrow> ''risk_off'' | Risk_On_Reduced \<Rightarrow> ''risk_on_reduced'' | Neutral \<Rightarrow> ''neutral'')"

definition logged_row :: "(int \<Rightarrow> string) \<Rightarrow> nat \<Rightarrow> audit_record \<Rightarrow> sizing_row" where
  "logged_row stamp n a =
     \<lparr>rw_line = n, rw_ts = Some (stamp (ar_ts a)), rw_ticker = Some (ar_ticker a), rw_side = Some (ar_side a),
      rw_version = Some (ar_formula_version a), rw_confidence = Dec (ar_confidence a), rw_cash = Dec (ar_cash a),
      rw_peak_equity = Dec (ar_peak_equity a), rw_total_equity = Dec (ar_total_equity a),
      rw_n_bars = Some (int (ar_n_bars a)), rw_atr_frac = Dec (ar_atr_frac a),
      rw_regime = Some (label_text (ar_regime a)), rw_multiplier = Dec (ar_regime_multiplier a),
      rw_vol_scalar = ar_vol_scalar a, rw_liq_scalar = ar_liq_scalar a, rw_dd_scalar = ar_dd_scalar a,
      rw_regime_scalar = Some (ar_regime_scalar a),
      rw_output = Some \<lparr>ro_final_size = Dec (ar_final_size a), ro_price = Dec (ar_price a), ro_skip = ar_skip a\<rparr>\<rparr>"

lemma label_of_text [simp]: "label_of (Some (label_text l)) = l"
  by (cases l) (simp_all add: label_of_def label_text_def)

lemma label_of_eq: "label_of (rw_regime (logged_row stamp n a)) = ar_regime a"
  by (simp add: logged_row_def)

lemma map_result_replicate: "f x = Inr y \<Longrightarrow> map_result f (replicate n x) = Inr (replicate n y)"
  by (induction n) simp_all

lemma flat_bar_valid:
  assumes "0 < price" "0 \<le> atr" "atr \<le> 1"
  shows "mk_sizing_bar (flat_bar price atr) = Inr (flat_bar price atr)"
proof -
  have low: "0 \<le> dmul price (dsub 1 atr)"
    using assms by (intro dmul_nonneg) (simp_all add: dsub_def dec.nonneg)
  have "0 < dmul price (dsub 1 atr) + dmul price atr"
  proof (cases "atr = 0")
    case True
    then show ?thesis using assms(1) by (simp add: dmul_def dsub_def drnd_pos)
  next
    case False
    then have "0 < dmul price atr" using assms by (simp add: dmul_def drnd_pos)
    then show ?thesis using low by simp
  qed
  then have "0 < dadd (dmul price (dsub 1 atr)) (dmul price atr)" by (simp add: dadd_def drnd_pos)
  then show ?thesis using low assms(1) by (simp add: mk_sizing_bar_def flat_bar_def Let_def)
qed



lemma sized_order_eq:
  fixes z :: size_parts and q :: sizing_quote and md :: market_data
  defines "l \<equiv> quantize_lots (ddiv (z_raw z) (reference_price q md)) 1"
  assumes "size_scalars fsqrt q p md (Some g) default_sizing = Inr z" "0 < reference_price q md"
    and "1 \<le> length (q_ticker_upper q)" "length (q_ticker_upper q) \<le> 12" "0 \<le> q_confidence q" "q_confidence q \<le> 1"
  shows "\<exists>s. sized_order fsqrt q p md (Some g) default_sizing = Inr s \<and> os_quantity s = of_int (if l < 1 then 0 else l) \<and>
     (os_skip s \<longleftrightarrow> l < 1) \<and> sm_vol_scalar (os_meta s) = Some (z_vol z) \<and> sm_liq_scalar (os_meta s) = Some (z_liq z)"
proof -
  have d: "cfg_lot_size default_sizing = 1" "min_size_lots default_sizing = 1" by (simp_all add: default_sizing_def)
  show ?thesis
  proof (cases "l < 1")
    case True
    then show ?thesis using assms by (simp add: sized_order_def py_div_def mk_order_spec_def Let_def d)
  next
    case False
    then show ?thesis using assms by (simp add: sized_order_def py_div_def mk_order_spec_def Let_def d)
  qed
qed

text \<open>What a call that was logged has recorded.\<close>

lemma logged_call:
  assumes "compute_position_size fsqrt q p md (Some g) None (Some h) seen = (Inr s, seen @ [a])"
  shows "sizing_decision fsqrt q p md (Some g) default_sizing = Inr s" "build_audit q p md g default_sizing s = Inr a"
proof -
  show d: "sizing_decision fsqrt q p md (Some g) default_sizing = Inr s"
    using assms by (auto simp: compute_position_size_def bindW_def run_audit_def split: sum.splits prod.splits)
  show "build_audit q p md g default_sizing s = Inr a"
    using assms by (cases "build_audit q p md g default_sizing s")
      (auto simp: compute_position_size_def bindW_def run_audit_def d split: sum.splits prod.splits option.splits)
qed

text \<open>What every order carries of its inputs.\<close>

lemma decision_fields:
  assumes "sizing_decision fsqrt q p md (Some g) c = Inr s"
  shows "os_price s = reference_price q md" "0 < os_price s" "1 \<le> length (q_ticker_upper q)" "length (q_ticker_upper q) \<le> 12"
    "0 \<le> q_confidence q" "q_confidence q \<le> 1"
  using assms by (auto simp: decision_simps split: if_splits)

text \<open>The inputs a row gives back.\<close>

definition replay_quote :: "audit_record \<Rightarrow> sizing_quote" where
  "replay_quote a = \<lparr>q_ticker = ar_ticker a, q_side = ar_side a, q_confidence = ar_confidence a, q_timestamp = ar_ts a,
     q_reference_price = Some (ar_price a)\<rparr>"

definition replay_bars :: "audit_record \<Rightarrow> market_data" where
  "replay_bars a = (if ar_n_bars a = 0 then [] else replicate (max (ar_n_bars a) 20) (flat_bar (ar_price a) (ar_atr_frac a)))"

definition replay_regime :: "audit_record \<Rightarrow> macro_regime" where
  "replay_regime a = \<lparr>regime = ar_regime a, multiplier = ar_regime_multiplier a, reason = [], snapshot = None\<rparr>"

lemma built_from_row:
  assumes a: "build_audit q p md g default_sizing s = Inr a" and d: "sizing_decision fsqrt q p md (Some g) default_sizing = Inr s"
    and t: "fromiso (stamp (ar_ts a)) = Some (ar_ts a)"
    and v: "mk_sizing_portfolio p = Inr p" "1 / 2 \<le> multiplier g" "multiplier g \<le> 1" "0 \<le> ar_atr_frac a" "ar_atr_frac a \<le> 1"
  shows "build_quote fromiso (logged_row stamp n a) = Inr (replay_quote a)"
    "build_portfolio (logged_row stamp n a) = Inr p"
    "build_market_data (logged_row stamp n a) (int (ar_n_bars a)) = Inr (replay_bars a)"
    "build_regime (logged_row stamp n a) = Inr (replay_regime a)"
proof -
  have f: "ar_price a = os_price s" "ar_ticker a = q_ticker_upper q" "ar_confidence a = q_confidence q" "ar_cash a = sp_cash p"
    "ar_peak_equity a = sp_peak_equity p" "ar_total_equity a = sp_total_equity p" "ar_regime_multiplier a = multiplier g"
    using a by (auto simp: build_audit_def bindR_Inr_iff)
  note df = decision_fields [OF d]
  show "build_quote fromiso (logged_row stamp n a) = Inr (replay_quote a)"
    using df t by (simp add: build_quote_def logged_row_def need_key_def get_dec_def mk_quote_def replay_quote_def f)
  show "build_portfolio (logged_row stamp n a) = Inr p"
    using v(1) by (cases p) (simp add: build_portfolio_def logged_row_def need_dec_def f)
  show "build_regime (logged_row stamp n a) = Inr (replay_regime a)"
    using v(2,3) label_of_eq [of stamp n a]
    by (simp add: build_regime_def logged_row_def get_dec_def mk_macro_regime_def replay_regime_def f)
  have "map_result mk_sizing_bar (replicate m (flat_bar (ar_price a) (ar_atr_frac a))) =
      Inr (replicate m (flat_bar (ar_price a) (ar_atr_frac a)))" for m
    using df(2) v(4,5) by (intro map_result_replicate flat_bar_valid) (simp_all add: f)
  moreover have "nat (max (int (ar_n_bars a)) 20) = max (ar_n_bars a) 20" by (auto simp: max_def)
  ultimately show "build_market_data (logged_row stamp n a) (int (ar_n_bars a)) = Inr (replay_bars a)"
    by (simp add: build_market_data_def logged_row_def need_key_def get_dec_def replay_bars_def)
qed

lemma unhooked: "fst (compute_position_size fsqrt q p md (Some g) None None seen) = sizing_decision fsqrt q p md (Some g) default_sizing"
  by (cases "sizing_decision fsqrt q p md (Some g) default_sizing")
    (simp_all add: compute_position_size_def bindW_def run_audit_def liftW_def)

lemma replay_of_row:
  assumes b: "build_quote fromiso (logged_row stamp n a) = Inr (replay_quote a)" "build_portfolio (logged_row stamp n a) = Inr p"
      "build_market_data (logged_row stamp n a) (int (ar_n_bars a)) = Inr (replay_bars a)"
      "build_regime (logged_row stamp n a) = Inr (replay_regime a)"
    and d: "sizing_decision fsqrt (replay_quote a) p (replay_bars a) (Some (replay_regime a)) default_sizing = Inr spec"
  obtains rep where "replay_record fromiso fsqrt (logged_row stamp n a) = Inr rep"
    "rp_stored_quantity rep = ar_final_size a" "rp_replayed_quantity rep = os_quantity spec"
    "rp_diverged rep \<longleftrightarrow> ar_final_size a \<noteq> os_quantity spec \<or> ar_skip a \<noteq> os_skip spec"
    "rp_replayed rep = (sm_vol_scalar (os_meta spec), sm_liq_scalar (os_meta spec), sm_dd_scalar (os_meta spec), sm_regime_scalar (os_meta spec))"
    "rp_stored rep = (ar_vol_scalar a, ar_liq_scalar a, ar_dd_scalar a, Some (ar_regime_scalar a))"
proof -
  have n: "rw_n_bars (logged_row stamp n a) = Some (int (ar_n_bars a))"
    "rw_output (logged_row stamp n a) = Some \<lparr>ro_final_size = Dec (ar_final_size a), ro_price = Dec (ar_price a), ro_skip = ar_skip a\<rparr>"
    "rw_vol_scalar (logged_row stamp n a) = ar_vol_scalar a" "rw_liq_scalar (logged_row stamp n a) = ar_liq_scalar a"
    "rw_dd_scalar (logged_row stamp n a) = ar_dd_scalar a" "rw_regime_scalar (logged_row stamp n a) = Some (ar_regime_scalar a)"
    by (simp_all add: logged_row_def)
  have v: "(if c then compute_position_size_v1 else compute_position_size) = compute_position_size" for c
    by (simp add: compute_position_size_v1_def)
  have "\<exists>rep. replay_record fromiso fsqrt (logged_row stamp n a) = Inr rep \<and>
    rp_stored_quantity rep = ar_final_size a \<and> rp_replayed_quantity rep = os_quantity spec \<and>
    (rp_diverged rep \<longleftrightarrow> ar_final_size a \<noteq> os_quantity spec \<or> ar_skip a \<noteq> os_skip spec) \<and>
    rp_replayed rep = (sm_vol_scalar (os_meta spec), sm_liq_scalar (os_meta spec), sm_dd_scalar (os_meta spec), sm_regime_scalar (os_meta spec)) \<and>
    rp_stored rep = (ar_vol_scalar a, ar_liq_scalar a, ar_dd_scalar a, Some (ar_regime_scalar a))"
    by (simp add: replay_record_def n b v unhooked d need_key_def get_dec_def)
  then show thesis using that by blast
qed



section \<open>What is not reproduced\<close>

text \<open>
  The rebuilt bars carry no volume, so the replay sizes every record as if there were no volume series: a record whose
  liquidity scalar was below its maximum is reported as diverged although nothing was wrong with it.
\<close>

definition ex_thin_bar :: sizing_bar where
  "ex_thin_bar = ex_sizing_bar\<lparr>sb_volume := 7\<rparr>"

lemma ex_fraction: "drnd (7 / 5) = 7 / 5" "drnd (49 / 50) = 49 / 50"
  by (rule drnd_exactI [of _ 2 140]; simp) (rule drnd_exactI [of _ 2 98]; simp)

lemma ex_thin_scalars:
  "size_scalars fsqrt ex_quote ex_portfolio [ex_thin_bar] (Some ex_calm) default_sizing = Inr
     \<lparr>z_atr = 1 / 50, z_eff_atr = 1 / 50, z_adv = 7, z_dd_pct = 0, z_base = 10000, z_vol = 1,
      z_liq = 7 / 5, z_dd = 1, z_reg = 1, z_raw = 14000\<rparr>"
proof -
  have atr: "compute_atr_actual fsqrt [ex_thin_bar] default_sizing = 1 / 50"
    by (simp add: compute_atr_actual_def default_sizing_def compute_atr_simple_def slice_last_def
        ex_thin_bar_def ex_sizing_bar_def dsum_def dadd_def dsub_def ddiv_def ex_arith)
  have p: "reference_price ex_quote [ex_thin_bar] = 100"
    by (simp add: reference_price_def ex_quote_def ex_thin_bar_def ex_sizing_bar_def)
  have "dmul (ddiv (dmul 1000000 (1 / 100)) 100) (5 / 100) = 5" "ddiv (dmul 1000000 (1 / 100)) 100 = 100"
    by (simp_all add: dmul_def ddiv_def)
  then have l: "liquidity_scalar 7 1000000 100 default_sizing = 7 / 5"
    by (simp add: liquidity_scalar_def default_sizing_def Let_def ddiv_def [of 7] ex_fraction)
  have v: "dsum (map sb_volume (slice_last (atr_lookback default_sizing) [ex_thin_bar])) = 7"
    by (simp add: default_sizing_def slice_last_def ex_thin_bar_def dsum_def dadd_def)
  have d: "sp_drawdown_pct ex_portfolio = 0"
    by (simp add: sp_drawdown_pct_def ex_portfolio_def dsub_def ddiv_def)
  have c: "sp_cash ex_portfolio = 1000000" by (simp add: ex_portfolio_def)
  show ?thesis
    unfolding size_scalars_def Let_def atr p v d c l
    by (simp add: py_div_def default_sizing_def ex_quote_def ex_calm_def
        drawdown_reduction_curve_def regime_scalar_def cap_against_cash_def dmul_def ddiv_def)
qed

definition ex_thin_order :: order_spec where
  "ex_thin_order = \<lparr>os_ticker = ''SBER'', os_side = ''buy'', os_quantity = 140, os_price = 100, os_confidence = 1,
     os_sizing_version = ''v1'', os_skip = False, os_skip_reason = None,
     os_meta = \<lparr>sm_atr_frac = Some (1 / 50), sm_atr_eff = Some (1 / 50), sm_adv = Some 7, sm_drawdown_pct = Some 0,
       sm_regime = Neutral, sm_base_size = Some 10000, sm_vol_scalar = Some 1, sm_liq_scalar = Some (7 / 5),
       sm_dd_scalar = Some 1, sm_regime_scalar = 1, sm_raw_size = Some 14000, sm_lot_size = Some 1\<rparr>\<rparr>"

definition ex_thin_record :: audit_record where
  "ex_thin_record = \<lparr>ar_ts = 0, ar_ticker = ''SBER'', ar_side = ''buy'', ar_cash = 1000000, ar_peak_equity = 1000000,
     ar_total_equity = 1000000, ar_drawdown_pct = 0, ar_confidence = 1, ar_n_bars = 1, ar_adv = 7, ar_atr_frac = 1 / 50,
     ar_regime = Neutral, ar_regime_multiplier = 1, ar_vol_scalar = Some 1, ar_liq_scalar = Some (7 / 5),
     ar_dd_scalar = Some 1, ar_regime_scalar = 1, ar_base_size = Some 10000, ar_final_size = 140, ar_final_lots = 140,
     ar_price = 100, ar_skip = False, ar_skip_reason = None, ar_formula_version = ''v1''\<rparr>"

lemma ex_names: "q_ticker_upper ex_quote = ''SBER''" "py_lower (q_side ex_quote) = ''buy''"
  by (simp_all add: q_ticker_upper_def ex_quote_def norm_ticker_def py_upper_def upper_char_def py_strip_def is_space_def
      py_lower_def lower_char_def)

lemma ex_thin_logged:
  "compute_position_size fsqrt ex_quote ex_portfolio [ex_thin_bar] (Some ex_calm) None (Some (\<lambda>_. None)) [] =
     (Inr ex_thin_order, [] @ [ex_thin_record])"
proof -
  have p: "reference_price ex_quote [ex_thin_bar] = 100"
    by (simp add: reference_price_def ex_quote_def ex_thin_bar_def ex_sizing_bar_def)
  have c: "sp_cash ex_portfolio = 1000000" by (simp add: ex_portfolio_def)
  have d: "sizing_decision fsqrt ex_quote ex_portfolio [ex_thin_bar] (Some ex_calm) default_sizing = Inr ex_thin_order"
    unfolding sizing_decision_def sized_order_def ex_thin_scalars p ex_names c
    by (simp add: py_div_def ddiv_def Let_def quantize_lots_def dint_def default_sizing_def
        mk_order_spec_def ex_quote_def ex_calm_def ex_thin_order_def)
  have "sp_drawdown_pct ex_portfolio = 0"
    by (simp add: sp_drawdown_pct_def ex_portfolio_def dsub_def ddiv_def)
  then have "build_audit ex_quote ex_portfolio [ex_thin_bar] ex_calm default_sizing ex_thin_order = Inr ex_thin_record"
    unfolding build_audit_def ex_names
    by (simp add: default_sizing_def py_floordiv_def dint_def ex_thin_order_def ex_thin_record_def ex_quote_def
        ex_portfolio_def ex_calm_def)
  then show ?thesis by (simp add: compute_position_size_def bindW_def liftW_def run_audit_def d)
qed

lemma ex_replay_scalars:
  "size_scalars fsqrt (replay_quote ex_thin_record) ex_portfolio (replay_bars ex_thin_record) (Some (replay_regime ex_thin_record))
     default_sizing = Inr
     \<lparr>z_atr = 1 / 50, z_eff_atr = 1 / 50, z_adv = 0, z_dd_pct = 0, z_base = 10000, z_vol = 1,
      z_liq = 2, z_dd = 1, z_reg = 1, z_raw = 20000\<rparr>"
proof -
  have b: "replay_bars ex_thin_record = replicate 20 \<lparr>sb_high = 100, sb_low = 98, sb_close = 100, sb_volume = 0\<rparr>"
    by (simp add: replay_bars_def ex_thin_record_def flat_bar_def Let_def dsub_def dmul_def dadd_def ex_fraction max_def)
  have s: "dsum (replicate 20 2) = 40" "dsum (replicate 20 100) = 2000" "dsum (replicate 20 0) = 0"
    using dsum_replicate [of 2 20] dsum_replicate [of 100 20] dsum_replicate [of 0 20] by simp_all
  have atr: "compute_atr_actual fsqrt (replay_bars ex_thin_record) default_sizing = 1 / 50"
    by (simp add: b compute_atr_actual_def default_sizing_def compute_atr_simple_def slice_last_def
        dsub_def ddiv_def ex_arith filter_replicate map_replicate s)
  have p: "reference_price (replay_quote ex_thin_record) (replay_bars ex_thin_record) = 100"
    by (simp add: reference_price_def replay_quote_def ex_thin_record_def)
  have v: "dsum (map sb_volume (slice_last (atr_lookback default_sizing) (replay_bars ex_thin_record))) = 0"
    by (simp add: b default_sizing_def slice_last_def map_replicate s)
  have l: "liquidity_scalar 0 1000000 100 default_sizing = 2"
    by (simp add: liquidity_scalar_def default_sizing_def)
  have d: "sp_drawdown_pct ex_portfolio = 0"
    by (simp add: sp_drawdown_pct_def ex_portfolio_def dsub_def ddiv_def)
  have c: "sp_cash ex_portfolio = 1000000" by (simp add: ex_portfolio_def)
  show ?thesis
    unfolding size_scalars_def Let_def atr p v d c l
    by (simp add: py_div_def default_sizing_def replay_quote_def replay_regime_def ex_thin_record_def
        drawdown_reduction_curve_def regime_scalar_def cap_against_cash_def dmul_def ddiv_def)
qed


lemma thin_order_diverges:
  "\<exists>rep. replay_record (\<lambda>_. Some 0) fsqrt (logged_row (\<lambda>_. ''t'') n ex_thin_record) = Inr rep \<and>
     rp_diverged rep \<and> rp_stored_quantity rep = 140 \<and> rp_replayed_quantity rep = 200"
proof -
  have v: "mk_sizing_portfolio ex_portfolio = Inr ex_portfolio" "1 / 2 \<le> multiplier ex_calm" "multiplier ex_calm \<le> 1"
    "0 \<le> ar_atr_frac ex_thin_record" "ar_atr_frac ex_thin_record \<le> 1" "(\<lambda>_. Some 0) ((\<lambda>_. ''t'') (ar_ts ex_thin_record)) = Some (ar_ts ex_thin_record)"
    by (simp_all add: mk_sizing_portfolio_def ex_portfolio_def ex_calm_def ex_thin_record_def)
  note b = built_from_row [where fromiso = "\<lambda>_. Some 0" and stamp = "\<lambda>_. ''t''" and n = n,
      OF logged_call(2,1) [OF ex_thin_logged] v(6) v(1-5)]
  have p: "reference_price (replay_quote ex_thin_record) (replay_bars ex_thin_record) = 100"
    by (simp add: reference_price_def replay_quote_def ex_thin_record_def)
  have t: "q_ticker_upper (replay_quote ex_thin_record) = ''SBER''"
    by (simp add: q_ticker_upper_def replay_quote_def ex_thin_record_def norm_ticker_def py_upper_def upper_char_def
        py_strip_def is_space_def)
  have "quantize_lots (ddiv 20000 100) 1 = 200" by (simp add: quantize_lots_def ddiv_def dint_def)
  moreover have "q_confidence (replay_quote ex_thin_record) = 1" by (simp add: replay_quote_def ex_thin_record_def)
  ultimately obtain spec where "sized_order fsqrt (replay_quote ex_thin_record) ex_portfolio (replay_bars ex_thin_record)
      (Some (replay_regime ex_thin_record)) default_sizing = Inr spec" and spec: "os_quantity spec = 200"
    using sized_order_eq [OF ex_replay_scalars, of fsqrt] by (auto simp: p t)
  then have d: "sizing_decision fsqrt (replay_quote ex_thin_record) ex_portfolio (replay_bars ex_thin_record)
      (Some (replay_regime ex_thin_record)) default_sizing = Inr spec"
    by (simp add: sizing_decision_def replay_bars_def ex_thin_record_def ex_portfolio_def)
  show ?thesis
    by (rule replay_of_row [OF b d]) (use spec in \<open>auto simp: ex_thin_record_def\<close>)
qed

text \<open>A log that is not there ends the script with status 1, like a divergence, where the documentation says 2.\<close>

lemma missing_log_exits_1: "replay_main fromiso fsqrt None ts ticker True strict = 1"
  by (simp add: replay_main_def load_records_def)

text \<open>A line cut off by a crash loses no other record.\<close>

lemma broken_line_skipped: "number_rows False n (ls @ [Broken_Line]) = number_rows False n ls"
  by (induction False n ls rule: number_rows.induct) simp_all

end
