(* ===== verification/CorpFetch.thy ===== *)
theory CorpFetch
  imports MacroSync CorpActions
begin

text \<open>
  \<open>scripts/fetch_moex_corporate_actions.py\<close>: the exchange's tables of splits and dividends, normalised and written as
  one JSON snapshot by way of a temporary file. The HTTP session, \<open>float\<close> and \<open>Decimal\<close> on a text and the clock are
  parameters; the snapshot file is the object its JSON stands for.
\<close>

section \<open>The exchange's table\<close>

text \<open>A cell is a text, or another JSON value with its \<open>str\<close>; a row that is no list is skipped.\<close>

datatype moex_cell = Text_Cell string | Other_Cell string

datatype moex_row = Cells "moex_cell list" | No_List

record moex_history =
  mh_headers :: "string list"
  mh_rows :: "moex_row list"

definition cell_str :: "moex_cell \<Rightarrow> string" where
  "cell_str c = (case c of Text_Cell s \<Rightarrow> s | Other_Cell s \<Rightarrow> s)"

text \<open>\<open>cell.strip()\<close>: no other value has that method.\<close>

definition cell_strip :: "moex_cell \<Rightarrow> string result" where
  "cell_strip c = (case c of Text_Cell s \<Rightarrow> Inr (py_strip s) | Other_Cell _ \<Rightarrow> Inl AttributeError)"

section \<open>Split ratios\<close>

text \<open>\<open>x / y\<close> on floats, for a divisor that is not zero.\<close>

fun float_div :: "pyfloat \<Rightarrow> pyfloat \<Rightarrow> pyfloat" where
  "float_div (Fin x) (Fin y) = float_of (x / y)"
| "float_div (Fin x) (Inf n) = Fin 0"
| "float_div (Inf m) (Fin y) = Inf (m \<noteq> (y < 0))"
| "float_div _ _ = NaN"

definition parse_split_ratio :: "(string \<Rightarrow> pyfloat option) \<Rightarrow> string \<Rightarrow> pyfloat option" where
  "parse_split_ratio flt s =
     (if CHR '':'' \<notin> set s then flt s
      else let lhs = takeWhile (\<lambda>c. c \<noteq> CHR '':'') s; rhs = drop (length lhs + 1) s
           in case flt lhs of None \<Rightarrow> None
              | Some denom \<Rightarrow> (case flt rhs of None \<Rightarrow> None
                  | Some numer \<Rightarrow> (if denom = Fin 0 then None else Some (float_div numer denom))))"

section \<open>Normalised records\<close>

datatype corp_kind = Split_Kind | Dividend_Kind

datatype corp_value = Ratio pyfloat | Amount string

record corp_entry =
  ce_ticker :: string
  ce_ts :: string
  ce_value :: corp_value

text \<open>\<open>fl_float\<close> and \<open>fl_decimal\<close> read a text; the latter gives the \<open>str\<close> of the decimal.\<close>

record 'w fetch_lib =
  fl_float :: "string \<Rightarrow> pyfloat option"
  fl_decimal :: "string \<Rightarrow> string option"
  fl_get :: "string \<Rightarrow> int \<Rightarrow> 'w \<Rightarrow> moex_history option result \<times> 'w"

definition corp_value_of :: "'w fetch_lib \<Rightarrow> corp_kind \<Rightarrow> moex_cell \<Rightarrow> corp_value option" where
  "corp_value_of lib kind c =
     (case kind of
        Split_Kind \<Rightarrow> map_option Ratio (parse_split_ratio (fl_float lib) (py_strip (cell_str c)))
      | Dividend_Kind \<Rightarrow> map_option Amount (fl_decimal lib (py_strip (cell_str c))))"

definition corp_row :: "'w fetch_lib \<Rightarrow> corp_kind \<Rightarrow> nat option \<Rightarrow> nat option \<Rightarrow> nat \<Rightarrow> moex_row \<Rightarrow> corp_entry option result" where
  "corp_row lib kind secid_idx ts_idx val_idx r =
     (case r of No_List \<Rightarrow> Inr None
      | Cells cs \<Rightarrow>
          (if length cs \<le> max (max (case_option 0 id secid_idx) (case_option 0 id ts_idx)) val_idx then Inr None
           else bindR (case secid_idx of None \<Rightarrow> Inr [] | Some i \<Rightarrow> bindR (cell_strip (cs ! i)) (\<lambda>s. Inr (py_upper s))) (\<lambda>ticker.
                bindR (case ts_idx of None \<Rightarrow> Inr [] | Some i \<Rightarrow> cell_strip (cs ! i)) (\<lambda>ts.
                  if ticker = [] \<or> ts = [] then Inr None
                  else Inr (map_option (\<lambda>v. \<lparr>ce_ticker = ticker, ce_ts = ts, ce_value = v\<rparr>)
                         (corp_value_of lib kind (cs ! val_idx)))))))"

definition parse_moex_history :: "'w fetch_lib \<Rightarrow> moex_history option \<Rightarrow> string \<Rightarrow> corp_kind \<Rightarrow> corp_entry list result" where
  "parse_moex_history lib history value_field kind =
     (case history of None \<Rightarrow> Inr []
      | Some h \<Rightarrow>
          (if mh_rows h = [] then Inr []
           else case index_of value_field (mh_headers h) of None \<Rightarrow> Inr []
                | Some v \<Rightarrow> collect (corp_row lib kind (index_of ''secid'' (mh_headers h)) (index_of ''ts'' (mh_headers h)) v) (mh_rows h)))"

definition SPLITS_URL :: string where
  "SPLITS_URL = ''https://iss.moex.com/iss/engines/stock/markets/shares/splits.json''"

definition DIVIDENDS_URL :: string where
  "DIVIDENDS_URL = ''https://iss.moex.com/iss/engines/stock/markets/shares/dividends.json''"

definition fetch_splits :: "'w fetch_lib \<Rightarrow> int \<Rightarrow> 'w \<Rightarrow> corp_entry list result \<times> 'w" where
  "fetch_splits lib timeout = bindW (fl_get lib SPLITS_URL timeout) (\<lambda>h. liftW (parse_moex_history lib h ''value'' Split_Kind))"

definition fetch_dividends :: "'w fetch_lib \<Rightarrow> int \<Rightarrow> 'w \<Rightarrow> corp_entry list result \<times> 'w" where
  "fetch_dividends lib timeout = bindW (fl_get lib DIVIDENDS_URL timeout) (\<lambda>h. liftW (parse_moex_history lib h ''value'' Dividend_Kind))"

section \<open>The snapshot\<close>

text \<open>\<open>None\<close> is a key that is absent.\<close>

record corp_snapshot =
  cn_fetched_at :: "int option"
  cn_endpoint_splits :: "string option"
  cn_splits :: "corp_entry list option"
  cn_endpoint_dividends :: "string option"
  cn_dividends :: "corp_entry list option"

datatype snapshot_file = No_File | Broken_File | Snapshot corp_snapshot

text \<open>The output and its temporary neighbour.\<close>

record snapshot_dir =
  sd_output :: snapshot_file
  sd_tmp :: snapshot_file

text \<open>Where writing fails: not at all, during the write of the temporary file, at the rename.\<close>

datatype write_fault = No_Fault | Write_Fault | Rename_Fault

definition write_payload ::
  "write_fault \<Rightarrow> int \<Rightarrow> corp_entry list \<Rightarrow> corp_entry list option \<Rightarrow> string \<Rightarrow> string \<Rightarrow> snapshot_dir \<Rightarrow> unit result \<times> snapshot_dir" where
  "write_payload fault now splits dividends ep_splits ep_dividends d =
     (let p = \<lparr>cn_fetched_at = Some now, cn_endpoint_splits = Some ep_splits, cn_splits = Some splits,
               cn_endpoint_dividends = (if dividends = None then None else Some ep_dividends), cn_dividends = dividends\<rparr>
      in case fault of
           Write_Fault \<Rightarrow> (Inl os_error, d\<lparr>sd_tmp := Broken_File\<rparr>)
         | Rename_Fault \<Rightarrow> (Inl os_error, d\<lparr>sd_tmp := Snapshot p\<rparr>)
         | No_Fault \<Rightarrow> (Inr (), d\<lparr>sd_output := Snapshot p, sd_tmp := No_File\<rparr>))"

definition filter_tickers :: "corp_entry list \<Rightarrow> string set option \<Rightarrow> corp_entry list" where
  "filter_tickers rows limit = (case limit of None \<Rightarrow> rows | Some l \<Rightarrow> filter (\<lambda>r. ce_ticker r \<in> l) rows)"

record fetch_args =
  fa_include_dividends :: bool
  fa_timeout :: int
  fa_limit_tickers :: "string option"

definition ticker_limit :: "string option \<Rightarrow> string set option" where
  "ticker_limit t = (case t of Some (c # cs) \<Rightarrow> Some (norm_ticker ` set (split_on CHR '','' (c # cs))) | _ \<Rightarrow> None)"

text \<open>\<open>--input\<close>: a saved snapshot is filtered and written again.\<close>

definition revalidate :: "write_fault \<Rightarrow> int \<Rightarrow> fetch_args \<Rightarrow> snapshot_file \<Rightarrow> snapshot_dir \<Rightarrow> int result \<times> snapshot_dir" where
  "revalidate fault now args input d =
     (case input of
        Snapshot p \<Rightarrow>
          bindW (write_payload fault now (filter_tickers (case_option [] id (cn_splits p)) (ticker_limit (fa_limit_tickers args)))
              (cn_dividends p) (case_option SPLITS_URL id (cn_endpoint_splits p))
              (case_option DIVIDENDS_URL id (cn_endpoint_dividends p)))
            (\<lambda>_. liftW (Inr 0)) d
      | _ \<Rightarrow> (Inr 2, d))"

definition RequestException :: py_exc where "RequestException = OtherError ''RequestException''"

text \<open>The exit code of a request that failed; any other exception leaves the script.\<close>

definition exit_on_request :: "int \<Rightarrow> py_exc \<Rightarrow> int result" where
  "exit_on_request code e = (if e = RequestException then Inr code else Inl e)"

definition fetch_main ::
  "'w fetch_lib \<Rightarrow> write_fault \<Rightarrow> int \<Rightarrow> fetch_args \<Rightarrow> 'w \<Rightarrow> snapshot_dir \<Rightarrow> int result \<times> snapshot_dir" where
  "fetch_main lib fault now args w d =
     (let limit = ticker_limit (fa_limit_tickers args)
      in case fetch_splits lib (fa_timeout args) w of
           (Inl e, w') \<Rightarrow> (exit_on_request 3 e, d)
         | (Inr splits, w') \<Rightarrow>
             (if fa_include_dividends args
              then (case fetch_dividends lib (fa_timeout args) w' of
                      (Inl e, _) \<Rightarrow> (exit_on_request 4 e, d)
                    | (Inr dividends, _) \<Rightarrow>
                        bindW (write_payload fault now (filter_tickers splits limit) (Some (filter_tickers dividends limit))
                            SPLITS_URL DIVIDENDS_URL) (\<lambda>_. liftW (Inr 0)) d)
              else bindW (write_payload fault now (filter_tickers splits limit) None SPLITS_URL DIVIDENDS_URL)
                     (\<lambda>_. liftW (Inr 0)) d))"

section \<open>What ends up in the snapshot\<close>


text \<open>The ticker of an entry is in normal form.\<close>

lemma entry_ticker:
  assumes "corp_row lib kind i j v r = Inr (Some e)"
  shows "ce_ticker e \<noteq> []" "norm_ticker (ce_ticker e) = ce_ticker e" "ce_ts e \<noteq> []"
proof -
  have "\<exists>s. ce_ticker e = norm_ticker s" "ce_ticker e \<noteq> []" "ce_ts e \<noteq> []"
    using assms by (auto simp: corp_row_def cell_strip_def norm_ticker_def bindR_Inr_iff
        split: moex_row.splits if_splits option.splits moex_cell.splits)
  then show "ce_ticker e \<noteq> []" "norm_ticker (ce_ticker e) = ce_ticker e" "ce_ts e \<noteq> []" by auto
qed

text \<open>A ratio is the second number over the first, when both are read and the first is not zero.\<close>

lemma split_ratio:
  assumes "CHR '':'' \<notin> set a"
  shows "parse_split_ratio flt (a @ CHR '':'' # b) =
     (case (flt a, flt b) of (Some d, Some n) \<Rightarrow> if d = Fin 0 then None else Some (float_div n d) | _ \<Rightarrow> None)"
proof -
  have t: "takeWhile (\<lambda>c. c \<noteq> CHR '':'') (a @ CHR '':'' # b) = a"
    using assms by (subst takeWhile_append2) auto
  show ?thesis unfolding parse_split_ratio_def t by (simp split: option.splits)
qed

text \<open>A numerator of zero is a ratio, too.\<close>

lemma zero_ratio_accepted:
  "flt ''1'' = Some (Fin 1) \<Longrightarrow> flt ''0'' = Some (Fin 0) \<Longrightarrow> parse_split_ratio flt ''1:0'' = Some (Fin 0)"
  using split_ratio [of "''1''" flt "''0''"] by (simp add: float_of_def)

lemma filter_tickers_idem: "filter_tickers (filter_tickers rows l) l = filter_tickers rows l"
  by (simp add: filter_tickers_def split: option.splits)

lemma write_payload_cases:
  assumes "bindW (write_payload fault now ss ds es ed) (\<lambda>_. liftW (Inr 0)) d = (r, d')"
  obtains (written) "r = Inr 0" "sd_output d' = Snapshot \<lparr>cn_fetched_at = Some now, cn_endpoint_splits = Some es,
      cn_splits = Some ss, cn_endpoint_dividends = (if ds = None then None else Some ed), cn_dividends = ds\<rparr>"
  | (failed) e where "r = Inl e" "sd_output d' = sd_output d"
  using assms by (cases fault) (auto simp: write_payload_def bindW_def liftW_def)

text \<open>
  The snapshot is replaced as a whole or not at all. When the script exits with 0, the output holds the splits of
  the answer that pass the ticker filter, and the dividends exactly when they were asked for; on every other exit and
  every exception, a failing write included, the output is what it was. And a snapshot written this way is stable: the
  re-validation with the same filter writes the same snapshot again, but for the time.
\<close>

theorem snapshot_all_or_nothing:
  assumes "fetch_main lib fault now args w d = (r, d')"
  shows "(r = Inr 0 \<longrightarrow> (\<exists>splits w' p. fetch_splits lib (fa_timeout args) w = (Inr splits, w') \<and> sd_output d' = Snapshot p \<and>
        cn_splits p = Some (filter_tickers splits (ticker_limit (fa_limit_tickers args))) \<and>
        (if fa_include_dividends args
         then \<exists>ds. fst (fetch_dividends lib (fa_timeout args) w') = Inr ds \<and>
                cn_dividends p = Some (filter_tickers ds (ticker_limit (fa_limit_tickers args)))
         else cn_dividends p = None) \<and>
        sd_output (snd (revalidate No_Fault now' args (sd_output d') d')) = Snapshot (p\<lparr>cn_fetched_at := Some now'\<rparr>))) \<and>
     (r \<noteq> Inr 0 \<longrightarrow> sd_output d' = sd_output d)"
proof -
  let ?l = "ticker_limit (fa_limit_tickers args)"
  have stable: "sd_output (snd (revalidate No_Fault now' args (Snapshot p) d')) = Snapshot (p\<lparr>cn_fetched_at := Some now'\<rparr>)"
    if "p = \<lparr>cn_fetched_at = Some now, cn_endpoint_splits = Some SPLITS_URL, cn_splits = Some (filter_tickers ss ?l),
          cn_endpoint_dividends = (if ds = None then None else Some DIVIDENDS_URL), cn_dividends = ds\<rparr>" for p ss ds
    by (cases ds) (simp_all add: that revalidate_def write_payload_def bindW_def liftW_def filter_tickers_idem)
  have no: "exit_on_request c e \<noteq> Inr 0" if "c \<noteq> 0" for c e using that by (simp add: exit_on_request_def)
  obtain q w' where q: "fetch_splits lib (fa_timeout args) w = (q, w')" by (metis surj_pair)
  obtain q2 w'' where q2: "fetch_dividends lib (fa_timeout args) w' = (q2, w'')" by (metis surj_pair)
  show ?thesis
  proof (cases q)
    case (Inl e)
    then show ?thesis using assms no [of 3 e] by (auto simp: fetch_main_def q Let_def)
  next
    case ss: (Inr ss)
    show ?thesis
    proof (cases "fa_include_dividends args")
      case False
      then have "bindW (write_payload fault now (filter_tickers ss ?l) None SPLITS_URL DIVIDENDS_URL) (\<lambda>_. liftW (Inr 0)) d = (r, d')"
        using assms by (simp add: fetch_main_def q ss Let_def)
      then show ?thesis
        by (cases rule: write_payload_cases) (use False q ss stable [OF refl, of ss None] in auto)
    next
      case True
      show ?thesis
      proof (cases q2)
        case (Inl e)
        then show ?thesis using assms True ss no [of 4 e] by (auto simp: fetch_main_def q q2 Let_def)
      next
        case ds: (Inr ds)
        then have "bindW (write_payload fault now (filter_tickers ss ?l) (Some (filter_tickers ds ?l)) SPLITS_URL DIVIDENDS_URL)
            (\<lambda>_. liftW (Inr 0)) d = (r, d')"
          using assms True by (simp add: fetch_main_def q q2 ss Let_def)
        then show ?thesis
          by (cases rule: write_payload_cases) (use True q q2 ss ds stable [OF refl, of ss "Some (filter_tickers ds ?l)"] in auto)
      qed
    qed
  qed
qed

section \<open>From the table to the corporate-action job\<close>






section \<open>What the snapshot may miss\<close>

text \<open>An answer without rows is no error: the run succeeds and replaces the snapshot by an empty one.\<close>

lemma empty_answer_overwrites:
  assumes "fl_get lib SPLITS_URL (fa_timeout args) w = (Inr None, w')" "\<not> fa_include_dividends args"
    and "fetch_main lib No_Fault now args w d = (r, d')"
  shows "r = Inr 0 \<and> (\<exists>p. sd_output d' = Snapshot p \<and> cn_splits p = Some [])"
  using assms
  by (auto simp: fetch_main_def fetch_splits_def bindW_def liftW_def parse_moex_history_def Let_def write_payload_def
      filter_tickers_def split: option.splits)

text \<open>The re-validation filters the splits only.\<close>

lemma revalidation_keeps_dividends:
  "sd_output (snd (revalidate No_Fault now args (Snapshot p) d)) = Snapshot p' \<Longrightarrow> cn_dividends p' = cn_dividends p"
  by (auto simp: revalidate_def write_payload_def bindW_def liftW_def)

text \<open>A cell that is no text in the ticker column ends the script.\<close>

lemma number_as_ticker_raises:
  "corp_row lib kind (Some 0) j v (Cells (Other_Cell s # cs)) = (if length cs < max (max 0 (case_option 0 id j)) v then Inr None else Inl AttributeError)"
  by (auto simp: corp_row_def cell_strip_def)

section \<open>Concrete runs\<close>

definition ex_fetch_lib :: "unit fetch_lib" where
  "ex_fetch_lib = \<lparr>fl_float = (\<lambda>s. if s = ''1'' then Some (Fin 1) else if s = ''2'' then Some (Fin 2) else None),
     fl_decimal = (\<lambda>_. None),
     fl_get = (\<lambda>_ _ w. (Inr (Some \<lparr>mh_headers = [''secid'', ''ts'', ''value''],
       mh_rows = [Cells [Text_Cell ''SBER'', Text_Cell ''d'', Text_Cell ''1:2'']]\<rparr>), w))\<rparr>"

definition ex_fetch_args :: fetch_args where
  "ex_fetch_args = \<lparr>fa_include_dividends = False, fa_timeout = 60, fa_limit_tickers = None\<rparr>"

lemma float_two: "float_of 2 = Fin 2"
  by (simp add: float_of_def)

lemma ex_fetch_splits:
  "fetch_splits ex_fetch_lib 60 () = (Inr [\<lparr>ce_ticker = ''SBER'', ce_ts = ''d'', ce_value = Ratio (Fin 2)\<rparr>], ())"
  by (simp add: fetch_splits_def ex_fetch_lib_def bindW_def liftW_def parse_moex_history_def collect_def corp_row_def
      cell_strip_def cell_str_def corp_value_of_def parse_split_ratio_def py_strip_def is_space_def py_upper_def upper_char_def
      float_two List.map_filter_def)

theorem snapshot_all_or_nothing_witness:
  "\<exists>d' p. fetch_main ex_fetch_lib No_Fault 5 ex_fetch_args () \<lparr>sd_output = No_File, sd_tmp = No_File\<rparr> = (Inr 0, d') \<and>
     sd_output d' = Snapshot p \<and> cn_splits p = Some [\<lparr>ce_ticker = ''SBER'', ce_ts = ''d'', ce_value = Ratio (Fin 2)\<rparr>]"
proof -
  obtain d' where m: "fetch_main ex_fetch_lib No_Fault 5 ex_fetch_args () \<lparr>sd_output = No_File, sd_tmp = No_File\<rparr> = (Inr 0, d')"
    by (simp add: fetch_main_def ex_fetch_args_def ex_fetch_splits write_payload_def bindW_def liftW_def)
  show ?thesis
    using snapshot_all_or_nothing [OF m, of 0] m
    by (auto simp: ex_fetch_args_def ex_fetch_splits ticker_limit_def filter_tickers_def)
qed



end
