(* ===== verification/PgConn.thy ===== *)
theory PgConn
  imports PgStore SqliteStore Sizing MacroSync
begin

text \<open>
  The connection of \<open>src/data/pg_store.py\<close> (opening, settings, probe, schema) and the writer of the sizing audit table in
  \<open>src/broker/sizing.py\<close>. The server is a parameter: it accepts a connection or not, and carries out a statement of a
  session, refuses it, or loses the session with it.
\<close>

section \<open>Schema names\<close>

definition ident_start :: "char \<Rightarrow> bool" where
  "ident_start c = (let n = of_char c :: nat in 97 \<le> n \<and> n \<le> 122 \<or> n = 95)"

definition ident_char :: "char \<Rightarrow> bool" where
  "ident_char c = (let n = of_char c :: nat in 97 \<le> n \<and> n \<le> 122 \<or> n = 95 \<or> 48 \<le> n \<and> n \<le> 57)"

definition sql_ident :: "string \<Rightarrow> bool" where
  "sql_ident s = (case s of [] \<Rightarrow> False | c # cs \<Rightarrow> ident_start c \<and> list_all ident_char cs)"

text \<open>The pattern: identifiers with commas between, blanks around the commas; \<open>$\<close> also matches before a last line feed.\<close>

definition identifier_list :: "string \<Rightarrow> bool" where
  "identifier_list s =
     (let t = (if s \<noteq> [] \<and> last s = LF then butlast s else s)
      in t \<noteq> [] \<and> \<not> is_space (hd t) \<and> \<not> is_space (last t) \<and> list_all (\<lambda>p. sql_ident (py_strip p)) (split_on CHR '','' t))"

section \<open>Sessions\<close>

record pg_session =
  se_timeout :: "int option"
  se_path :: "string option"
  se_open :: bool

datatype pg_statement = Set_Timeout int | Set_Path string | Select_One | Probe_Insert string | Script string | Commit

datatype outcome = Done | Refused | Lost

record 'w pg_server =
  sv_connect :: "string \<Rightarrow> int \<Rightarrow> 'w \<Rightarrow> bool \<times> 'w"
  sv_run :: "pg_session \<Rightarrow> pg_statement \<Rightarrow> 'w \<Rightarrow> outcome \<times> 'w"

record pg_client =
  cl_dsn :: string
  cl_schema_path :: string
  cl_search_path :: "string option"
  cl_conn :: "pg_session option"

definition new_client :: "string option \<Rightarrow> string option \<Rightarrow> string \<Rightarrow> string option \<Rightarrow> string option \<Rightarrow> pg_client result" where
  "new_client dsn env beside schema_path search_path =
     (case (case dsn of Some (c # cs) \<Rightarrow> Some (c # cs) | _ \<Rightarrow> (case env of Some (c # cs) \<Rightarrow> Some (c # cs) | _ \<Rightarrow> None)) of
        None \<Rightarrow> Inl store_error
      | Some d \<Rightarrow>
          (if pred_option identifier_list search_path
           then Inr \<lparr>cl_dsn = d, cl_schema_path = (case schema_path of Some (c # cs) \<Rightarrow> c # cs | _ \<Rightarrow> beside),
                     cl_search_path = search_path, cl_conn = None\<rparr>
           else Inl ValueError))"

text \<open>One statement on the open session.\<close>

definition after :: "pg_statement \<Rightarrow> pg_session \<Rightarrow> pg_session" where
  "after q s = (case q of Set_Timeout n \<Rightarrow> s\<lparr>se_timeout := Some n\<rparr> | Set_Path p \<Rightarrow> s\<lparr>se_path := Some p\<rparr> | _ \<Rightarrow> s)"

definition run_statement :: "'w pg_server \<Rightarrow> pg_statement \<Rightarrow> pg_client \<times> 'w \<Rightarrow> unit result \<times> pg_client \<times> 'w" where
  "run_statement sv q = (\<lambda>(c, w).
     case cl_conn c of None \<Rightarrow> (Inl AttributeError, c, w)
     | Some s \<Rightarrow>
         (if \<not> se_open s then (Inl pg_error, c, w)
          else case sv_run sv s q w of
            (Done, w') \<Rightarrow> (Inr (), c\<lparr>cl_conn := Some (after q s)\<rparr>, w')
          | (Refused, w') \<Rightarrow> (Inl pg_error, c, w')
          | (Lost, w') \<Rightarrow> (Inl pg_error, c\<lparr>cl_conn := Some (s\<lparr>se_open := False\<rparr>)\<rparr>, w')))"

definition STATEMENT_TIMEOUT :: int where "STATEMENT_TIMEOUT = 60000"

definition is_connected :: "pg_client \<Rightarrow> bool" where
  "is_connected c = (case cl_conn c of None \<Rightarrow> False | Some s \<Rightarrow> se_open s)"

definition client_connect :: "'w pg_server \<Rightarrow> pg_client \<times> 'w \<Rightarrow> unit result \<times> pg_client \<times> 'w" where
  "client_connect sv = (\<lambda>(c, w).
     if is_connected c then (Inr (), c, w)
     else case sv_connect sv (cl_dsn c) 10 w of
       (False, w') \<Rightarrow> (Inl pg_error, c, w')
     | (True, w') \<Rightarrow>
         bindW (run_statement sv (Set_Timeout STATEMENT_TIMEOUT)) (\<lambda>_.
           case cl_search_path c of Some (x # xs) \<Rightarrow> run_statement sv (Set_Path (x # xs)) | _ \<Rightarrow> liftW (Inr ()))
         (c\<lparr>cl_conn := Some \<lparr>se_timeout = None, se_path = None, se_open = True\<rparr>\<rparr>, w'))"

definition client_close :: "pg_client \<Rightarrow> pg_client" where
  "client_close c = c\<lparr>cl_conn := None\<rparr>"

text \<open>The probe answers with a boolean whatever happens.\<close>

definition auth_probe :: "'w pg_server \<Rightarrow> string \<Rightarrow> pg_client \<times> 'w \<Rightarrow> bool \<times> pg_client \<times> 'w" where
  "auth_probe sv source s =
     (case bindW (client_connect sv) (\<lambda>_. bindW (run_statement sv Select_One) (\<lambda>_.
           bindW (run_statement sv (Probe_Insert source)) (\<lambda>_. run_statement sv Commit))) s of
        (Inr _, s') \<Rightarrow> (True, s') | (Inl _, s') \<Rightarrow> (False, s'))"

definition init_schema :: "'w pg_server \<Rightarrow> (string \<Rightarrow> string result) \<Rightarrow> pg_client \<times> 'w \<Rightarrow> unit result \<times> pg_client \<times> 'w" where
  "init_schema sv read_file =
     bindW (client_connect sv) (\<lambda>_ (c, w).
       case read_file (cl_schema_path c) of Inl e \<Rightarrow> (Inl e, c, w)
       | Inr sql \<Rightarrow> bindW (run_statement sv (Script sql)) (\<lambda>_. run_statement sv Commit) (c, w))"

text \<open>The shared entry point of the other writers.\<close>

definition connect_with_timeouts :: "'w pg_server \<Rightarrow> string \<Rightarrow> 'w \<Rightarrow> pg_session result \<times> 'w" where
  "connect_with_timeouts sv dsn w =
     (case sv_connect sv dsn 10 w of
        (False, w') \<Rightarrow> (Inl pg_error, w')
      | (True, w') \<Rightarrow> (Inr \<lparr>se_timeout = None, se_path = None, se_open = True\<rparr>, w'))"

section \<open>The sizing audit table\<close>

definition audit_sql :: string where
  "audit_sql = ''INSERT INTO sizing_audit_log (ts, ticker, side, inputs, scalars, output, formula_version) VALUES (%s, %s, %s, %s, %s, %s, %s)''"

text \<open>A DB-API cursor: the text and its parameters. \<open>json\<close> renders the three blobs of a record.\<close>

type_synonym 'c dbapi = "string \<Rightarrow> string list \<Rightarrow> 'c \<Rightarrow> unit result \<times> 'c"

definition write_audit_postgres ::
  "(int \<Rightarrow> string) \<Rightarrow> (audit_record \<Rightarrow> string \<times> string \<times> string) \<Rightarrow> audit_record \<Rightarrow> 'c dbapi \<Rightarrow> 'c \<Rightarrow> unit result \<times> 'c" where
  "write_audit_postgres stamp json a cursor =
     (case json a of (inputs, scalars, output) \<Rightarrow>
        cursor audit_sql [stamp (ar_ts a), ar_ticker a, ar_side a, inputs, scalars, output, ar_formula_version a])"

fun qmarks :: "string \<Rightarrow> string" where
  "qmarks (CHR ''%'' # CHR ''s'' # s) = CHR ''?'' # qmarks s"
| "qmarks (c # s) = c # qmarks s"
| "qmarks [] = []"

definition wrap_sqlite :: "'c dbapi \<Rightarrow> 'c dbapi" where
  "wrap_sqlite cursor sql params = cursor (qmarks sql) params"

section \<open>What the settings are worth\<close>

lemma split_on_mem: "c \<in> set s \<Longrightarrow> c \<noteq> d \<Longrightarrow> \<exists>p \<in> set (split_on d s). c \<in> set p"
  by (induction s) (auto split: list.splits)

lemma strip_mem: "c \<in> set s \<Longrightarrow> \<not> is_space c \<Longrightarrow> c \<in> set (py_strip s)"
proof -
  have d: "c \<in> set t \<Longrightarrow> \<not> is_space c \<Longrightarrow> c \<in> set (dropWhile is_space t)" for t by (induction t) auto
  assume "c \<in> set s" "\<not> is_space c"
  then show ?thesis using d by (simp add: py_strip_def)
qed

lemma sql_ident_chars: "sql_ident p \<Longrightarrow> c \<in> set p \<Longrightarrow> ident_char c"
  by (auto simp: sql_ident_def list_all_iff ident_start_def ident_char_def Let_def split: list.splits)

text \<open>A search path that passes the check holds no quote, no semicolon, nothing but names, commas and blanks.\<close>

lemma search_path_safe:
  assumes "identifier_list s" "c \<in> set s"
  shows "ident_char c \<or> c = CHR '','' \<or> is_space c"
proof -
  define t where "t = (if s \<noteq> [] \<and> last s = LF then butlast s else s)"
  have "is_space LF" by (simp add: is_space_def LF_def)
  then have "c \<in> set t \<or> is_space c"
    using assms(2) by (cases s rule: rev_cases) (auto simp: t_def)
  moreover have "ident_char c" if c: "c \<in> set t" "c \<noteq> CHR '',''" "\<not> is_space c"
  proof -
    obtain p where p: "p \<in> set (split_on CHR '','' t)" "c \<in> set p" using split_on_mem [OF c(1,2)] by blast
    have "list_all (\<lambda>p. sql_ident (py_strip p)) (split_on CHR '','' t)"
      using assms(1) unfolding identifier_list_def t_def [symmetric] Let_def by blast
    then have "sql_ident (py_strip p)" using p(1) by (simp add: list_all_iff)
    then show ?thesis using strip_mem [OF p(2) c(3)] by (rule sql_ident_chars)
  qed
  ultimately show ?thesis by blast
qed

definition wanted_path :: "pg_client \<Rightarrow> string option" where
  "wanted_path c = (case cl_search_path c of Some (x # xs) \<Rightarrow> Some (x # xs) | _ \<Rightarrow> None)"

definition settled :: "pg_client \<Rightarrow> bool" where
  "settled c \<longleftrightarrow> (\<exists>s. cl_conn c = Some s \<and> se_open s \<and> se_timeout s = Some STATEMENT_TIMEOUT \<and> se_path s = wanted_path c)"

lemma run_statement_done:
  assumes "run_statement sv q (c, w) = (Inr (), c', w')"
  obtains s where "cl_conn c = Some s" "se_open s" "sv_run sv s q w = (Done, w')" "c' = c\<lparr>cl_conn := Some (after q s)\<rparr>"
  using assms by (auto simp: run_statement_def split: option.splits if_splits prod.splits outcome.splits)

lemma connect_settles:
  assumes "client_connect sv (c, w) = (Inr (), c', w')" "\<not> is_connected c"
  shows "settled c'"
proof -
  define c1 where "c1 = c\<lparr>cl_conn := Some \<lparr>se_timeout = None, se_path = None, se_open = True\<rparr>\<rparr>"
  obtain ok w1 where s1: "sv_connect sv (cl_dsn c) 10 w = (ok, w1)" by (metis surj_pair)
  then have ok: "ok" using assms by (cases ok) (auto simp: client_connect_def)
  obtain r2 c2 w2 where s2: "run_statement sv (Set_Timeout STATEMENT_TIMEOUT) (c1, w1) = (r2, c2, w2)" by (metis surj_pair)
  have r2: "r2 = Inr ()" using assms s1 ok s2 by (cases r2) (auto simp: client_connect_def bindW_def c1_def)
  then obtain s where s: "cl_conn c1 = Some s" "c2 = c1\<lparr>cl_conn := Some (after (Set_Timeout STATEMENT_TIMEOUT) s)\<rparr>"
    using s2 run_statement_done by metis
  then have c2: "c2 = c\<lparr>cl_conn := Some \<lparr>se_timeout = Some STATEMENT_TIMEOUT, se_path = None, se_open = True\<rparr>\<rparr>"
    by (auto simp: c1_def after_def)
  show ?thesis
  proof (cases "wanted_path c")
    case None
    then have "c' = c2" using assms s1 ok s2 r2
      by (auto simp: client_connect_def bindW_def liftW_def c1_def [symmetric] wanted_path_def split: option.splits list.splits)
    then show ?thesis using None by (simp add: settled_def c2 wanted_path_def)
  next
    case (Some p)
    then have "run_statement sv (Set_Path p) (c2, w2) = (Inr (), c', w')" using assms s1 ok s2 r2
      by (auto simp: client_connect_def bindW_def c1_def [symmetric] wanted_path_def split: option.splits list.splits)
    then obtain s' where "cl_conn c2 = Some s'" "c' = c2\<lparr>cl_conn := Some (after (Set_Path p) s')\<rparr>"
      by (rule run_statement_done)
    then show ?thesis using Some by (auto simp: settled_def c2 after_def wanted_path_def)
  qed
qed

text \<open>
  A connection that is opened by a call that succeeds has both settings, the statement timeout and the search path;
  but when the server refuses a setting, the call fails and leaves the session open: every later call accepts it as it
  is, without the setting, and succeeds.
\<close>

theorem refused_setting_is_skipped:
  assumes "\<not> is_connected c" "client_connect sv (c, w) = (r, c', w')"
  shows "(r = Inr () \<longrightarrow> settled c') \<and> (r \<noteq> Inr () \<and> is_connected c' \<longrightarrow> client_connect sv (c', w'') = (Inr (), c', w'') )"
  using assms connect_settles by (auto simp: client_connect_def)

lemma refused_timeout:
  assumes "\<not> is_connected c" "sv_connect sv (cl_dsn c) 10 w = (True, w1)"
    and "sv_run sv \<lparr>se_timeout = None, se_path = None, se_open = True\<rparr> (Set_Timeout STATEMENT_TIMEOUT) w1 = (Refused, w2)"
  obtains c' where "client_connect sv (c, w) = (Inl pg_error, c', w2)" "client_connect sv (c', w2) = (Inr (), c', w2)" "\<not> settled c'"
  using assms
  by (auto simp: client_connect_def run_statement_def bindW_def is_connected_def settled_def STATEMENT_TIMEOUT_def)

text \<open>The shared entry point never sets the statement timeout.\<close>

lemma shared_entry_sets_no_timeout: "connect_with_timeouts sv dsn w = (Inr s, w') \<Longrightarrow> se_timeout s = None"
  by (auto simp: connect_with_timeouts_def split: prod.splits bool.splits)

text \<open>A probe that answers yes has written.\<close>

lemma probe_has_written:
  assumes "auth_probe sv source (c, w) = (True, c', w')"
  shows "\<exists>s u u'. sv_run sv s (Probe_Insert source) u = (Done, u')"
proof -
  let ?rest = "\<lambda>_. bindW (run_statement sv (Probe_Insert source)) (\<lambda>_. run_statement sv Commit)"
  obtain r1 c1 w1 where 1: "client_connect sv (c, w) = (r1, c1, w1)" by (metis surj_pair)
  obtain r2 c2 w2 where 2: "run_statement sv Select_One (c1, w1) = (r2, c2, w2)" by (metis surj_pair)
  obtain r3 c3 w3 where 3: "run_statement sv (Probe_Insert source) (c2, w2) = (r3, c3, w3)" by (metis surj_pair)
  have "r3 = Inr ()" using assms 1 2 3
    by (cases r1; cases r2; cases r3) (auto simp: auth_probe_def bindW_def)
  then show ?thesis using 3 by (auto elim!: run_statement_done)
qed

section \<open>The two parameter styles\<close>

fun count_ps :: "string \<Rightarrow> nat" where
  "count_ps (CHR ''%'' # CHR ''s'' # s) = Suc (count_ps s)"
| "count_ps (c # s) = count_ps s"
| "count_ps [] = 0"

lemma qmarks_count: "count_list (qmarks s) (CHR ''?'') = count_ps s + count_list s (CHR ''?'')"
  by (induction s rule: qmarks.induct) simp_all

lemma audit_parameters: "count_ps audit_sql = 7" "count_list (qmarks audit_sql) (CHR ''?'') = 7"
  by (simp_all add: qmarks_count) (simp_all add: audit_sql_def)

section \<open>Concrete runs\<close>

definition ex_server :: "unit pg_server" where
  "ex_server = \<lparr>sv_connect = (\<lambda>_ _ w. (True, w)), sv_run = (\<lambda>_ q w. (case q of Set_Path _ \<Rightarrow> Refused | _ \<Rightarrow> Done, w))\<rparr>"

definition ex_client :: pg_client where
  "ex_client = \<lparr>cl_dsn = ''d'', cl_schema_path = ''f'', cl_search_path = Some ''t'', cl_conn = None\<rparr>"

theorem refused_setting_is_skipped_witness:
  "\<exists>c'. client_connect ex_server (ex_client, ()) = (Inl pg_error, c', ()) \<and>
     client_connect ex_server (c', ()) = (Inr (), c', ()) \<and> \<not> settled c'"
proof -
  define c' where "c' = ex_client\<lparr>cl_conn := Some \<lparr>se_timeout = Some STATEMENT_TIMEOUT, se_path = None, se_open = True\<rparr>\<rparr>"
  have m: "client_connect ex_server (ex_client, ()) = (Inl pg_error, c', ())"
    by (simp add: client_connect_def is_connected_def ex_client_def ex_server_def run_statement_def bindW_def after_def c'_def)
  have "is_connected c'" "\<not> is_connected ex_client" "\<not> settled c'"
    by (simp_all add: is_connected_def ex_client_def c'_def settled_def wanted_path_def)
  then show ?thesis using refused_setting_is_skipped [OF _ m, of "()"] m by auto
qed

end
