(* ===== verification/Spec2Isabelle.thy ===== *)
theory Spec2Isabelle
  imports TinkoffAccount Coordinator Sizing TokenBucket FallbackLoader AdvProvider CorpActions QualityFlow Backfill MoexLoader TinkoffLoader DailyJobs MacroSync Metrics UniverseJobs CertBundle GateCli Replay CorpFetch PgConn
begin

text \<open>
  A verification development for alphard, a trading bot for the Moscow exchange: its data jobs, its data-quality gates,
  its risk and order path, and the services around them. Everything under \<open>src/\<close> and \<open>scripts/\<close> that decides
  something is translated; paths below are relative to the repository.

  \<^bold>\<open>The program and its parts.\<close> A supervisor process (\<open>src/main.py\<close>) keeps the jobs alive that fill one
  PostgreSQL database: the backfill of the history, a daily synchronisation, a daily increment, the macro data, the
  corporate actions, the jobs around the universe of tickers, and a nightly dump. The jobs read three sources (the
  broker's minute archives, the broker's gRPC interface, the exchange's ISS interface) through a fallback chain behind a
  shared rate limiter, and pass quality gates on the way into the store. The trading side reads bars and a macro regime,
  sizes an order, asks the hard-limit risk gate, slices the order by the average daily volume and places the slices with
  the broker, with a peak of equity and a daily basis kept on disk. A dashboard, a metrics endpoint and some scripts
  look at the same tables and logs. The parts meet in the types of \<open>src/data/models.py\<close>, in the contract of the bar
  store, and in the interface of the broker.

  \<^bold>\<open>How the theories follow the code.\<close>
  \<^item> Foundations: \<open>Prelude\<close> (exceptions as values, results, state passing, strings), \<open>Rounding\<close> (rounding to a
    number of digits of a base, and the locale of such arithmetics), \<open>PyFloat\<close> and \<open>PyDecimal\<close> (Python's doubles and
    decimals, the two interpretations), \<open>Calendar\<close> and \<open>CivilDate\<close> (dates).
  \<^item> Trading: \<open>RiskGate\<close> (\<open>src/risk/gate.py\<close>), \<open>Orders\<close> (\<open>src/broker/orders.py\<close>, \<open>account.py\<close>, \<open>slicer.py\<close>),
    \<open>OrderFlow\<close> (\<open>src/broker/integration.py\<close>), \<open>EquityStore\<close> and \<open>TinkoffAccount\<close> (\<open>src/broker/tinkoff_account.py\<close>),
    \<open>Sizing\<close> (\<open>src/broker/sizing.py\<close>), \<open>Replay\<close> (\<open>scripts/replay_sizing.py\<close>), \<open>Macro\<close> (\<open>src/macro/\<close>),
    \<open>Coordinator\<close> (\<open>src/coordinator.py\<close>), \<open>TokenBucket\<close> (\<open>src/data/token_bucket.py\<close>), \<open>AdvProvider\<close>
    (\<open>src/data/adv_provider.py\<close>).
  \<^item> Stores: \<open>DataModels\<close> (\<open>src/data/models.py\<close>), \<open>BarStore\<close> (the contract of \<open>src/data/store.py\<close>),
    \<open>SqliteStore\<close>, \<open>PgStore\<close> (\<open>src/data/sqlite_store.py\<close>, \<open>pg_store.py\<close> with \<open>schema.sql\<close>), \<open>PgConn\<close> (the connection of
    \<open>pg_store.py\<close> and the audit table of the sizer).
  \<^item> Sources: \<open>FallbackLoader\<close>, \<open>MdLoader\<close>, \<open>MoexLoader\<close>, \<open>TinkoffLoader\<close> (\<open>src/data/fallback_loader.py\<close>,
    \<open>tinkoff_md_loader.py\<close>, \<open>moex_loader.py\<close>, \<open>tinkoff_loader.py\<close>), \<open>MacroSync\<close> (\<open>src/data/macro_fetcher.py\<close>,
    \<open>src/macro/persistence.py\<close>, \<open>scripts/run_macro_sync.py\<close>).
  \<^item> Quality: \<open>Quality\<close>, \<open>CrossSource\<close>, \<open>Historical\<close>, \<open>QualityFlow\<close>, \<open>Validate\<close> (\<open>src/data/quality/\<close>), \<open>GateCli\<close> (their
    command lines).
  \<^item> Jobs: \<open>Backfill\<close> (\<open>scripts/backfill_history_md.py\<close>), \<open>DailyJobs\<close> (\<open>scripts/daily_sync.py\<close>,
    \<open>daily_incremental.py\<close>), \<open>UniverseJobs\<close> (\<open>src/data/delist_source.py\<close> and four scripts), \<open>Adjustment\<close>
    (\<open>src/data/adjustment.py\<close>), \<open>CorpFetch\<close> and \<open>CorpActions\<close> (\<open>scripts/fetch_moex_corporate_actions.py\<close>,
    \<open>apply_corporate_actions.py\<close>), \<open>Backups\<close> (\<open>scripts/backup_database.py\<close>), \<open>CertBundle\<close>
    (\<open>scripts/fetch_tinkoff_gost_ca.py\<close>).
  \<^item> Services: \<open>Supervisor\<close> (\<open>src/main.py\<close>), \<open>Metrics\<close> (\<open>src/metrics_server.py\<close>), \<open>Web\<close> (\<open>src/web/\<close>).
  \<^item> This theory composes all jobs that write to the database.

  \<^bold>\<open>How code becomes definitions.\<close> A class or pydantic model is a record, its validators a constructor \<open>mk_...\<close> that
  returns a result; an enumeration is a datatype; a method or function is a definition of the same name, where that name
  is free, with every early return and every exception as a branch. A result is \<open>Inl\<close> an exception or \<open>Inr\<close> a value.
  Mutable state (an object, a table, a file, a cache) is a record that is passed and returned; the outside world is a
  type variable \<open>'w\<close> that a call of a parameter may change in any way. What can be interrupted in the middle, or is
  shared by threads, is an inductive step relation with a reachability relation: the saving of the equity stores
  (\<open>save_step\<close>, \<open>peak_step\<close>), the append to the audit file (\<open>audit_step\<close>), the cache of the volume provider (\<open>adv_step\<close>);
  the bucket and the metrics registry are lists of locked sections. Prices are \<open>Decimal\<close> or \<open>float\<close> exactly where the
  code has them: an operation is the exact rational operation, rounded by \<open>drnd\<close> to 28 digits or by \<open>frnd\<close> to 53 bits, half
  to even. Dates are proleptic ordinals; instants are integers of the unit each theory states. A table is an
  association list keyed as its primary key, a PostgreSQL column rounds to its scale.

  \<^bold>\<open>Interfaces.\<close> \<open>rounding\<close> and \<open>accurate_rounding\<close> carry the error bounds of both arithmetics; \<open>broker_port\<close> is what the
  order flow relies on in a broker, and the account is interpreted as one; \<open>quiet_relation\<close> is shared by the account's
  frame lemmas; \<open>bar_store\<close> is the contract of a bar table, which both stores satisfy and the volume provider uses;
  \<open>adj_store\<close> is the contract of the table of adjusted bars, for the corporate-action job.

  \<^bold>\<open>What the lemmas show.\<close>
  \<^item> Trading: an approved order is within the limits in exact arithmetic up to a stated rounding error; the gate always
    decides and reports every limit that fired; nothing reaches the broker unless trading is live and this order was
    approved on freshly fetched data; the peak of equity survives any crashes; slices are bounded in number and in time; a
    sized order is capped and monotone in its inputs; its audit record is complete, appended atomically, and its replay
    explains every divergence.
  \<^item> Stores and jobs: a bar is written at most once and reads back at the scale of its column; the two stores refine each
    other; no job, in any order, rewrites a stored bar (below); what the backfill adds is valid, what it marks complete is
    justified, and the audit script agrees with it; the increment only adds closed bars; the repair jobs fill gaps only; the
    corporate actions are idempotent and an exchange's split arrives with the right ratio.
  \<^item> Sources and gates: windows, years and pages cover a request exactly once and their loops end; minute bars aggregate
    without loss; a critical report stops a write; a clean cross-source report means agreement.
  \<^item> Services: the supervisor aborts exactly in a crash loop; protected paths need the token; the backups on disk are what the
    retention of the whole history keeps, and a written bundle of certificates parses back.
  \<^item> Lemmas that record a deviation of the code from its documentation stand beside the component they are about.

  \<^bold>\<open>Bounds and fuel.\<close> No definition has a fuel argument. Two loops may run forever and are partial functions whose value is
  \<open>None\<close> when they do: \<open>acquire_loop\<close> (the bucket) and \<open>pages\<close> (the exchange's paging); that they return is proved under
  the clock advancing by the slept time and the server answering in pages of the expected size. Every other loop is
  structural or has a termination proof. The numeric bounds of the theorems, three roundings of the sizer and \<open>2 n + 2\<close>
  of \<open>n\<close> splits among them, come from counting roundings.

  \<^bold>\<open>Parameters.\<close> Code outside the repository is an argument: the broker's SDK, HTTP, \<open>psycopg\<close>'s treatment of a failed
  batch, \<open>gzip\<close>, \<open>openssl\<close>, the XML and CSV readers, the random generator, \<open>math.log\<close>, \<open>math.sqrt\<close> and sums of doubles, and the
  parsers of numbers and dates on a text. Where a theorem relies on one of them it says how (the clock advances, the server
  pages as documented, the broker answers about the ticker it is asked for), and its witness instantiates it.

  \<^bold>\<open>Not modelled.\<close> Log lines and printed text, except where they are the result; argument parsers; spawning threads and
  processes, sockets and signals (the supervisor's decisions are modelled, the process calls are its inputs; the 24-hour
  alarm of a ticker is an asynchronous exception between any two instructions and is left out); \<open>updated_at\<close> columns;
  \<open>Decimal\<close> overflow beyond \<open>10^999999\<close>; signed zeros; texts outside ASCII; the shell scripts. The migrations are SQL
  without logic of the program.
\<close>

section \<open>All jobs on one database\<close>

text \<open>
  Every job of the repository that writes to the table of bars or to the tables beside it, with its parameters: the
  backfill, the two daily jobs, the four jobs around the universe, the delisting dates and the corporate actions.
\<close>

datatype ('a, 'w) table_job =
    Backfill_Job "('a, 'w) bf_env" bf_args 'w
  | Daily_Job "'w sync_job"
  | Spb_Job "'w uni_lib" spb_args int 'w
  | Repair_Job "'w uni_lib" repair_args int 'w
  | Universe_Job "'w uni_lib" repair_args int 'w
  | Mark_Job int int bool
  | Delist_Job "(string \<times> int option \<times> int option) list"
  | Corp_Job bool "'w fetch_all_rows" "'w fetch_all_rows" "nat \<Rightarrow> int" int job_args bool 'w cache_file

fun run_table_job :: "('a, 'w) table_job \<Rightarrow> pg_db \<times> health \<Rightarrow> pg_db \<times> health" where
  "run_table_job (Backfill_Job env args w) (d, h) = (snd (backfill_main env args w d), h)"
| "run_table_job (Daily_Job j) x = run_job j x"
| "run_table_job (Spb_Job lib args today w) (d, h) = (snd (fst (spb_main lib args today (w, d))), h)"
| "run_table_job (Repair_Job lib args today w) (d, h) = (snd (fst (tkf_main lib args today (w, d))), h)"
| "run_table_job (Universe_Job lib args today w) (d, h) = (snd (snd (full_main lib args today (w, d))), h)"
| "run_table_job (Mark_Job today horizon dry) (d, h) = (snd (mark_main today horizon dry id d), h)"
| "run_table_job (Delist_Job dates) (d, h) = (pg_sync_universe_delisted dates d, h)"
| "run_table_job (Corp_Job atomic fs fd clock at1 args writable w file) (d, h) =
     (case fst (snd (corp_main (pg_env atomic fs fd clock at1) args writable d w file)) of
        None \<Rightarrow> (d, h) | Some j \<Rightarrow> (jb_store j, h))"

text \<open>The broker answers about the ticker it is asked for; only the two repair jobs rely on it.\<close>

definition asks_for_itself :: "('a, 'w) table_job \<Rightarrow> bool" where
  "asks_for_itself j = (case j of Spb_Job lib _ _ _ \<Rightarrow> honest_fetch lib | Repair_Job lib _ _ _ \<Rightarrow> honest_fetch lib | _ \<Rightarrow> True)"

lemma same_tables_ok:
  assumes "p_ohlcv d' = p_ohlcv d" "keyed (p_universe d) \<longrightarrow> keyed (p_universe d')"
    "dom (map_of (p_universe d')) = dom (map_of (p_universe d))"
  shows "added P d d'"
  using assms by (intro added_same_bars) (auto simp: pg_ok_def refers_def)

lemma delist_job_added: "added P d (pg_sync_universe_delisted dates d)"
proof -
  have "map fst (fold (\<lambda>(t, listed, delisted). AList.map_entry (py_upper t) (f listed delisted)) dates u) = map fst u"
    for f :: "int option \<Rightarrow> int option \<Rightarrow> pg_ticker \<Rightarrow> pg_ticker" and u
    by (induction dates arbitrary: u) (simp_all add: split_beta dom_map_entry_list)
  then have "map fst (p_universe (pg_sync_universe_delisted dates d)) = map fst (p_universe d)"
    by (simp add: pg_sync_universe_delisted_def)
  then show ?thesis
    by (intro same_tables_ok) (simp_all add: pg_sync_universe_delisted_def keyed_def dom_map_of_conv_image_fst flip: set_map)
qed

lemma mark_job_added: "added P d (snd (mark_main today horizon dry id d))"
proof -
  have "added P d (snd (mark_terminal today cs d))" for cs
    by (rule same_tables_ok) (simp_all add: mark_terminal_else, auto simp: mark_terminal_row domIff split: option.splits)
  then show ?thesis by (simp add: mark_main_def Let_def added_refl)
qed

lemma corp_job_added: "added P (fst x) (fst (run_table_job (Corp_Job atomic fs fd clock at1 args writable w cached) x))"
proof -
  obtain d h where x: "x = (d, h)" by fastforce
  have "added P d (jb_store (job_loop (pg_env atomic fs fd clock at1) args 1 ts (start_job d w cache)))" for ts cache
    using job_loop_store [of "pg_env atomic fs fd clock at1" "\<lambda>d. (p_universe d, p_ohlcv d)" args 1 ts "start_job d w cache"] pg_apply_keeps
    by (intro same_tables_ok) (auto simp: pg_env_def start_job_def)
  then show ?thesis by (auto simp: x corp_main_def Let_def added_refl split: sum.splits)
qed

lemma added_any: "added P d d' \<Longrightarrow> added (\<lambda>_. True) d d'"
  by (rule added_weaken) simp

lemma table_job_added:
  assumes "asks_for_itself j"
  shows "added (\<lambda>_. True) (fst x) (fst (run_table_job j x))"
proof (cases j)
  case (Backfill_Job env args w)
  obtain r d' where m: "backfill_main env args w (fst x) = (r, d')" by (metis surj_pair)
  have "added (\<lambda>_. True) (fst x) d'"
    using backfill_main_grown [OF m] backfill_keeps_ok [OF m] unfolding added_def grown_def by blast
  then show ?thesis by (cases x) (use m Backfill_Job in auto)
next
  case (Daily_Job s)
  then show ?thesis by (simp add: run_job_added)
next
  case (Spb_Job lib args today w)
  then show ?thesis using added_any [OF spb_main_added [of lib]] assms by (cases x) (simp add: asks_for_itself_def)
next
  case (Repair_Job lib args today w)
  then show ?thesis using added_any [OF tkf_main_added [of lib]] assms by (cases x) (simp add: asks_for_itself_def)
next
  case (Universe_Job lib args today w)
  obtain r y where m: "full_main lib args today (w, fst x) = (r, y)" by (metis surj_pair)
  then show ?thesis using full_main_kept [OF m] Universe_Job by (cases x) (auto simp: kept_def)
next
  case (Mark_Job today horizon dry)
  then show ?thesis by (cases x) (simp add: mark_job_added)
next
  case (Delist_Job dates)
  then show ?thesis by (cases x) (simp add: delist_job_added)
next
  case (Corp_Job atomic fs fd clock at1 args writable w cached)
  then show ?thesis using corp_job_added by metis
qed

text \<open>
  C15. History is immutable for the system as a whole: whatever jobs run on the database, in whatever order and with
  whatever answers of the outside world, failures included, no stored bar is changed or removed, every bar that is
  added has the scale of the columns, and the tables stay consistent.
\<close>

theorem no_job_rewrites_history:
  assumes "\<forall>j \<in> set js. asks_for_itself j"
    and "fold run_table_job js (d, h) = (d', h')"
  shows "map_of (p_ohlcv d) \<subseteq>\<^sub>m map_of (p_ohlcv d') \<and>
    (\<forall>k b. map_of (p_ohlcv d') k = Some b \<longrightarrow> map_of (p_ohlcv d) k = Some b \<or> (\<exists>x. b = pg_column x)) \<and>
    (pg_ok d \<longrightarrow> pg_ok d')"
proof -
  have "added (\<lambda>_. True) (fst x) (fst (fold run_table_job js x))" for x
    using assms(1)
  proof (induction js arbitrary: x)
    case (Cons j js)
    then show ?case using added_trans [OF table_job_added [of j x] Cons.IH [of "run_table_job j x"]] by simp
  qed (simp add: added_refl)
  from this [of "(d, h)"] show ?thesis unfolding added_def assms(2) fst_conv by blast
qed

text \<open>A synchronisation, a marking and a change of the delisting dates, on a database with one bar.\<close>

definition ex_jobs :: "(unit, unit) table_job list" where
  "ex_jobs = [Daily_Job (Sync ex_sync_lib ex_sync_args 739700 0 ()), Mark_Job 739800 30 False, Delist_Job [(''SBER'', None, Some 739750)]]"

theorem no_job_rewrites_history_witness:
  "map_of (p_ohlcv (fst (fold run_table_job ex_jobs (ex_bf2, never_run)))) (''SBER'', 739700, Tkf) = Some (row_bar_of ex_bar_row)"
proof -
  have a: "\<forall>j \<in> set ex_jobs. asks_for_itself j" by (simp add: ex_jobs_def asks_for_itself_def)
  obtain d' h' where r: "fold run_table_job ex_jobs (ex_bf2, never_run) = (d', h')" by (metis surj_pair)
  have "map_of (p_ohlcv ex_bf2) \<subseteq>\<^sub>m map_of (p_ohlcv d')" using no_job_rewrites_history [OF a r] by blast
  then show ?thesis using ex_bf2_bar unfolding map_le_def r by (metis domI fst_conv)
qed

end
